(* ===== verification/Go_Prelude.thy ===== *)
theory Go_Prelude
  imports Main "HOL-Library.Finite_Map" "HOL-Library.Sublist" "HOL-Library.Char_ord"
    "HOL-Library.List_Lexorder"
begin

text \<open>
  The part of the Go language and of its standard library that every component uses.

  A Go \<^verbatim>\<open>string\<close> and a Go \<^verbatim>\<open>[]byte\<close> are both lists of 8-bit characters. A Go \<^verbatim>\<open>int\<close> or
  \<^verbatim>\<open>int64\<close> is an integer; where an operation may leave the 64-bit range its result goes
  through \<open>wrap64\<close>. A Go map is a finite map, read with the zero value as default.
  An error is a value of \<open>goerr\<close>: \<open>Wrap\<close> is \<^verbatim>\<open>fmt.Errorf("text: %w", err)\<close>, so that
  \<^verbatim>\<open>errors.Is\<close> can look through it; a result is \<open>Inl\<close> an error or \<open>Inr\<close> a value.
  The error \<open>GoPanic\<close> stands for a run-time panic, which no caller handles, and \<open>NoReturn\<close> for a
  call that never returns; \<open>TransportError\<close> is the HTTP status error of the registry client.
\<close>

section \<open>Types\<close>

type_synonym bytes = string
type_synonym gomap = "(string, string) fmap"

datatype goerr =
    EOF | UnexpectedEOF | ShortWrite | WriteTooLong | Canceled | ErrManifestNotFound
  | TransportError int
  | NoReturn
  | GoPanic string
  | Msg string
  | Wrap string goerr

type_synonym 'a res = "goerr + 'a"

section \<open>Errors\<close>

text \<open>\<^verbatim>\<open>errors.Is\<close>: the error itself or one it wraps.\<close>

fun errors_is :: "goerr \<Rightarrow> goerr \<Rightarrow> bool" where
  "errors_is (Wrap s e) t = (Wrap s e = t \<or> errors_is e t)"
| "errors_is e t = (e = t)"

definition is_ok :: "'a res \<Rightarrow> bool" where
  "is_ok r = (case r of Inl _ \<Rightarrow> False | Inr _ \<Rightarrow> True)"

text \<open>\<^verbatim>\<open>if err != nil { return err }; ...\<close>\<close>

definition bindR :: "'a res \<Rightarrow> ('a \<Rightarrow> 'b res) \<Rightarrow> 'b res" where
  "bindR m f = (case m of Inl e \<Rightarrow> Inl e | Inr x \<Rightarrow> f x)"

text \<open>\<^verbatim>\<open>if err != nil { return fmt.Errorf("text: %w", err) }\<close>\<close>

definition wrapR :: "string \<Rightarrow> 'a res \<Rightarrow> 'a res" where
  "wrapR s m = (case m of Inl e \<Rightarrow> Inl (Wrap s e) | Inr x \<Rightarrow> Inr x)"

section \<open>Integers\<close>

text \<open>Two's complement wrap-around of \<^verbatim>\<open>int\<close> and \<^verbatim>\<open>int64\<close> (both 64 bits wide).\<close>

definition wrap64 :: "int \<Rightarrow> int" where
  "wrap64 x = (x + 2 ^ 63) mod 2 ^ 64 - 2 ^ 63"

definition in_int64 :: "int \<Rightarrow> bool" where
  "in_int64 x = (- (2 ^ 63) \<le> x \<and> x < 2 ^ 63)"

definition in_int32 :: "int \<Rightarrow> bool" where
  "in_int32 x = (- (2 ^ 31) \<le> x \<and> x < 2 ^ 31)"

text \<open>Go's \<^verbatim>\<open>/\<close> truncates towards zero.\<close>

definition quot64 :: "int \<Rightarrow> int \<Rightarrow> int" where
  "quot64 a b = wrap64 (sgn a * sgn b * (\<bar>a\<bar> div \<bar>b\<bar>))"

text \<open>\<^verbatim>\<open>cmp.Or\<close>: the first value that is not the zero value of its type.\<close>

definition or_str :: "string \<Rightarrow> string \<Rightarrow> string" where
  "or_str a b = (if a \<noteq> [] then a else b)"

definition or_int :: "int \<Rightarrow> int \<Rightarrow> int" where
  "or_int a b = (if a \<noteq> 0 then a else b)"

section \<open>Strings\<close>

definition HasPrefix :: "string \<Rightarrow> string \<Rightarrow> bool" where
  "HasPrefix s p = (take (length p) s = p \<and> length p \<le> length s)"

definition HasSuffix :: "string \<Rightarrow> string \<Rightarrow> bool" where
  "HasSuffix s p = (length p \<le> length s \<and> drop (length s - length p) s = p)"

definition TrimSuffix :: "string \<Rightarrow> string \<Rightarrow> string" where
  "TrimSuffix s p = (if HasSuffix s p then take (length s - length p) s else s)"

definition CutPrefix :: "string \<Rightarrow> string \<Rightarrow> string \<times> bool" where
  "CutPrefix s p = (if HasPrefix s p then (drop (length p) s, True) else (s, False))"

text \<open>\<^verbatim>\<open>strings.Cut\<close> at a one-character separator: before, after, found.\<close>

fun Cut :: "string \<Rightarrow> char \<Rightarrow> string \<times> string \<times> bool" where
  "Cut [] c = ([], [], False)"
| "Cut (x # xs) c =
     (if x = c then ([], xs, True)
      else let (b, a, f) = Cut xs c in (x # b, a, f))"

definition ReplaceChar :: "string \<Rightarrow> char \<Rightarrow> char \<Rightarrow> string" where
  "ReplaceChar s a b = map (\<lambda>c. if c = a then b else c) s"

section \<open>Maps\<close>

text \<open>\<^verbatim>\<open>m[k]\<close> of a string map: the empty string when the key is absent.\<close>

definition mget :: "gomap \<Rightarrow> string \<Rightarrow> string" where
  "mget m k = (case fmlookup m k of Some v \<Rightarrow> v | None \<Rightarrow> [])"

text \<open>The keys in the order \<^verbatim>\<open>encoding/json\<close> writes them.\<close>

definition sorted_keys :: "(string, 'v) fmap \<Rightarrow> string list" where
  "sorted_keys m = sorted_list_of_fset (fmdom m)"

section \<open>Shared lemmas\<close>

named_theorems go_simps \<open>rewriting of results, maps and strings\<close>

lemma bindR_simps [simp]:
  "bindR (Inl e) f = Inl e"
  "bindR (Inr x) f = f x"
  by (simp_all add: bindR_def)

lemma wrapR_simps [simp]:
  "wrapR s (Inl e) = Inl (Wrap s e)"
  "wrapR s (Inr x) = Inr x"
  by (simp_all add: wrapR_def)

lemma is_ok_simps [simp]:
  "is_ok (Inl e) = False"
  "is_ok (Inr x) = True"
  by (simp_all add: is_ok_def)

lemma bindR_eq_Inr [go_simps]: "bindR m f = Inr y \<longleftrightarrow> (\<exists>x. m = Inr x \<and> f x = Inr y)"
  by (cases m) simp_all

lemma wrapR_eq_Inr [go_simps]: "wrapR s m = Inr y \<longleftrightarrow> m = Inr y"
  by (cases m) simp_all

lemma is_ok_iff: "is_ok r \<longleftrightarrow> (\<exists>x. r = Inr x)"
  by (cases r) simp_all

lemma wrap64_id [simp]: "in_int64 x \<Longrightarrow> wrap64 x = x"
  by (simp add: wrap64_def in_int64_def)

lemma in_int64_wrap64 [simp]: "in_int64 (wrap64 x)"
proof -
  have "0 \<le> (x + 2 ^ 63) mod 2 ^ 64" and "(x + 2 ^ 63) mod 2 ^ 64 < (2 ^ 64 :: int)"
    by simp_all
  then show ?thesis
    by (simp add: wrap64_def in_int64_def)
qed

lemma in_int64I: "0 \<le> x \<Longrightarrow> x < 2 ^ 63 \<Longrightarrow> in_int64 x"
  by (simp add: in_int64_def)

lemma quot64_pos: "0 \<le> a \<Longrightarrow> 0 < b \<Longrightarrow> in_int64 a \<Longrightarrow> quot64 a b = a div b"
proof -
  assume a: "0 \<le> a" and b: "0 < b" and r: "in_int64 a"
  have "a div b \<le> a"
    using zdiv_mono2 [of a 1 b] a b by simp
  moreover have "0 \<le> a div b"
    using a b by (simp add: pos_imp_zdiv_nonneg_iff)
  ultimately have "in_int64 (a div b)"
    using r by (simp add: in_int64_def)
  with a b show ?thesis
    by (cases "a = 0") (simp_all add: quot64_def)
qed

lemma HasSuffix_append [simp]: "HasSuffix (s @ p) p"
  by (simp add: HasSuffix_def)

lemma HasSuffix_iff: "HasSuffix s p \<longleftrightarrow> (\<exists>q. s = q @ p)"
proof
  assume "HasSuffix s p"
  then have "s = take (length s - length p) s @ p"
    unfolding HasSuffix_def by (metis append_take_drop_id)
  then show "\<exists>q. s = q @ p" ..
qed auto

lemma TrimSuffix_append [simp]: "TrimSuffix (s @ p) p = s"
  by (simp add: TrimSuffix_def)

lemma HasPrefix_append [simp]: "HasPrefix (p @ s) p"
  by (simp add: HasPrefix_def)

lemma HasPrefix_iff: "HasPrefix s p \<longleftrightarrow> (\<exists>q. s = p @ q)"
proof
  assume "HasPrefix s p"
  then have "s = p @ drop (length p) s"
    unfolding HasPrefix_def by (metis append_take_drop_id)
  then show "\<exists>q. s = p @ q" ..
qed auto

lemma CutPrefix_append [simp]: "CutPrefix (p @ s) p = (s, True)"
  by (simp add: CutPrefix_def)

lemma CutPrefix_True: "CutPrefix s p = (r, True) \<longleftrightarrow> s = p @ r"
  by (auto simp: CutPrefix_def HasPrefix_iff split: if_splits)

lemma Cut_absent: "c \<notin> set s \<Longrightarrow> Cut s c = (s, [], False)"
  by (induction s) auto

lemma Cut_append: "c \<notin> set b \<Longrightarrow> Cut (b @ c # a) c = (b, a, True)"
  by (induction b) auto

lemma Cut_found: "Cut s c = (b, a, True) \<Longrightarrow> s = b @ c # a \<and> c \<notin> set b"
  by (induction s arbitrary: b) (auto split: if_splits prod.splits)

lemma Cut_not_found: "Cut s c = (b, a, False) \<Longrightarrow> c \<notin> set s"
  by (induction s arbitrary: b) (auto split: if_splits prod.splits)

lemma mget_fmupd [simp]: "mget (fmupd k v m) k' = (if k = k' then v else mget m k')"
  by (simp add: mget_def)

lemma mget_fmempty [simp]: "mget fmempty k = []"
  by (simp add: mget_def)

lemma sorted_keys_distinct [simp]: "distinct (sorted_keys m)"
  by (simp add: sorted_keys_def sorted_list_of_fset.rep_eq)

lemma set_sorted_keys [simp]: "set (sorted_keys m) = fset (fmdom m)"
  by (simp add: sorted_keys_def)

lemma fmlookup_sorted_keys: "k \<in> set (sorted_keys m) \<longleftrightarrow> fmlookup m k \<noteq> None"
  by (auto simp: fmlookup_dom_iff)

text \<open>Writing the pairs of a map in key order and reading them back gives the map.\<close>

lemma fmap_of_sorted_keys:
  "fmap_of_list (rev (map (\<lambda>k. (k, the (fmlookup m k))) (sorted_keys m))) = m"
proof (rule fmap_ext)
  fix k
  let ?ps = "map (\<lambda>k. (k, the (fmlookup m k))) (sorted_keys m)"
  have d: "distinct (map fst ?ps)"
    by (simp add: comp_def)
  have "map_of (rev ?ps) k = map_of ?ps k"
    using d by (metis (no_types, lifting) distinct_rev map_of_inject_set rev_map set_rev)
  also have "\<dots> = fmlookup m k"
    by (cases "fmlookup m k") (auto simp: map_of_map_restrict restrict_map_def fmlookup_dom_iff)
  finally show "fmlookup (fmap_of_list (rev ?ps)) k = fmlookup m k"
    by (simp add: fmlookup_of_list)
qed

end
