(* ===== verification/Media_Types.thy ===== *)
theory Media_Types
  imports Go_Prelude
begin

text \<open>
  The media-type vocabulary of \<^verbatim>\<open>manifest/media.go\<close>: the constants, the \<^verbatim>\<open>+zstd\<close> suffix
  functions, the reader's allow-list, the file-name table of the writer and the disk layers of
  a cloud image. The lemmas relate the writer's choice of type to the reader's allow-list.
\<close>

section \<open>Constants\<close>

definition MediaTypeOCIManifest :: string where
  "MediaTypeOCIManifest = ''application/vnd.oci.image.manifest.v1+json''"

definition MediaTypeOCIIndex :: string where
  "MediaTypeOCIIndex = ''application/vnd.oci.image.index.v1+json''"

definition MediaTypeDockerIndex :: string where
  "MediaTypeDockerIndex = ''application/vnd.docker.distribution.manifest.list.v2+json''"

definition MediaTypeOCIImageConfig :: string where
  "MediaTypeOCIImageConfig = ''application/vnd.oci.image.config.v1+json''"

definition MediaTypeDockerConfig :: string where
  "MediaTypeDockerConfig = ''application/vnd.docker.container.image.v1+json''"

definition ArtifactTypeOSImage :: string where
  "ArtifactTypeOSImage = ''application/vnd.cocoonstack.os-image.v1+json''"

definition ArtifactTypeWindowsImage :: string where
  "ArtifactTypeWindowsImage = ''application/vnd.cocoonstack.windows-image.v1+json''"

definition ArtifactTypeSnapshot :: string where
  "ArtifactTypeSnapshot = ''application/vnd.cocoonstack.snapshot.v1+json''"

definition ArtifactTypeSnapshotV2 :: string where
  "ArtifactTypeSnapshotV2 = ''application/vnd.cocoonstack.snapshot.v2+json''"

definition MediaTypeSnapshotConfig :: string where
  "MediaTypeSnapshotConfig = ''application/vnd.cocoonstack.snapshot.config.v1+json''"

definition MediaTypeDiskQcow2 :: string where
  "MediaTypeDiskQcow2 = ''application/vnd.cocoonstack.disk.qcow2''"

definition MediaTypeDiskQcow2Part :: string where
  "MediaTypeDiskQcow2Part = ''application/vnd.cocoonstack.disk.qcow2.part''"

definition MediaTypeDiskRaw :: string where
  "MediaTypeDiskRaw = ''application/vnd.cocoonstack.disk.raw''"

definition MediaTypeDiskRawPart :: string where
  "MediaTypeDiskRawPart = ''application/vnd.cocoonstack.disk.raw.part''"

definition MediaTypeWindowsDiskQcow2 :: string where
  "MediaTypeWindowsDiskQcow2 = ''application/vnd.cocoonstack.windows.disk.qcow2''"

definition MediaTypeWindowsDiskQcow2Part :: string where
  "MediaTypeWindowsDiskQcow2Part = ''application/vnd.cocoonstack.windows.disk.qcow2.part''"

definition MediaTypeWindowsDiskRaw :: string where
  "MediaTypeWindowsDiskRaw = ''application/vnd.cocoonstack.windows.disk.raw''"

definition MediaTypeWindowsDiskRawPart :: string where
  "MediaTypeWindowsDiskRawPart = ''application/vnd.cocoonstack.windows.disk.raw.part''"

definition MediaTypeVMConfig :: string where
  "MediaTypeVMConfig = ''application/vnd.cocoonstack.vm.config+json''"

definition MediaTypeVMState :: string where
  "MediaTypeVMState = ''application/vnd.cocoonstack.vm.state+json''"

definition MediaTypeVMMemory :: string where
  "MediaTypeVMMemory = ''application/vnd.cocoonstack.vm.memory''"

definition MediaTypeVMCidata :: string where
  "MediaTypeVMCidata = ''application/vnd.cocoonstack.vm.cidata''"

definition MediaTypeGeneric :: string where
  "MediaTypeGeneric = ''application/octet-stream''"

definition MediaTypeTar :: string where
  "MediaTypeTar = ''application/x-tar''"

definition AnnotationTitle :: string where
  "AnnotationTitle = ''org.opencontainers.image.title''"

definition AnnotationCreated :: string where
  "AnnotationCreated = ''org.opencontainers.image.created''"

definition AnnotationSource :: string where
  "AnnotationSource = ''org.opencontainers.image.source''"

definition AnnotationRevision :: string where
  "AnnotationRevision = ''org.opencontainers.image.revision''"

definition AnnotationSnapshotBaseImage :: string where
  "AnnotationSnapshotBaseImage = ''cocoonstack.snapshot.baseimage''"

definition AnnotationChunkIndex :: string where
  "AnnotationChunkIndex = ''cocoonstack.chunk.index''"

definition AnnotationChunkCount :: string where
  "AnnotationChunkCount = ''cocoonstack.chunk.count''"

definition zstdSuffix :: string where
  "zstdSuffix = ''+zstd''"

section \<open>Functions\<close>

definition snapshotFilenameMediaType :: gomap where
  "snapshotFilenameMediaType = fmap_of_list
     [(''config.json'', MediaTypeVMConfig),
      (''state.json'', MediaTypeVMState),
      (''memory-ranges'', MediaTypeVMMemory),
      (''cidata.img'', MediaTypeVMCidata),
      (''overlay.qcow2'', MediaTypeDiskQcow2)]"

definition ZstdMediaType :: "string \<Rightarrow> string" where
  "ZstdMediaType mt = mt @ zstdSuffix"

definition IsZstdMediaType :: "string \<Rightarrow> bool" where
  "IsZstdMediaType mt = HasSuffix mt zstdSuffix"

definition StripZstd :: "string \<Rightarrow> string" where
  "StripZstd mt = TrimSuffix mt zstdSuffix"

definition IsSnapshotLayerMediaType :: "string \<Rightarrow> bool" where
  "IsSnapshotLayerMediaType mt =
     (StripZstd mt \<in> {MediaTypeVMConfig, MediaTypeVMState, MediaTypeVMMemory, MediaTypeVMCidata,
        MediaTypeDiskQcow2, MediaTypeDiskRaw, MediaTypeGeneric})"

definition MediaTypeForCocoonFile :: "string \<Rightarrow> string" where
  "MediaTypeForCocoonFile name =
     (case fmlookup snapshotFilenameMediaType name of
        Some mt \<Rightarrow> mt
      | None \<Rightarrow>
          if HasSuffix name ''.qcow2'' then MediaTypeDiskQcow2
          else if HasSuffix name ''.raw'' then MediaTypeDiskRaw
          else MediaTypeGeneric)"

definition IsDiskMediaType :: "string \<Rightarrow> bool" where
  "IsDiskMediaType mt =
     (mt \<in> {MediaTypeDiskQcow2, MediaTypeDiskQcow2Part, MediaTypeDiskRaw, MediaTypeDiskRawPart,
        MediaTypeWindowsDiskQcow2, MediaTypeWindowsDiskQcow2Part,
        MediaTypeWindowsDiskRaw, MediaTypeWindowsDiskRawPart})"

section \<open>Lemmas\<close>

named_theorems media_consts \<open>the media-type constants, unfolded\<close>

lemmas media_consts_all [media_consts] =
  MediaTypeOCIManifest_def
  MediaTypeOCIIndex_def
  MediaTypeDockerIndex_def
  MediaTypeOCIImageConfig_def
  MediaTypeDockerConfig_def
  ArtifactTypeOSImage_def
  ArtifactTypeWindowsImage_def
  ArtifactTypeSnapshot_def
  ArtifactTypeSnapshotV2_def
  MediaTypeSnapshotConfig_def
  MediaTypeDiskQcow2_def
  MediaTypeDiskQcow2Part_def
  MediaTypeDiskRaw_def
  MediaTypeDiskRawPart_def
  MediaTypeWindowsDiskQcow2_def
  MediaTypeWindowsDiskQcow2Part_def
  MediaTypeWindowsDiskRaw_def
  MediaTypeWindowsDiskRawPart_def
  MediaTypeVMConfig_def
  MediaTypeVMState_def
  MediaTypeVMMemory_def
  MediaTypeVMCidata_def
  MediaTypeGeneric_def
  MediaTypeTar_def
  AnnotationTitle_def
  AnnotationCreated_def
  AnnotationSource_def
  AnnotationRevision_def
  AnnotationSnapshotBaseImage_def
  AnnotationChunkIndex_def
  AnnotationChunkCount_def
  zstdSuffix_def

text \<open>The types a snapshot layer can have before compression.\<close>

definition rawLayerTypes :: "string list" where
  "rawLayerTypes =
     [MediaTypeVMConfig, MediaTypeVMState, MediaTypeVMMemory, MediaTypeVMCidata,
      MediaTypeDiskQcow2, MediaTypeDiskRaw, MediaTypeGeneric]"

lemma raw_layer_not_zstd: "mt \<in> set rawLayerTypes \<Longrightarrow> \<not> IsZstdMediaType mt"
  by (auto simp: rawLayerTypes_def IsZstdMediaType_def HasSuffix_def media_consts)

lemma IsSnapshotLayerMediaType_raw:
  "IsSnapshotLayerMediaType mt \<longleftrightarrow> StripZstd mt \<in> set rawLayerTypes"
  by (simp add: IsSnapshotLayerMediaType_def rawLayerTypes_def)

lemma StripZstd_plain [simp]: "\<not> IsZstdMediaType mt \<Longrightarrow> StripZstd mt = mt"
  by (simp add: StripZstd_def IsZstdMediaType_def TrimSuffix_def)

lemma zstd_suffix_laws [simp]:
  "IsZstdMediaType (ZstdMediaType mt)"
  "StripZstd (ZstdMediaType mt) = mt"
  by (simp_all add: IsZstdMediaType_def ZstdMediaType_def StripZstd_def)

lemma MediaTypeForCocoonFile_raw: "MediaTypeForCocoonFile name \<in> set rawLayerTypes"
  by (auto simp: MediaTypeForCocoonFile_def snapshotFilenameMediaType_def rawLayerTypes_def
      fmlookup_of_list split: option.splits if_splits)

lemma written_raw_not_zstd [simp]: "\<not> IsZstdMediaType (MediaTypeForCocoonFile name)"
  using MediaTypeForCocoonFile_raw by (rule raw_layer_not_zstd)

lemma written_types_readable [simp]:
  "IsSnapshotLayerMediaType (MediaTypeForCocoonFile name)"
  "IsSnapshotLayerMediaType (ZstdMediaType (MediaTypeForCocoonFile name))"
  by (simp_all add: IsSnapshotLayerMediaType_raw MediaTypeForCocoonFile_raw)

end
