(* ===== verification/Go_Strconv.thy ===== *)
theory Go_Strconv
  imports Go_Prelude
begin

text \<open>
  The functions of the Go package \<^verbatim>\<open>strconv\<close> that the program calls, in base 10:
  \<^verbatim>\<open>FormatInt\<close>/\<^verbatim>\<open>Itoa\<close>, \<^verbatim>\<open>ParseInt\<close> at a bit size, \<^verbatim>\<open>Atoi\<close> and \<^verbatim>\<open>ParseBool\<close>.
  \<open>None\<close> is the error result (syntax or range). The lemmas show that parsing a formatted
  number returns it, and which characters a formatted number consists of.
\<close>

section \<open>Definitions\<close>

definition digit_char :: "int \<Rightarrow> char" where
  "digit_char d = char_of (48 + d)"

definition digit_val :: "char \<Rightarrow> int" where
  "digit_val c = of_char c - 48"

definition is_digit :: "char \<Rightarrow> bool" where
  "is_digit c = (48 \<le> (of_char c :: int) \<and> (of_char c :: int) \<le> 57)"

function format_nat :: "int \<Rightarrow> string" where
  "format_nat n =
     (if n < 10 then [digit_char n]
      else format_nat (n div 10) @ [digit_char (n mod 10)])"
  by pat_completeness auto
termination
  by (relation "measure nat") auto

definition FormatInt :: "int \<Rightarrow> string" where
  "FormatInt n = (if n < 0 then CHR ''-'' # format_nat (- n) else format_nat n)"

fun parse_digits :: "int \<Rightarrow> string \<Rightarrow> int option" where
  "parse_digits acc [] = Some acc"
| "parse_digits acc (c # cs) =
     (if is_digit c then parse_digits (10 * acc + digit_val c) cs else None)"

definition split_sign :: "string \<Rightarrow> bool \<times> string" where
  "split_sign s =
     (case s of
        [] \<Rightarrow> (False, [])
      | c # cs \<Rightarrow> if c = CHR ''+'' then (False, cs)
                  else if c = CHR ''-'' then (True, cs) else (False, s))"

definition ParseInt :: "nat \<Rightarrow> string \<Rightarrow> int option" where
  "ParseInt bits s =
     (let (neg, ds) = split_sign s
      in if ds = [] then None
         else case parse_digits 0 ds of
                None \<Rightarrow> None
              | Some n \<Rightarrow>
                  let v = (if neg then - n else n)
                  in if - (2 ^ (bits - 1)) \<le> v \<and> v < 2 ^ (bits - 1) then Some v else None)"

definition Itoa :: "int \<Rightarrow> string" where
  "Itoa n = FormatInt n"

definition Atoi :: "string \<Rightarrow> int option" where
  "Atoi s = ParseInt 64 s"

definition ParseBool :: "string \<Rightarrow> bool option" where
  "ParseBool s =
     (if s \<in> {''1'', ''t'', ''T'', ''TRUE'', ''true'', ''True''} then Some True
      else if s \<in> {''0'', ''f'', ''F'', ''FALSE'', ''false'', ''False''} then Some False
      else None)"

section \<open>Lemmas\<close>

declare format_nat.simps [simp del]

lemma digit_char_code: "0 \<le> d \<Longrightarrow> d < 10 \<Longrightarrow> (of_char (digit_char d) :: int) = 48 + d"
  by (simp add: digit_char_def of_char_of)

lemma is_digit_digit_char [simp]: "0 \<le> d \<Longrightarrow> d < 10 \<Longrightarrow> is_digit (digit_char d)"
  by (simp add: is_digit_def digit_char_code)

lemma digit_val_digit_char [simp]: "0 \<le> d \<Longrightarrow> d < 10 \<Longrightarrow> digit_val (digit_char d) = d"
  by (simp add: digit_val_def digit_char_code)

lemma parse_digits_append:
  "parse_digits acc (xs @ ys) =
     (case parse_digits acc xs of None \<Rightarrow> None | Some n \<Rightarrow> parse_digits n ys)"
  by (induction xs arbitrary: acc) auto

lemma format_nat_ne [simp]: "format_nat n \<noteq> []"
  by (subst format_nat.simps) simp

lemma format_nat_digits: "0 \<le> n \<Longrightarrow> list_all is_digit (format_nat n)"
proof (induction n rule: format_nat.induct)
  case (1 n)
  show ?case
  proof (cases "n < 10")
    case True
    with "1.prems" show ?thesis
      by (subst format_nat.simps) simp
  next
    case False
    with "1" show ?thesis
      by (subst format_nat.simps) simp
  qed
qed

lemma parse_format_nat: "0 \<le> n \<Longrightarrow> parse_digits 0 (format_nat n) = Some n"
proof (induction n rule: format_nat.induct)
  case (1 n)
  show ?case
  proof (cases "n < 10")
    case True
    with "1.prems" show ?thesis
      by (subst format_nat.simps) simp
  next
    case False
    with "1" have "parse_digits 0 (format_nat (n div 10)) = Some (n div 10)"
      by simp
    with False show ?thesis
      by (subst format_nat.simps) (simp add: parse_digits_append)
  qed
qed

lemma is_digit_not_sign: "is_digit c \<Longrightarrow> c \<noteq> CHR ''+'' \<and> c \<noteq> CHR ''-''"
  by (auto simp: is_digit_def)

lemma split_sign_format_nat: "0 \<le> n \<Longrightarrow> split_sign (format_nat n) = (False, format_nat n)"
  using format_nat_digits [of n] is_digit_not_sign
  by (cases "format_nat n") (auto simp: split_sign_def)

lemma ParseInt_FormatInt [simp]:
  assumes "- (2 ^ (bits - 1)) \<le> n" and "n < 2 ^ (bits - 1)"
  shows "ParseInt bits (FormatInt n) = Some n"
  using assms
  by (simp add: ParseInt_def FormatInt_def split_sign_format_nat parse_format_nat)
     (simp add: split_sign_def parse_format_nat)

lemma ParseInt64_FormatInt [simp]: "in_int64 n \<Longrightarrow> ParseInt 64 (FormatInt n) = Some n"
  by (simp add: in_int64_def)

lemma ParseInt32_FormatInt [simp]: "in_int32 n \<Longrightarrow> ParseInt 32 (FormatInt n) = Some n"
  by (simp add: in_int32_def)

lemma ParseInt_range: "ParseInt bits s = Some n \<Longrightarrow> - (2 ^ (bits - 1)) \<le> n \<and> n < 2 ^ (bits - 1)"
  by (auto simp: ParseInt_def Let_def split: prod.splits if_splits option.splits)

lemma FormatInt_inj: "in_int64 a \<Longrightarrow> in_int64 b \<Longrightarrow> FormatInt a = FormatInt b \<longleftrightarrow> a = b"
  by (metis ParseInt64_FormatInt option.inject)

lemma FormatInt_ne [simp]: "FormatInt n \<noteq> []"
  by (simp add: FormatInt_def)

lemma FormatInt_chars: "c \<in> set (FormatInt n) \<Longrightarrow> is_digit c \<or> c = CHR ''-''"
proof -
  assume "c \<in> set (FormatInt n)"
  moreover have "list_all is_digit (format_nat \<bar>n\<bar>)"
    by (rule format_nat_digits) simp
  ultimately show ?thesis
    by (auto simp: FormatInt_def list_all_iff split: if_splits)
qed

lemma FormatInt_nonneg_digits: "0 \<le> n \<Longrightarrow> list_all is_digit (FormatInt n)"
  by (simp add: FormatInt_def format_nat_digits)

end
