(* ===== verification/Go_Json.thy ===== *)
theory Go_Json
  imports Go_Strconv
begin

text \<open>
  The part of Go's \<^verbatim>\<open>encoding/json\<close> the program relies on: JSON values, the text
  \<^verbatim>\<open>json.Marshal\<close> and \<^verbatim>\<open>json.MarshalIndent(v, "", "  ")\<close> write (HTML escaping on, invalid
  UTF-8 replaced by \<^verbatim>\<open>\ufffd\<close>), and the reader behind \<^verbatim>\<open>json.Unmarshal\<close> and \<^verbatim>\<open>Decoder.Decode\<close>.
  A number keeps its literal, as \<^verbatim>\<open>Decoder.UseNumber\<close> does; an object keeps its members in
  text order, duplicates included. A \<^verbatim>\<open>json.RawMessage\<close> is the value its text denotes.
  The reader takes fuel; \<open>json_fuel\<close> is enough for every text (lemma \<open>parse_fuel_enough\<close>), so
  \<open>None\<close> always means a syntax error. Go's nesting limit of 10000 levels is not modelled.

  The main lemma is that reading a written value returns it, in both layouts.
\<close>

section \<open>Values and UTF-8\<close>

datatype json =
    JNull
  | JBool bool
  | JNum string
  | JStr string
  | JArr "json list"
  | JObj "(string \<times> json) list"

definition cp :: "char \<Rightarrow> int" where
  "cp c = of_char c"

definition cont :: "char \<Rightarrow> bool" where
  "cont c = (128 \<le> cp c \<and> cp c \<le> 191)"

text \<open>
  The length a UTF-8 sequence has by its first byte, and whether the bytes after it are
  continuation bytes in range (no overlong form, no surrogate, nothing above U+10FFFF).
\<close>

definition utf8_need :: "char \<Rightarrow> nat" where
  "utf8_need a =
     (if cp a < 128 then 1
      else if 194 \<le> cp a \<and> cp a \<le> 223 then 2
      else if 224 \<le> cp a \<and> cp a \<le> 239 then 3
      else if 240 \<le> cp a \<and> cp a \<le> 244 then 4
      else 0)"

definition utf8_ok :: "string \<Rightarrow> bool" where
  "utf8_ok u =
     (case u of
        a # b # r \<Rightarrow>
          list_all cont (b # r) \<and>
          (cp a \<noteq> 224 \<or> 160 \<le> cp b) \<and> (cp a \<noteq> 237 \<or> cp b \<le> 159) \<and>
          (cp a \<noteq> 240 \<or> 144 \<le> cp b) \<and> (cp a \<noteq> 244 \<or> cp b \<le> 143)
      | _ \<Rightarrow> True)"

text \<open>Length of the valid UTF-8 sequence at the head, 0 when there is none.\<close>

definition utf8_len :: "string \<Rightarrow> nat" where
  "utf8_len s =
     (case s of
        [] \<Rightarrow> 0
      | a # _ \<Rightarrow>
          if utf8_need a \<le> length s \<and> utf8_ok (take (utf8_need a) s) then utf8_need a else 0)"

text \<open>The bytes of a code point; an invalid one becomes U+FFFD, as in \<^verbatim>\<open>utf8.EncodeRune\<close>.\<close>

definition utf8_encode :: "int \<Rightarrow> string" where
  "utf8_encode r =
     map char_of
      (if r < 128 then [r]
       else if r < 2048 then [192 + r div 64, 128 + r mod 64]
       else if 55296 \<le> r \<and> r \<le> 57343 \<or> 1114111 < r then [239, 191, 189]
       else if r < 65536 then [224 + r div 4096, 128 + r div 64 mod 64, 128 + r mod 64]
       else [240 + r div 262144, 128 + r div 4096 mod 64, 128 + r div 64 mod 64, 128 + r mod 64])"

function valid_utf8 :: "string \<Rightarrow> bool" where
  "valid_utf8 s =
     (if s = [] then True
      else if utf8_len s = 0 then False
      else valid_utf8 (drop (utf8_len s) s))"
  by pat_completeness auto
termination
  by (relation "measure length") auto

section \<open>Writing\<close>

definition hexc :: "int \<Rightarrow> char" where
  "hexc d = char_of (if d < 10 then 48 + d else 87 + d)"

definition bslash :: char where "bslash = CHR 0x5C"
definition dquote :: char where "dquote = CHR 0x22"

definition esc_ascii :: "char \<Rightarrow> string" where
  "esc_ascii c =
     (if c = bslash \<or> c = dquote then [bslash, c]
      else if c = CHR 0x08 then [bslash, CHR ''b'']
      else if c = CHR 0x0C then [bslash, CHR ''f'']
      else if c = CHR 0x0A then [bslash, CHR ''n'']
      else if c = CHR 0x0D then [bslash, CHR ''r'']
      else if c = CHR 0x09 then [bslash, CHR ''t'']
      else if cp c < 32 \<or> c = CHR ''<'' \<or> c = CHR ''>'' \<or> c = CHR ''&'' then
        [bslash, CHR ''u'', CHR ''0'', CHR ''0'', hexc (cp c div 16), hexc (cp c mod 16)]
      else [c])"

text \<open>U+2028 and U+2029 are escaped too, every other multi-byte sequence is copied.\<close>

definition esc_multi :: "string \<Rightarrow> string" where
  "esc_multi u =
     (if u = [CHR 0xE2, CHR 0x80, CHR 0xA8] then bslash # ''u2028''
      else if u = [CHR 0xE2, CHR 0x80, CHR 0xA9] then bslash # ''u2029''
      else u)"

function esc :: "string \<Rightarrow> string" where
  "esc s =
     (if s = [] then []
      else if utf8_len s = 0 then bslash # ''ufffd'' @ esc (tl s)
      else if utf8_len s = 1 then esc_ascii (hd s) @ esc (tl s)
      else esc_multi (take (utf8_len s) s) @ esc (drop (utf8_len s) s))"
  by pat_completeness auto
termination
  by (relation "measure length") auto

definition quote :: "string \<Rightarrow> string" where
  "quote s = dquote # esc s @ [dquote]"

text \<open>A line break and indentation under \<^verbatim>\<open>MarshalIndent\<close>, nothing under \<^verbatim>\<open>Marshal\<close>.\<close>

definition nl :: "bool \<Rightarrow> nat \<Rightarrow> string" where
  "nl ind d = (if ind then CHR 0x0A # replicate (2 * d) (CHR 0x20) else [])"

definition colon :: "bool \<Rightarrow> string" where
  "colon ind = (if ind then '': '' else '':'')"

fun print_json :: "bool \<Rightarrow> nat \<Rightarrow> json \<Rightarrow> string"
and print_elems :: "bool \<Rightarrow> nat \<Rightarrow> json list \<Rightarrow> string"
and print_members :: "bool \<Rightarrow> nat \<Rightarrow> (string \<times> json) list \<Rightarrow> string" where
  "print_json ind d JNull = ''null''"
| "print_json ind d (JBool b) = (if b then ''true'' else ''false'')"
| "print_json ind d (JNum l) = l"
| "print_json ind d (JStr s) = quote s"
| "print_json ind d (JArr []) = ''[]''"
| "print_json ind d (JArr (x # xs)) =
     CHR ''['' # nl ind (Suc d) @ print_json ind (Suc d) x @ print_elems ind (Suc d) xs
       @ nl ind d @ [CHR '']'']"
| "print_json ind d (JObj []) = ''{}''"
| "print_json ind d (JObj ((k, v) # ms)) =
     CHR ''{'' # nl ind (Suc d) @ quote k @ colon ind @ print_json ind (Suc d) v
       @ print_members ind (Suc d) ms @ nl ind d @ [CHR ''}'']"
| "print_elems ind d [] = []"
| "print_elems ind d (x # xs) =
     CHR '','' # nl ind d @ print_json ind d x @ print_elems ind d xs"
| "print_members ind d [] = []"
| "print_members ind d ((k, v) # ms) =
     CHR '','' # nl ind d @ quote k @ colon ind @ print_json ind d v @ print_members ind d ms"

definition json_marshal :: "json \<Rightarrow> bytes" where
  "json_marshal v = print_json False 0 v"

definition json_marshal_indent :: "json \<Rightarrow> bytes" where
  "json_marshal_indent v = print_json True 0 v"

section \<open>Reading\<close>

definition is_ws :: "char \<Rightarrow> bool" where
  "is_ws c = (c = CHR 0x20 \<or> c = CHR 0x09 \<or> c = CHR 0x0A \<or> c = CHR 0x0D)"

definition skip_ws :: "string \<Rightarrow> string" where
  "skip_ws s = dropWhile is_ws s"

definition hex_val :: "char \<Rightarrow> int option" where
  "hex_val c =
     (if 48 \<le> cp c \<and> cp c \<le> 57 then Some (cp c - 48)
      else if 97 \<le> cp c \<and> cp c \<le> 102 then Some (cp c - 87)
      else if 65 \<le> cp c \<and> cp c \<le> 70 then Some (cp c - 55)
      else None)"

text \<open>Four hexadecimal digits after \<^verbatim>\<open>\u\<close>.\<close>

fun hex4 :: "string \<Rightarrow> (int \<times> string) option" where
  "hex4 (a # b # c # d # r) =
     (case (hex_val a, hex_val b, hex_val c, hex_val d) of
        (Some w, Some x, Some y, Some z) \<Rightarrow> Some (4096 * w + 256 * x + 16 * y + z, r)
      | _ \<Rightarrow> None)"
| "hex4 _ = None"

definition surrogate :: "int \<Rightarrow> bool" where
  "surrogate r = (55296 \<le> r \<and> r \<le> 57343)"

text \<open>\<^verbatim>\<open>\uXXXX\<close>, or a surrogate pair of two of them, as bytes, with the rest of the text.\<close>

definition unescape_u :: "string \<Rightarrow> (string \<times> string) option" where
  "unescape_u s =
     (case hex4 s of
        None \<Rightarrow> None
      | Some (r, t) \<Rightarrow>
          if \<not> surrogate r then Some (utf8_encode r, t)
          else if take 2 t \<noteq> [bslash, CHR ''u''] then Some (utf8_encode r, t)
          else (case hex4 (drop 2 t) of
                  None \<Rightarrow> Some (utf8_encode r, t)
                | Some (r2, t2) \<Rightarrow>
                    if r < 56320 \<and> 56320 \<le> r2 \<and> r2 \<le> 57343
                    then Some (utf8_encode ((r - 55296) * 1024 + (r2 - 56320) + 65536), t2)
                    else Some (utf8_encode r, t)))"

definition unescape1 :: "char \<Rightarrow> char option" where
  "unescape1 c =
     (if c = dquote \<or> c = bslash \<or> c = CHR ''/'' then Some c
      else if c = CHR ''b'' then Some (CHR 0x08)
      else if c = CHR ''f'' then Some (CHR 0x0C)
      else if c = CHR ''n'' then Some (CHR 0x0A)
      else if c = CHR ''r'' then Some (CHR 0x0D)
      else if c = CHR ''t'' then Some (CHR 0x09)
      else None)"

text \<open>One unit of a string body: its bytes and the rest.\<close>

definition string_unit :: "string \<Rightarrow> (string \<times> string) option" where
  "string_unit s =
     (case s of
        [] \<Rightarrow> None
      | c # r \<Rightarrow>
          if c = bslash then
            (case r of
               [] \<Rightarrow> None
             | e # t \<Rightarrow>
                 if e = CHR ''u'' then unescape_u t
                 else map_option (\<lambda>x. ([x], t)) (unescape1 e))
          else if cp c < 32 then None
          else if utf8_len s = 0 then Some (utf8_encode 65533, r)
          else Some (take (utf8_len s) s, drop (utf8_len s) s))"

text \<open>The body of a string up to its closing quote.\<close>

fun parse_string :: "nat \<Rightarrow> string \<Rightarrow> (string \<times> string) option" where
  "parse_string 0 s = None"
| "parse_string (Suc f) s =
     (case s of
        [] \<Rightarrow> None
      | c # r \<Rightarrow>
          if c = dquote then Some ([], r)
          else (case string_unit s of
                  None \<Rightarrow> None
                | Some (u, t) \<Rightarrow> map_option (\<lambda>(x, y). (u @ x, y)) (parse_string f t)))"

definition unquote :: "string \<Rightarrow> (string \<times> string) option" where
  "unquote s = parse_string (Suc (length s)) s"

text \<open>A number literal, read greedily.\<close>

definition scan_int :: "string \<Rightarrow> (string \<times> string) option" where
  "scan_int s =
     (case s of
        [] \<Rightarrow> None
      | c # r \<Rightarrow> if c = CHR ''0'' then Some ([c], r)
                  else if is_digit c then Some (takeWhile is_digit s, dropWhile is_digit s)
                  else None)"

definition scan_frac :: "string \<Rightarrow> (string \<times> string) option" where
  "scan_frac s =
     (case s of
        c # r \<Rightarrow>
          if c = CHR ''.'' then
            (if takeWhile is_digit r = [] then None
             else Some (c # takeWhile is_digit r, dropWhile is_digit r))
          else Some ([], s)
      | [] \<Rightarrow> Some ([], []))"

definition split_exp_sign :: "string \<Rightarrow> string \<times> string" where
  "split_exp_sign r =
     (case r of
        d # t \<Rightarrow> if d = CHR ''+'' \<or> d = CHR ''-'' then ([d], t) else ([], r)
      | [] \<Rightarrow> ([], []))"

definition scan_exp :: "string \<Rightarrow> (string \<times> string) option" where
  "scan_exp s =
     (case s of
        c # r \<Rightarrow>
          if c = CHR ''e'' \<or> c = CHR ''E'' then
            (let (g, t) = split_exp_sign r
             in if takeWhile is_digit t = [] then None
                else Some (c # g @ takeWhile is_digit t, dropWhile is_digit t))
          else Some ([], s)
      | [] \<Rightarrow> Some ([], []))"

definition split_minus :: "string \<Rightarrow> string \<times> string" where
  "split_minus s =
     (case s of c # r \<Rightarrow> if c = CHR ''-'' then ([c], r) else ([], s) | [] \<Rightarrow> ([], []))"

definition scan_num :: "string \<Rightarrow> (string \<times> string) option" where
  "scan_num s =
     (let (m, a) = split_minus s
      in case scan_int a of
           None \<Rightarrow> None
         | Some (i, b) \<Rightarrow>
             (case scan_frac b of
                None \<Rightarrow> None
              | Some (q, c) \<Rightarrow>
                  (case scan_exp c of
                     None \<Rightarrow> None
                   | Some (x, d) \<Rightarrow> Some (m @ i @ q @ x, d))))"

fun parse_val :: "nat \<Rightarrow> string \<Rightarrow> (json \<times> string) option"
and parse_elems :: "nat \<Rightarrow> string \<Rightarrow> (json list \<times> string) option"
and parse_members :: "nat \<Rightarrow> string \<Rightarrow> ((string \<times> json) list \<times> string) option" where
  "parse_val 0 s = None"
| "parse_val (Suc f) s =
     (case skip_ws s of
        [] \<Rightarrow> None
      | c # r \<Rightarrow>
          if c = CHR ''{'' then
            (if take 1 (skip_ws r) = ''}'' then Some (JObj [], tl (skip_ws r))
             else map_option (\<lambda>(ms, t). (JObj ms, t)) (parse_members f r))
          else if c = CHR ''['' then
            (if take 1 (skip_ws r) = '']'' then Some (JArr [], tl (skip_ws r))
             else map_option (\<lambda>(vs, t). (JArr vs, t)) (parse_elems f r))
          else if c = dquote then map_option (\<lambda>(x, t). (JStr x, t)) (unquote r)
          else if take 4 (c # r) = ''true'' then Some (JBool True, drop 3 r)
          else if take 5 (c # r) = ''false'' then Some (JBool False, drop 4 r)
          else if take 4 (c # r) = ''null'' then Some (JNull, drop 3 r)
          else map_option (\<lambda>(l, t). (JNum l, t)) (scan_num (c # r)))"
| "parse_elems 0 s = None"
| "parse_elems (Suc f) s =
     (case parse_val f s of
        None \<Rightarrow> None
      | Some (v, t) \<Rightarrow>
          (case skip_ws t of
             [] \<Rightarrow> None
           | c # u \<Rightarrow>
               if c = CHR '','' then map_option (\<lambda>(vs, w). (v # vs, w)) (parse_elems f u)
               else if c = CHR '']'' then Some ([v], u)
               else None))"
| "parse_members 0 s = None"
| "parse_members (Suc f) s =
     (case skip_ws s of
        [] \<Rightarrow> None
      | q # r \<Rightarrow>
          if q \<noteq> dquote then None
          else (case unquote r of
                  None \<Rightarrow> None
                | Some (k, t) \<Rightarrow>
                    if take 1 (skip_ws t) \<noteq> '':'' then None
                    else (case parse_val f (tl (skip_ws t)) of
                            None \<Rightarrow> None
                          | Some (v, u) \<Rightarrow>
                              (case skip_ws u of
                                 [] \<Rightarrow> None
                               | c # w \<Rightarrow>
                                   if c = CHR '','' then
                                     map_option (\<lambda>(ms, x). ((k, v) # ms, x)) (parse_members f w)
                                   else if c = CHR ''}'' then Some ([(k, v)], w)
                                   else None))))"

definition json_fuel :: "string \<Rightarrow> nat" where
  "json_fuel s = 2 * length s + 2"

text \<open>\<^verbatim>\<open>Decoder.Decode\<close>: the first value of a stream, whatever follows it.\<close>

definition json_decode :: "bytes \<Rightarrow> json option" where
  "json_decode s = map_option fst (parse_val (json_fuel s) s)"

text \<open>\<^verbatim>\<open>json.Unmarshal\<close>: the whole text is one value.\<close>

definition json_unmarshal :: "bytes \<Rightarrow> json option" where
  "json_unmarshal s =
     (case parse_val (json_fuel s) s of
        None \<Rightarrow> None
      | Some (v, t) \<Rightarrow> if skip_ws t = [] then Some v else None)"

text \<open>The values a written text can be read back to.\<close>

definition valid_num :: "string \<Rightarrow> bool" where
  "valid_num l = (scan_num l = Some (l, []))"

fun wf_json :: "json \<Rightarrow> bool"
and wf_elems :: "json list \<Rightarrow> bool"
and wf_members :: "(string \<times> json) list \<Rightarrow> bool" where
  "wf_json JNull = True"
| "wf_json (JBool b) = True"
| "wf_json (JNum l) = valid_num l"
| "wf_json (JStr s) = valid_utf8 s"
| "wf_json (JArr vs) = wf_elems vs"
| "wf_json (JObj ms) = wf_members ms"
| "wf_elems [] = True"
| "wf_elems (v # vs) = (wf_json v \<and> wf_elems vs)"
| "wf_members [] = True"
| "wf_members ((k, v) # ms) = (valid_utf8 k \<and> wf_json v \<and> wf_members ms)"

section \<open>Strings: writing and reading\<close>

declare valid_utf8.simps [simp del] esc.simps [simp del]

lemma cp_bounds [simp]: "0 \<le> cp c" "cp c < 256"
proof -
  have "cp c = int (of_char c)" by (simp add: cp_def of_nat_of_char)
  moreover have "(of_char c :: nat) < 256" by (rule nat_of_char_less_256)
  ultimately show "0 \<le> cp c" "cp c < 256" by linarith+
qed

lemma char_of_cp [simp]: "char_of (cp c) = c"
  by (simp add: cp_def)

lemma utf8_len_le: "utf8_len s \<le> length s"
  by (auto simp: utf8_len_def split: list.splits)

lemma utf8_len_1_iff: "utf8_len s = Suc 0 \<longleftrightarrow> s \<noteq> [] \<and> cp (hd s) < 128"
  by (auto simp: utf8_len_def utf8_need_def utf8_ok_def split: list.splits if_splits)

lemma utf8_len_multi_hd: "1 < utf8_len s \<Longrightarrow> 128 \<le> cp (hd s)"
  by (auto simp: utf8_len_def utf8_need_def split: list.splits if_splits)

text \<open>The bytes of a sequence determine it, whatever follows.\<close>

lemma utf8_len_take: "utf8_len s \<noteq> 0 \<Longrightarrow> utf8_len (take (utf8_len s) s @ t) = utf8_len s"
  by (cases s) (auto simp: utf8_len_def take_Cons' split: if_splits)

lemma hex_val_hexc [simp]: "0 \<le> d \<Longrightarrow> d < 16 \<Longrightarrow> hex_val (hexc d) = Some d"
  by (auto simp: hex_val_def hexc_def cp_def of_char_of)

lemma hex_val_0 [simp]: "hex_val (CHR ''0'') = Some 0"
  by (simp add: hex_val_def cp_def)

lemma unescape_u_byte:
  "cp c < 128 \<Longrightarrow>
     unescape_u (CHR ''0'' # CHR ''0'' # hexc (cp c div 16) # hexc (cp c mod 16) # t) = Some ([c], t)"
proof -
  assume c: "cp c < 128"
  have hi: "0 \<le> cp c div 16" "cp c div 16 < 16" and lo: "0 \<le> cp c mod 16" "cp c mod 16 < 16"
    using cp_bounds [of c] by linarith+
  have v: "16 * (cp c div 16) + cp c mod 16 = cp c" by simp
  show ?thesis
    using hi lo c v by (simp add: unescape_u_def surrogate_def utf8_encode_def)
qed

lemma string_unit_ascii: "cp c < 128 \<Longrightarrow> string_unit (esc_ascii c @ t) = Some ([c], t)"
proof -
  assume c: "cp c < 128"
  then have "utf8_len (c # t) = 1"
    by (simp add: utf8_len_def utf8_need_def utf8_ok_def)
  with c show ?thesis
    by (auto simp: string_unit_def esc_ascii_def unescape_u_byte unescape1_def bslash_def dquote_def)
qed

lemma unescape_u_2028: "unescape_u (''2028'' @ t) = Some ([CHR 0xE2, CHR 0x80, CHR 0xA8], t)"
  by (simp add: unescape_u_def surrogate_def utf8_encode_def hex_val_def cp_def)
     (simp add: char_of_def)

lemma unescape_u_2029: "unescape_u (''2029'' @ t) = Some ([CHR 0xE2, CHR 0x80, CHR 0xA9], t)"
  by (simp add: unescape_u_def surrogate_def utf8_encode_def hex_val_def cp_def)
     (simp add: char_of_def)

lemma string_unit_plain:
  assumes "u \<noteq> []" and "128 \<le> cp (hd u)" and "utf8_len (u @ t) = length u"
  shows "string_unit (u @ t) = Some (u, t)"
proof -
  from assms(1) obtain c r where u: "u = c # r" by (cases u) auto
  have "c \<noteq> bslash" using assms(2) u by (auto simp: bslash_def cp_def)
  with assms u show ?thesis by (simp add: string_unit_def)
qed

lemma string_unit_multi:
  assumes "1 < utf8_len s"
  shows "string_unit (esc_multi (take (utf8_len s) s) @ t) = Some (take (utf8_len s) s, t)"
proof -
  let ?u = "take (utf8_len s) s"
  have "?u \<noteq> []" and "hd ?u = hd s" and "length ?u = utf8_len s"
    using assms utf8_len_le [of s] by (auto simp: hd_take)
  moreover have "utf8_len (?u @ t) = utf8_len s"
    using assms by (simp add: utf8_len_take)
  ultimately have "string_unit (?u @ t) = Some (?u, t)"
    using utf8_len_multi_hd [OF assms] by (intro string_unit_plain) simp_all
  then show ?thesis
    using unescape_u_2028 [of t] unescape_u_2029 [of t]
    by (auto simp: esc_multi_def string_unit_def bslash_def)
qed

lemma esc_ascii_shape: "cp c < 128 \<Longrightarrow> \<exists>x r. esc_ascii c = x # r \<and> x \<noteq> dquote"
  by (auto simp: esc_ascii_def bslash_def dquote_def)

lemma esc_multi_shape:
  assumes "1 < utf8_len s"
  shows "\<exists>x r. esc_multi (take (utf8_len s) s) = x # r \<and> x \<noteq> dquote"
proof -
  have "128 \<le> cp (hd s)" by (rule utf8_len_multi_hd [OF assms])
  moreover have "s \<noteq> []" using assms by (auto simp: utf8_len_def)
  ultimately show ?thesis
    using assms by (cases s) (auto simp: esc_multi_def bslash_def dquote_def cp_def take_Cons')
qed

text \<open>One written unit in front of the rest of the string body.\<close>

lemma parse_string_unit:
  assumes "\<exists>x r. e = x # r \<and> x \<noteq> dquote" and "string_unit (e @ t) = Some (u, t)"
  shows "parse_string (Suc f) (e @ t) = map_option (\<lambda>(x, y). (u @ x, y)) (parse_string f t)"
  using assms by (auto split: list.splits)

lemma parse_string_esc:
  "valid_utf8 s \<Longrightarrow> length s < f \<Longrightarrow> parse_string f (esc s @ dquote # rest) = Some (s, rest)"
proof (induction s arbitrary: f rule: esc.induct)
  case (1 s)
  obtain f' where f: "f = Suc f'" using "1.prems" by (cases f) auto
  let ?n = "utf8_len s"
  show ?case
  proof (cases "s = []")
    case True
    then show ?thesis by (simp add: esc.simps f)
  next
    case False
    with "1.prems"(1) have n: "?n \<noteq> 0" and v: "valid_utf8 (drop ?n s)"
      by (subst (asm) valid_utf8.simps, simp split: if_splits)+
    show ?thesis
    proof (cases "?n = 1")
      case True
      with False have c: "cp (hd s) < 128" by (simp add: utf8_len_1_iff)
      have "parse_string f' (esc (tl s) @ dquote # rest) = Some (tl s, rest)"
        using "1.IH"(2) [of f'] False True v "1.prems"(2) f by (cases s) (auto simp: drop_Suc)
      moreover have "esc s = esc_ascii (hd s) @ esc (tl s)"
        using False True by (subst esc.simps) simp
      ultimately show ?thesis
        using parse_string_unit [OF esc_ascii_shape [OF c] string_unit_ascii [OF c]] False f
        by simp
    next
      case m: False
      with n have m1: "1 < ?n" by simp
      have "length (drop ?n s) < f'"
        using "1.prems"(2) f m1 False by (cases s) auto
      then have "parse_string f' (esc (drop ?n s) @ dquote # rest) = Some (drop ?n s, rest)"
        using "1.IH"(3) [of f'] False m n v by simp
      moreover have "esc s = esc_multi (take ?n s) @ esc (drop ?n s)"
        using False m n by (subst esc.simps) simp
      ultimately show ?thesis
        using parse_string_unit [OF esc_multi_shape [OF m1] string_unit_multi [OF m1]] f by simp
    qed
  qed
qed

lemma length_esc: "valid_utf8 s \<Longrightarrow> length s \<le> length (esc s)"
proof (induction s rule: esc.induct)
  case (1 s)
  let ?n = "utf8_len s"
  show ?case
  proof (cases "s = []")
    case False
    with "1.prems" have n: "?n \<noteq> 0" and v: "valid_utf8 (drop ?n s)"
      by (subst (asm) valid_utf8.simps, simp split: if_splits)+
    show ?thesis
    proof (cases "?n = 1")
      case True
      have "1 \<le> length (esc_ascii (hd s))" by (simp add: esc_ascii_def)
      with "1.IH"(2) False True v show ?thesis
        by (subst esc.simps) (cases s, auto simp: drop_Suc)
    next
      case m: False
      have "?n \<le> length (esc_multi (take ?n s))"
        using utf8_len_le [of s]
        by (auto simp: esc_multi_def dest: arg_cong [where f = length])
      with "1.IH"(3) False m n v utf8_len_le [of s] show ?thesis
        by (subst esc.simps) simp
    qed
  qed simp
qed

lemma unquote_esc: "valid_utf8 s \<Longrightarrow> unquote (esc s @ dquote # rest) = Some (s, rest)"
  unfolding unquote_def using length_esc [of s] by (intro parse_string_esc) simp_all

section \<open>Numbers: writing and reading\<close>

text \<open>What may follow a number so that its literal ends there.\<close>

definition num_stop :: "string \<Rightarrow> bool" where
  "num_stop r =
     (case r of [] \<Rightarrow> True | c # _ \<Rightarrow> \<not> is_digit c \<and> c \<noteq> CHR ''.'' \<and> c \<noteq> CHR ''e'' \<and> c \<noteq> CHR ''E'')"

lemma num_stop_digits:
  assumes "num_stop r"
  shows "takeWhile is_digit (s @ r) = takeWhile is_digit s"
    and "dropWhile is_digit (s @ r) = dropWhile is_digit s @ r"
proof -
  have "takeWhile is_digit r = []" and "dropWhile is_digit r = r"
    using assms by (cases r; simp add: num_stop_def)+
  then show "takeWhile is_digit (s @ r) = takeWhile is_digit s"
    and "dropWhile is_digit (s @ r) = dropWhile is_digit s @ r"
    by (induction s) auto
qed

lemma scan_int_append:
  "scan_int s = Some (i, b) \<Longrightarrow> num_stop r \<Longrightarrow> scan_int (s @ r) = Some (i, b @ r)"
  by (cases s) (auto simp: scan_int_def num_stop_digits split: if_splits)

lemma scan_frac_append:
  "scan_frac s = Some (i, b) \<Longrightarrow> num_stop r \<Longrightarrow> scan_frac (s @ r) = Some (i, b @ r)"
  by (cases s; cases r) (auto simp: scan_frac_def num_stop_digits num_stop_def split: if_splits)

lemma scan_exp_append:
  assumes "scan_exp s = Some (i, b)" and "num_stop r"
  shows "scan_exp (s @ r) = Some (i, b @ r)"
proof (cases s)
  case Nil
  with assms show ?thesis
    by (cases r) (auto simp: scan_exp_def num_stop_def)
next
  case (Cons c t)
  show ?thesis
  proof (cases "c = CHR ''e'' \<or> c = CHR ''E''")
    case True
    with assms Cons have "t \<noteq> []"
      by (auto simp: scan_exp_def split_exp_sign_def)
    then have "split_exp_sign (t @ r) = (fst (split_exp_sign t), snd (split_exp_sign t) @ r)"
      by (cases t) (auto simp: split_exp_sign_def)
    with True assms Cons show ?thesis
      by (auto simp: scan_exp_def num_stop_digits split: if_splits prod.splits)
  next
    case False
    with assms(1) Cons have "i = []" and "b = s"
      by (simp_all add: scan_exp_def)
    with False Cons show ?thesis
      by (simp add: scan_exp_def)
  qed
qed

lemma scan_num_append:
  assumes "valid_num l" and "num_stop r"
  shows "scan_num (l @ r) = Some (l, r)"
proof -
  obtain m a where ma: "split_minus l = (m, a)" by fastforce
  from assms(1) obtain i b q c x where s: "scan_int a = Some (i, b)" "scan_frac b = Some (q, c)"
      "scan_exp c = Some (x, [])" "l = m @ i @ q @ x"
    by (auto simp: valid_num_def scan_num_def ma split: option.splits)
  have "l \<noteq> []"
    using ma s(1) by (auto simp: split_minus_def scan_int_def)
  then have "split_minus (l @ r) = (m, a @ r)"
    using ma by (cases l) (auto simp: split_minus_def split: if_splits)
  with s scan_int_append [OF s(1) assms(2)] scan_frac_append [OF s(2) assms(2)]
    scan_exp_append [OF s(3) assms(2)]
  show ?thesis
    by (simp add: scan_num_def)
qed

lemma format_nat_hd: "0 < n \<Longrightarrow> hd (format_nat n) \<noteq> CHR ''0''"
proof (induction n rule: format_nat.induct)
  case (1 n)
  show ?case
  proof (cases "n < 10")
    case True
    with "1.prems" show ?thesis
      by (subst format_nat.simps) (auto simp: digit_char_def dest: arg_cong [where f = "of_char :: char \<Rightarrow> int"])
  next
    case False
    then have "0 < n div 10" by simp
    with "1.IH" False have "hd (format_nat (n div 10)) \<noteq> CHR ''0''" by simp
    with False show ?thesis
      by (subst format_nat.simps) simp
  qed
qed

lemma scan_int_format_nat: "0 \<le> n \<Longrightarrow> scan_int (format_nat n) = Some (format_nat n, [])"
proof (cases "n = 0")
  case True
  then show ?thesis
    by (simp add: format_nat.simps scan_int_def digit_char_def) (simp add: char_of_def)
next
  case False
  assume "0 \<le> n"
  with False have "hd (format_nat n) \<noteq> CHR ''0''" by (simp add: format_nat_hd)
  moreover have d: "\<forall>c \<in> set (format_nat n). is_digit c"
    using format_nat_digits [OF \<open>0 \<le> n\<close>] by (simp add: list_all_iff)
  moreover have "takeWhile is_digit (format_nat n) = format_nat n"
    and "dropWhile is_digit (format_nat n) = []"
    using d by (simp_all add: takeWhile_eq_all_conv dropWhile_eq_Nil_conv)
  ultimately show ?thesis
    by (cases "format_nat n") (simp_all add: scan_int_def)
qed

lemma valid_num_FormatInt [simp]: "valid_num (FormatInt n)"
proof -
  have "split_minus (format_nat \<bar>n\<bar>) = ([], format_nat \<bar>n\<bar>)"
    using format_nat_digits [of "\<bar>n\<bar>"] is_digit_not_sign
    by (cases "format_nat \<bar>n\<bar>") (auto simp: split_minus_def)
  moreover have "scan_int (format_nat \<bar>n\<bar>) = Some (format_nat \<bar>n\<bar>, [])"
    by (simp add: scan_int_format_nat)
  moreover have "split_minus (CHR ''-'' # t) = (''-'', t)" for t
    by (simp add: split_minus_def)
  ultimately show ?thesis
    by (cases "n < 0") (simp_all add: valid_num_def scan_num_def FormatInt_def scan_frac_def scan_exp_def)
qed

section \<open>Values: writing and reading\<close>

text \<open>Fuel a value needs, and that its text is long enough to provide it.\<close>

fun need :: "json \<Rightarrow> nat"
and need_elems :: "json list \<Rightarrow> nat"
and need_members :: "(string \<times> json) list \<Rightarrow> nat" where
  "need (JArr vs) = Suc (need_elems vs)"
| "need (JObj ms) = Suc (need_members ms)"
| "need v = 1"
| "need_elems [] = 0"
| "need_elems (v # vs) = Suc (need v + need_elems vs)"
| "need_members [] = 0"
| "need_members ((k, v) # ms) = Suc (need v + need_members ms)"

lemma valid_num_ne: "valid_num l \<Longrightarrow> l \<noteq> []"
  by (auto simp: valid_num_def scan_num_def split_minus_def scan_int_def)

lemma need_print:
  "wf_json v \<Longrightarrow> need v \<le> 2 * length (print_json ind d v)"
  "wf_elems vs \<Longrightarrow> need_elems vs \<le> 2 * length (print_elems ind d vs)"
  "wf_members ms \<Longrightarrow> need_members ms \<le> 2 * length (print_members ind d ms)"
proof (induction ind d v and ind d vs and ind d ms
    rule: print_json_print_elems_print_members.induct)
  case (3 ind d l)
  then show ?case using valid_num_ne by (cases l) auto
qed (auto simp: quote_def)

lemma skip_ws_nl [simp]: "skip_ws (nl ind d @ s) = skip_ws s"
proof -
  have "dropWhile is_ws (replicate n (CHR 0x20) @ s) = dropWhile is_ws s" for n
    by (induction n) (simp_all add: is_ws_def)
  then show ?thesis
    by (simp add: skip_ws_def nl_def is_ws_def)
qed

lemma parse_val_nl [simp]: "parse_val f (nl ind d @ s) = parse_val f s"
  by (cases f) simp_all

lemma parse_members_nl [simp]: "parse_members f (nl ind d @ s) = parse_members f s"
  by (cases f) simp_all

lemma num_stop_nl: "num_stop s \<Longrightarrow> num_stop (nl ind d @ s)"
  by (cases ind) (simp_all add: nl_def num_stop_def is_digit_def)

lemma skip_ws_cons [simp]: "\<not> is_ws c \<Longrightarrow> skip_ws (c # s) = c # s"
  by (simp add: skip_ws_def)

lemma is_ws_punct [simp]:
  "\<not> is_ws CHR '',''" "\<not> is_ws CHR '']''" "\<not> is_ws CHR ''}''" "\<not> is_ws CHR '':''"
  "\<not> is_ws CHR ''[''" "\<not> is_ws CHR ''{''" "\<not> is_ws dquote"
  by (simp_all add: is_ws_def dquote_def)

lemma num_stop_punct [simp]:
  "num_stop (CHR '','' # s)" "num_stop (CHR '']'' # s)" "num_stop (CHR ''}'' # s)" "num_stop []"
  by (simp_all add: num_stop_def is_digit_def)

lemma num_stop_tail_elems: "num_stop (print_elems ind d xs @ nl ind d' @ CHR '']'' # rest)"
  by (cases xs) (simp_all add: num_stop_nl)

lemma num_stop_tail_members: "num_stop (print_members ind d ms @ nl ind d' @ CHR ''}'' # rest)"
  by (cases ms) (auto simp: num_stop_nl split: prod.splits)

lemma scan_num_hd: "valid_num l \<Longrightarrow> is_digit (hd l) \<or> hd l = CHR ''-''"
  by (cases l) (auto simp: valid_num_def scan_num_def split_minus_def scan_int_def is_digit_def split: if_splits)

lemma parse_val_num:
  assumes "valid_num l" and "num_stop r"
  shows "parse_val (Suc f) (l @ r) = Some (JNum l, r)"
proof -
  from valid_num_ne [OF assms(1)] obtain c t where l: "l = c # t" by (cases l) auto
  have c: "is_digit c \<or> c = CHR ''-''" using scan_num_hd [OF assms(1)] l by simp
  then have "\<not> is_ws c" and "c \<notin> {CHR ''{'', CHR ''['', dquote, CHR ''t'', CHR ''f'', CHR ''n''}"
    by (auto simp: is_digit_def is_ws_def dquote_def)
  moreover have "scan_num (c # t @ r) = Some (l, r)"
    using scan_num_append [OF assms] l by simp
  ultimately show ?thesis
    by (auto simp: l)
qed

lemma colon_read [simp]: "take (Suc 0) (skip_ws (colon ind @ s)) = '':''"
  "tl (skip_ws (colon ind @ s)) = (if ind then CHR '' '' # s else s)"
  by (simp_all add: colon_def)

lemma parse_val_space [simp]: "parse_val f (CHR '' '' # s) = parse_val f s"
  by (cases f) (simp_all add: skip_ws_def is_ws_def)

text \<open>A value already read, followed by the rest of its array or object.\<close>

definition reads :: "json \<Rightarrow> bool \<Rightarrow> nat \<Rightarrow> bool" where
  "reads v ind d \<longleftrightarrow>
     (\<forall>f rest. need v \<le> f \<longrightarrow> num_stop rest \<longrightarrow>
        parse_val f (print_json ind d v @ rest) = Some (v, rest))"

lemma reads_elems:
  assumes "\<forall>x \<in> set xs. reads x ind d"
    and "parse_val f s = Some (v, print_elems ind d xs @ nl ind d' @ CHR '']'' # rest)"
    and "need_elems xs \<le> f"
  shows "parse_elems (Suc f) s = Some (v # xs, rest)"
  using assms
proof (induction xs arbitrary: f s v)
  case Nil
  then show ?case by simp
next
  case (Cons x xs)
  from Cons.prems(3) obtain f' where f: "f = Suc f'" by (cases f) auto
  let ?t = "print_elems ind d xs @ nl ind d' @ CHR '']'' # rest"
  have "parse_val f' (print_json ind d x @ ?t) = Some (x, ?t)"
    using Cons.prems(1,3) f num_stop_tail_elems by (simp add: reads_def)
  then have "parse_elems (Suc f') (nl ind d @ print_json ind d x @ ?t) = Some (x # xs, rest)"
    using Cons.prems(1,3) f by (intro Cons.IH) simp_all
  with Cons.prems(2) f show ?case by simp
qed

lemma parse_val_bracket: "skip_ws s = CHR '']'' # r \<Longrightarrow> parse_val f s = None"
  by (cases f) (simp_all add: scan_num_def split_minus_def scan_int_def is_digit_def dquote_def)

lemma parse_val_not_bracket: "parse_val f s = Some x \<Longrightarrow> take (Suc 0) (skip_ws s) \<noteq> '']''"
  using parse_val_bracket [of s "tl (skip_ws s)" f] by (cases "skip_ws s") auto

lemma parse_members_comma:
  assumes "valid_utf8 k" and "parse_val f s = Some (v, CHR '','' # w)"
  shows "parse_members (Suc f) (quote k @ colon ind @ s) =
      map_option (\<lambda>(ms, x). ((k, v) # ms, x)) (parse_members f w)"
  using assms by (simp add: quote_def unquote_esc)

lemma reads_members:
  assumes "\<forall>m \<in> set ms. valid_utf8 (fst m) \<and> reads (snd m) ind d"
    and "valid_utf8 k"
    and "parse_val f s = Some (v, print_members ind d ms @ nl ind d' @ CHR ''}'' # rest)"
    and "need_members ms \<le> f"
  shows "parse_members (Suc f) (quote k @ colon ind @ s) = Some ((k, v) # ms, rest)"
  using assms
proof (induction ms arbitrary: f s k v)
  case Nil
  then show ?case by (simp add: quote_def unquote_esc)
next
  case (Cons m ms)
  obtain k' v' where m: "m = (k', v')" by fastforce
  from Cons.prems(4) m obtain f' where f: "f = Suc f'" by (cases f) auto
  let ?t = "print_members ind d ms @ nl ind d' @ CHR ''}'' # rest"
  have "parse_val f' (print_json ind d v' @ ?t) = Some (v', ?t)"
    using Cons.prems(1,4) f m num_stop_tail_members by (simp add: reads_def)
  then have "parse_members (Suc f') (quote k' @ colon ind @ print_json ind d v' @ ?t)
      = Some ((k', v') # ms, rest)"
    using Cons.prems(1,4) f m by (intro Cons.IH) simp_all
  with Cons.prems(2,3) f m show ?case
    by (simp add: parse_members_comma del: parse_members.simps)
qed

lemma wf_elems_iff: "wf_elems vs \<longleftrightarrow> (\<forall>v \<in> set vs. wf_json v)"
  by (induction vs) auto

lemma wf_members_iff: "wf_members ms \<longleftrightarrow> (\<forall>m \<in> set ms. valid_utf8 (fst m) \<and> wf_json (snd m))"
  by (induction ms) auto

lemma reads_all:
  "wf_json v \<Longrightarrow> reads v ind d"
  "wf_elems vs \<Longrightarrow> \<forall>x \<in> set vs. reads x ind d"
  "wf_members ms \<Longrightarrow> \<forall>m \<in> set ms. valid_utf8 (fst m) \<and> reads (snd m) ind d"
proof (induction ind d v and ind d vs and ind d ms
    rule: print_json_print_elems_print_members.induct)
  case (3 ind d l)
  show ?case
    unfolding reads_def
  proof (intro allI impI)
    fix f rest
    assume "need (JNum l) \<le> f" and "num_stop rest"
    with "3.prems" show "parse_val f (print_json ind d (JNum l) @ rest) = Some (JNum l, rest)"
      by (cases f) (simp_all add: parse_val_num del: parse_val.simps)
  qed
next
  case (6 ind d x xs)
  show ?case
    unfolding reads_def
  proof (intro allI impI)
    fix f rest
    assume f: "need (JArr (x # xs)) \<le> f"
    then obtain g where g: "f = Suc (Suc g)" by (cases f; cases "f - 1") auto
    let ?t = "print_elems ind (Suc d) xs @ nl ind d @ CHR '']'' # rest"
    have x: "parse_val g (print_json ind (Suc d) x @ ?t) = Some (x, ?t)"
      using 6 f g num_stop_tail_elems by (simp add: reads_def)
    have "parse_elems (Suc g) (nl ind (Suc d) @ print_json ind (Suc d) x @ ?t) = Some (x # xs, rest)"
      using 6 f g x by (intro reads_elems) simp_all
    moreover have "take (Suc 0) (skip_ws (print_json ind (Suc d) x @ ?t)) \<noteq> '']''"
      using x by (rule parse_val_not_bracket)
    ultimately show "parse_val f (print_json ind d (JArr (x # xs)) @ rest) = Some (JArr (x # xs), rest)"
      by (simp add: g del: parse_elems.simps)
  qed
next
  case (8 ind d k v ms)
  show ?case
    unfolding reads_def
  proof (intro allI impI)
    fix f rest
    assume f: "need (JObj ((k, v) # ms)) \<le> f"
    then obtain g where g: "f = Suc (Suc g)" by (cases f; cases "f - 1") auto
    let ?t = "print_members ind (Suc d) ms @ nl ind d @ CHR ''}'' # rest"
    have "parse_val g (print_json ind (Suc d) v @ ?t) = Some (v, ?t)"
      using 8 f g num_stop_tail_members by (simp add: reads_def)
    then have "parse_members (Suc g) (quote k @ colon ind @ print_json ind (Suc d) v @ ?t)
        = Some ((k, v) # ms, rest)"
      using 8 f g by (intro reads_members) simp_all
    then show "parse_val f (print_json ind d (JObj ((k, v) # ms)) @ rest) = Some (JObj ((k, v) # ms), rest)"
      by (simp add: g quote_def dquote_def is_ws_def del: parse_members.simps)
  qed
next
  case (4 ind d s)
  then show ?case
    by (auto simp: reads_def quote_def unquote_esc Suc_le_eq gr0_conv_Suc)
       (simp_all add: dquote_def)
qed (auto simp: reads_def Suc_le_eq gr0_conv_Suc is_ws_def dquote_def)

text \<open>Reading a written value returns it, in both layouts, whatever text follows.\<close>

lemma parse_print:
  assumes "wf_json v" and "num_stop rest" and "2 * length (print_json ind d v) \<le> f"
  shows "parse_val f (print_json ind d v @ rest) = Some (v, rest)"
proof -
  have "need v \<le> f"
    using need_print(1) [OF assms(1), of ind d] assms(3) by simp
  with reads_all(1) [OF assms(1)] assms(2) show ?thesis
    by (simp add: reads_def)
qed

lemma unmarshal_print: "wf_json v \<Longrightarrow> json_unmarshal (print_json ind d v) = Some v"
  using parse_print [of v "[]" ind d "json_fuel (print_json ind d v)"]
  by (simp add: json_unmarshal_def json_fuel_def skip_ws_def)

lemma decode_print:
  assumes "wf_json v" and "num_stop rest"
  shows "json_decode (print_json ind d v @ rest) = Some v"
  using parse_print [OF assms, of ind d "json_fuel (print_json ind d v @ rest)"]
  by (simp add: json_decode_def json_fuel_def)

lemma unmarshal_marshal [simp]: "wf_json v \<Longrightarrow> json_unmarshal (json_marshal v) = Some v"
  by (simp add: json_marshal_def unmarshal_print)

lemma unmarshal_marshal_indent [simp]: "wf_json v \<Longrightarrow> json_unmarshal (json_marshal_indent v) = Some v"
  by (simp add: json_marshal_indent_def unmarshal_print)

section \<open>The fuel is enough\<close>

lemma length_skip_ws: "length (skip_ws s) \<le> length s"
  by (simp add: skip_ws_def length_dropWhile_le)

lemma skip_ws_Cons_length: "skip_ws s = c # r \<Longrightarrow> length r < length s"
  using length_skip_ws [of s] by simp

lemma hex4_length: "hex4 s = Some (r, t) \<Longrightarrow> length t < length s"
  by (cases s rule: hex4.cases) (auto split: option.splits)

lemma unescape_u_length: "unescape_u s = Some (u, t) \<Longrightarrow> length t < length s"
  by (auto simp: unescape_u_def dest!: hex4_length split: option.splits if_splits)

lemma string_unit_length: "string_unit s = Some (u, t) \<Longrightarrow> length t < length s"
  by (cases s) (auto simp: string_unit_def dest!: unescape_u_length split: list.splits if_splits)

lemma parse_string_length: "parse_string f s = Some (u, t) \<Longrightarrow> length t < length s"
  by (induction f arbitrary: s u t)
     (fastforce split: list.splits if_splits option.splits dest!: string_unit_length)+

lemma unquote_length: "unquote s = Some (u, t) \<Longrightarrow> length t < length s"
  by (simp add: unquote_def parse_string_length del: parse_string.simps)

lemma scan_length:
  "scan_int s = Some (i, b) \<Longrightarrow> length b < length s"
  "scan_frac s = Some (i, b) \<Longrightarrow> length b \<le> length s"
  by (auto simp: scan_int_def scan_frac_def length_dropWhile_le less_Suc_eq_le le_SucI
      split: list.splits if_splits)

lemma split_exp_sign_length: "split_exp_sign r = (g, t) \<Longrightarrow> length t \<le> length r"
  by (auto simp: split_exp_sign_def split: list.splits if_splits)

lemma scan_exp_length: "scan_exp s = Some (i, b) \<Longrightarrow> length b \<le> length s"
proof (cases s)
  case (Cons c r)
  assume "scan_exp s = Some (i, b)"
  moreover obtain g t where gt: "split_exp_sign r = (g, t)" by fastforce
  moreover have "length (dropWhile is_digit t) \<le> length r"
    using split_exp_sign_length [OF gt] length_dropWhile_le [of is_digit t] by simp
  ultimately show ?thesis
    using Cons by (auto simp: scan_exp_def split: if_splits)
qed (simp add: scan_exp_def)

lemma scan_num_length: "scan_num s = Some (l, t) \<Longrightarrow> length t < length s"
proof -
  assume "scan_num s = Some (l, t)"
  moreover obtain m a where "split_minus s = (m, a)" by fastforce
  moreover from this have "length a \<le> length s"
    by (auto simp: split_minus_def split: list.splits if_splits)
  ultimately show ?thesis
    by (auto simp: scan_num_def dest!: scan_length scan_exp_length split: option.splits)
qed

lemma parse_length:
  "parse_val f s = Some (v, t) \<Longrightarrow> length t < length s"
  "parse_elems f s = Some (vs, t) \<Longrightarrow> length t < length s"
  "parse_members f s = Some (ms, t) \<Longrightarrow> length t < length s"
proof (induction f arbitrary: s v vs ms t)
  case 0
  { case 1 then show ?case by simp }
  { case 2 then show ?case by simp }
  { case 3 then show ?case by simp }
next
  case (Suc f)
  { case 1
    have tl: "length (tl (skip_ws r)) \<le> length r" for r
      using length_skip_ws [of r] by simp
    from 1 show ?case
      by (auto split: list.splits if_splits
          dest!: skip_ws_Cons_length Suc.IH unquote_length scan_num_length
          intro: le_less_trans [OF tl]) }
  { case 2
    then show ?case
      by (auto split: list.splits if_splits option.splits prod.splits
          dest!: skip_ws_Cons_length Suc.IH) }
  { case 3
    then obtain q r k u v w c x where s: "skip_ws s = q # r" "unquote r = Some (k, u)"
        "parse_val f (tl (skip_ws u)) = Some (v, w)" "skip_ws w = c # x" 
        and t: "t = x \<or> (\<exists>ms'. parse_members f x = Some (ms', t))"
      by (auto split: list.splits if_splits option.splits prod.splits)
    have "length (tl (skip_ws u)) \<le> length u" using length_skip_ws [of u] by simp
    with s(1-4) t Suc.IH(1) [OF s(3)] Suc.IH(3) [of x _ t] show ?case
      by (auto dest!: skip_ws_Cons_length unquote_length) }
qed

lemma parse_fuel_mono:
  "2 * length s + 1 \<le> f \<Longrightarrow> parse_val (Suc f) s = parse_val f s"
  "2 * length s + 2 \<le> f \<Longrightarrow> parse_elems (Suc f) s = parse_elems f s"
  "2 * length s + 2 \<le> f \<Longrightarrow> parse_members (Suc f) s = parse_members f s"
proof (induction f arbitrary: s)
  case 0
  { case 1 then show ?case by simp }
  { case 2 then show ?case by simp }
  { case 3 then show ?case by simp }
next
  case (Suc f)
  { case 1
    have "parse_members (Suc f) r = parse_members f r \<and> parse_elems (Suc f) r = parse_elems f r"
      if "skip_ws s = c # r" for c r
      using skip_ws_Cons_length [OF that] 1 Suc.IH(2,3) [of r] by simp
    then show ?case
      by (subst (1 2) parse_val.simps) (auto split: list.splits) }
  { case 2
    have e: "parse_val (Suc f) s = parse_val f s"
      using 2 Suc.IH(1) by simp
    have "parse_elems (Suc f) u = parse_elems f u"
      if "parse_val f s = Some (v, t)" and "skip_ws t = c # u" for v t c u
      using parse_length(1) [OF that(1)] skip_ws_Cons_length [OF that(2)] 2 Suc.IH(2) [of u] by simp
    then show ?case
      by (subst (1 2) parse_elems.simps) (auto simp: e simp del: parse_val.simps split: list.splits option.splits) }
  { case 3
    have e: "parse_val (Suc f) (tl (skip_ws t)) = parse_val f (tl (skip_ws t))"
      if "skip_ws s = q # r" and "unquote r = Some (k, t)" for q r k t
      using skip_ws_Cons_length [OF that(1)] unquote_length [OF that(2)] length_skip_ws [of t] 3
        Suc.IH(1) [of "tl (skip_ws t)"] by simp
    have "parse_members (Suc f) w = parse_members f w"
      if "skip_ws s = q # r" and "unquote r = Some (k, t)"
        and "parse_val f (tl (skip_ws t)) = Some (v, u)" and "skip_ws u = c # w" for q r k t v u c w
      using skip_ws_Cons_length [OF that(1)] unquote_length [OF that(2)] length_skip_ws [of t]
        parse_length(1) [OF that(3)] skip_ws_Cons_length [OF that(4)] 3 Suc.IH(3) [of w] by simp
    with e show ?case
      by (subst (1 2) parse_members.simps) (auto simp del: parse_val.simps split: list.splits option.splits) }
qed

text \<open>Any fuel above \<open>json_fuel\<close> gives the same reading, so \<open>None\<close> is a syntax error.\<close>

lemma parse_fuel_enough: "parse_val (json_fuel s + n) s = parse_val (json_fuel s) s"
  by (induction n) (simp_all add: json_fuel_def parse_fuel_mono(1) del: parse_val.simps)

end
