(* ===== verification/Go_Json_Struct.thy ===== *)
theory Go_Json_Struct
  imports Go_Json
begin

text \<open>
  How \<^verbatim>\<open>encoding/json\<close> maps Go structs, maps, slices and pointers to JSON values.
  An encoder writes the members in field order and leaves out a zero \<^verbatim>\<open>omitempty\<close> field
  (\<open>opt_field\<close>). A decoder takes the current value of its target and the JSON value, and is
  \<open>None\<close> on a type mismatch: \<^verbatim>\<open>null\<close> leaves a scalar or struct as it is and clears a map,
  slice or pointer; an object's members are stored one after the other, a key naming the field
  it equals or, failing that, the first field equal up to letter case; unknown keys are skipped.

  The locale \<open>json_codec\<close> is the contract of a struct's encoder and decoder; lists, maps and
  pointers of such structs then round-trip too.
\<close>

section \<open>Encoding\<close>

definition opt_field :: "bool \<Rightarrow> string \<Rightarrow> json \<Rightarrow> (string \<times> json) list" where
  "opt_field omit k v = (if omit then [] else [(k, v)])"

definition enc_int :: "int \<Rightarrow> json" where
  "enc_int n = JNum (FormatInt n)"

text \<open>A nil slice is \<^verbatim>\<open>null\<close>; the program never marshals an empty non-nil one.\<close>

definition enc_list :: "('a \<Rightarrow> json) \<Rightarrow> 'a list \<Rightarrow> json" where
  "enc_list e xs = (if xs = [] then JNull else JArr (map e xs))"

definition enc_map :: "('a \<Rightarrow> json) \<Rightarrow> (string, 'a) fmap \<Rightarrow> json" where
  "enc_map e m = JObj (map (\<lambda>k. (k, e (the (fmlookup m k)))) (sorted_keys m))"

definition enc_ptr :: "('a \<Rightarrow> json) \<Rightarrow> 'a option \<Rightarrow> json" where
  "enc_ptr e p = (case p of None \<Rightarrow> JNull | Some x \<Rightarrow> e x)"

section \<open>Decoding\<close>

definition dec_string :: "string \<Rightarrow> json \<Rightarrow> string option" where
  "dec_string cur v = (case v of JNull \<Rightarrow> Some cur | JStr s \<Rightarrow> Some s | _ \<Rightarrow> None)"

definition dec_int :: "int \<Rightarrow> json \<Rightarrow> int option" where
  "dec_int cur v = (case v of JNull \<Rightarrow> Some cur | JNum l \<Rightarrow> ParseInt 64 l | _ \<Rightarrow> None)"

definition dec_bool :: "bool \<Rightarrow> json \<Rightarrow> bool option" where
  "dec_bool cur v = (case v of JNull \<Rightarrow> Some cur | JBool b \<Rightarrow> Some b | _ \<Rightarrow> None)"

definition ascii_lower :: "char \<Rightarrow> char" where
  "ascii_lower c = (if 65 \<le> cp c \<and> cp c \<le> 90 then char_of (cp c + 32) else c)"

definition find_field :: "string list \<Rightarrow> string \<Rightarrow> string option" where
  "find_field names k =
     (if k \<in> set names then Some k
      else List.find (\<lambda>n. map ascii_lower n = map ascii_lower k) names)"

fun dec_members ::
  "string list \<Rightarrow> (string \<Rightarrow> json \<Rightarrow> 'r \<Rightarrow> 'r option) \<Rightarrow> (string \<times> json) list \<Rightarrow> 'r \<Rightarrow> 'r option" where
  "dec_members names store [] r = Some r"
| "dec_members names store ((k, v) # ms) r =
     (case find_field names k of
        None \<Rightarrow> dec_members names store ms r
      | Some f \<Rightarrow>
          (case store f v r of None \<Rightarrow> None | Some r' \<Rightarrow> dec_members names store ms r'))"

definition dec_struct ::
  "string list \<Rightarrow> (string \<Rightarrow> json \<Rightarrow> 'r \<Rightarrow> 'r option) \<Rightarrow> 'r \<Rightarrow> json \<Rightarrow> 'r option" where
  "dec_struct names store cur v =
     (case v of JNull \<Rightarrow> Some cur | JObj ms \<Rightarrow> dec_members names store ms cur | _ \<Rightarrow> None)"

fun dec_elems :: "('a \<Rightarrow> json \<Rightarrow> 'a option) \<Rightarrow> 'a \<Rightarrow> json list \<Rightarrow> 'a list option" where
  "dec_elems d zero [] = Some []"
| "dec_elems d zero (v # vs) =
     (case d zero v of
        None \<Rightarrow> None
      | Some x \<Rightarrow> map_option (\<lambda>xs. x # xs) (dec_elems d zero vs))"

definition dec_list :: "('a \<Rightarrow> json \<Rightarrow> 'a option) \<Rightarrow> 'a \<Rightarrow> json \<Rightarrow> 'a list option" where
  "dec_list d zero v =
     (case v of JNull \<Rightarrow> Some [] | JArr vs \<Rightarrow> dec_elems d zero vs | _ \<Rightarrow> None)"

fun dec_entries ::
  "('a \<Rightarrow> json \<Rightarrow> 'a option) \<Rightarrow> 'a \<Rightarrow> (string \<times> json) list \<Rightarrow> (string, 'a) fmap \<Rightarrow> (string, 'a) fmap option" where
  "dec_entries d zero [] m = Some m"
| "dec_entries d zero ((k, v) # ms) m =
     (case d zero v of None \<Rightarrow> None | Some x \<Rightarrow> dec_entries d zero ms (fmupd k x m))"

definition dec_map ::
  "('a \<Rightarrow> json \<Rightarrow> 'a option) \<Rightarrow> 'a \<Rightarrow> (string, 'a) fmap \<Rightarrow> json \<Rightarrow> (string, 'a) fmap option" where
  "dec_map d zero cur v =
     (case v of JNull \<Rightarrow> Some fmempty | JObj ms \<Rightarrow> dec_entries d zero ms cur | _ \<Rightarrow> None)"

definition dec_ptr :: "('a \<Rightarrow> json \<Rightarrow> 'a option) \<Rightarrow> 'a \<Rightarrow> 'a option \<Rightarrow> json \<Rightarrow> 'a option option" where
  "dec_ptr d zero cur v =
     (case v of
        JNull \<Rightarrow> Some None
      | _ \<Rightarrow> map_option Some (d (case cur of None \<Rightarrow> zero | Some x \<Rightarrow> x) v))"

text \<open>\<^verbatim>\<open>struct{}\<close>: any object.\<close>

definition enc_unit :: "unit \<Rightarrow> json" where
  "enc_unit u = JObj []"

definition dec_unit :: "unit \<Rightarrow> json \<Rightarrow> unit option" where
  "dec_unit cur v = (case v of JNull \<Rightarrow> Some () | JObj _ \<Rightarrow> Some () | _ \<Rightarrow> None)"

section \<open>Lemmas\<close>

lemma dec_scalar [simp]:
  "dec_string cur (JStr s) = Some s"
  "dec_bool old (JBool b) = Some b"
  "in_int64 n \<Longrightarrow> dec_int i (enc_int n) = Some n"
  by (simp_all add: dec_string_def dec_bool_def dec_int_def enc_int_def)

lemma wf_enc_int [simp]: "wf_json (enc_int n)"
  by (simp add: enc_int_def)

lemma find_field_self [simp]: "k \<in> set names \<Longrightarrow> find_field names k = Some k"
  by (simp add: find_field_def)

text \<open>With field names that differ up to letter case, the field of a key does not depend on the order.\<close>

lemma find_field_iff:
  assumes "inj_on (map ascii_lower) (set names)"
  shows "find_field names k = Some f \<longleftrightarrow> f \<in> set names \<and> map ascii_lower f = map ascii_lower k"
proof (cases "k \<in> set names")
  case True
  have "f = k" if "f \<in> set names" "map ascii_lower f = map ascii_lower k"
    using assms that(2) that(1) True by (rule inj_onD)
  with True show ?thesis by (auto simp: find_field_def simp del: map_eq_conv)
next
  case False
  then have e: "find_field names k = List.find (\<lambda>n. map ascii_lower n = map ascii_lower k) names"
    by (simp add: find_field_def)
  show ?thesis
  proof
    assume "find_field names k = Some f"
    then show "f \<in> set names \<and> map ascii_lower f = map ascii_lower k"
      unfolding e by (auto simp: find_Some_iff)
  next
    assume f: "f \<in> set names \<and> map ascii_lower f = map ascii_lower k"
    then have "find_field names k \<noteq> None"
      unfolding e find_None_iff by blast
    then obtain g where g: "find_field names k = Some g" by blast
    then have "g \<in> set names \<and> map ascii_lower g = map ascii_lower k"
      unfolding e by (auto simp: find_Some_iff)
    then have "g = f" using f by (auto simp del: map_eq_conv intro!: inj_onD [OF assms, of g f])
    with g show "find_field names k = Some f" by simp
  qed
qed

lemma find_field_sub:
  assumes "inj_on (map ascii_lower) (set names)" and "set sub \<subseteq> set names"
  shows "find_field sub k =
    (case find_field names k of None \<Rightarrow> None | Some f \<Rightarrow> if f \<in> set sub then Some f else None)"
proof -
  have i: "inj_on (map ascii_lower) (set sub)"
    using assms by (rule inj_on_subset)
  show ?thesis
  proof (cases "find_field names k")
    case None
    then have "find_field sub k \<noteq> Some f" for f
      using find_field_iff [OF assms(1), of k f] find_field_iff [OF i, of k f] assms(2) by auto
    with None show ?thesis by (cases "find_field sub k") auto
  next
    case (Some f)
    then have f: "f \<in> set names" "map ascii_lower f = map ascii_lower k"
      using find_field_iff [OF assms(1), of k f] by auto
    have "find_field sub k = Some g \<longleftrightarrow> g = f \<and> f \<in> set sub" for g
    proof
      assume "find_field sub k = Some g"
      then have g: "g \<in> set sub" "map ascii_lower g = map ascii_lower f"
        using find_field_iff [OF i, of k g] f by simp_all
      then have "g = f" using f assms(2) by (auto simp del: map_eq_conv intro!: inj_onD [OF assms(1), of g f])
      with g show "g = f \<and> f \<in> set sub" by simp
    next
      assume "g = f \<and> f \<in> set sub"
      with f show "find_field sub k = Some g" using find_field_iff [OF i, of k g] by auto
    qed
    with Some show ?thesis by (cases "find_field sub k") auto
  qed
qed

lemma wf_members_append [simp]: "wf_members (a @ b) \<longleftrightarrow> wf_members a \<and> wf_members b"
  by (auto simp: wf_members_iff)

lemma wf_opt_field [simp]: "wf_members (opt_field c k v) \<longleftrightarrow> c \<or> (valid_utf8 k \<and> wf_json v)"
  by (simp add: opt_field_def)

text \<open>
  Storing an optional member: when it was left out, the target already has the value.
\<close>

lemma dec_opt_field:
  assumes "k \<in> set names" and "\<not> c \<Longrightarrow> store k v r = Some r'" and "c \<Longrightarrow> r' = r"
  shows "dec_members names store (opt_field c k v @ ms) r = dec_members names store ms r'"
  using assms by (cases c) (simp_all add: opt_field_def)

lemma dec_opt_field_last:
  assumes "k \<in> set names" and "\<not> c \<Longrightarrow> store k v r = Some r'" and "c \<Longrightarrow> r' = r"
  shows "dec_members names store (opt_field c k v) r = Some r'"
  using assms by (cases c) (simp_all add: opt_field_def)

lemma dec_struct_JObj [simp]: "dec_struct names store cur (JObj ms) = dec_members names store ms cur"
  by (simp add: dec_struct_def)

lemma dec_entries_spec:
  assumes "\<And>k. k \<in> set ks \<Longrightarrow> d zero (e (f k)) = Some (f k)"
  shows "dec_entries d zero (map (\<lambda>k. (k, e (f k))) ks) m =
    Some (fmadd m (fmap_of_list (rev (map (\<lambda>k. (k, f k)) ks))))"
  using assms
proof (induction ks arbitrary: m)
  case Nil
  have "fmadd m (fmap_of_list []) = m"
    by (rule fmap_ext) (simp add: fmlookup_of_list)
  then show ?case by simp
next
  case (Cons k ks)
  have "fmadd (fmupd k (f k) m) (fmap_of_list (rev (map (\<lambda>k. (k, f k)) ks))) =
      fmadd m (fmap_of_list (rev (map (\<lambda>k. (k, f k)) (k # ks))))"
    by (rule fmap_ext) (simp add: fmlookup_of_list map_add_def split: option.splits)
  with Cons show ?case by simp
qed

lemma dec_map_enc_map:
  assumes "\<And>k x. fmlookup m k = Some x \<Longrightarrow> d zero (e x) = Some x"
  shows "dec_map d zero fmempty (enc_map e m) = Some m"
proof -
  have "d zero (e (the (fmlookup m k))) = Some (the (fmlookup m k))" if "k \<in> set (sorted_keys m)" for k
    using that assms by (auto simp: fmlookup_dom_iff)
  then show ?thesis
    using dec_entries_spec [of "sorted_keys m" d zero e "\<lambda>k. the (fmlookup m k)" fmempty]
    by (simp add: dec_map_def enc_map_def fmap_of_sorted_keys)
qed

lemma wf_enc_map:
  assumes "\<And>k x. fmlookup m k = Some x \<Longrightarrow> valid_utf8 k \<and> wf_json (e x)"
  shows "wf_json (enc_map e m)"
  using assms by (auto simp: enc_map_def wf_members_iff fmlookup_dom_iff)

text \<open>A string map, the most frequent case.\<close>

definition utf8_map :: "gomap \<Rightarrow> bool" where
  "utf8_map m = fmpred (\<lambda>k v. valid_utf8 k \<and> valid_utf8 v) m"

lemma dec_strmap [simp]: "dec_map dec_string [] fmempty (enc_map JStr m) = Some m"
  by (rule dec_map_enc_map) simp

lemma wf_strmap [simp]: "utf8_map m \<Longrightarrow> wf_json (enc_map JStr m)"
  by (rule wf_enc_map) (auto simp: utf8_map_def dest: fmpredD)

lemma dec_strlist [simp]: "dec_list dec_string [] (enc_list JStr xs) = Some xs"
proof -
  have "dec_elems dec_string [] (map JStr xs) = Some xs" by (induction xs) auto
  then show ?thesis by (simp add: dec_list_def enc_list_def)
qed

lemma wf_strlist [simp]: "list_all valid_utf8 xs \<Longrightarrow> wf_json (enc_list JStr xs)"
  by (auto simp: enc_list_def wf_elems_iff list_all_iff)

lemma dec_unitmap [simp]: "dec_map dec_unit () fmempty (enc_map enc_unit m) = Some m"
  by (rule dec_map_enc_map) (simp add: dec_unit_def enc_unit_def)

lemma wf_unitmap [simp]: "fmpred (\<lambda>k _. valid_utf8 k) m \<Longrightarrow> wf_json (enc_map enc_unit m)"
  by (rule wf_enc_map) (auto simp: enc_unit_def dest: fmpredD)

section \<open>The contract of a struct codec\<close>

locale json_codec =
  fixes enc :: "'a \<Rightarrow> json"
    and dec :: "'a \<Rightarrow> json \<Rightarrow> 'a option"
    and zero :: 'a
    and wf :: "'a \<Rightarrow> bool"
  assumes dec_enc: "wf x \<Longrightarrow> dec zero (enc x) = Some x"
    and wf_enc: "wf x \<Longrightarrow> wf_json (enc x)"
    and enc_obj: "\<exists>ms. enc x = JObj ms"
begin

lemma unmarshal_enc: "wf x \<Longrightarrow> Option.bind (json_unmarshal (json_marshal (enc x))) (dec zero) = Some x"
  by (simp add: wf_enc dec_enc)

lemma unmarshal_enc_indent:
  "wf x \<Longrightarrow> Option.bind (json_unmarshal (json_marshal_indent (enc x))) (dec zero) = Some x"
  by (simp add: wf_enc dec_enc)

lemma dec_enc_list: "list_all wf xs \<Longrightarrow> dec_list dec zero (enc_list enc xs) = Some xs"
proof -
  assume "list_all wf xs"
  then have "dec_elems dec zero (map enc xs) = Some xs"
    by (induction xs) (simp_all add: dec_enc)
  then show ?thesis
    by (simp add: dec_list_def enc_list_def)
qed

lemma wf_enc_list: "list_all wf xs \<Longrightarrow> wf_json (enc_list enc xs)"
  by (auto simp: enc_list_def wf_elems_iff list_all_iff wf_enc)

lemma dec_enc_map: "fmpred (\<lambda>_. wf) m \<Longrightarrow> dec_map dec zero fmempty (enc_map enc m) = Some m"
  by (rule dec_map_enc_map) (auto intro: dec_enc dest: fmpredD)

lemma wf_enc_fmap: "fmpred (\<lambda>k x. valid_utf8 k \<and> wf x) m \<Longrightarrow> wf_json (enc_map enc m)"
  by (rule wf_enc_map) (auto intro: wf_enc dest: fmpredD)

lemma dec_enc_ptr: "pred_option wf p \<Longrightarrow> dec_ptr dec zero None (enc_ptr enc p) = Some p"
proof (cases p)
  case (Some x)
  assume "pred_option wf p"
  with Some have "wf x" by simp
  moreover obtain ms where "enc x = JObj ms" using enc_obj by blast
  ultimately show ?thesis
    using Some dec_enc [of x] by (simp add: dec_ptr_def enc_ptr_def)
qed (simp add: dec_ptr_def enc_ptr_def)

lemma wf_enc_ptr: "pred_option wf p \<Longrightarrow> wf_json (enc_ptr enc p)"
  by (cases p) (simp_all add: enc_ptr_def wf_enc)

end

end
