(* ===== verification/Oci_Manifest.thy ===== *)
theory Oci_Manifest
  imports Media_Types Go_Json_Struct
begin

text \<open>
  The wire types of \<^verbatim>\<open>manifest/types.go\<close>: descriptors, manifests and indexes, the snapshot
  config with its per-file metadata, their JSON form by the struct tags, \<^verbatim>\<open>Parse\<close>, and the
  classification of an artifact. A \<^verbatim>\<open>time.Time\<close> is its RFC 3339 text, the zero time the empty
  text; a nil pointer is \<open>None\<close>; nil and empty maps and slices, which no code here tells
  apart, are one value.

  The lemmas: each struct's encoder and decoder satisfy the contract \<open>json_codec\<close>, so a
  manifest or config that was written is read back as it was.
\<close>

section \<open>Types\<close>

datatype Kind = KindUnknown | KindContainerImage | KindCloudImage | KindSnapshot | KindImageIndex

record Descriptor =
  d_MediaType :: string
  d_Digest :: string
  d_Size :: int
  d_Annotations :: gomap
  d_ArtifactType :: string

record Platform =
  p_Architecture :: string
  p_OS :: string
  p_OSVersion :: string
  p_Variant :: string

record IndexManifest =
  i_MediaType :: string
  i_Digest :: string
  i_Size :: int
  i_Platform :: "Platform option"

record OCIManifest =
  m_SchemaVersion :: int
  m_MediaType :: string
  m_ArtifactType :: string
  m_Config :: Descriptor
  m_Layers :: "Descriptor list"
  m_Manifests :: "IndexManifest list"
  m_Subject :: "Descriptor option"
  m_Annotations :: gomap

record SnapshotFile =
  f_Mode :: int
  f_SparseMap :: string
  f_SparseSize :: int
  f_Size :: int
  f_Chunks :: "string list"

record SnapshotConfig =
  c_SchemaVersion :: string
  c_SnapshotID :: string
  c_Description :: string
  c_Image :: string
  c_ImageDigest :: string
  c_ImageType :: string
  c_ImageBlobIDs :: "(string, unit) fmap"
  c_Hypervisor :: string
  c_CPU :: int
  c_Memory :: int
  c_Storage :: int
  c_NICs :: int
  c_Network :: string
  c_Windows :: bool
  c_Files :: "(string, SnapshotFile) fmap"
  c_Engine :: "json option"
  c_CreatedAt :: string

definition zeroDescriptor :: Descriptor where
  "zeroDescriptor = \<lparr>d_MediaType = [], d_Digest = [], d_Size = 0, d_Annotations = fmempty,
     d_ArtifactType = []\<rparr>"

definition zeroPlatform :: Platform where
  "zeroPlatform = \<lparr>p_Architecture = [], p_OS = [], p_OSVersion = [], p_Variant = []\<rparr>"

definition zeroIndexManifest :: IndexManifest where
  "zeroIndexManifest = \<lparr>i_MediaType = [], i_Digest = [], i_Size = 0, i_Platform = None\<rparr>"

definition zeroManifest :: OCIManifest where
  "zeroManifest = \<lparr>m_SchemaVersion = 0, m_MediaType = [], m_ArtifactType = [],
     m_Config = zeroDescriptor, m_Layers = [], m_Manifests = [], m_Subject = None,
     m_Annotations = fmempty\<rparr>"

definition zeroFile :: SnapshotFile where
  "zeroFile = \<lparr>f_Mode = 0, f_SparseMap = [], f_SparseSize = 0, f_Size = 0, f_Chunks = []\<rparr>"

definition zeroConfig :: SnapshotConfig where
  "zeroConfig = \<lparr>c_SchemaVersion = [], c_SnapshotID = [], c_Description = [], c_Image = [],
     c_ImageDigest = [], c_ImageType = [], c_ImageBlobIDs = fmempty, c_Hypervisor = [], c_CPU = 0,
     c_Memory = 0, c_Storage = 0, c_NICs = 0, c_Network = [], c_Windows = False,
     c_Files = fmempty, c_Engine = None, c_CreatedAt = []\<rparr>"

section \<open>Kinds and classification\<close>

fun KindString :: "Kind \<Rightarrow> string" where
  "KindString KindContainerImage = ''container-image''"
| "KindString KindCloudImage = ''cloud-image''"
| "KindString KindSnapshot = ''snapshot''"
| "KindString KindImageIndex = ''image-index''"
| "KindString KindUnknown = ''unknown''"

definition Title :: "Descriptor \<Rightarrow> string" where
  "Title d = mget (d_Annotations d) AnnotationTitle"

definition classifyFields :: "string \<Rightarrow> string \<Rightarrow> string \<Rightarrow> Kind" where
  "classifyFields artifactType configMediaType topMediaType =
     (if artifactType \<in> {ArtifactTypeOSImage, ArtifactTypeWindowsImage} then KindCloudImage
      else if artifactType \<in> {ArtifactTypeSnapshot, ArtifactTypeSnapshotV2} then KindSnapshot
      else if configMediaType \<in> {MediaTypeOCIImageConfig, MediaTypeDockerConfig} then KindContainerImage
      else if topMediaType \<in> {MediaTypeOCIIndex, MediaTypeDockerIndex} then KindImageIndex
      else KindUnknown)"

definition ClassifyParsed :: "OCIManifest \<Rightarrow> Kind" where
  "ClassifyParsed m = classifyFields (m_ArtifactType m) (d_MediaType (m_Config m)) (m_MediaType m)"

section \<open>RFC 3339 times\<close>

definition two_digits :: "string \<Rightarrow> nat \<Rightarrow> int \<Rightarrow> int \<Rightarrow> bool" where
  "two_digits s i lo hi =
     (is_digit (s ! i) \<and> is_digit (s ! (i + 1)) \<and>
      lo \<le> 10 * digit_val (s ! i) + digit_val (s ! (i + 1)) \<and>
      10 * digit_val (s ! i) + digit_val (s ! (i + 1)) \<le> hi)"

definition days_in :: "int \<Rightarrow> int \<Rightarrow> int" where
  "days_in y m =
     (if m \<in> {4, 6, 9, 11} then 30
      else if m = 2 then (if y mod 4 = 0 \<and> (y mod 100 \<noteq> 0 \<or> y mod 400 = 0) then 29 else 28)
      else 31)"

text \<open>The zone suffix: \<^verbatim>\<open>Z\<close> or a signed hour and minute.\<close>

definition rfc3339_zone :: "string \<Rightarrow> bool" where
  "rfc3339_zone s =
     (s = ''Z'' \<or>
      (length s = 6 \<and> (s ! 0 = CHR ''+'' \<or> s ! 0 = CHR ''-'') \<and> two_digits s 1 0 23 \<and>
       s ! 3 = CHR '':'' \<and> two_digits s 4 0 59))"

definition rfc3339_frac :: "string \<Rightarrow> bool" where
  "rfc3339_frac s =
     (case s of
        c # r \<Rightarrow>
          if c = CHR ''.'' then takeWhile is_digit r \<noteq> [] \<and> rfc3339_zone (dropWhile is_digit r)
          else rfc3339_zone s
      | [] \<Rightarrow> False)"

definition valid_rfc3339 :: "string \<Rightarrow> bool" where
  "valid_rfc3339 s =
     (20 \<le> length s \<and> list_all is_digit (take 4 s) \<and> s ! 4 = CHR ''-'' \<and> two_digits s 5 1 12 \<and>
      s ! 7 = CHR ''-'' \<and>
      (case (ParseInt 64 (take 4 s), ParseInt 64 (take 2 (drop 5 s))) of
         (Some y, Some m) \<Rightarrow> two_digits s 8 1 (days_in y m)
       | _ \<Rightarrow> False) \<and>
      s ! 10 = CHR ''T'' \<and> two_digits s 11 0 23 \<and> s ! 13 = CHR '':'' \<and> two_digits s 14 0 59 \<and>
      s ! 16 = CHR '':'' \<and> two_digits s 17 0 59 \<and> rfc3339_frac (drop 19 s))"

definition dec_time :: "string \<Rightarrow> json \<Rightarrow> string option" where
  "dec_time cur v =
     (case v of
        JNull \<Rightarrow> Some cur
      | JStr s \<Rightarrow> if valid_rfc3339 s then Some s else None
      | _ \<Rightarrow> None)"

section \<open>JSON by the struct tags\<close>

definition enc_descriptor :: "Descriptor \<Rightarrow> json" where
  "enc_descriptor d = JObj
     ([(''mediaType'', JStr (d_MediaType d)), (''digest'', JStr (d_Digest d)),
       (''size'', enc_int (d_Size d))]
      @ opt_field (d_Annotations d = fmempty) ''annotations'' (enc_map JStr (d_Annotations d))
      @ opt_field (d_ArtifactType d = []) ''artifactType'' (JStr (d_ArtifactType d)))"

definition store_descriptor :: "string \<Rightarrow> json \<Rightarrow> Descriptor \<Rightarrow> Descriptor option" where
  "store_descriptor k v d =
     (if k = ''mediaType'' then map_option (\<lambda>x. d\<lparr>d_MediaType := x\<rparr>) (dec_string (d_MediaType d) v)
      else if k = ''digest'' then map_option (\<lambda>x. d\<lparr>d_Digest := x\<rparr>) (dec_string (d_Digest d) v)
      else if k = ''size'' then map_option (\<lambda>x. d\<lparr>d_Size := x\<rparr>) (dec_int (d_Size d) v)
      else if k = ''annotations'' then
        map_option (\<lambda>x. d\<lparr>d_Annotations := x\<rparr>) (dec_map dec_string [] (d_Annotations d) v)
      else if k = ''artifactType'' then
        map_option (\<lambda>x. d\<lparr>d_ArtifactType := x\<rparr>) (dec_string (d_ArtifactType d) v)
      else Some d)"

definition dec_descriptor :: "Descriptor \<Rightarrow> json \<Rightarrow> Descriptor option" where
  "dec_descriptor =
     dec_struct [''mediaType'', ''digest'', ''size'', ''annotations'', ''artifactType''] store_descriptor"

definition enc_platform :: "Platform \<Rightarrow> json" where
  "enc_platform p = JObj
     (opt_field (p_Architecture p = []) ''architecture'' (JStr (p_Architecture p))
      @ opt_field (p_OS p = []) ''os'' (JStr (p_OS p))
      @ opt_field (p_OSVersion p = []) ''os.version'' (JStr (p_OSVersion p))
      @ opt_field (p_Variant p = []) ''variant'' (JStr (p_Variant p)))"

definition store_platform :: "string \<Rightarrow> json \<Rightarrow> Platform \<Rightarrow> Platform option" where
  "store_platform k v p =
     (if k = ''architecture'' then map_option (\<lambda>x. p\<lparr>p_Architecture := x\<rparr>) (dec_string (p_Architecture p) v)
      else if k = ''os'' then map_option (\<lambda>x. p\<lparr>p_OS := x\<rparr>) (dec_string (p_OS p) v)
      else if k = ''os.version'' then map_option (\<lambda>x. p\<lparr>p_OSVersion := x\<rparr>) (dec_string (p_OSVersion p) v)
      else if k = ''variant'' then map_option (\<lambda>x. p\<lparr>p_Variant := x\<rparr>) (dec_string (p_Variant p) v)
      else Some p)"

definition dec_platform :: "Platform \<Rightarrow> json \<Rightarrow> Platform option" where
  "dec_platform = dec_struct [''architecture'', ''os'', ''os.version'', ''variant''] store_platform"

definition enc_index :: "IndexManifest \<Rightarrow> json" where
  "enc_index i = JObj
     ([(''mediaType'', JStr (i_MediaType i)), (''digest'', JStr (i_Digest i)),
       (''size'', enc_int (i_Size i))]
      @ opt_field (i_Platform i = None) ''platform'' (enc_ptr enc_platform (i_Platform i)))"

definition store_index :: "string \<Rightarrow> json \<Rightarrow> IndexManifest \<Rightarrow> IndexManifest option" where
  "store_index k v i =
     (if k = ''mediaType'' then map_option (\<lambda>x. i\<lparr>i_MediaType := x\<rparr>) (dec_string (i_MediaType i) v)
      else if k = ''digest'' then map_option (\<lambda>x. i\<lparr>i_Digest := x\<rparr>) (dec_string (i_Digest i) v)
      else if k = ''size'' then map_option (\<lambda>x. i\<lparr>i_Size := x\<rparr>) (dec_int (i_Size i) v)
      else if k = ''platform'' then
        map_option (\<lambda>x. i\<lparr>i_Platform := x\<rparr>) (dec_ptr dec_platform zeroPlatform (i_Platform i) v)
      else Some i)"

definition dec_index :: "IndexManifest \<Rightarrow> json \<Rightarrow> IndexManifest option" where
  "dec_index = dec_struct [''mediaType'', ''digest'', ''size'', ''platform''] store_index"

definition enc_manifest :: "OCIManifest \<Rightarrow> json" where
  "enc_manifest m = JObj
     ([(''schemaVersion'', enc_int (m_SchemaVersion m))]
      @ opt_field (m_MediaType m = []) ''mediaType'' (JStr (m_MediaType m))
      @ opt_field (m_ArtifactType m = []) ''artifactType'' (JStr (m_ArtifactType m))
      @ [(''config'', enc_descriptor (m_Config m)),
         (''layers'', enc_list enc_descriptor (m_Layers m))]
      @ opt_field (m_Manifests m = []) ''manifests'' (enc_list enc_index (m_Manifests m))
      @ opt_field (m_Subject m = None) ''subject'' (enc_ptr enc_descriptor (m_Subject m))
      @ opt_field (m_Annotations m = fmempty) ''annotations'' (enc_map JStr (m_Annotations m)))"

definition store_manifest :: "string \<Rightarrow> json \<Rightarrow> OCIManifest \<Rightarrow> OCIManifest option" where
  "store_manifest k v m =
     (if k = ''schemaVersion'' then
        map_option (\<lambda>x. m\<lparr>m_SchemaVersion := x\<rparr>) (dec_int (m_SchemaVersion m) v)
      else if k = ''mediaType'' then map_option (\<lambda>x. m\<lparr>m_MediaType := x\<rparr>) (dec_string (m_MediaType m) v)
      else if k = ''artifactType'' then
        map_option (\<lambda>x. m\<lparr>m_ArtifactType := x\<rparr>) (dec_string (m_ArtifactType m) v)
      else if k = ''config'' then map_option (\<lambda>x. m\<lparr>m_Config := x\<rparr>) (dec_descriptor (m_Config m) v)
      else if k = ''layers'' then
        map_option (\<lambda>x. m\<lparr>m_Layers := x\<rparr>) (dec_list dec_descriptor zeroDescriptor v)
      else if k = ''manifests'' then
        map_option (\<lambda>x. m\<lparr>m_Manifests := x\<rparr>) (dec_list dec_index zeroIndexManifest v)
      else if k = ''subject'' then
        map_option (\<lambda>x. m\<lparr>m_Subject := x\<rparr>) (dec_ptr dec_descriptor zeroDescriptor (m_Subject m) v)
      else if k = ''annotations'' then
        map_option (\<lambda>x. m\<lparr>m_Annotations := x\<rparr>) (dec_map dec_string [] (m_Annotations m) v)
      else Some m)"

definition dec_manifest :: "OCIManifest \<Rightarrow> json \<Rightarrow> OCIManifest option" where
  "dec_manifest =
     dec_struct [''schemaVersion'', ''mediaType'', ''artifactType'', ''config'', ''layers'',
       ''manifests'', ''subject'', ''annotations''] store_manifest"

definition enc_file :: "SnapshotFile \<Rightarrow> json" where
  "enc_file f = JObj
     (opt_field (f_Mode f = 0) ''mode'' (enc_int (f_Mode f))
      @ opt_field (f_SparseMap f = []) ''sparseMap'' (JStr (f_SparseMap f))
      @ opt_field (f_SparseSize f = 0) ''sparseSize'' (enc_int (f_SparseSize f))
      @ opt_field (f_Size f = 0) ''size'' (enc_int (f_Size f))
      @ opt_field (f_Chunks f = []) ''chunks'' (enc_list JStr (f_Chunks f)))"

definition store_file :: "string \<Rightarrow> json \<Rightarrow> SnapshotFile \<Rightarrow> SnapshotFile option" where
  "store_file k v f =
     (if k = ''mode'' then map_option (\<lambda>x. f\<lparr>f_Mode := x\<rparr>) (dec_int (f_Mode f) v)
      else if k = ''sparseMap'' then map_option (\<lambda>x. f\<lparr>f_SparseMap := x\<rparr>) (dec_string (f_SparseMap f) v)
      else if k = ''sparseSize'' then map_option (\<lambda>x. f\<lparr>f_SparseSize := x\<rparr>) (dec_int (f_SparseSize f) v)
      else if k = ''size'' then map_option (\<lambda>x. f\<lparr>f_Size := x\<rparr>) (dec_int (f_Size f) v)
      else if k = ''chunks'' then map_option (\<lambda>x. f\<lparr>f_Chunks := x\<rparr>) (dec_list dec_string [] v)
      else Some f)"

definition dec_file :: "SnapshotFile \<Rightarrow> json \<Rightarrow> SnapshotFile option" where
  "dec_file = dec_struct [''mode'', ''sparseMap'', ''sparseSize'', ''size'', ''chunks''] store_file"

definition enc_config :: "SnapshotConfig \<Rightarrow> json" where
  "enc_config c = JObj
     ([(''schemaVersion'', JStr (c_SchemaVersion c)), (''snapshotId'', JStr (c_SnapshotID c))]
      @ opt_field (c_Description c = []) ''description'' (JStr (c_Description c))
      @ opt_field (c_Image c = []) ''image'' (JStr (c_Image c))
      @ opt_field (c_ImageDigest c = []) ''imageDigest'' (JStr (c_ImageDigest c))
      @ opt_field (c_ImageType c = []) ''imageType'' (JStr (c_ImageType c))
      @ opt_field (c_ImageBlobIDs c = fmempty) ''imageBlobIds'' (enc_map enc_unit (c_ImageBlobIDs c))
      @ opt_field (c_Hypervisor c = []) ''hypervisor'' (JStr (c_Hypervisor c))
      @ opt_field (c_CPU c = 0) ''cpu'' (enc_int (c_CPU c))
      @ opt_field (c_Memory c = 0) ''memory'' (enc_int (c_Memory c))
      @ opt_field (c_Storage c = 0) ''storage'' (enc_int (c_Storage c))
      @ opt_field (c_NICs c = 0) ''nics'' (enc_int (c_NICs c))
      @ opt_field (c_Network c = []) ''network'' (JStr (c_Network c))
      @ opt_field (\<not> c_Windows c) ''windows'' (JBool (c_Windows c))
      @ opt_field (c_Files c = fmempty) ''files'' (enc_map enc_file (c_Files c))
      @ opt_field (c_Engine c = None) ''engine'' (enc_ptr id (c_Engine c))
      @ opt_field (c_CreatedAt c = []) ''createdAt'' (JStr (c_CreatedAt c)))"

definition store_config :: "string \<Rightarrow> json \<Rightarrow> SnapshotConfig \<Rightarrow> SnapshotConfig option" where
  "store_config k v c =
     (if k = ''schemaVersion'' then map_option (\<lambda>x. c\<lparr>c_SchemaVersion := x\<rparr>) (dec_string (c_SchemaVersion c) v)
      else if k = ''snapshotId'' then map_option (\<lambda>x. c\<lparr>c_SnapshotID := x\<rparr>) (dec_string (c_SnapshotID c) v)
      else if k = ''description'' then map_option (\<lambda>x. c\<lparr>c_Description := x\<rparr>) (dec_string (c_Description c) v)
      else if k = ''image'' then map_option (\<lambda>x. c\<lparr>c_Image := x\<rparr>) (dec_string (c_Image c) v)
      else if k = ''imageDigest'' then map_option (\<lambda>x. c\<lparr>c_ImageDigest := x\<rparr>) (dec_string (c_ImageDigest c) v)
      else if k = ''imageType'' then map_option (\<lambda>x. c\<lparr>c_ImageType := x\<rparr>) (dec_string (c_ImageType c) v)
      else if k = ''imageBlobIds'' then
        map_option (\<lambda>x. c\<lparr>c_ImageBlobIDs := x\<rparr>) (dec_map dec_unit () (c_ImageBlobIDs c) v)
      else if k = ''hypervisor'' then map_option (\<lambda>x. c\<lparr>c_Hypervisor := x\<rparr>) (dec_string (c_Hypervisor c) v)
      else if k = ''cpu'' then map_option (\<lambda>x. c\<lparr>c_CPU := x\<rparr>) (dec_int (c_CPU c) v)
      else if k = ''memory'' then map_option (\<lambda>x. c\<lparr>c_Memory := x\<rparr>) (dec_int (c_Memory c) v)
      else if k = ''storage'' then map_option (\<lambda>x. c\<lparr>c_Storage := x\<rparr>) (dec_int (c_Storage c) v)
      else if k = ''nics'' then map_option (\<lambda>x. c\<lparr>c_NICs := x\<rparr>) (dec_int (c_NICs c) v)
      else if k = ''network'' then map_option (\<lambda>x. c\<lparr>c_Network := x\<rparr>) (dec_string (c_Network c) v)
      else if k = ''windows'' then map_option (\<lambda>x. c\<lparr>c_Windows := x\<rparr>) (dec_bool (c_Windows c) v)
      else if k = ''files'' then map_option (\<lambda>x. c\<lparr>c_Files := x\<rparr>) (dec_map dec_file zeroFile (c_Files c) v)
      else if k = ''engine'' then Some (c\<lparr>c_Engine := Some v\<rparr>)
      else if k = ''createdAt'' then map_option (\<lambda>x. c\<lparr>c_CreatedAt := x\<rparr>) (dec_time (c_CreatedAt c) v)
      else Some c)"

definition configFields :: "string list" where
  "configFields =
     [''schemaVersion'', ''snapshotId'', ''description'', ''image'', ''imageDigest'',
       ''imageType'', ''imageBlobIds'', ''hypervisor'', ''cpu'', ''memory'', ''storage'', ''nics'',
       ''network'', ''windows'', ''files'', ''engine'', ''createdAt'']"

definition dec_config :: "SnapshotConfig \<Rightarrow> json \<Rightarrow> SnapshotConfig option" where
  "dec_config = dec_struct configFields store_config"

section \<open>Parse and Classify\<close>

definition Parse :: "bytes \<Rightarrow> OCIManifest res" where
  "Parse raw =
     (case Option.bind (json_unmarshal raw) (dec_manifest zeroManifest) of
        None \<Rightarrow> Inl (Wrap ''parse oci manifest'' (Msg ''json''))
      | Some m \<Rightarrow> Inr m)"

text \<open>\<^verbatim>\<open>Classify\<close> decodes only the three fields it needs.\<close>

record probe =
  pr_MediaType :: string
  pr_ArtifactType :: string
  pr_ConfigMediaType :: string

definition zeroProbe :: probe where
  "zeroProbe = \<lparr>pr_MediaType = [], pr_ArtifactType = [], pr_ConfigMediaType = []\<rparr>"

definition store_probe_config :: "string \<Rightarrow> json \<Rightarrow> probe \<Rightarrow> probe option" where
  "store_probe_config k v p =
     map_option (\<lambda>x. p\<lparr>pr_ConfigMediaType := x\<rparr>) (dec_string (pr_ConfigMediaType p) v)"

definition store_probe :: "string \<Rightarrow> json \<Rightarrow> probe \<Rightarrow> probe option" where
  "store_probe k v p =
     (if k = ''mediaType'' then map_option (\<lambda>x. p\<lparr>pr_MediaType := x\<rparr>) (dec_string (pr_MediaType p) v)
      else if k = ''artifactType'' then
        map_option (\<lambda>x. p\<lparr>pr_ArtifactType := x\<rparr>) (dec_string (pr_ArtifactType p) v)
      else dec_struct [''mediaType''] store_probe_config p v)"

definition Classify :: "bytes \<Rightarrow> Kind res" where
  "Classify raw =
     (case Option.bind (json_unmarshal raw)
             (dec_struct [''mediaType'', ''artifactType'', ''config''] store_probe zeroProbe) of
        None \<Rightarrow> Inl (Wrap ''classify manifest'' (Msg ''json''))
      | Some p \<Rightarrow> Inr (classifyFields (pr_ArtifactType p) (pr_ConfigMediaType p) (pr_MediaType p)))"

section \<open>Values that survive the wire\<close>

text \<open>
  Strings are valid UTF-8 (\<^verbatim>\<open>encoding/json\<close> replaces what is not), integers are 64 bits wide.
\<close>

definition wf_descriptor :: "Descriptor \<Rightarrow> bool" where
  "wf_descriptor d =
     (valid_utf8 (d_MediaType d) \<and> valid_utf8 (d_Digest d) \<and> in_int64 (d_Size d) \<and>
      utf8_map (d_Annotations d) \<and> valid_utf8 (d_ArtifactType d))"

definition wf_platform :: "Platform \<Rightarrow> bool" where
  "wf_platform p =
     (valid_utf8 (p_Architecture p) \<and> valid_utf8 (p_OS p) \<and> valid_utf8 (p_OSVersion p) \<and>
      valid_utf8 (p_Variant p))"

definition wf_index :: "IndexManifest \<Rightarrow> bool" where
  "wf_index i =
     (valid_utf8 (i_MediaType i) \<and> valid_utf8 (i_Digest i) \<and> in_int64 (i_Size i) \<and>
      pred_option wf_platform (i_Platform i))"

definition wf_manifest :: "OCIManifest \<Rightarrow> bool" where
  "wf_manifest m =
     (in_int64 (m_SchemaVersion m) \<and> valid_utf8 (m_MediaType m) \<and> valid_utf8 (m_ArtifactType m) \<and>
      wf_descriptor (m_Config m) \<and> list_all wf_descriptor (m_Layers m) \<and>
      list_all wf_index (m_Manifests m) \<and> pred_option wf_descriptor (m_Subject m) \<and>
      utf8_map (m_Annotations m))"

definition wf_file :: "SnapshotFile \<Rightarrow> bool" where
  "wf_file f =
     (in_int64 (f_Mode f) \<and> valid_utf8 (f_SparseMap f) \<and> in_int64 (f_SparseSize f) \<and>
      in_int64 (f_Size f) \<and> list_all valid_utf8 (f_Chunks f))"

definition wf_time :: "string \<Rightarrow> bool" where
  "wf_time t = (t = [] \<or> (valid_rfc3339 t \<and> valid_utf8 t))"

definition wf_config :: "SnapshotConfig \<Rightarrow> bool" where
  "wf_config c =
     (list_all valid_utf8 [c_SchemaVersion c, c_SnapshotID c, c_Description c, c_Image c,
        c_ImageDigest c, c_ImageType c, c_Hypervisor c, c_Network c] \<and>
      list_all in_int64 [c_CPU c, c_Memory c, c_Storage c, c_NICs c] \<and>
      fmpred (\<lambda>k _. valid_utf8 k) (c_ImageBlobIDs c) \<and>
      fmpred (\<lambda>k f. valid_utf8 k \<and> wf_file f) (c_Files c) \<and>
      pred_option wf_json (c_Engine c) \<and> wf_time (c_CreatedAt c))"

section \<open>Codec lemmas\<close>

lemma valid_utf8_ascii: "list_all (\<lambda>c. cp c < 128) s \<Longrightarrow> valid_utf8 s"
proof (induction s)
  case (Cons c s)
  then have "utf8_len (c # s) = Suc 0" by (simp add: utf8_len_1_iff)
  with Cons show ?case by (subst valid_utf8.simps) simp
qed (simp add: valid_utf8.simps)

lemma json_key_utf8 [simp]:
  "valid_utf8 ''mediaType''" "valid_utf8 ''digest''" "valid_utf8 ''size''" "valid_utf8 ''annotations''"
  "valid_utf8 ''artifactType''" "valid_utf8 ''architecture''" "valid_utf8 ''os''"
  "valid_utf8 ''os.version''" "valid_utf8 ''variant''" "valid_utf8 ''platform''"
  "valid_utf8 ''schemaVersion''" "valid_utf8 ''config''" "valid_utf8 ''layers''"
  "valid_utf8 ''manifests''" "valid_utf8 ''subject''" "valid_utf8 ''mode''" "valid_utf8 ''sparseMap''"
  "valid_utf8 ''sparseSize''" "valid_utf8 ''chunks''" "valid_utf8 ''snapshotId''"
  "valid_utf8 ''description''" "valid_utf8 ''image''" "valid_utf8 ''imageDigest''"
  "valid_utf8 ''imageType''" "valid_utf8 ''imageBlobIds''" "valid_utf8 ''hypervisor''"
  "valid_utf8 ''cpu''" "valid_utf8 ''memory''" "valid_utf8 ''storage''" "valid_utf8 ''nics''"
  "valid_utf8 ''network''" "valid_utf8 ''windows''" "valid_utf8 ''files''" "valid_utf8 ''engine''"
  "valid_utf8 ''createdAt''" "valid_utf8 ''name''" "valid_utf8 ''version''" "valid_utf8 []"
  by (rule valid_utf8_ascii, simp add: cp_def)+

interpretation desc: json_codec enc_descriptor dec_descriptor zeroDescriptor wf_descriptor
proof unfold_locales
  fix d :: Descriptor
  assume w: "wf_descriptor d"
  then show "dec_descriptor zeroDescriptor (enc_descriptor d) = Some d"
    by (cases d) (simp add: wf_descriptor_def dec_descriptor_def enc_descriptor_def opt_field_def
        store_descriptor_def zeroDescriptor_def)
  from w show "wf_json (enc_descriptor d)"
    by (simp add: wf_descriptor_def enc_descriptor_def)
qed (simp add: enc_descriptor_def)

interpretation plat: json_codec enc_platform dec_platform zeroPlatform wf_platform
proof unfold_locales
  fix p :: Platform
  assume w: "wf_platform p"
  then show "dec_platform zeroPlatform (enc_platform p) = Some p"
    by (cases p) (simp add: wf_platform_def dec_platform_def enc_platform_def opt_field_def
        store_platform_def zeroPlatform_def)
  from w show "wf_json (enc_platform p)"
    by (simp add: wf_platform_def enc_platform_def)
qed (simp add: enc_platform_def)

interpretation idx: json_codec enc_index dec_index zeroIndexManifest wf_index
proof unfold_locales
  fix i :: IndexManifest
  assume w: "wf_index i"
  then show "dec_index zeroIndexManifest (enc_index i) = Some i"
    by (cases i) (simp add: wf_index_def dec_index_def enc_index_def opt_field_def
        store_index_def zeroIndexManifest_def plat.dec_enc_ptr)
  from w show "wf_json (enc_index i)"
    by (simp add: wf_index_def enc_index_def plat.wf_enc_ptr)
qed (simp add: enc_index_def)

interpretation sfile: json_codec enc_file dec_file zeroFile wf_file
proof unfold_locales
  fix f :: SnapshotFile
  assume w: "wf_file f"
  then show "dec_file zeroFile (enc_file f) = Some f"
    by (cases f) (simp add: wf_file_def dec_file_def enc_file_def opt_field_def
        store_file_def zeroFile_def)
  from w show "wf_json (enc_file f)"
    by (simp add: wf_file_def enc_file_def)
qed (simp add: enc_file_def)

interpretation mani: json_codec enc_manifest dec_manifest zeroManifest wf_manifest
proof unfold_locales
  fix m :: OCIManifest
  assume w: "wf_manifest m"
  then show "dec_manifest zeroManifest (enc_manifest m) = Some m"
    by (cases m) (simp add: wf_manifest_def dec_manifest_def enc_manifest_def opt_field_def
        store_manifest_def zeroManifest_def desc.dec_enc desc.dec_enc_list idx.dec_enc_list desc.dec_enc_ptr)
  from w show "wf_json (enc_manifest m)"
    by (simp add: wf_manifest_def enc_manifest_def desc.wf_enc desc.wf_enc_list idx.wf_enc_list
        desc.wf_enc_ptr)
qed (simp add: enc_manifest_def)

lemma dec_config_Description:
  "c_Description r = [] \<Longrightarrow>
     dec_members configFields store_config (opt_field (x = []) ''description'' (JStr x) @ ms) r =
     dec_members configFields store_config ms (r\<lparr>c_Description := x\<rparr>)"
  by (rule dec_opt_field) (simp_all add: store_config_def configFields_def)

lemma dec_config_Image:
  "c_Image r = [] \<Longrightarrow>
     dec_members configFields store_config (opt_field (x = []) ''image'' (JStr x) @ ms) r =
     dec_members configFields store_config ms (r\<lparr>c_Image := x\<rparr>)"
  by (rule dec_opt_field) (simp_all add: store_config_def configFields_def)

lemma dec_config_ImageDigest:
  "c_ImageDigest r = [] \<Longrightarrow>
     dec_members configFields store_config (opt_field (x = []) ''imageDigest'' (JStr x) @ ms) r =
     dec_members configFields store_config ms (r\<lparr>c_ImageDigest := x\<rparr>)"
  by (rule dec_opt_field) (simp_all add: store_config_def configFields_def)

lemma dec_config_ImageType:
  "c_ImageType r = [] \<Longrightarrow>
     dec_members configFields store_config (opt_field (x = []) ''imageType'' (JStr x) @ ms) r =
     dec_members configFields store_config ms (r\<lparr>c_ImageType := x\<rparr>)"
  by (rule dec_opt_field) (simp_all add: store_config_def configFields_def)

lemma dec_config_ImageBlobIDs:
  "c_ImageBlobIDs r = fmempty \<Longrightarrow>
     dec_members configFields store_config (opt_field (x = fmempty) ''imageBlobIds'' (enc_map enc_unit x) @ ms) r =
     dec_members configFields store_config ms (r\<lparr>c_ImageBlobIDs := x\<rparr>)"
  by (rule dec_opt_field) (simp_all add: store_config_def configFields_def)

lemma dec_config_Hypervisor:
  "c_Hypervisor r = [] \<Longrightarrow>
     dec_members configFields store_config (opt_field (x = []) ''hypervisor'' (JStr x) @ ms) r =
     dec_members configFields store_config ms (r\<lparr>c_Hypervisor := x\<rparr>)"
  by (rule dec_opt_field) (simp_all add: store_config_def configFields_def)

lemma dec_config_CPU:
  "in_int64 x \<Longrightarrow> c_CPU r = 0 \<Longrightarrow>
     dec_members configFields store_config (opt_field (x = 0) ''cpu'' (enc_int x) @ ms) r =
     dec_members configFields store_config ms (r\<lparr>c_CPU := x\<rparr>)"
  by (rule dec_opt_field) (simp_all add: store_config_def configFields_def)

lemma dec_config_Memory:
  "in_int64 x \<Longrightarrow> c_Memory r = 0 \<Longrightarrow>
     dec_members configFields store_config (opt_field (x = 0) ''memory'' (enc_int x) @ ms) r =
     dec_members configFields store_config ms (r\<lparr>c_Memory := x\<rparr>)"
  by (rule dec_opt_field) (simp_all add: store_config_def configFields_def)

lemma dec_config_Storage:
  "in_int64 x \<Longrightarrow> c_Storage r = 0 \<Longrightarrow>
     dec_members configFields store_config (opt_field (x = 0) ''storage'' (enc_int x) @ ms) r =
     dec_members configFields store_config ms (r\<lparr>c_Storage := x\<rparr>)"
  by (rule dec_opt_field) (simp_all add: store_config_def configFields_def)

lemma dec_config_NICs:
  "in_int64 x \<Longrightarrow> c_NICs r = 0 \<Longrightarrow>
     dec_members configFields store_config (opt_field (x = 0) ''nics'' (enc_int x) @ ms) r =
     dec_members configFields store_config ms (r\<lparr>c_NICs := x\<rparr>)"
  by (rule dec_opt_field) (simp_all add: store_config_def configFields_def)

lemma dec_config_Network:
  "c_Network r = [] \<Longrightarrow>
     dec_members configFields store_config (opt_field (x = []) ''network'' (JStr x) @ ms) r =
     dec_members configFields store_config ms (r\<lparr>c_Network := x\<rparr>)"
  by (rule dec_opt_field) (simp_all add: store_config_def configFields_def)

lemma dec_config_Windows:
  "\<not> c_Windows r \<Longrightarrow>
     dec_members configFields store_config (opt_field (\<not> x) ''windows'' (JBool x) @ ms) r =
     dec_members configFields store_config ms (r\<lparr>c_Windows := x\<rparr>)"
  by (rule dec_opt_field) (simp_all add: store_config_def configFields_def)

lemma dec_config_Files:
  "fmpred (\<lambda>_. wf_file) x \<Longrightarrow> c_Files r = fmempty \<Longrightarrow>
     dec_members configFields store_config (opt_field (x = fmempty) ''files'' (enc_map enc_file x) @ ms) r =
     dec_members configFields store_config ms (r\<lparr>c_Files := x\<rparr>)"
  by (rule dec_opt_field) (simp_all add: store_config_def configFields_def sfile.dec_enc_map)

lemma dec_config_Engine:
  "c_Engine r = None \<Longrightarrow>
     dec_members configFields store_config (opt_field (x = None) ''engine'' (enc_ptr id x) @ ms) r =
     dec_members configFields store_config ms (r\<lparr>c_Engine := x\<rparr>)"
  by (rule dec_opt_field) (auto simp: store_config_def configFields_def enc_ptr_def)

lemma dec_config_CreatedAt:
  "wf_time x \<Longrightarrow> c_CreatedAt r = [] \<Longrightarrow>
     dec_members configFields store_config (opt_field (x = []) ''createdAt'' (JStr x)) r =
     Some (r\<lparr>c_CreatedAt := x\<rparr>)"
  by (rule dec_opt_field_last) (auto simp: store_config_def configFields_def dec_time_def wf_time_def)

lemmas dec_config_opt =
  dec_config_Description dec_config_Image dec_config_ImageDigest dec_config_ImageType
  dec_config_ImageBlobIDs dec_config_Hypervisor dec_config_CPU dec_config_Memory
  dec_config_Storage dec_config_NICs dec_config_Network dec_config_Windows dec_config_Files
  dec_config_Engine dec_config_CreatedAt

interpretation conf: json_codec enc_config dec_config zeroConfig wf_config
proof unfold_locales
  fix c :: SnapshotConfig
  assume w: "wf_config c"
  then have files: "fmpred (\<lambda>_. wf_file) (c_Files c)"
    by (auto simp: wf_config_def fmpred_iff)
  have first: "dec_members configFields store_config
      ([(''schemaVersion'', JStr a), (''snapshotId'', JStr b)] @ ms) zeroConfig =
    dec_members configFields store_config ms (zeroConfig\<lparr>c_SchemaVersion := a, c_SnapshotID := b\<rparr>)" for a b ms
    by (simp add: configFields_def store_config_def)
  from w files show "dec_config zeroConfig (enc_config c) = Some c"
    unfolding dec_config_def enc_config_def dec_struct_JObj first
    by (cases c) (simp add: wf_config_def dec_config_opt zeroConfig_def)
  from w show "wf_json (enc_config c)"
    by (auto simp: wf_config_def enc_config_def wf_time_def enc_ptr_def sfile.wf_enc_fmap
        split: option.splits)
qed (simp add: enc_config_def)

lemma Parse_enc: "wf_manifest m \<Longrightarrow> Parse (json_marshal_indent (enc_manifest m)) = Inr m"
  using mani.unmarshal_enc_indent [of m] by (simp add: Parse_def)

text \<open>\<^verbatim>\<open>Classify\<close> reads the same three fields as \<^verbatim>\<open>Parse\<close>, from every text \<^verbatim>\<open>Parse\<close> accepts.\<close>

lemma manifest_fields_inj:
  "inj_on (map ascii_lower) (set [''schemaVersion'', ''mediaType'', ''artifactType'', ''config'', ''layers'',
     ''manifests'', ''subject'', ''annotations''])"
proof -
  have "map (map ascii_lower) [''schemaVersion'', ''mediaType'', ''artifactType'', ''config'', ''layers'',
      ''manifests'', ''subject'', ''annotations''] =
    [''schemaversion'', ''mediatype'', ''artifacttype'', ''config'', ''layers'',
      ''manifests'', ''subject'', ''annotations'']"
    by code_simp
  then have "distinct (map (map ascii_lower) [''schemaVersion'', ''mediaType'', ''artifactType'', ''config'',
      ''layers'', ''manifests'', ''subject'', ''annotations''])"
    by simp
  then show ?thesis by (rule distinct_map [THEN iffD1, THEN conjunct2])
qed

lemma descriptor_fields_inj:
  "inj_on (map ascii_lower) (set [''mediaType'', ''digest'', ''size'', ''annotations'', ''artifactType''])"
proof -
  have "map (map ascii_lower) [''mediaType'', ''digest'', ''size'', ''annotations'', ''artifactType''] =
    [''mediatype'', ''digest'', ''size'', ''annotations'', ''artifacttype'']"
    by code_simp
  then have "distinct (map (map ascii_lower) [''mediaType'', ''digest'', ''size'', ''annotations'', ''artifactType''])"
    by simp
  then show ?thesis by (rule distinct_map [THEN iffD1, THEN conjunct2])
qed

lemmas find_probe_field =
  find_field_sub [OF manifest_fields_inj, of "[''mediaType'', ''artifactType'', ''config'']"]
lemmas find_probe_config_field = find_field_sub [OF descriptor_fields_inj, of "[''mediaType'']"]

lemma probe_config_agrees:
  assumes "dec_members [''mediaType'', ''digest'', ''size'', ''annotations'', ''artifactType'']
      store_descriptor ms d = Some d'" and "pr_ConfigMediaType p = d_MediaType d"
  shows "dec_members [''mediaType''] store_probe_config ms p =
    Some (p\<lparr>pr_ConfigMediaType := d_MediaType d'\<rparr>)"
  using assms
proof (induction ms arbitrary: d p)
  case (Cons kv ms)
  obtain k v where kv: "kv = (k, v)" by fastforce
  let ?N = "[''mediaType'', ''digest'', ''size'', ''annotations'', ''artifactType'']"
  show ?case
  proof (cases "find_field ?N k")
    case None
    with Cons kv show ?thesis by (simp add: find_probe_config_field)
  next
    case (Some f)
    with Cons.prems(1) kv obtain d1 where d1: "store_descriptor f v d = Some d1"
      and rest: "dec_members ?N store_descriptor ms d1 = Some d'"
      by (auto split: option.splits)
    show ?thesis
    proof (cases "f = ''mediaType''")
      case True
      have "store_probe_config f v p = Some (p\<lparr>pr_ConfigMediaType := d_MediaType d1\<rparr>)"
        using d1 True Cons.prems(2) by (auto simp: store_descriptor_def store_probe_config_def)
      with Cons.IH [OF rest, of "p\<lparr>pr_ConfigMediaType := d_MediaType d1\<rparr>"] True Some kv
      show ?thesis by (simp add: find_probe_config_field)
    next
      case False
      with d1 have "d_MediaType d1 = d_MediaType d"
        by (auto simp: store_descriptor_def split: if_splits)
      with False Some kv Cons.prems(2) Cons.IH [OF rest, of p] show ?thesis
        by (simp add: find_probe_config_field)
    qed
  qed
qed simp

lemma probe_store_agrees:
  assumes f: "f \<in> {''mediaType'', ''artifactType'', ''config''}" and m1: "store_manifest f v m = Some m1"
    and p: "pr_MediaType p = m_MediaType m" "pr_ArtifactType p = m_ArtifactType m"
      "pr_ConfigMediaType p = d_MediaType (m_Config m)"
  shows "\<exists>p1. store_probe f v p = Some p1 \<and> pr_MediaType p1 = m_MediaType m1 \<and>
    pr_ArtifactType p1 = m_ArtifactType m1 \<and> pr_ConfigMediaType p1 = d_MediaType (m_Config m1)"
proof (cases "f = ''config''")
  case True
  with m1 obtain d1 where d1: "dec_descriptor (m_Config m) v = Some d1" "m1 = m\<lparr>m_Config := d1\<rparr>"
    by (auto simp: store_manifest_def)
  from d1(1) consider "v = JNull" "d1 = m_Config m" | ms where "v = JObj ms"
      "dec_members [''mediaType'', ''digest'', ''size'', ''annotations'', ''artifactType'']
         store_descriptor ms (m_Config m) = Some d1"
    by (cases v) (auto simp: dec_descriptor_def dec_struct_def)
  then show ?thesis
  proof cases
    case 1
    with True d1 p show ?thesis by (simp add: store_probe_def dec_struct_def)
  next
    case 2
    from probe_config_agrees [OF 2(2) p(3)] True 2(1) d1 p show ?thesis
      by (simp add: store_probe_def dec_struct_def)
  qed
next
  case False
  with f consider "f = ''mediaType''" | "f = ''artifactType''" by blast
  then show ?thesis
  proof cases
    case 1
    with m1 p show ?thesis by (auto simp: store_manifest_def store_probe_def)
  next
    case 2
    with m1 p show ?thesis by (auto simp: store_manifest_def store_probe_def)
  qed
qed

lemma probe_agrees:
  assumes "dec_members [''schemaVersion'', ''mediaType'', ''artifactType'', ''config'', ''layers'',
       ''manifests'', ''subject'', ''annotations''] store_manifest ms m = Some m'"
    and "pr_MediaType p = m_MediaType m" and "pr_ArtifactType p = m_ArtifactType m"
    and "pr_ConfigMediaType p = d_MediaType (m_Config m)"
  shows "\<exists>q. dec_members [''mediaType'', ''artifactType'', ''config''] store_probe ms p = Some q \<and>
    pr_MediaType q = m_MediaType m' \<and> pr_ArtifactType q = m_ArtifactType m' \<and>
    pr_ConfigMediaType q = d_MediaType (m_Config m')"
  using assms
proof (induction ms arbitrary: m p)
  case (Cons kv ms)
  obtain k v where kv: "kv = (k, v)" by fastforce
  show ?case
  proof (cases "find_field [''schemaVersion'', ''mediaType'', ''artifactType'', ''config'', ''layers'',
       ''manifests'', ''subject'', ''annotations''] k")
    case None
    with Cons kv show ?thesis by (simp add: find_probe_field)
  next
    case (Some f)
    with Cons.prems(1) kv obtain m1 where m1: "store_manifest f v m = Some m1"
      and rest: "dec_members [''schemaVersion'', ''mediaType'', ''artifactType'', ''config'', ''layers'',
         ''manifests'', ''subject'', ''annotations''] store_manifest ms m1 = Some m'"
      by (auto split: option.splits)
    show ?thesis
    proof (cases "f \<in> {''mediaType'', ''artifactType'', ''config''}")
      case True
      then obtain p1 where "store_probe f v p = Some p1" "pr_MediaType p1 = m_MediaType m1"
          "pr_ArtifactType p1 = m_ArtifactType m1" "pr_ConfigMediaType p1 = d_MediaType (m_Config m1)"
        using probe_store_agrees [OF True m1 Cons.prems(2-4)] by blast
      with Cons.IH [OF rest, of p1] True Some kv show ?thesis
        by (simp add: find_probe_field)
    next
      case False
      with m1 have "m_MediaType m1 = m_MediaType m" "m_ArtifactType m1 = m_ArtifactType m"
          "m_Config m1 = m_Config m"
        by (auto simp: store_manifest_def split: if_splits)
      with Cons.IH [OF rest, of p] Cons.prems(2-4) False Some kv show ?thesis
        by (simp add: find_probe_field)
    qed
  qed
qed simp

lemma Classify_Parse:
  assumes "Parse raw = Inr m"
  shows "Classify raw = Inr (ClassifyParsed m)"
proof -
  from assms obtain v where v: "json_unmarshal raw = Some v" "dec_manifest zeroManifest v = Some m"
    by (cases "json_unmarshal raw") (auto simp: Parse_def split: option.splits)
  from v(2) consider "v = JNull" "m = zeroManifest" | ms where "v = JObj ms"
      "dec_members [''schemaVersion'', ''mediaType'', ''artifactType'', ''config'', ''layers'',
         ''manifests'', ''subject'', ''annotations''] store_manifest ms zeroManifest = Some m"
    by (cases v) (auto simp: dec_manifest_def dec_struct_def)
  then show ?thesis
  proof cases
    case 1
    with v(1) show ?thesis
      by (simp add: Classify_def ClassifyParsed_def dec_struct_def zeroProbe_def zeroManifest_def zeroDescriptor_def)
  next
    case 2
    from probe_agrees [OF 2(2), of zeroProbe] obtain q where
      "dec_members [''mediaType'', ''artifactType'', ''config''] store_probe ms zeroProbe = Some q"
      "pr_MediaType q = m_MediaType m" "pr_ArtifactType q = m_ArtifactType m"
      "pr_ConfigMediaType q = d_MediaType (m_Config m)"
      by (auto simp: zeroProbe_def zeroManifest_def zeroDescriptor_def)
    with v(1) 2(1) show ?thesis
      by (simp add: Classify_def ClassifyParsed_def)
  qed
qed

end
