(* ===== verification/Go_Json_Wf.thy ===== *)
theory Go_Json_Wf
  imports Go_Json
begin

text \<open>
  Every value that is read from a text is well formed: its strings are valid UTF-8, since the
  reader replaces what is not, and its numbers are number literals. So a value that was read
  can be written and read again.
\<close>

section \<open>Strings\<close>

lemma valid_utf8_Nil [simp]: "valid_utf8 []"
  by (simp add: valid_utf8.simps)

lemma valid_utf8_unit:
  assumes "utf8_len u = length u" and "u \<noteq> []" and "valid_utf8 t"
  shows "valid_utf8 (u @ t)"
proof -
  from assms(1,2) have "utf8_len (u @ t) = length u"
    using utf8_len_take [of u t] by simp
  with assms(2,3) show ?thesis
    by (subst valid_utf8.simps) simp
qed

lemma cp_char_of: "0 \<le> n \<Longrightarrow> n < 256 \<Longrightarrow> cp (char_of n) = n"
  by (simp add: cp_def of_char_of)

lemma utf8_len_2: "194 \<le> a \<Longrightarrow> a \<le> 223 \<Longrightarrow> 128 \<le> b \<Longrightarrow> b \<le> 191 \<Longrightarrow>
  utf8_len [char_of (a :: int), char_of (b :: int)] = 2"
  by (simp add: utf8_len_def utf8_need_def utf8_ok_def cont_def cp_char_of)

lemma utf8_len_3: "224 \<le> a \<Longrightarrow> a \<le> 239 \<Longrightarrow> 128 \<le> b \<Longrightarrow> b \<le> 191 \<Longrightarrow> 128 \<le> c \<Longrightarrow> c \<le> 191 \<Longrightarrow>
  (a = 224 \<Longrightarrow> 160 \<le> b) \<Longrightarrow> (a = 237 \<Longrightarrow> b \<le> 159) \<Longrightarrow>
  utf8_len [char_of (a :: int), char_of (b :: int), char_of (c :: int)] = 3"
  by (auto simp: utf8_len_def utf8_need_def utf8_ok_def cont_def cp_char_of)

lemma utf8_len_4: "240 \<le> a \<Longrightarrow> a \<le> 244 \<Longrightarrow> 128 \<le> b \<Longrightarrow> b \<le> 191 \<Longrightarrow> 128 \<le> c \<Longrightarrow> c \<le> 191 \<Longrightarrow>
  128 \<le> d \<Longrightarrow> d \<le> 191 \<Longrightarrow> (a = 240 \<Longrightarrow> 144 \<le> b) \<Longrightarrow> (a = 244 \<Longrightarrow> b \<le> 143) \<Longrightarrow>
  utf8_len [char_of (a :: int), char_of (b :: int), char_of (c :: int), char_of (d :: int)] = 4"
  by (auto simp: utf8_len_def utf8_need_def utf8_ok_def cont_def cp_char_of)

lemma utf8_len_3_add:
  fixes a b c :: int
  assumes "0 \<le> a" "a \<le> 15" "0 \<le> b \<and> b < 64" "0 \<le> c \<and> c < 64" "a = 0 \<Longrightarrow> 32 \<le> b" "a = 13 \<Longrightarrow> b \<le> 31"
  shows "utf8_len [char_of (224 + a), char_of (128 + b), char_of (128 + c)] = 3"
  using assms by (intro utf8_len_3) auto

lemma utf8_len_4_add:
  fixes a b c d :: int
  assumes "0 \<le> a" "a \<le> 4" "0 \<le> b \<and> b < 64" "0 \<le> c \<and> c < 64" "0 \<le> d \<and> d < 64"
    "a = 0 \<Longrightarrow> 16 \<le> b" "a = 4 \<Longrightarrow> b \<le> 15"
  shows "utf8_len [char_of (240 + a), char_of (128 + b), char_of (128 + c), char_of (128 + d)] = 4"
  using assms by (intro utf8_len_4) auto

lemma utf8_encode_unit:
  assumes "0 \<le> r"
  shows "utf8_len (utf8_encode r) = length (utf8_encode r) \<and> utf8_encode r \<noteq> []"
proof -
  have m: "0 \<le> x mod 64 \<and> x mod 64 < 64" for x :: int by simp
  consider "r < 128" | "128 \<le> r" "r < 2048"
    | "2048 \<le> r" "55296 \<le> r \<and> r \<le> 57343 \<or> 1114111 < r"
    | "2048 \<le> r" "r < 65536" "r < 55296 \<or> 57343 < r"
    | "65536 \<le> r" "r \<le> 1114111"
    by linarith
  then show ?thesis
  proof cases
    case 1
    with assms show ?thesis by (simp add: utf8_encode_def utf8_len_def utf8_need_def utf8_ok_def cp_char_of)
  next
    case 2
    have "2 \<le> r div 64" "r div 64 \<le> 31" using 2 by linarith+
    with 2 m [of r] show ?thesis by (simp add: utf8_encode_def utf8_len_2)
  next
    case 3
    have "utf8_len [char_of (239 :: int), char_of (191 :: int), char_of (189 :: int)] = 3" by (rule utf8_len_3) simp_all
    with 3 show ?thesis by (simp add: utf8_encode_def)
  next
    case 4
    have d: "r div 64 = 64 * (r div 4096) + r div 64 mod 64"
      using div_mult_mod_eq [of "r div 64" 64] zdiv_zmult2_eq [of 64 r 64] by simp
    have "0 \<le> r div 4096" "r div 4096 \<le> 15" using 4 by linarith+
    then have "utf8_len [char_of (224 + r div 4096), char_of (128 + r div 64 mod 64), char_of (128 + r mod 64)] = 3"
    proof (rule utf8_len_3_add [OF _ _ m m])
      show "r div 4096 = 0 \<Longrightarrow> 32 \<le> r div 64 mod 64" using d 4 by linarith
      show "r div 4096 = 13 \<Longrightarrow> r div 64 mod 64 \<le> 31" using d 4 by linarith
    qed
    moreover have "utf8_encode r = [char_of (224 + r div 4096), char_of (128 + r div 64 mod 64), char_of (128 + r mod 64)]"
    proof -
      have "(r < 128) = False" "(r < 2048) = False" "(55296 \<le> r \<and> r \<le> 57343 \<or> 1114111 < r) = False"
          "(r < 65536) = True"
        using 4 by auto
      then show ?thesis by (simp only: utf8_encode_def if_False if_True list.map)
    qed
    ultimately show ?thesis by (simp only: list.size) simp
  next
    case 5
    have d: "r div 4096 = 64 * (r div 262144) + r div 4096 mod 64"
      using div_mult_mod_eq [of "r div 4096" 64] zdiv_zmult2_eq [of 64 r 4096] by simp
    have "0 \<le> r div 262144" "r div 262144 \<le> 4" using 5 by linarith+
    then have "utf8_len [char_of (240 + r div 262144), char_of (128 + r div 4096 mod 64),
        char_of (128 + r div 64 mod 64), char_of (128 + r mod 64)] = 4"
    proof (rule utf8_len_4_add [OF _ _ m m m])
      show "r div 262144 = 0 \<Longrightarrow> 16 \<le> r div 4096 mod 64" using d 5 by linarith
      show "r div 262144 = 4 \<Longrightarrow> r div 4096 mod 64 \<le> 15" using d 5 by linarith
    qed
    moreover have "utf8_encode r = [char_of (240 + r div 262144), char_of (128 + r div 4096 mod 64),
        char_of (128 + r div 64 mod 64), char_of (128 + r mod 64)]"
    proof -
      have "(r < 128) = False" "(r < 2048) = False" "(55296 \<le> r \<and> r \<le> 57343 \<or> 1114111 < r) = False"
          "(r < 65536) = False"
        using 5 by auto
      then show ?thesis by (simp only: utf8_encode_def if_False list.map)
    qed
    ultimately show ?thesis by (simp only: list.size) simp
  qed
qed

lemma hex_val_bounds: "hex_val c = Some d \<Longrightarrow> 0 \<le> d \<and> d < 16"
  by (auto simp: hex_val_def split: if_splits)

lemma hex4_bounds: "hex4 s = Some (r, t) \<Longrightarrow> 0 \<le> r"
  by (cases s rule: hex4.cases)
    (auto split: option.splits dest!: hex_val_bounds)

lemma unescape_u_unit:
  "unescape_u s = Some (u, t) \<Longrightarrow> utf8_len u = length u \<and> u \<noteq> []"
  using hex4_bounds utf8_encode_unit
  by (fastforce simp: unescape_u_def surrogate_def split: option.splits if_splits prod.splits)

lemma utf8_len_ascii: "cp c < 128 \<Longrightarrow> utf8_len [c] = Suc 0"
  by (simp add: utf8_len_1_iff)

lemma string_unit_unit:
  assumes "string_unit s = Some (u, t)"
  shows "utf8_len u = length u \<and> u \<noteq> []"
proof -
  have take: "utf8_len s \<noteq> 0 \<Longrightarrow> utf8_len (take (utf8_len s) s) = length (take (utf8_len s) s)"
    using utf8_len_take [of s "[]"] utf8_len_le [of s] by simp
  have one: "unescape1 e = Some x \<Longrightarrow> utf8_len [x] = Suc 0" for e x
    by (auto simp: unescape1_def bslash_def dquote_def cp_def intro!: utf8_len_ascii split: if_splits)
  show ?thesis
  proof (cases s)
    case Nil
    with assms show ?thesis by (simp add: string_unit_def)
  next
    case (Cons c r)
    with assms take one unescape_u_unit utf8_encode_unit [of 65533] show ?thesis
      by (auto simp: string_unit_def split: if_splits list.splits)
  qed
qed

lemma parse_string_utf8: "parse_string f s = Some (x, t) \<Longrightarrow> valid_utf8 x"
proof (induction f arbitrary: s x t)
  case (Suc f)
  then show ?case
    by (auto split: list.splits if_splits option.splits dest!: string_unit_unit intro!: valid_utf8_unit)
qed simp

lemma unquote_utf8: "unquote s = Some (x, t) \<Longrightarrow> valid_utf8 x"
  unfolding unquote_def by (rule parse_string_utf8)

section \<open>Numbers\<close>

lemma takeWhile_stop:
  assumes "y = [] \<or> \<not> P (hd y)"
  shows "takeWhile P (takeWhile P r @ y) = takeWhile P r" and "dropWhile P (takeWhile P r @ y) = y"
proof -
  have y: "takeWhile P y = []" "dropWhile P y = y" using assms by (cases y; auto)+
  show "takeWhile P (takeWhile P r @ y) = takeWhile P r" and "dropWhile P (takeWhile P r @ y) = y"
    by (induction r) (auto simp: y)
qed

lemma scan_int_prefix:
  assumes "scan_int a = Some (i, b)" and "y = [] \<or> \<not> is_digit (hd y)"
  shows "scan_int (i @ y) = Some (i, y)" and "i \<noteq> []" and "hd i \<noteq> CHR ''-''"
proof -
  from assms(1) obtain c r where a: "a = c # r" by (cases a) (auto simp: scan_int_def)
  show "scan_int (i @ y) = Some (i, y)" and "i \<noteq> []" and "hd i \<noteq> CHR ''-''"
    using assms a takeWhile_stop [of y is_digit r]
    by (auto simp: scan_int_def split: if_splits) (simp_all add: is_digit_def)
qed

lemma scan_frac_prefix:
  assumes "scan_frac b = Some (q, c)" and "y = [] \<or> (\<not> is_digit (hd y) \<and> hd y \<noteq> CHR ''.'')"
  shows "scan_frac (q @ y) = Some (q, y)" and "q = [] \<or> hd q = CHR ''.''"
proof -
  show "q = [] \<or> hd q = CHR ''.''"
    using assms(1) by (auto simp: scan_frac_def split: list.splits if_splits)
  have e: "scan_frac y = Some ([], y)"
    using assms(2) by (cases y) (auto simp: scan_frac_def)
  show "scan_frac (q @ y) = Some (q, y)"
    using assms e takeWhile_stop [of y is_digit "tl b"]
    by (auto simp: scan_frac_def split: list.splits if_splits)
qed

lemma scan_exp_prefix:
  assumes "scan_exp c = Some (x, d)"
  shows "scan_exp x = Some (x, [])" and "x = [] \<or> hd x = CHR ''e'' \<or> hd x = CHR ''E''"
proof -
  show "x = [] \<or> hd x = CHR ''e'' \<or> hd x = CHR ''E''"
    using assms by (auto simp: scan_exp_def split: list.splits if_splits prod.splits)
  show "scan_exp x = Some (x, [])"
  proof (cases "x = []")
    case False
    with assms obtain e r where c: "c = e # r" "e = CHR ''e'' \<or> e = CHR ''E''"
      by (cases c) (auto simp: scan_exp_def split: if_splits)
    obtain g t where g: "split_exp_sign r = (g, t)" by fastforce
    with assms c have x: "x = e # g @ takeWhile is_digit t" "takeWhile is_digit t \<noteq> []"
      by (auto simp: scan_exp_def split: if_splits)
    from x(2) obtain z zs where z: "takeWhile is_digit t = z # zs" "is_digit z"
      by (cases t) (auto split: if_splits)
    have "split_exp_sign (g @ takeWhile is_digit t) = (g, takeWhile is_digit t)"
      using g z by (auto simp: split_exp_sign_def is_digit_def split: list.splits if_splits)
    moreover have "takeWhile is_digit (takeWhile is_digit t) = takeWhile is_digit t"
      and "dropWhile is_digit (takeWhile is_digit t) = []"
      using takeWhile_stop [of "[]" is_digit t] by simp_all
    ultimately show ?thesis
      using c(2) x by (simp add: scan_exp_def)
  qed (simp add: scan_exp_def)
qed

lemma scan_num_valid:
  assumes "scan_num s = Some (l, t)"
  shows "valid_num l"
proof -
  obtain m a where ma: "split_minus s = (m, a)" by fastforce
  with assms obtain i b q c x where s: "scan_int a = Some (i, b)" "scan_frac b = Some (q, c)"
      "scan_exp c = Some (x, t)" "l = m @ i @ q @ x"
    by (auto simp: scan_num_def split: option.splits)
  note x = scan_exp_prefix [OF s(3)]
  have qy: "x = [] \<or> (\<not> is_digit (hd x) \<and> hd x \<noteq> CHR ''.'')"
    using x(2) by (auto simp: is_digit_def)
  note q = scan_frac_prefix [OF s(2) qy]
  have iy: "q @ x = [] \<or> \<not> is_digit (hd (q @ x))"
    using q(2) qy by (auto simp: is_digit_def hd_append)
  note i = scan_int_prefix [OF s(1) iy]
  have "split_minus (m @ i @ q @ x) = (m, i @ q @ x)"
    using ma i(2,3) by (cases i) (auto simp: split_minus_def split: list.splits if_splits)
  with i(1) q(1) x(1) s(4) show ?thesis
    by (simp add: valid_num_def scan_num_def)
qed

section \<open>Values\<close>

lemma parse_wf:
  "parse_val f s = Some (v, t) \<Longrightarrow> wf_json v"
  "parse_elems f s = Some (vs, t) \<Longrightarrow> wf_elems vs"
  "parse_members f s = Some (ms, t) \<Longrightarrow> wf_members ms"
proof (induction f s and f s and f s arbitrary: v t and vs t and ms t
    rule: parse_val_parse_elems_parse_members.induct)
  case (2 f s)
  then show ?case
    by (auto split: list.splits if_splits dest: unquote_utf8 scan_num_valid)
next
  case (4 f s)
  then show ?case
    by (fastforce split: list.splits if_splits option.splits)
next
  case (6 f s)
  then show ?case
    by (fastforce split: list.splits if_splits option.splits dest: unquote_utf8)
qed simp_all

lemma json_unmarshal_wf: "json_unmarshal s = Some v \<Longrightarrow> wf_json v"
  by (auto simp: json_unmarshal_def split: option.splits prod.splits if_splits dest: parse_wf)

lemma json_decode_wf: "json_decode s = Some v \<Longrightarrow> wf_json v"
  by (auto simp: json_decode_def dest: parse_wf)

end
