(* ===== verification/Go_Io.thy ===== *)
theory Go_Io
  imports Go_Prelude
begin

text \<open>
  The part of Go's \<^verbatim>\<open>io\<close> package the program uses. A \<^verbatim>\<open>Read\<close> method takes the length of the
  buffer and the reader's state and gives the bytes read, the error, and the new state; a
  \<^verbatim>\<open>Write\<close> method takes the bytes and gives the count, the error and the new state.
  \<^verbatim>\<open>io.Copy\<close>, \<^verbatim>\<open>io.ReadFull\<close> and \<^verbatim>\<open>io.ReadAll\<close> are loops over any such methods; a loop that never
  ends is \<open>None\<close>.

  The locale \<open>io_reader\<close> is the contract of a reader: a sequence of bytes still to come, the
  error it ends with, and a measure that makes its reads progress. \<open>io_writer\<close> is the contract of
  a writer. Inside \<open>io_copy\<close>, which joins them, the loops are shown to end and to move exactly the
  bytes to come. The readers of the program are interpretations of \<open>io_reader\<close>.
\<close>

section \<open>Readers and writers\<close>

type_synonym 's read_fn = "nat \<Rightarrow> 's \<Rightarrow> bytes \<times> goerr option \<times> 's"
type_synonym 'w write_fn = "bytes \<Rightarrow> 'w \<Rightarrow> nat \<times> goerr option \<times> 'w"

text \<open>
  A body as it arrives, for example from the network: the segments the reads return, cut to the
  buffer; the error after the last of them; and whether that error comes together with the last
  segment, which \<^verbatim>\<open>io.Reader\<close> permits. An empty segment is a read of no bytes and no error.
\<close>

record reader =
  rd_segs :: "bytes list"
  rd_end :: goerr
  rd_join :: bool

definition rd_read :: "reader read_fn" where
  "rd_read n r =
     (case rd_segs r of
        [] \<Rightarrow> ([], Some (rd_end r), r)
      | s # ss \<Rightarrow>
          if length s \<le> n
          then (s, if rd_join r \<and> ss = [] then Some (rd_end r) else None, r\<lparr>rd_segs := ss\<rparr>)
          else (take n s, None, r\<lparr>rd_segs := drop n s # ss\<rparr>))"

definition rd_content :: "reader \<Rightarrow> bytes" where
  "rd_content r = concat (rd_segs r)"

text \<open>No read without bytes or error, which \<^verbatim>\<open>io.Reader\<close> discourages.\<close>

definition rd_progress :: "reader \<Rightarrow> bool" where
  "rd_progress r = ([] \<notin> set (rd_segs r))"

definition rd_of_bytes :: "bytes \<Rightarrow> reader" where
  "rd_of_bytes b = \<lparr>rd_segs = (if b = [] then [] else [b]), rd_end = EOF, rd_join = False\<rparr>"

text \<open>\<^verbatim>\<open>io.LimitedReader\<close> over a body.\<close>

record limited =
  lim_R :: reader
  lim_N :: int

definition lim_read :: "limited read_fn" where
  "lim_read n l =
     (if lim_N l \<le> 0 then ([], Some EOF, l)
      else case rd_read (if int n > lim_N l then nat (lim_N l) else n) (lim_R l) of
        (d, e, r) \<Rightarrow> (d, e, \<lparr>lim_R = r, lim_N = lim_N l - int (length d)\<rparr>))"

section \<open>The loops\<close>

partial_function (option) copy_loop ::
  "'s read_fn \<Rightarrow> 'w write_fn \<Rightarrow> int \<Rightarrow> 's \<Rightarrow> 'w \<Rightarrow> (int \<times> goerr option \<times> 's \<times> 'w) option" where
  "copy_loop rd wr written s w =
     (case rd 32768 s of (d, er, s') \<Rightarrow>
        (if d = [] then
           (case er of
              Some e \<Rightarrow> Some (written, if e = EOF then None else Some e, s', w)
            | None \<Rightarrow> copy_loop rd wr written s' w)
         else
           (case wr d w of (nw, ew, w') \<Rightarrow>
              (case ew of
                 Some e \<Rightarrow> Some (written + int nw, Some e, s', w')
               | None \<Rightarrow>
                   if nw \<noteq> length d then Some (written + int nw, Some ShortWrite, s', w')
                   else
                     (case er of
                        Some e \<Rightarrow>
                          Some (written + int nw, if e = EOF then None else Some e, s', w')
                      | None \<Rightarrow> copy_loop rd wr (written + int nw) s' w')))))"

definition io_Copy ::
  "'s read_fn \<Rightarrow> 'w write_fn \<Rightarrow> 's \<Rightarrow> 'w \<Rightarrow> (int \<times> goerr option \<times> 's \<times> 'w) option" where
  "io_Copy rd wr s w = copy_loop rd wr 0 s w"

text \<open>\<^verbatim>\<open>io.ReadFull\<close> into a buffer of \<open>want\<close> bytes.\<close>

partial_function (option) read_full ::
  "'s read_fn \<Rightarrow> nat \<Rightarrow> bytes \<Rightarrow> 's \<Rightarrow> (bytes \<times> goerr option \<times> 's) option" where
  "read_full rd want acc s =
     (if want \<le> length acc then Some (acc, None, s)
      else case rd (want - length acc) s of (d, er, s') \<Rightarrow>
        (case er of
           None \<Rightarrow> read_full rd want (acc @ d) s'
         | Some e \<Rightarrow>
             Some (acc @ d,
               if want \<le> length (acc @ d) then None
               else if acc @ d \<noteq> [] \<and> e = EOF then Some UnexpectedEOF else Some e, s')))"

definition io_ReadFull :: "'s read_fn \<Rightarrow> nat \<Rightarrow> 's \<Rightarrow> (bytes \<times> goerr option \<times> 's) option" where
  "io_ReadFull rd want s = read_full rd want [] s"

text \<open>A buffer in memory takes every write; \<^verbatim>\<open>io.ReadAll\<close> collects into one, \<^verbatim>\<open>io.Discard\<close> forgets.\<close>

definition buf_write :: "bytes write_fn" where
  "buf_write d w = (length d, None, w @ d)"

definition io_ReadAll :: "'s read_fn \<Rightarrow> 's \<Rightarrow> (bytes res \<times> 's) option" where
  "io_ReadAll rd s =
     map_option (\<lambda>(n, e, s', b). (case e of None \<Rightarrow> Inr b | Some e \<Rightarrow> Inl e, s')) (io_Copy rd buf_write s [])"

section \<open>Contracts\<close>

locale io_reader =
  fixes read :: "nat \<Rightarrow> 's \<Rightarrow> bytes \<times> goerr option \<times> 's"
    and rinv :: "'s \<Rightarrow> bool"
    and rest :: "'s \<Rightarrow> bytes"
    and final :: "'s \<Rightarrow> goerr"
    and work :: "'s \<Rightarrow> nat"
  assumes read_more: "rinv s \<Longrightarrow> 0 < n \<Longrightarrow> read n s = (d, None, s') \<Longrightarrow>
      length d \<le> n \<and> rinv s' \<and> rest s = d @ rest s' \<and> final s' = final s \<and> work s' < work s"
    and read_end: "rinv s \<Longrightarrow> 0 < n \<Longrightarrow> read n s = (d, Some e, s') \<Longrightarrow>
      length d \<le> n \<and> rinv s' \<and> rest s = d \<and> rest s' = [] \<and> e = final s"

text \<open>
  A reader whose error, when it comes together with bytes, can be dropped by the caller, as
  \<^verbatim>\<open>io.ReadFull\<close> does with a full buffer: the next read fails again, or ends cleanly again.
\<close>

locale sticky_reader = io_reader read rinv rest final work
  for read :: "nat \<Rightarrow> 's \<Rightarrow> bytes \<times> goerr option \<times> 's"
    and rinv :: "'s \<Rightarrow> bool"
    and rest :: "'s \<Rightarrow> bytes"
    and final :: "'s \<Rightarrow> goerr"
    and work :: "'s \<Rightarrow> nat" +
  assumes read_sticky: "rinv s \<Longrightarrow> 0 < n \<Longrightarrow> read n s = (d, Some e, s') \<Longrightarrow> d \<noteq> [] \<Longrightarrow>
      (final s' = EOF \<longleftrightarrow> final s = EOF)"

locale io_writer =
  fixes put_out :: "bytes \<Rightarrow> 'w \<Rightarrow> nat \<times> goerr option \<times> 'w"
    and winv :: "'w \<Rightarrow> bool"
    and wrote :: "'w \<Rightarrow> bytes"
    and fits :: "nat \<Rightarrow> 'w \<Rightarrow> bool"
  assumes write_ok: "winv w \<Longrightarrow> put_out d w = (nw, None, w') \<Longrightarrow>
      nw = length d \<and> winv w' \<and> wrote w' = wrote w @ d"
    and write_err: "winv w \<Longrightarrow> put_out d w = (nw, Some e, w') \<Longrightarrow> winv w'"
    and write_fits: "winv w \<Longrightarrow> fits k w \<Longrightarrow> d \<noteq> [] \<Longrightarrow> length d \<le> k \<Longrightarrow>
      \<exists>w'. put_out d w = (length d, None, w') \<and> fits (k - length d) w'"

locale io_copy = io_reader read rinv rest final work + io_writer put_out winv wrote fits
  for read :: "nat \<Rightarrow> 's \<Rightarrow> bytes \<times> goerr option \<times> 's"
    and rinv :: "'s \<Rightarrow> bool"
    and rest :: "'s \<Rightarrow> bytes"
    and final :: "'s \<Rightarrow> goerr"
    and work :: "'s \<Rightarrow> nat"
    and put_out :: "bytes \<Rightarrow> 'w \<Rightarrow> nat \<times> goerr option \<times> 'w"
    and winv :: "'w \<Rightarrow> bool"
    and wrote :: "'w \<Rightarrow> bytes"
    and fits :: "nat \<Rightarrow> 'w \<Rightarrow> bool"

text \<open>What the loops do over a reader that keeps the contract.\<close>

context sticky_reader
begin

lemma read_full_gen:
  assumes "rinv s"
  shows "\<exists>d e s'. read_full read want acc s = Some (acc @ d, e, s') \<and> rinv s' \<and>
    (if want \<le> length acc + length (rest s)
     then e = None \<and> (final s' = EOF \<longleftrightarrow> final s = EOF) \<and> d = take (want - length acc) (rest s) \<and> rest s' = drop (want - length acc) (rest s)
     else e \<noteq> None)"
  using assms
proof (induction "work s" arbitrary: s acc rule: less_induct)
  case less
  show ?case
  proof (cases "want \<le> length acc")
    case True
    with less.prems show ?thesis by (simp add: read_full.simps)
  next
    case False
    then have pos: "0 < want - length acc" by simp
    obtain d er s' where r: "read (want - length acc) s = (d, er, s')"
      by (metis prod_cases3)
    show ?thesis
    proof (cases er)
      case None
      with r have r': "read (want - length acc) s = (d, None, s')" by simp
      note m = read_more [OF less.prems pos r']
      from m have "work s' < work s" "rinv s'" by auto
      from less.hyps [OF this, of "acc @ d"] obtain d' e s'' where
        "read_full read want (acc @ d) s' = Some ((acc @ d) @ d', e, s'')" "rinv s''"
        "if want \<le> length (acc @ d) + length (rest s')
         then e = None \<and> (final s'' = EOF \<longleftrightarrow> final s' = EOF) \<and> d' = take (want - length (acc @ d)) (rest s') \<and>
           rest s'' = drop (want - length (acc @ d)) (rest s')
         else e \<noteq> None"
        by blast
      moreover have "read_full read want acc s = read_full read want (acc @ d) s'"
        using False r' by (subst read_full.simps) simp
      ultimately show ?thesis using m False
        by (intro exI [of _ "d @ d'"] exI [of _ e] exI [of _ s'']) (auto split: if_splits)
    next
      case (Some e)
      with r have r': "read (want - length acc) s = (d, Some e, s')" by simp
      note m = read_end [OF less.prems pos r'] 
      have "final s' = EOF \<longleftrightarrow> final s = EOF" if "want \<le> length acc + length (rest s)"
        using read_sticky [OF less.prems pos r'] m False that by fastforce
      with m r' False show ?thesis
        by (subst read_full.simps) (auto simp: not_le)
    qed
  qed
qed

lemma ReadFull_enough:
  assumes "rinv s" and "want \<le> length (rest s)"
  shows "\<exists>s'. io_ReadFull read want s = Some (take want (rest s), None, s') \<and> rinv s' \<and>
    rest s' = drop want (rest s) \<and> (final s' = EOF \<longleftrightarrow> final s = EOF)"
  using read_full_gen [OF assms(1), of want "[]"] assms(2) by (auto simp: io_ReadFull_def)

lemma ReadFull_short:
  assumes "rinv s" and "length (rest s) < want"
  shows "\<exists>d e s'. io_ReadFull read want s = Some (d, Some e, s')"
  using read_full_gen [OF assms(1), of want "[]"] assms(2) by (auto simp: io_ReadFull_def)

end

context io_copy
begin

lemma copy_gen:
  assumes "rinv s" and "winv w"
  shows "\<exists>n e s' w'. copy_loop read put_out written s w = Some (n, e, s', w') \<and> winv w' \<and>
    (e = None \<longrightarrow> final s = EOF \<and> wrote w' = wrote w @ rest s \<and> n = written + int (length (rest s))) \<and>
    (fits (length (rest s)) w \<longrightarrow>
       e = (if final s = EOF then None else Some (final s)) \<and> wrote w' = wrote w @ rest s \<and>
       n = written + int (length (rest s)) \<and> fits 0 w')"
  using assms
proof (induction "work s" arbitrary: s w written rule: less_induct)
  case less
  obtain d er s' where r: "read 32768 s = (d, er, s')" by (metis prod_cases3)
  have pos: "0 < (32768 :: nat)" by simp
  have step: "length d \<le> 32768 \<and> rinv s' \<and> rest s = d @ rest s' \<and>
      (er = None \<longrightarrow> final s' = final s \<and> work s' < work s) \<and>
      (\<forall>e. er = Some e \<longrightarrow> e = final s \<and> rest s' = [])"
    using read_more [OF less.prems(1) pos] read_end [OF less.prems(1) pos] r by (cases er) auto
  show ?case
  proof (cases "d = []")
    case True
    show ?thesis
    proof (cases er)
      case None
      have eq: "copy_loop read put_out written s w = copy_loop read put_out written s' w"
        by (subst copy_loop.simps) (simp add: True None r)
      from step True None have s: "rest s = rest s'" "final s = final s'" "work s' < work s" "rinv s'"
        by simp_all
      show ?thesis
        unfolding eq s(1,2) using s(3,4) less.prems(2) by (rule less.hyps)
    next
      case (Some e)
      with step less.prems True r show ?thesis
        by (subst copy_loop.simps) auto
    qed
  next
    case False
    obtain nw ew w' where w: "put_out d w = (nw, ew, w')" by (metis prod_cases3)
    have fit: "\<exists>w2. put_out d w = (length d, None, w2) \<and> fits (length (rest s')) w2"
      if "fits (length (rest s)) w"
      using write_fits [OF less.prems(2) that False] step by auto
    show ?thesis
    proof (cases ew)
      case (Some e)
      with fit w have "\<not> fits (length (rest s)) w" by auto
      with Some w r False write_err [OF less.prems(2), of d nw e w'] show ?thesis
        by (subst copy_loop.simps) auto
    next
      case None
      with write_ok [OF less.prems(2), of d nw w'] w
      have wk: "nw = length d" "winv w'" "wrote w' = wrote w @ d" by auto
      show ?thesis
      proof (cases er)
        case (Some e)
        with None wk w r False step fit show ?thesis
          by (subst copy_loop.simps) auto
      next
        case None': None
        from step None' have "work s' < work s" "rinv s'" by auto
        from less.hyps [OF this wk(2), of "written + int (length d)"] None None' wk w r False step fit
        show ?thesis
          by (subst copy_loop.simps) auto
      qed
    qed
  qed
qed

lemma Copy_total:
  "rinv s \<Longrightarrow> winv w \<Longrightarrow> \<exists>n e s' w'. io_Copy read put_out s w = Some (n, e, s', w') \<and> winv w'"
  using copy_gen [of s w 0] by (auto simp: io_Copy_def)

lemma Copy_success:
  assumes "rinv s" and "winv w" and "io_Copy read put_out s w = Some (n, None, s', w')"
  shows "final s = EOF" and "wrote w' = wrote w @ rest s" and "n = int (length (rest s))" and "winv w'"
  using copy_gen [OF assms(1,2), of 0] assms(3) by (auto simp: io_Copy_def)

lemma Copy_fits:
  assumes "rinv s" and "winv w" and "fits (length (rest s)) w"
  shows "\<exists>s' w'. io_Copy read put_out s w =
      Some (int (length (rest s)), if final s = EOF then None else Some (final s), s', w') \<and>
    winv w' \<and> wrote w' = wrote w @ rest s \<and> fits 0 w'"
  using copy_gen [OF assms(1,2), of 0] assms(3) by (auto simp: io_Copy_def)

end

interpretation buf: io_writer buf_write "\<lambda>_. True" "\<lambda>w. w" "\<lambda>_ _. True"
  by unfold_locales (auto simp: buf_write_def)

text \<open>Reading everything, for any reader that keeps the contract.\<close>

lemma ReadAll_reader:
  assumes "io_reader read rinv rest final work" and "rinv s"
  shows "\<exists>s'. io_ReadAll read s = Some (if final s = EOF then Inr (rest s) else Inl (final s), s')"
proof -
  have c: "io_copy read rinv rest final work buf_write (\<lambda>_. True) (\<lambda>w. w) (\<lambda>_ _. True)"
    using assms(1) buf.io_writer_axioms by (rule io_copy.intro)
  from io_copy.Copy_fits [OF c assms(2), of "[]"] show ?thesis
    by (auto simp: io_ReadAll_def)
qed

section \<open>Bodies\<close>

definition rd_work :: "reader \<Rightarrow> nat" where
  "rd_work r = length (rd_segs r) + length (concat (rd_segs r))"

lemma rd_read_cases:
  assumes "0 < n" and "rd_read n r = (d, e, r')"
  shows "length d \<le> n" and "rd_content r = d @ rd_content r'" and "rd_end r' = rd_end r"
    and "rd_progress r \<Longrightarrow> rd_progress r'"
    and "e = None \<Longrightarrow> rd_work r' < rd_work r"
    and "e \<noteq> None \<Longrightarrow> e = Some (rd_end r) \<and> rd_segs r' = []"
    and "rd_progress r \<Longrightarrow> rd_content r \<noteq> [] \<Longrightarrow> d \<noteq> []"
  using assms
  by (auto simp: rd_read_def rd_content_def rd_progress_def rd_work_def split: list.splits if_splits
      dest: in_set_dropD)

interpretation rd: sticky_reader rd_read "\<lambda>_. True" rd_content rd_end rd_work
proof unfold_locales
  fix r r' :: reader and n d
  assume "0 < n" "rd_read n r = (d, None, r')"
  from rd_read_cases [OF this] show "length d \<le> n \<and> True \<and> rd_content r = d @ rd_content r' \<and>
      rd_end r' = rd_end r \<and> rd_work r' < rd_work r"
    by simp
next
  fix r r' :: reader and n d e
  assume "0 < n" "rd_read n r = (d, Some e, r')"
  from rd_read_cases [OF this] show "length d \<le> n \<and> True \<and> rd_content r = d \<and> rd_content r' = [] \<and> e = rd_end r"
    by (simp add: rd_content_def)
next
  fix r r' :: reader and n d e
  assume "0 < n" "rd_read n r = (d, Some e, r')"
  from rd_read_cases(3) [OF this] show "rd_end r' = EOF \<longleftrightarrow> rd_end r = EOF" by simp
qed

text \<open>A limited reader gives the first \<open>N\<close> bytes, and then the end of file whatever follows.\<close>

definition lim_rest :: "limited \<Rightarrow> bytes" where
  "lim_rest l = take (nat (lim_N l)) (rd_content (lim_R l))"

definition lim_work :: "limited \<Rightarrow> nat" where
  "lim_work l = rd_work (lim_R l)"

text \<open>An error that comes with the N-th byte itself is still reported.\<close>

definition lim_final :: "limited \<Rightarrow> goerr" where
  "lim_final l =
     (if lim_N l \<le> 0 then EOF
      else if int (length (rd_content (lim_R l))) < lim_N l then rd_end (lim_R l)
      else if int (length (rd_content (lim_R l))) = lim_N l \<and> rd_join (lim_R l) then rd_end (lim_R l)
      else EOF)"

lemma rd_read_join:
  assumes "0 < n" and "rd_read n r = (d, e, r')"
  shows "rd_join r' = rd_join r" and "e \<noteq> None \<Longrightarrow> d = [] \<or> rd_join r"
    and "rd_progress r \<Longrightarrow> rd_join r \<Longrightarrow> e = None \<Longrightarrow> rd_content r' \<noteq> []"
proof -
  show "rd_join r' = rd_join r" and "e \<noteq> None \<Longrightarrow> d = [] \<or> rd_join r"
    using assms by (auto simp: rd_read_def split: list.splits if_splits)
  have nil: "[] \<notin> set xs \<Longrightarrow> xs \<noteq> [] \<Longrightarrow> \<exists>x\<in>set xs. x \<noteq> []" for xs :: "bytes list"
    by (cases xs) auto
  assume "rd_progress r" "rd_join r" "e = None"
  with assms show "rd_content r' \<noteq> []"
    by (auto simp: rd_read_def rd_content_def rd_progress_def split: list.splits if_splits intro: nil)
qed

lemma lim_read_step:
  assumes "0 < n" and "0 < lim_N l" and "lim_read n l = (d, e, l')"
  obtains r' where "rd_read (if int n > lim_N l then nat (lim_N l) else n) (lim_R l) = (d, e, r')"
    and "l' = \<lparr>lim_R = r', lim_N = lim_N l - int (length d)\<rparr>"
    and "0 < (if int n > lim_N l then nat (lim_N l) else n)" and "int (length d) \<le> lim_N l" and "length d \<le> n"
proof -
  let ?k = "if int n > lim_N l then nat (lim_N l) else n"
  obtain d2 e2 r' where r: "rd_read ?k (lim_R l) = (d2, e2, r')" by (metis prod_cases3)
  have "lim_read n l = (d2, e2, \<lparr>lim_R = r', lim_N = lim_N l - int (length d2)\<rparr>)"
    using assms(2) r by (simp add: lim_read_def)
  with assms(3) have eq: "d2 = d" "e2 = e" "l' = \<lparr>lim_R = r', lim_N = lim_N l - int (length d)\<rparr>" by auto
  have pos: "0 < ?k" using assms(1,2) by simp
  from rd_read_cases(1) [OF pos r] have "length d2 \<le> ?k" .
  with r eq pos assms(2) show ?thesis by (intro that [of r']) (auto split: if_splits)
qed

interpretation lim: io_reader lim_read "\<lambda>l. rd_progress (lim_R l)" lim_rest lim_final lim_work
proof unfold_locales
  fix l l' :: limited and n d
  assume i: "rd_progress (lim_R l)" and n: "0 < n" and r: "lim_read n l = (d, None, l')"
  from r have "0 < lim_N l" by (auto simp: lim_read_def split: if_splits)
  then obtain r' where *: "rd_read (if int n > lim_N l then nat (lim_N l) else n) (lim_R l) = (d, None, r')"
      "l' = \<lparr>lim_R = r', lim_N = lim_N l - int (length d)\<rparr>"
      "0 < (if int n > lim_N l then nat (lim_N l) else n)" "int (length d) \<le> lim_N l" "length d \<le> n"
    using lim_read_step [OF n _ r] by metis
  note c = rd_read_cases [OF *(3,1)] and j = rd_read_join [OF *(3,1)]
  have "rd_join (lim_R l) \<Longrightarrow> rd_content r' \<noteq> []"
    using j(3) [OF i] by auto
  with i c j(1) *(2,4,5) \<open>0 < lim_N l\<close>
  show "length d \<le> n \<and> rd_progress (lim_R l') \<and> lim_rest l = d @ lim_rest l' \<and>
      lim_final l' = lim_final l \<and> lim_work l' < lim_work l"
    by (auto simp: lim_rest_def lim_final_def lim_work_def nat_diff_distrib)
next
  fix l l' :: limited and n d e
  assume i: "rd_progress (lim_R l)" and n: "0 < n" and r: "lim_read n l = (d, Some e, l')"
  show "length d \<le> n \<and> rd_progress (lim_R l') \<and> lim_rest l = d \<and> lim_rest l' = [] \<and> e = lim_final l"
  proof (cases "0 < lim_N l")
    case False
    with i r show ?thesis by (auto simp: lim_read_def lim_rest_def lim_final_def)
  next
    case True
    then obtain r' where *: "rd_read (if int n > lim_N l then nat (lim_N l) else n) (lim_R l) = (d, Some e, r')"
        "l' = \<lparr>lim_R = r', lim_N = lim_N l - int (length d)\<rparr>"
        "0 < (if int n > lim_N l then nat (lim_N l) else n)" "int (length d) \<le> lim_N l" "length d \<le> n"
      using lim_read_step [OF n _ r] by metis
    note c = rd_read_cases [OF *(3,1)] and j = rd_read_join [OF *(3,1)]
    from c(6) have e: "rd_content r' = []" "e = rd_end (lim_R l)" by (auto simp: rd_content_def)
    with c(2) have d: "rd_content (lim_R l) = d" by simp
    from j(2) True have "int (length d) = lim_N l \<Longrightarrow> rd_join (lim_R l)" by auto
    with e d True *(4) have "lim_final l = e" by (auto simp: lim_final_def)
    with i c(4) d e *(2,4,5) show ?thesis by (simp add: lim_rest_def)
  qed
qed

lemma rd_of_bytes_simps [simp]:
  "rd_content (rd_of_bytes b) = b"
  "rd_end (rd_of_bytes b) = EOF"
  "rd_progress (rd_of_bytes b)"
  by (simp_all add: rd_of_bytes_def rd_content_def rd_progress_def)

end
