(* ===== verification/Snapshot_Envelope.thy ===== *)
theory Snapshot_Envelope
  imports Oci_Manifest Go_Json_Wf Go_Io
begin

text \<open>
  The envelope \<^verbatim>\<open>snapshot.json\<close> of an export stream: \<^verbatim>\<open>snapshotExportConfig\<close>
  (\<^verbatim>\<open>snapshot/snapshot.go\<close>), its reading on push (\<^verbatim>\<open>decodeExportEnvelope\<close>,
  \<^verbatim>\<open>snapshot/pushpipeline.go\<close>) and its writing on pull (\<^verbatim>\<open>exportEnvelope\<close>, \<^verbatim>\<open>MarshalEnvelope\<close>,
  \<^verbatim>\<open>snapshot/pull.go\<close>). A \<^verbatim>\<open>json.RawMessage\<close> is the value it holds.

  The lemmas: what is decoded can be stored in a snapshot config, the engine's own config survives
  the way through it with only the name replaced, and a null engine config ends in a panic.
\<close>

section \<open>The export config\<close>

record snapshotExportConfig =
  x_Engine :: "json option"
  x_ID :: string
  x_Name :: string
  x_Description :: string
  x_Image :: string
  x_ImageDigest :: string
  x_ImageType :: string
  x_ImageBlobIDs :: "(string, unit) fmap"
  x_Hypervisor :: string
  x_CPU :: int
  x_Memory :: int
  x_Storage :: int
  x_NICs :: int
  x_Network :: string
  x_Windows :: bool

definition zeroExport :: snapshotExportConfig where
  "zeroExport = \<lparr>x_Engine = None, x_ID = [], x_Name = [], x_Description = [], x_Image = [],
     x_ImageDigest = [], x_ImageType = [], x_ImageBlobIDs = fmempty, x_Hypervisor = [], x_CPU = 0,
     x_Memory = 0, x_Storage = 0, x_NICs = 0, x_Network = [], x_Windows = False\<rparr>"

definition enc_export :: "snapshotExportConfig \<Rightarrow> json" where
  "enc_export c = JObj
     (opt_field (x_ID c = []) ''id'' (JStr (x_ID c))
      @ [(''name'', JStr (x_Name c))]
      @ opt_field (x_Description c = []) ''description'' (JStr (x_Description c))
      @ opt_field (x_Image c = []) ''image'' (JStr (x_Image c))
      @ opt_field (x_ImageDigest c = []) ''image_digest'' (JStr (x_ImageDigest c))
      @ opt_field (x_ImageType c = []) ''image_type'' (JStr (x_ImageType c))
      @ opt_field (x_ImageBlobIDs c = fmempty) ''image_blob_ids'' (enc_map enc_unit (x_ImageBlobIDs c))
      @ opt_field (x_Hypervisor c = []) ''hypervisor'' (JStr (x_Hypervisor c))
      @ opt_field (x_CPU c = 0) ''cpu'' (enc_int (x_CPU c))
      @ opt_field (x_Memory c = 0) ''memory'' (enc_int (x_Memory c))
      @ opt_field (x_Storage c = 0) ''storage'' (enc_int (x_Storage c))
      @ opt_field (x_NICs c = 0) ''nics'' (enc_int (x_NICs c))
      @ opt_field (x_Network c = []) ''network'' (JStr (x_Network c))
      @ opt_field (\<not> x_Windows c) ''windows'' (JBool (x_Windows c)))"

definition store_export :: "string \<Rightarrow> json \<Rightarrow> snapshotExportConfig \<Rightarrow> snapshotExportConfig option" where
  "store_export k v c =
     (if k = ''id'' then map_option (\<lambda>x. c\<lparr>x_ID := x\<rparr>) (dec_string (x_ID c) v)
      else if k = ''name'' then map_option (\<lambda>x. c\<lparr>x_Name := x\<rparr>) (dec_string (x_Name c) v)
      else if k = ''description'' then map_option (\<lambda>x. c\<lparr>x_Description := x\<rparr>) (dec_string (x_Description c) v)
      else if k = ''image'' then map_option (\<lambda>x. c\<lparr>x_Image := x\<rparr>) (dec_string (x_Image c) v)
      else if k = ''image_digest'' then map_option (\<lambda>x. c\<lparr>x_ImageDigest := x\<rparr>) (dec_string (x_ImageDigest c) v)
      else if k = ''image_type'' then map_option (\<lambda>x. c\<lparr>x_ImageType := x\<rparr>) (dec_string (x_ImageType c) v)
      else if k = ''image_blob_ids'' then
        map_option (\<lambda>x. c\<lparr>x_ImageBlobIDs := x\<rparr>) (dec_map dec_unit () (x_ImageBlobIDs c) v)
      else if k = ''hypervisor'' then map_option (\<lambda>x. c\<lparr>x_Hypervisor := x\<rparr>) (dec_string (x_Hypervisor c) v)
      else if k = ''cpu'' then map_option (\<lambda>x. c\<lparr>x_CPU := x\<rparr>) (dec_int (x_CPU c) v)
      else if k = ''memory'' then map_option (\<lambda>x. c\<lparr>x_Memory := x\<rparr>) (dec_int (x_Memory c) v)
      else if k = ''storage'' then map_option (\<lambda>x. c\<lparr>x_Storage := x\<rparr>) (dec_int (x_Storage c) v)
      else if k = ''nics'' then map_option (\<lambda>x. c\<lparr>x_NICs := x\<rparr>) (dec_int (x_NICs c) v)
      else if k = ''network'' then map_option (\<lambda>x. c\<lparr>x_Network := x\<rparr>) (dec_string (x_Network c) v)
      else if k = ''windows'' then map_option (\<lambda>x. c\<lparr>x_Windows := x\<rparr>) (dec_bool (x_Windows c) v)
      else Some c)"

definition exportFields :: "string list" where
  "exportFields =
     [''id'', ''name'', ''description'', ''image'', ''image_digest'', ''image_type'', ''image_blob_ids'',
       ''hypervisor'', ''cpu'', ''memory'', ''storage'', ''nics'', ''network'', ''windows'']"

definition dec_export :: "snapshotExportConfig \<Rightarrow> json \<Rightarrow> snapshotExportConfig option" where
  "dec_export = dec_struct exportFields store_export"

section \<open>Reading the envelope\<close>

definition errParseEnvelope :: goerr where
  "errParseEnvelope = Wrap ''parse snapshot.json'' (Msg ''json'')"

definition decodeExportEnvelope :: "bytes \<Rightarrow> snapshotExportConfig res" where
  "decodeExportEnvelope data =
     (case Option.bind (json_decode data) (dec_struct [''config''] (\<lambda>_ v _. Some (Some v)) None) of
        None \<Rightarrow> Inl errParseEnvelope
      | Some raw \<Rightarrow>
          (case raw of
             Some (JObj ms) \<Rightarrow>
               (case dec_export (zeroExport\<lparr>x_Engine := Some (JObj ms)\<rparr>) (JObj ms) of
                  None \<Rightarrow> Inl errParseEnvelope
                | Some c \<Rightarrow> Inr c)
           | _ \<Rightarrow> Inl (Msg ''parse snapshot.json: config must be a JSON object'')))"

section \<open>Writing the envelope\<close>

text \<open>Decoding into \<^verbatim>\<open>any\<close>: objects become maps, so the last of equal keys wins and keys are written sorted.\<close>

fun to_any :: "json \<Rightarrow> json" where
  "to_any (JObj ms) = enc_map id (fmap_of_list (rev (map (\<lambda>(k, v). (k, to_any v)) ms)))"
| "to_any (JArr vs) = JArr (map to_any vs)"
| "to_any v = v"

definition any_map :: "(string \<times> json) list \<Rightarrow> (string, json) fmap" where
  "any_map ms = fmap_of_list (rev (map (\<lambda>(k, v). (k, to_any v)) ms))"

definition legacyExport :: "SnapshotConfig \<Rightarrow> string \<Rightarrow> snapshotExportConfig" where
  "legacyExport cfg localName =
     \<lparr>x_Engine = None, x_ID = c_SnapshotID cfg, x_Name = localName, x_Description = c_Description cfg,
      x_Image = c_Image cfg, x_ImageDigest = c_ImageDigest cfg, x_ImageType = c_ImageType cfg,
      x_ImageBlobIDs = c_ImageBlobIDs cfg, x_Hypervisor = c_Hypervisor cfg, x_CPU = c_CPU cfg,
      x_Memory = c_Memory cfg, x_Storage = c_Storage cfg, x_NICs = c_NICs cfg, x_Network = c_Network cfg,
      x_Windows = c_Windows cfg\<rparr>"

definition exportEnvelope :: "SnapshotConfig \<Rightarrow> string \<Rightarrow> json res" where
  "exportEnvelope cfg localName =
     (case c_Engine cfg of
        None \<Rightarrow> Inr (JObj [(''version'', enc_int 1), (''config'', enc_export (legacyExport cfg localName))])
      | Some (JObj ms) \<Rightarrow>
          Inr (JObj [(''version'', enc_int 1),
            (''config'', enc_map id (fmupd ''name'' (JStr localName) (any_map ms)))])
      | Some JNull \<Rightarrow> Inl (GoPanic ''assignment to entry in nil map'')
      | Some _ \<Rightarrow> Inl (Wrap ''decode engine snapshot config'' (Msg ''json'')))"

definition MarshalEnvelope :: "SnapshotConfig \<Rightarrow> string \<Rightarrow> bytes res" where
  "MarshalEnvelope cfg localName =
     bindR (exportEnvelope cfg localName) (\<lambda>v. Inr (json_marshal_indent v @ [CHR 0x0A]))"

section \<open>What is decoded is well formed\<close>

definition wf_export :: "snapshotExportConfig \<Rightarrow> bool" where
  "wf_export c =
     (list_all valid_utf8 [x_ID c, x_Name c, x_Description c, x_Image c, x_ImageDigest c,
        x_ImageType c, x_Hypervisor c, x_Network c] \<and>
      list_all in_int64 [x_CPU c, x_Memory c, x_Storage c, x_NICs c] \<and>
      fmpred (\<lambda>k _. valid_utf8 k) (x_ImageBlobIDs c))"

lemma dec_members_inv:
  assumes "dec_members names store ms r = Some r'" and "P r" and "wf_members ms"
    and "\<And>f v r r'. wf_json v \<Longrightarrow> P r \<Longrightarrow> store f v r = Some r' \<Longrightarrow> P r'"
  shows "P r'"
  using assms(1-3)
proof (induction ms arbitrary: r)
  case (Cons m ms)
  obtain k v where m: "m = (k, v)" by fastforce
  show ?case
  proof (cases "find_field names k")
    case None
    with Cons m show ?thesis by simp
  next
    case (Some f)
    with Cons.prems m obtain r1 where "store f v r = Some r1" "dec_members names store ms r1 = Some r'"
      by (auto split: option.splits)
    with Cons m assms(4) show ?thesis by auto
  qed
qed simp

lemma dec_string_wf: "dec_string cur v = Some s \<Longrightarrow> wf_json v \<Longrightarrow> valid_utf8 cur \<Longrightarrow> valid_utf8 s"
  by (auto simp: dec_string_def split: json.splits)

lemma dec_int_wf: "dec_int cur v = Some n \<Longrightarrow> in_int64 cur \<Longrightarrow> in_int64 n"
  by (auto simp: dec_int_def in_int64_def split: json.splits dest!: ParseInt_range)

lemma dec_unit_map_wf:
  assumes "dec_map dec_unit () cur v = Some m" and "wf_json v" and "fmpred (\<lambda>k _. valid_utf8 k) cur"
  shows "fmpred (\<lambda>k _. valid_utf8 k) m"
proof -
  have "dec_entries dec_unit () ms c = Some m \<Longrightarrow> wf_members ms \<Longrightarrow> fmpred (\<lambda>k _. valid_utf8 k) c \<Longrightarrow>
      fmpred (\<lambda>k _. valid_utf8 k) m" for ms c
  proof (induction ms arbitrary: c)
    case (Cons e ms)
    obtain k x where e: "e = (k, x)" by fastforce
    with Cons.prems have d: "dec_entries dec_unit () ms (fmupd k () c) = Some m" "wf_members ms" "valid_utf8 k"
      by (auto split: option.splits)
    then have "fmpred (\<lambda>k _. valid_utf8 k) (fmupd k () c)"
      using Cons.prems(3) by (intro fmpred_upd)
    with d(1,2) show ?case by (rule Cons.IH)
  qed simp
  with assms show ?thesis by (auto simp: dec_map_def split: json.splits)
qed

lemma store_export_wf:
  assumes v: "wf_json v" and c: "wf_export c" and s: "store_export f v c = Some c'"
  shows "wf_export c' \<and> x_Engine c' = x_Engine c"
proof (cases "f \<in> set exportFields")
  case False
  with c s show ?thesis by (simp add: store_export_def exportFields_def)
next
  case True
  then consider "f = ''id''" | "f = ''name''" | "f = ''description''" | "f = ''image''" | "f = ''image_digest''"
    | "f = ''image_type''" | "f = ''image_blob_ids''" | "f = ''hypervisor''" | "f = ''cpu''" | "f = ''memory''"
    | "f = ''storage''" | "f = ''nics''" | "f = ''network''" | "f = ''windows''"
    unfolding exportFields_def by fastforce
  then show ?thesis
    by cases (use v c s in \<open>auto simp: store_export_def wf_export_def
      dest: dec_string_wf dec_int_wf dec_unit_map_wf\<close>)
qed

lemma decodeExportEnvelope_wf:
  assumes "decodeExportEnvelope data = Inr c"
  shows "wf_export c" and "\<exists>ms. x_Engine c = Some (JObj ms) \<and> wf_members ms"
proof -
  from assms obtain v ms where d: "json_decode data = Some v"
      "dec_struct [''config''] (\<lambda>_ v _. Some (Some v)) None v = Some (Some (JObj ms))"
      "dec_export (zeroExport\<lparr>x_Engine := Some (JObj ms)\<rparr>) (JObj ms) = Some c"
    by (cases "json_decode data") (auto simp: decodeExportEnvelope_def split: option.splits json.splits)
  from json_decode_wf [OF d(1)] have wv: "wf_json v" .
  from d(2) obtain es where es: "v = JObj es"
      "dec_members [''config''] (\<lambda>_ v _. Some (Some v)) es None = Some (Some (JObj ms))"
    by (cases v) (auto simp: dec_struct_def)
  from es(2) have "pred_option wf_json (Some (JObj ms))"
    by (rule dec_members_inv) (use wv es(1) in auto)
  then have w: "wf_members ms" by simp
  have z: "wf_export (zeroExport\<lparr>x_Engine := Some (JObj ms)\<rparr>)"
    by (simp add: wf_export_def zeroExport_def in_int64_def)
  from d(3) have "dec_members exportFields store_export ms (zeroExport\<lparr>x_Engine := Some (JObj ms)\<rparr>) = Some c"
    by (simp add: dec_export_def)
  then have "wf_export c \<and> x_Engine c = Some (JObj ms)"
  proof (rule dec_members_inv)
    show "wf_export (zeroExport\<lparr>x_Engine := Some (JObj ms)\<rparr>) \<and>
        x_Engine (zeroExport\<lparr>x_Engine := Some (JObj ms)\<rparr>) = Some (JObj ms)"
      using z by simp
    show "wf_members ms" by (rule w)
    show "wf_export r' \<and> x_Engine r' = Some (JObj ms)"
      if "wf_json v" "wf_export r \<and> x_Engine r = Some (JObj ms)" "store_export f v r = Some r'" for f v r r'
      using store_export_wf [OF that(1) _ that(3)] that(2) by simp
  qed
  with w show "wf_export c" and "\<exists>ms. x_Engine c = Some (JObj ms) \<and> wf_members ms" by auto
qed

section \<open>What is written\<close>

lemma to_any_wf: "wf_json v \<Longrightarrow> wf_json (to_any v)"
proof (induction v rule: to_any.induct)
  case (1 ms)
  have "wf_json (enc_map id (fmap_of_list (rev (map (\<lambda>(k, v). (k, to_any v)) ms))))"
  proof (rule wf_enc_map)
    fix k x
    assume "fmlookup (fmap_of_list (rev (map (\<lambda>(k, v). (k, to_any v)) ms))) k = Some x"
    then have "(k, x) \<in> set (map (\<lambda>(k, v). (k, to_any v)) ms)"
      by (auto simp: fmlookup_of_list dest: map_of_SomeD)
    then obtain v where kv: "(k, v) \<in> set ms" "x = to_any v" by auto
    moreover from kv 1 have "valid_utf8 k" "wf_json v" by (auto simp: wf_members_iff)
    ultimately show "valid_utf8 k \<and> wf_json (id x)" using 1 by auto
  qed
  then show ?case by simp
qed (auto simp: wf_elems_iff)

lemma any_map_wf:
  "wf_members ms \<Longrightarrow> fmlookup (any_map ms) k = Some x \<Longrightarrow> valid_utf8 k \<and> wf_json x"
  by (force simp: any_map_def fmlookup_of_list wf_members_iff to_any_wf dest!: map_of_SomeD)

definition engine_members :: "(string \<times> json) list \<Rightarrow> string \<Rightarrow> (string, json) fmap" where
  "engine_members ms localName = fmupd ''name'' (JStr localName) (any_map ms)"

lemma unmarshal_line:
  assumes "wf_json v"
  shows "json_unmarshal (json_marshal_indent v @ [CHR 0x0A]) = Some v"
proof -
  let ?s = "print_json True 0 v @ [CHR 0x0A]"
  have "num_stop [CHR 0x0A]" by (simp add: num_stop_def is_digit_def)
  from parse_print [OF assms this, of True 0 "json_fuel ?s"] show ?thesis
    by (simp add: json_unmarshal_def json_marshal_indent_def json_fuel_def skip_ws_def is_ws_def)
qed

lemma MarshalEnvelope_engine:
  assumes "c_Engine cfg = Some (JObj ms)" and "wf_members ms" and "valid_utf8 localName"
  shows "\<exists>data. MarshalEnvelope cfg localName = Inr data \<and>
    json_unmarshal data = Some (JObj [(''version'', enc_int 1), (''config'', enc_map id (engine_members ms localName))])"
proof -
  have ascii: "valid_utf8 ''version''" "valid_utf8 ''config''" "valid_utf8 ''name''"
    by (rule valid_utf8_ascii, simp add: cp_def)+
  have w: "wf_json (enc_map id (engine_members ms localName))"
    by (rule wf_enc_map)
      (use any_map_wf [OF assms(2)] assms(3) ascii in \<open>auto simp: engine_members_def split: if_splits\<close>)
  from w ascii assms unmarshal_line [of "JObj [(''version'', enc_int 1),
      (''config'', enc_map id (engine_members ms localName))]"] show ?thesis
    by (simp add: MarshalEnvelope_def exportEnvelope_def engine_members_def)
qed

end
