(* ===== verification/Go_Sha256.thy ===== *)
theory Go_Sha256
  imports Go_Prelude
begin

unbundle bit_operations_syntax

text \<open>
  SHA-256 and hexadecimal output, the parts of \<^verbatim>\<open>crypto/sha256\<close> and \<^verbatim>\<open>encoding/hex\<close> that give
  blob digests and VM name hashes. A 32-bit word is an integer in \<open>[0, 2^32)\<close> with the
  reduction written out, so a digest of a concrete message evaluates in the kernel (the
  collection \<open>sha_eval\<close>). No property of the hash beyond its output length is proved; what a
  theorem needs of it (no two blobs of one registry share a digest) is a hypothesis there.
\<close>

section \<open>Definitions\<close>

definition add32 :: "int \<Rightarrow> int \<Rightarrow> int" where
  "add32 a b = (a + b) mod 4294967296"

definition rotr32 :: "nat \<Rightarrow> int \<Rightarrow> int" where
  "rotr32 n x = drop_bit n x OR push_bit (32 - n) (take_bit n x)"

definition big_sigma0 :: "int \<Rightarrow> int" where
  "big_sigma0 x = rotr32 2 x XOR rotr32 13 x XOR rotr32 22 x"

definition big_sigma1 :: "int \<Rightarrow> int" where
  "big_sigma1 x = rotr32 6 x XOR rotr32 11 x XOR rotr32 25 x"

definition small_sigma0 :: "int \<Rightarrow> int" where
  "small_sigma0 x = rotr32 7 x XOR rotr32 18 x XOR drop_bit 3 x"

definition small_sigma1 :: "int \<Rightarrow> int" where
  "small_sigma1 x = rotr32 17 x XOR rotr32 19 x XOR drop_bit 10 x"

definition sha_ch :: "int \<Rightarrow> int \<Rightarrow> int \<Rightarrow> int" where
  "sha_ch e f g = (e AND f) XOR (NOT e AND g)"

definition sha_maj :: "int \<Rightarrow> int \<Rightarrow> int \<Rightarrow> int" where
  "sha_maj a b c = (a AND b) XOR (a AND c) XOR (b AND c)"

definition sha_k :: "int list" where
  "sha_k =
    [1116352408, 1899447441, 3049323471, 3921009573, 961987163, 1508970993, 2453635748, 2870763221,
     3624381080, 310598401, 607225278, 1426881987, 1925078388, 2162078206, 2614888103, 3248222580,
     3835390401, 4022224774, 264347078, 604807628, 770255983, 1249150122, 1555081692, 1996064986,
     2554220882, 2821834349, 2952996808, 3210313671, 3336571891, 3584528711, 113926993, 338241895,
     666307205, 773529912, 1294757372, 1396182291, 1695183700, 1986661051, 2177026350, 2456956037,
     2730485921, 2820302411, 3259730800, 3345764771, 3516065817, 3600352804, 4094571909, 275423344,
     430227734, 506948616, 659060556, 883997877, 958139571, 1322822218, 1537002063, 1747873779,
     1955562222, 2024104815, 2227730452, 2361852424, 2428436474, 2756734187, 3204031479, 3329325298]"

definition sha_init :: "int list" where
  "sha_init =
    [1779033703, 3144134277, 1013904242, 2773480762, 1359893119, 2600822924, 528734635, 1541459225]"

text \<open>The next word of the message schedule from the last sixteen, and one round.\<close>

fun sha_next_w :: "int list \<Rightarrow> int" where
  "sha_next_w ws =
     add32 (add32 (small_sigma1 (ws ! 14)) (ws ! 9)) (add32 (small_sigma0 (ws ! 1)) (ws ! 0))"

definition sha_mix :: "int list \<Rightarrow> int \<Rightarrow> int \<Rightarrow> int list" where
  "sha_mix s t1 t2 =
     [add32 t1 t2, s ! 0, s ! 1, s ! 2, add32 (s ! 3) t1, s ! 4, s ! 5, s ! 6]"

definition sha_round :: "int list \<Rightarrow> int \<Rightarrow> int \<Rightarrow> int list" where
  "sha_round s k w =
     sha_mix s
       (add32 (add32 (s ! 7) (big_sigma1 (s ! 4))) (add32 (sha_ch (s ! 4) (s ! 5) (s ! 6)) (add32 k w)))
       (add32 (big_sigma0 (s ! 0)) (sha_maj (s ! 0) (s ! 1) (s ! 2)))"

fun sha_rounds :: "int list \<Rightarrow> int list \<Rightarrow> int list \<Rightarrow> int list" where
  "sha_rounds [] s ws = s"
| "sha_rounds (k # ks) s ws = sha_rounds ks (sha_round s k (hd ws)) (tl ws @ [sha_next_w ws])"

definition sha_block :: "int list \<Rightarrow> int list \<Rightarrow> int list" where
  "sha_block s ws = map2 add32 s (sha_rounds sha_k s ws)"

fun sha_words :: "bytes \<Rightarrow> int list" where
  "sha_words (a # b # c # d # r) =
     (of_char a * 16777216 + of_char b * 65536 + of_char c * 256 + of_char d) # sha_words r"
| "sha_words _ = []"

definition be64 :: "int \<Rightarrow> bytes" where
  "be64 n = map (\<lambda>i. char_of (n div 256 ^ i mod 256)) [7, 6, 5, 4, 3, 2, 1, 0]"

definition be32 :: "int \<Rightarrow> bytes" where
  "be32 n = map (\<lambda>i. char_of (n div 256 ^ i mod 256)) [3, 2, 1, 0]"

definition sha_pad :: "bytes \<Rightarrow> bytes" where
  "sha_pad m =
     m @ [CHR 0x80] @ replicate ((119 - length m mod 64) mod 64) (CHR 0x00) @ be64 (8 * int (length m))"

fun sha_blocks :: "nat \<Rightarrow> int list \<Rightarrow> int list \<Rightarrow> int list" where
  "sha_blocks 0 s ws = s"
| "sha_blocks (Suc n) s ws = sha_blocks n (sha_block s (take 16 ws)) (drop 16 ws)"

definition sha256 :: "bytes \<Rightarrow> bytes" where
  "sha256 m = concat (map be32 (sha_blocks (length (sha_pad m) div 64) sha_init (sha_words (sha_pad m))))"

definition hex_digit :: "int \<Rightarrow> char" where
  "hex_digit d = char_of (if d < 10 then 48 + d else 87 + d)"

fun hex_encode :: "bytes \<Rightarrow> string" where
  "hex_encode [] = []"
| "hex_encode (c # cs) =
     hex_digit (of_char c div 16) # hex_digit (of_char c mod 16) # hex_encode cs"

section \<open>Lemmas\<close>

named_theorems sha_eval \<open>evaluation of SHA-256 on a concrete message\<close>

lemmas sha_defs [sha_eval] =
  sha256_def sha_pad_def sha_block_def sha_round_def sha_mix_def sha_ch_def sha_maj_def
  big_sigma0_def big_sigma1_def small_sigma0_def small_sigma1_def rotr32_def add32_def
  be64_def be32_def hex_digit_def sha_init_def sha_k_def

lemma length_be32 [simp]: "length (be32 n) = 4"
  by (simp add: be32_def)

lemma length_sha_round [simp]: "length (sha_round s k w) = 8"
  by (simp add: sha_round_def sha_mix_def)

lemma length_sha_rounds [simp]: "length s = 8 \<Longrightarrow> length (sha_rounds ks s ws) = 8"
  by (induction ks arbitrary: s ws) auto

lemma length_sha_blocks [simp]: "length s = 8 \<Longrightarrow> length (sha_blocks n s ws) = 8"
  by (induction n arbitrary: s ws) (auto simp: sha_block_def)

lemma length_sha256 [simp]: "length (sha256 m) = 32"
proof -
  have "length (concat (map be32 xs)) = 4 * length xs" for xs
    by (induction xs) simp_all
  then show ?thesis
    by (simp add: sha256_def sha_init_def)
qed

lemma length_hex_encode [simp]: "length (hex_encode s) = 2 * length s"
  by (induction s) auto

lemma hex_digit_code:
  "0 \<le> d \<Longrightarrow> d < 16 \<Longrightarrow> (of_char (hex_digit d) :: int) = (if d < 10 then 48 + d else 87 + d)"
  by (simp add: hex_digit_def of_char_of)

lemma of_char_int_bounds [simp]: "0 \<le> (of_char c :: int)" "(of_char c :: int) < 256"
proof -
  have "(of_char c :: int) = int (of_char c)" by (simp add: of_nat_of_char)
  moreover have "(of_char c :: nat) < 256" by (rule nat_of_char_less_256)
  ultimately show "0 \<le> (of_char c :: int)" "(of_char c :: int) < 256" by linarith+
qed

lemma hex_encode_chars:
  "c \<in> set (hex_encode s) \<Longrightarrow>
     (48 \<le> (of_char c :: int) \<and> (of_char c :: int) \<le> 57) \<or>
     (97 \<le> (of_char c :: int) \<and> (of_char c :: int) \<le> 102)"
proof (induction s)
  case Nil
  then show ?case by simp
next
  case (Cons x xs)
  have hi: "0 \<le> (of_char x :: int) div 16" "(of_char x :: int) div 16 < 16"
    using of_char_int_bounds [of x] by linarith+
  have lo: "0 \<le> (of_char x :: int) mod 16" "(of_char x :: int) mod 16 < 16"
    by simp_all
  from Cons.prems consider "c = hex_digit (of_char x div 16)" | "c = hex_digit (of_char x mod 16)"
    | "c \<in> set (hex_encode xs)" by auto
  then show ?case
  proof cases
    case 1
    with hi show ?thesis by (auto simp: hex_digit_code)
  next
    case 2
    with lo show ?thesis by (auto simp: hex_digit_code)
  next
    case 3
    then show ?thesis by (rule Cons.IH)
  qed
qed

end
