(* ===== verification/Go_Regexp.thy ===== *)
theory Go_Regexp
  imports Main
begin

text \<open>
  The regular expressions of Go's \<^verbatim>\<open>regexp\<close> that the program compiles: character classes,
  concatenation, alternation and repetition, matched against a whole string (\<^verbatim>\<open>^...$\<close>).
  The meaning is the relation \<open>re_in\<close>; \<open>re_match\<close> is an executable matcher that takes the
  expression apart character by character, proved to decide the relation.
\<close>

datatype re =
    REmpty
  | REps
  | RCls "char \<Rightarrow> bool"
  | RSeq re re
  | RAlt re re
  | RStar re

definition re_plus :: "re \<Rightarrow> re" where
  "re_plus r = RSeq r (RStar r)"

text \<open>\<^verbatim>\<open>r{n}\<close> and \<^verbatim>\<open>r{0,n}\<close>.\<close>

fun re_times :: "nat \<Rightarrow> re \<Rightarrow> re" where
  "re_times 0 r = REps"
| "re_times (Suc n) r = RSeq r (re_times n r)"

fun re_upto :: "nat \<Rightarrow> re \<Rightarrow> re" where
  "re_upto 0 r = REps"
| "re_upto (Suc n) r = RAlt REps (RSeq r (re_upto n r))"

definition re_char :: "char \<Rightarrow> re" where
  "re_char c = RCls (\<lambda>x. x = c)"

fun re_lit :: "string \<Rightarrow> re" where
  "re_lit [] = REps"
| "re_lit (c # cs) = RSeq (re_char c) (re_lit cs)"

inductive re_in :: "re \<Rightarrow> string \<Rightarrow> bool" where
  in_eps: "re_in REps []"
| in_cls: "P c \<Longrightarrow> re_in (RCls P) [c]"
| in_seq: "re_in r s \<Longrightarrow> re_in q t \<Longrightarrow> re_in (RSeq r q) (s @ t)"
| in_left: "re_in r s \<Longrightarrow> re_in (RAlt r q) s"
| in_right: "re_in q s \<Longrightarrow> re_in (RAlt r q) s"
| in_stop: "re_in (RStar r) []"
| in_more: "re_in r s \<Longrightarrow> re_in (RStar r) t \<Longrightarrow> re_in (RStar r) (s @ t)"

inductive_cases re_in_emptyE [elim!]: "re_in REmpty s"
inductive_cases re_in_epsE [elim!]: "re_in REps s"
inductive_cases re_in_clsE [elim!]: "re_in (RCls P) s"
inductive_cases re_in_seqE [elim!]: "re_in (RSeq r q) s"

inductive_simps re_in_alt_iff [simp]: "re_in (RAlt r q) s"
inductive_simps re_in_empty_iff [simp]: "re_in REmpty s"

section \<open>The matcher\<close>

primrec accepts_nil :: "re \<Rightarrow> bool" where
  "accepts_nil REmpty = False"
| "accepts_nil REps = True"
| "accepts_nil (RCls P) = False"
| "accepts_nil (RSeq r q) = (accepts_nil r \<and> accepts_nil q)"
| "accepts_nil (RAlt r q) = (accepts_nil r \<or> accepts_nil q)"
| "accepts_nil (RStar r) = True"

text \<open>Constructors that drop what cannot match, to keep the expressions small.\<close>

fun mk_seq :: "re \<Rightarrow> re \<Rightarrow> re" where
  "mk_seq REmpty q = REmpty"
| "mk_seq REps q = q"
| "mk_seq r q = RSeq r q"

fun mk_alt :: "re \<Rightarrow> re \<Rightarrow> re" where
  "mk_alt REmpty q = q"
| "mk_alt r REmpty = r"
| "mk_alt r q = RAlt r q"

primrec after_char :: "char \<Rightarrow> re \<Rightarrow> re" where
  "after_char c REmpty = REmpty"
| "after_char c REps = REmpty"
| "after_char c (RCls P) = (if P c then REps else REmpty)"
| "after_char c (RSeq r q) =
     (if accepts_nil r then mk_alt (mk_seq (after_char c r) q) (after_char c q)
      else mk_seq (after_char c r) q)"
| "after_char c (RAlt r q) = mk_alt (after_char c r) (after_char c q)"
| "after_char c (RStar r) = mk_seq (after_char c r) (RStar r)"

fun re_match :: "re \<Rightarrow> string \<Rightarrow> bool" where
  "re_match r [] = accepts_nil r"
| "re_match r (c # s) = re_match (after_char c r) s"

section \<open>The matcher decides the meaning\<close>

lemma accepts_nil_iff: "accepts_nil r \<longleftrightarrow> re_in r []"
proof
  show "accepts_nil r \<Longrightarrow> re_in r []"
    by (induction r) (auto intro: re_in.intros in_seq [where s = "[]" and t = "[]", simplified])
  have "re_in r s \<Longrightarrow> s = [] \<Longrightarrow> accepts_nil r" for s
    by (induction rule: re_in.induct) auto
  then show "re_in r [] \<Longrightarrow> accepts_nil r" by simp
qed

lemma mk_seq_iff [simp]: "re_in (mk_seq r q) s \<longleftrightarrow> re_in (RSeq r q) s"
  by (cases r) (auto intro: in_seq [where s = "[]", simplified] in_eps)

lemma mk_alt_iff [simp]: "re_in (mk_alt r q) s \<longleftrightarrow> re_in (RAlt r q) s"
  by (cases r; cases q) simp_all

lemma after_char_sound: "re_in (after_char c r) s \<Longrightarrow> re_in r (c # s)"
proof (induction r arbitrary: s)
  case (RSeq r q)
  then consider a b where "s = a @ b" "re_in (after_char c r) a" "re_in q b"
    | "accepts_nil r" "re_in (after_char c q) s"
    by (auto split: if_splits)
  then show ?case
  proof cases
    case 1
    with RSeq.IH(1) [of a] in_seq [of r "c # a" q b] show ?thesis by simp
  next
    case 2
    with RSeq.IH(2) [of s] in_seq [of r "[]" q "c # s"] show ?thesis by (simp add: accepts_nil_iff)
  qed
next
  case (RStar r)
  then obtain a b where "s = a @ b" "re_in (after_char c r) a" "re_in (RStar r) b" by auto
  with RStar.IH [of a] in_more [of r "c # a" b] show ?case by simp
qed (auto intro: re_in.intros split: if_splits)

lemma after_char_complete: "re_in r t \<Longrightarrow> t = c # s \<Longrightarrow> re_in (after_char c r) s"
proof (induction arbitrary: s rule: re_in.induct)
  case (in_seq r a q b)
  show ?case
  proof (cases a)
    case Nil
    with in_seq have "re_in (after_char c q) s" "accepts_nil r" by (auto simp: accepts_nil_iff)
    then show ?thesis by simp
  next
    case (Cons x a')
    with in_seq have "re_in (after_char c r) a'" "s = a' @ b" by auto
    with in_seq have "re_in (RSeq (after_char c r) q) s" by (auto intro: re_in.in_seq)
    then show ?thesis by simp
  qed
next
  case (in_more r a b)
  show ?case
  proof (cases a)
    case Nil
    with in_more show ?thesis by simp
  next
    case (Cons x a')
    with in_more have "re_in (after_char c r) a'" "s = a' @ b" by auto
    with in_more show ?thesis by (auto intro: in_seq)
  qed
qed (auto intro: re_in.intros)

theorem re_match_iff: "re_match r s \<longleftrightarrow> re_in r s"
  by (induction s arbitrary: r)
    (auto simp: accepts_nil_iff intro: after_char_sound after_char_complete)

section \<open>The characters of a match\<close>

primrec re_chars :: "re \<Rightarrow> char \<Rightarrow> bool" where
  "re_chars REmpty c = False"
| "re_chars REps c = False"
| "re_chars (RCls P) c = P c"
| "re_chars (RSeq r q) c = (re_chars r c \<or> re_chars q c)"
| "re_chars (RAlt r q) c = (re_chars r c \<or> re_chars q c)"
| "re_chars (RStar r) c = re_chars r c"

lemma re_in_chars: "re_in r s \<Longrightarrow> c \<in> set s \<Longrightarrow> re_chars r c"
  by (induction rule: re_in.induct) auto

lemma re_chars_upto: "re_chars (re_upto n r) c \<Longrightarrow> re_chars r c"
  by (induction n) auto

lemma re_chars_times: "re_chars (re_times n r) c \<Longrightarrow> re_chars r c"
  by (induction n) auto

end
