(* ===== verification/Ociutil.thy ===== *)
theory Ociutil
  imports Go_Io Go_Strconv Go_Sha256 Go_Regexp
begin

text \<open>
  The package \<^verbatim>\<open>ociutil\<close>: the reader \<^verbatim>\<open>BlobSizeChecker\<close> that enforces the exact size of a blob,
  \<^verbatim>\<open>CopyBlobSized\<close>, the hex digest, and the registry-relative references.

  The lemmas: the checker keeps the reader contract, giving the first \<open>size\<close> bytes and ending
  cleanly only when the body is neither short, long nor broken; a copy succeeds exactly then.
  References: \<^verbatim>\<open>ParseRef\<close> splits what \<^verbatim>\<open>IsRelativeRef\<close> accepts into a repository and a reference
  that join back to it.
\<close>

section \<open>The size checker\<close>

record BlobSizeChecker =
  b_body :: reader
  b_digest :: string
  b_size :: int
  b_N :: int
  b_done :: bool

definition NewBlobSizeChecker :: "reader \<Rightarrow> string \<Rightarrow> int \<Rightarrow> BlobSizeChecker" where
  "NewBlobSizeChecker body digest sz =
     \<lparr>b_body = body, b_digest = digest, b_size = sz, b_N = sz, b_done = False\<rparr>"

definition errShorter :: "BlobSizeChecker \<Rightarrow> int \<Rightarrow> goerr" where
  "errShorter v missing = Msg (''blob '' @ b_digest v @ '' shorter than manifest size '' @
     FormatInt (b_size v) @ '' (missing '' @ FormatInt missing @ '')'')"

definition errLonger :: "BlobSizeChecker \<Rightarrow> goerr" where
  "errLonger v = Msg (''blob '' @ b_digest v @ '' longer than manifest size '' @ FormatInt (b_size v))"

definition errVerify :: "BlobSizeChecker \<Rightarrow> goerr \<Rightarrow> goerr" where
  "errVerify v e = Wrap (''verify blob '' @ b_digest v) e"

definition finish :: "BlobSizeChecker \<Rightarrow> goerr option \<times> BlobSizeChecker" where
  "finish v =
     (if b_N v > 0 then (Some (errShorter v (b_N v)), v)
      else case rd_read 1 (b_body v) of (extra, err, body) \<Rightarrow>
        (if extra \<noteq> [] then Some (errLonger v)
         else case err of
             None \<Rightarrow> None
           | Some e \<Rightarrow> if errors_is e EOF then None else Some (errVerify v e),
         v\<lparr>b_body := body\<rparr>))"

definition checker_read :: "BlobSizeChecker read_fn" where
  "checker_read n v =
     (if b_done v then ([], Some EOF, v)
      else case lim_read n \<lparr>lim_R = b_body v, lim_N = b_N v\<rparr> of (d, err, l) \<Rightarrow>
        (if (case err of None \<Rightarrow> True | Some e \<Rightarrow> \<not> errors_is e EOF)
         then (d, err, v\<lparr>b_body := lim_R l, b_N := lim_N l\<rparr>)
         else case finish (v\<lparr>b_body := lim_R l, b_N := lim_N l\<rparr>) of
             (Some fe, v') \<Rightarrow> (d, Some fe, v')
           | (None, v') \<Rightarrow>
               if d \<noteq> [] then (d, None, v'\<lparr>b_done := True\<rparr>)
               else ([], Some EOF, v'\<lparr>b_done := True\<rparr>)))"

definition CopyBlobSized ::
  "'w write_fn \<Rightarrow> 'w \<Rightarrow> reader \<Rightarrow> string \<Rightarrow> int \<Rightarrow> (goerr option \<times> 'w) option" where
  "CopyBlobSized wr dst body digest sz =
     map_option (\<lambda>(n, e, s, w). (e, w)) (io_Copy checker_read wr (NewBlobSizeChecker body digest sz) dst)"

section \<open>Digests and references\<close>

definition SHA256Hex :: "bytes \<Rightarrow> string" where
  "SHA256Hex data = hex_encode (sha256 data)"

definition char_in :: "nat \<Rightarrow> nat \<Rightarrow> char \<Rightarrow> bool" where
  "char_in lo hi c = (lo \<le> of_char c \<and> of_char c \<le> hi)"

text \<open>\<^verbatim>\<open>[a-z0-9]\<close>, \<^verbatim>\<open>[a-f0-9]\<close> and \<^verbatim>\<open>[A-Za-z0-9_]\<close>.\<close>

definition lower_digit :: "char \<Rightarrow> bool" where
  "lower_digit c = (char_in 97 122 c \<or> char_in 48 57 c)"

definition hex_digit :: "char \<Rightarrow> bool" where
  "hex_digit c = (char_in 97 102 c \<or> char_in 48 57 c)"

definition word_char :: "char \<Rightarrow> bool" where
  "word_char c = (lower_digit c \<or> char_in 65 90 c \<or> c = CHR ''_'')"

text \<open>\<^verbatim>\<open>[a-z0-9]+(?:(?:[._]|__|-+)[a-z0-9]+)*\<close>, the component of a repository path.\<close>

definition relComponent :: re where
  "relComponent =
     RSeq (re_plus (RCls lower_digit))
       (RStar (RSeq
          (RAlt (RCls (\<lambda>c. c = CHR ''.'' \<or> c = CHR ''_'')) (RAlt (re_lit ''__'') (re_plus (re_char CHR ''-''))))
          (re_plus (RCls lower_digit))))"

definition relRepo :: re where
  "relRepo = RSeq relComponent (RStar (RSeq (re_char CHR ''/'') relComponent))"

definition relTag :: re where
  "relTag = RSeq (RCls word_char)
     (re_upto 127 (RCls (\<lambda>c. word_char c \<or> c = CHR ''.'' \<or> c = CHR ''-'')))"

definition relDigest :: re where
  "relDigest = RAlt (RSeq (re_lit ''sha256:'') (re_times 64 (RCls hex_digit)))
     (RSeq (re_lit ''sha512:'') (re_times 128 (RCls hex_digit)))"

definition ParseRef :: "string \<Rightarrow> string \<times> string" where
  "ParseRef ref =
     (case Cut ref CHR ''@'' of (name, digest, ok) \<Rightarrow>
        if ok \<and> name \<noteq> [] then (name, digest)
        else case Cut ref CHR '':'' of (name, tag, ok) \<Rightarrow>
          if ok \<and> name \<noteq> [] then (name, tag) else (ref, ''latest''))"

definition IsRelativeRef :: "string \<Rightarrow> bool" where
  "IsRelativeRef ref =
     (case ParseRef ref of (repo, reference) \<Rightarrow>
        if CHR ''@'' \<in> set ref
        then re_match relRepo repo \<and> re_match relDigest reference
        else re_match relRepo repo \<and> re_match relTag reference)"

section \<open>The checker as a reader\<close>

definition checker_rest :: "BlobSizeChecker \<Rightarrow> bytes" where
  "checker_rest v = (if b_done v then [] else take (nat (b_N v)) (rd_content (b_body v)))"

definition checker_work :: "BlobSizeChecker \<Rightarrow> nat" where
  "checker_work v = (if b_done v then 0 else 1 + rd_work (b_body v))"

text \<open>How the checker ends, from what is left of the body.\<close>

definition checker_final :: "BlobSizeChecker \<Rightarrow> goerr" where
  "checker_final v =
     (let c = rd_content (b_body v); e = rd_end (b_body v) in
      if b_done v then EOF
      else if b_N v < int (length c) \<and> c \<noteq> [] then errLonger v
      else if int (length c) < b_N v then
        (if errors_is e EOF then errShorter v (b_N v - int (length c)) else e)
      else if errors_is e EOF then EOF
      else if c \<noteq> [] \<and> rd_join (b_body v) then e
      else errVerify v e)"

lemma err_not_EOF [simp]:
  "errShorter v k \<noteq> EOF" "errLonger v \<noteq> EOF" "errVerify v e \<noteq> EOF"
  by (simp_all add: errShorter_def errLonger_def errVerify_def)

lemma err_upd [simp]:
  "errShorter (v\<lparr>b_body := r, b_N := k\<rparr>) j = errShorter v j"
  "errLonger (v\<lparr>b_body := r, b_N := k\<rparr>) = errLonger v"
  "errVerify (v\<lparr>b_body := r, b_N := k\<rparr>) e = errVerify v e"
  "errShorter (v\<lparr>b_body := r\<rparr>) j = errShorter v j"
  "errLonger (v\<lparr>b_body := r\<rparr>) = errLonger v"
  "errVerify (v\<lparr>b_body := r\<rparr>) e = errVerify v e"
  by (simp_all add: errShorter_def errLonger_def errVerify_def)

text \<open>The probe at the end: what it reports, and what it leaves.\<close>

lemma finish_cases:
  assumes "rd_progress (b_body v)" and "finish v = (fe, v')" and "\<not> b_done v"
  shows "rd_progress (b_body v')" and "b_N v' = b_N v" and "\<not> b_done v'"
    and "b_N v \<le> 0 \<Longrightarrow> fe = (if rd_content (b_body v) \<noteq> [] then Some (errLonger v)
      else if errors_is (rd_end (b_body v)) EOF then None else Some (errVerify v (rd_end (b_body v))))"
    and "0 < b_N v \<Longrightarrow> fe = Some (errShorter v (b_N v)) \<and> v' = v"
    and "rd_content (b_body v) = [] \<Longrightarrow> rd_content (b_body v') = [] \<and> rd_end (b_body v') = rd_end (b_body v) \<and>
       errVerify v' = errVerify v"
proof -
  obtain x err body where r: "rd_read 1 (b_body v) = (x, err, body)" by (metis prod_cases3)
  have "0 < (1 :: nat)" by simp
  note c = rd_read_cases [OF this r]
  from c(6) have err: "err = None \<or> err = Some (rd_end (b_body v))" by (cases err) auto
  show "rd_progress (b_body v')" "b_N v' = b_N v" "\<not> b_done v'"
    using assms r c(4) by (auto simp: finish_def split: if_splits)
  show "0 < b_N v \<Longrightarrow> fe = Some (errShorter v (b_N v)) \<and> v' = v"
    using assms by (auto simp: finish_def)
  show "rd_content (b_body v) = [] \<Longrightarrow> rd_content (b_body v') = [] \<and> rd_end (b_body v') = rd_end (b_body v) \<and>
      errVerify v' = errVerify v"
    using assms(2) r c(2,3) by (auto simp: finish_def fun_eq_iff split: if_splits)
  have ne: "err \<noteq> None" if "rd_content (b_body v) = []"
    using that r assms(1) by (auto simp: rd_read_def rd_content_def rd_progress_def split: list.splits if_splits)
  show "fe = (if rd_content (b_body v) \<noteq> [] then Some (errLonger v)
      else if errors_is (rd_end (b_body v)) EOF then None else Some (errVerify v (rd_end (b_body v))))"
    if "b_N v \<le> 0"
    using that assms(1,2) r c(2,7) err ne by (auto simp: finish_def split: if_splits)
qed

text \<open>
  The limited read under the checker. It fails with an error the checker passes on, or ends: then
  either all \<open>N\<close> bytes were already given, or the body ended.
\<close>

lemma checker_lim_cases:
  assumes "rd_progress r" and "0 < n" and "lim_read n \<lparr>lim_R = r, lim_N = k\<rparr> = (d, e, l)"
  shows "rd_progress (lim_R l) \<and> length d \<le> n \<and> rd_content r = d @ rd_content (lim_R l) \<and>
    lim_N l = k - int (length d) \<and> rd_end (lim_R l) = rd_end r \<and> rd_join (lim_R l) = rd_join r \<and>
    (if k \<le> 0 then e = Some EOF \<and> d = [] \<and> lim_R l = r
     else int (length d) \<le> k \<and>
       (case e of
          None \<Rightarrow> rd_work (lim_R l) < rd_work r \<and> (rd_join r \<longrightarrow> rd_content (lim_R l) \<noteq> [])
        | Some x \<Rightarrow> x = rd_end r \<and> rd_content (lim_R l) = [] \<and> (d = [] \<or> rd_join r)))"
proof (cases "k \<le> 0")
  case True
  with assms show ?thesis by (auto simp: lim_read_def)
next
  case False
  then have k: "0 < lim_N \<lparr>lim_R = r, lim_N = k\<rparr>" by simp
  from lim_read_step [OF assms(2) k assms(3)] obtain r' m where
    *: "rd_read m r = (d, e, r')" "l = \<lparr>lim_R = r', lim_N = k - int (length d)\<rparr>" "0 < m"
      "int (length d) \<le> k" "length d \<le> n"
    by (metis limited.select_convs)
  note c = rd_read_cases [OF *(3,1)] and j = rd_read_join [OF *(3,1)]
  show ?thesis
  proof (cases e)
    case None
    with False assms(1) * c(2-5) j(1,3) show ?thesis by simp
  next
    case (Some x)
    with c(6) have "x = rd_end r" "rd_content r' = []" by (simp_all add: rd_content_def)
    with Some False assms(1) * c(2-4) j(1,2) show ?thesis by simp
  qed
qed

text \<open>A read that continues, and one that ends.\<close>

lemma checker_read_cont:
  assumes "rd_progress (b_body v)" and "0 < n" and "checker_read n v = (d, None, v')"
  shows "length d \<le> n \<and> rd_progress (b_body v') \<and> checker_rest v = d @ checker_rest v' \<and>
    checker_final v' = checker_final v \<and> checker_work v' < checker_work v"
proof -
  from assms(3) have nd: "\<not> b_done v" by (auto simp: checker_read_def)
  obtain x e l where lr: "lim_read n \<lparr>lim_R = b_body v, lim_N = b_N v\<rparr> = (x, e, l)" by (metis prod_cases3)
  note c = checker_lim_cases [OF assms(1,2) lr]
  let ?v = "v\<lparr>b_body := lim_R l, b_N := lim_N l\<rparr>"
  show ?thesis
  proof (cases e)
    case None
    with assms(3) nd lr have v': "v' = ?v" "d = x" by (auto simp: checker_read_def)
    from c None have "0 < b_N v" by (auto split: if_splits)
    with None c nd v' show ?thesis
      by (auto simp: checker_rest_def checker_final_def checker_work_def Let_def nat_diff_distrib diff_diff_eq)
  next
    case (Some ee)
    obtain fe w where f: "finish ?v = (fe, w)" by fastforce
    from assms(3) nd lr Some f have *: "errors_is ee EOF" "fe = None" "d = x" "x \<noteq> []" "v' = w\<lparr>b_done := True\<rparr>"
      by (auto simp: checker_read_def split: if_splits option.splits)
    have prog: "rd_progress (b_body ?v)" and nd': "\<not> b_done ?v" using c nd by simp_all
    note fc = finish_cases [OF prog f nd']
    from fc(5) * have n0: "lim_N l \<le> 0" by (cases "lim_N l > 0") auto
    from * c Some have k0: "0 < b_N v" by (cases "b_N v \<le> 0") simp_all
    with c Some have k: "ee = rd_end (b_body v)" "rd_content (b_body v) = x" "int (length x) \<le> b_N v" "length x \<le> n"
        "lim_N l = b_N v - int (length x)"
      by simp_all
    with n0 have "int (length x) = b_N v" by simp
    with k k0 * nd fc(1) show ?thesis
      by (auto simp: checker_rest_def checker_final_def checker_work_def Let_def)
  qed
qed

lemma checker_read_end:
  assumes "rd_progress (b_body v)" and "0 < n" and "checker_read n v = (d, Some e, v')"
  shows "length d \<le> n \<and> rd_progress (b_body v') \<and> checker_rest v = d \<and> checker_rest v' = [] \<and>
    e = checker_final v \<and> (d \<noteq> [] \<longrightarrow> (checker_final v' = EOF \<longleftrightarrow> checker_final v = EOF))"
proof (cases "b_done v")
  case True
  with assms show ?thesis by (auto simp: checker_read_def checker_rest_def checker_final_def Let_def)
next
  case nd: False
  obtain x er l where lr: "lim_read n \<lparr>lim_R = b_body v, lim_N = b_N v\<rparr> = (x, er, l)" by (metis prod_cases3)
  note c = checker_lim_cases [OF assms(1,2) lr]
  let ?v = "v\<lparr>b_body := lim_R l, b_N := lim_N l\<rparr>"
  from assms(3) nd lr obtain ee where er: "er = Some ee"
    by (cases er) (auto simp: checker_read_def)
  show ?thesis
  proof (cases "errors_is ee EOF")
    case False
    with assms(3) nd lr er have *: "d = x" "e = ee" "v' = ?v" by (auto simp: checker_read_def)
    from False er c have k0: "0 < b_N v" by (cases "b_N v \<le> 0") simp_all
    with er c have k: "ee = rd_end (b_body v)" "rd_content (b_body v) = x" "rd_content (lim_R l) = []"
      by simp_all
    from c k0 er have l: "lim_N l = b_N v - int (length x)" "rd_end (lim_R l) = ee" "int (length x) \<le> b_N v"
        "x = [] \<or> rd_join (b_body v)" "rd_progress (lim_R l)" "length x \<le> n"
      by simp_all
    have "ee \<noteq> EOF" using False by auto
    with False * nd k k0 l show ?thesis
      by (auto simp: checker_rest_def checker_final_def Let_def)
  next
    case True
    obtain fe w where f: "finish ?v = (fe, w)" by fastforce
    have prog: "rd_progress (b_body ?v)" and nd': "\<not> b_done ?v" using c nd by simp_all
    note fc = finish_cases [OF prog f nd']
    from assms(3) nd lr er f True have dx: "d = x" by (auto simp: checker_read_def split: if_splits option.splits)
    have e: "e = (case fe of None \<Rightarrow> EOF | Some y \<Rightarrow> y)" "x \<noteq> [] \<Longrightarrow> fe \<noteq> None"
        "rd_progress (b_body v')" "checker_rest v' = checker_rest v'"
      using assms(3) nd lr er f True fc(1) by (auto simp: checker_read_def split: if_splits option.splits)
    have v': "v' = (case fe of None \<Rightarrow> w\<lparr>b_done := True\<rparr> | Some _ \<Rightarrow> w)"
      using assms(3) nd lr er f True by (auto simp: checker_read_def split: if_splits option.splits)
    show ?thesis
    proof (cases "b_N v \<le> 0")
      case k: True
      with c er have z: "x = []" "lim_R l = b_body v" "lim_N l = b_N v" by simp_all
      have "rd_content (b_body v) \<noteq> [] \<Longrightarrow> b_N v < int (length (rd_content (b_body v)))"
        using k by (cases "rd_content (b_body v)") auto
      with z k fc(2,4) e v' dx nd show ?thesis
        by (auto simp: checker_rest_def checker_final_def Let_def split: option.splits if_splits)
    next
      case k: False
      with c er have z: "ee = rd_end (b_body v)" "rd_content (b_body v) = x" "rd_content (lim_R l) = []"
          "lim_N l = b_N v - int (length x)" "rd_end (lim_R l) = rd_end (b_body v)" "int (length x) \<le> b_N v" "length x \<le> n"
        by simp_all
      show ?thesis
      proof (cases "0 < lim_N l")
        case True
        with fc(5) have "fe = Some (errShorter v (lim_N l))" "w = ?v" by simp_all
        with True e v' dx nd z k \<open>errors_is ee EOF\<close> show ?thesis
          by (auto simp: checker_rest_def checker_final_def Let_def)
      next
        case n0: False
        with fc(4) z True have "fe = None" by simp
        with e v' dx nd z k n0 True show ?thesis
          by (auto simp: checker_rest_def checker_final_def Let_def)
      qed
    qed
  qed
qed

interpretation checker: sticky_reader checker_read "\<lambda>v. rd_progress (b_body v)"
  checker_rest checker_final checker_work
  by unfold_locales (use checker_read_cont checker_read_end in blast)+

section \<open>Copying a blob\<close>

text \<open>The copy ends, and succeeds exactly on a complete body of the size given.\<close>

definition blob_complete :: "reader \<Rightarrow> int \<Rightarrow> bool" where
  "blob_complete body sz =
     (int (length (rd_content body)) = max 0 sz \<and> errors_is (rd_end body) EOF)"

lemma checker_final_New:
  "checker_final (NewBlobSizeChecker body digest sz) = EOF \<longleftrightarrow> blob_complete body sz"
proof -
  have "int (length (rd_content body)) = max 0 sz \<longleftrightarrow>
      \<not> (sz < int (length (rd_content body)) \<and> rd_content body \<noteq> []) \<and> \<not> int (length (rd_content body)) < sz"
    by (cases "rd_content body") auto
  then show ?thesis
    by (auto simp: checker_final_def NewBlobSizeChecker_def blob_complete_def Let_def)
qed

lemma checker_rest_New:
  "checker_rest (NewBlobSizeChecker body digest sz) = take (nat sz) (rd_content body)"
  by (simp add: checker_rest_def NewBlobSizeChecker_def)

lemma checker_rest_complete:
  "blob_complete body sz \<Longrightarrow> checker_rest (NewBlobSizeChecker body digest sz) = rd_content body"
  by (auto simp: checker_rest_New blob_complete_def max_def split: if_splits)

text \<open>For every writer that keeps the writer contract.\<close>

lemma CopyBlobSized_ok:
  assumes w: "io_writer wr winv wrote fits" and p: "rd_progress body" and i: "winv dst"
    and c: "CopyBlobSized wr dst body digest sz = Some (None, dst')"
  shows "blob_complete body sz" and "wrote dst' = wrote dst @ rd_content body" and "winv dst'"
proof -
  have io: "io_copy checker_read (\<lambda>v. rd_progress (b_body v)) checker_rest checker_final checker_work wr winv wrote fits"
    using checker.io_reader_axioms w by (rule io_copy.intro)
  from c obtain n s where cp: "io_Copy checker_read wr (NewBlobSizeChecker body digest sz) dst = Some (n, None, s, dst')"
    by (auto simp: CopyBlobSized_def)
  have b: "rd_progress (b_body (NewBlobSizeChecker body digest sz))"
    using p by (simp add: NewBlobSizeChecker_def)
  note r = io_copy.Copy_success [OF io b i cp]
  from r(1) show bc: "blob_complete body sz" by (simp add: checker_final_New)
  from r(2) show "wrote dst' = wrote dst @ rd_content body" by (simp add: checker_rest_complete [OF bc])
  from r(4) show "winv dst'" .
qed

lemma CopyBlobSized_total:
  assumes w: "io_writer wr winv wrote fits" and p: "rd_progress body" and i: "winv dst"
  shows "\<exists>e dst'. CopyBlobSized wr dst body digest sz = Some (e, dst') \<and> winv dst' \<and>
    (fits (length (rd_content body)) dst \<and> blob_complete body sz \<longrightarrow>
       e = None \<and> wrote dst' = wrote dst @ rd_content body \<and> fits 0 dst')"
proof -
  let ?v = "NewBlobSizeChecker body digest sz"
  have io: "io_copy checker_read (\<lambda>v. rd_progress (b_body v)) checker_rest checker_final checker_work wr winv wrote fits"
    using checker.io_reader_axioms w by (rule io_copy.intro)
  have b: "rd_progress (b_body ?v)" using p by (simp add: NewBlobSizeChecker_def)
  show ?thesis
  proof (cases "fits (length (rd_content body)) dst \<and> blob_complete body sz")
    case True
    then have "fits (length (checker_rest ?v)) dst" and "checker_final ?v = EOF" and "checker_rest ?v = rd_content body"
      by (simp_all add: checker_rest_complete checker_final_New)
    with io_copy.Copy_fits [OF io b i] show ?thesis by (fastforce simp: CopyBlobSized_def)
  next
    case False
    with io_copy.Copy_total [OF io b i] show ?thesis by (auto simp: CopyBlobSized_def)
  qed
qed

section \<open>References\<close>

lemma relRepo_chars:
  assumes "re_in relRepo s"
  shows "CHR ''@'' \<notin> set s" and "CHR '':'' \<notin> set s"
  using re_in_chars [OF assms, of "CHR ''@''"] re_in_chars [OF assms, of "CHR '':''"]
  by (auto simp: relRepo_def relComponent_def re_plus_def re_char_def lower_digit_def char_in_def)

lemma relTag_chars:
  assumes "re_in relTag s"
  shows "CHR ''@'' \<notin> set s" and "CHR '':'' \<notin> set s"
  using re_in_chars [OF assms, of "CHR ''@''"] re_in_chars [OF assms, of "CHR '':''"]
  by (auto simp: relTag_def word_char_def lower_digit_def char_in_def dest!: re_chars_upto)

lemma relRepo_nonempty: "\<not> re_in relRepo []"
  unfolding accepts_nil_iff [symmetric] by (simp add: relRepo_def relComponent_def re_plus_def)

lemma relTag_nonempty: "\<not> re_in relTag []"
  unfolding accepts_nil_iff [symmetric] by (simp add: relTag_def)

lemma re_in_lit: "re_in (RSeq (re_lit l) r) s \<Longrightarrow> \<exists>t. s = l @ t \<and> re_in r t"
proof -
  have "re_in (re_lit l) a \<Longrightarrow> a = l" for a
    by (induction l arbitrary: a) (auto simp: re_char_def)
  moreover assume "re_in (RSeq (re_lit l) r) s"
  ultimately show ?thesis by blast
qed

lemma relDigest_chars:
  assumes "re_in relDigest s"
  shows "CHR ''@'' \<notin> set s" and "CHR '':'' \<in> set s"
proof -
  show "CHR ''@'' \<notin> set s"
    using re_in_chars [OF assms, of "CHR ''@''"]
    by (auto simp: relDigest_def re_char_def hex_digit_def char_in_def dest!: re_chars_times)
  show "CHR '':'' \<in> set s"
    using assms by (auto simp only: relDigest_def re_in_alt_iff dest!: re_in_lit) auto
qed

lemma ParseRef_digest: "CHR ''@'' \<notin> set repo \<Longrightarrow> repo \<noteq> [] \<Longrightarrow> ParseRef (repo @ CHR ''@'' # d) = (repo, d)"
  by (simp add: ParseRef_def Cut_append)

lemma ParseRef_tag:
  "CHR '':'' \<notin> set repo \<Longrightarrow> CHR ''@'' \<notin> set repo \<Longrightarrow> CHR ''@'' \<notin> set t \<Longrightarrow> repo \<noteq> [] \<Longrightarrow>
     ParseRef (repo @ CHR '':'' # t) = (repo, t)"
  by (simp add: ParseRef_def Cut_append Cut_absent)

lemma ParseRef_latest:
  "CHR '':'' \<notin> set repo \<Longrightarrow> CHR ''@'' \<notin> set repo \<Longrightarrow> ParseRef repo = (repo, ''latest'')"
  by (simp add: ParseRef_def Cut_absent)

text \<open>An accepted reference is its two parts joined: \<open>@\<close> before a digest, \<open>:\<close> before a tag, or no tag at all.\<close>

lemma IsRelativeRef_shape:
  assumes "IsRelativeRef ref" and "ParseRef ref = (repo, reference)"
  shows "re_in relRepo repo"
    and "(re_in relDigest reference \<and> ref = repo @ CHR ''@'' # reference) \<or>
      (re_in relTag reference \<and> (ref = repo @ CHR '':'' # reference \<or> ref = repo \<and> reference = ''latest''))"
proof -
  have repo: "re_in relRepo repo"
    and ref: "if CHR ''@'' \<in> set ref then re_in relDigest reference else re_in relTag reference"
    using assms by (auto simp: IsRelativeRef_def re_match_iff split: if_splits)
  show "re_in relRepo repo" by (rule repo)
  obtain n d ok where c: "Cut ref CHR ''@'' = (n, d, ok)" by (metis prod_cases3)
  obtain n' t ok' where c': "Cut ref CHR '':'' = (n', t, ok')" by (metis prod_cases3)
  from assms(2) c c' consider "ok" "n = repo" "d = reference" | "ok'" "n' = repo" "t = reference" | "ref = repo" "reference = ''latest''"
    by (auto simp: ParseRef_def split: if_splits)
  then show "(re_in relDigest reference \<and> ref = repo @ CHR ''@'' # reference) \<or>
      (re_in relTag reference \<and> (ref = repo @ CHR '':'' # reference \<or> ref = repo \<and> reference = ''latest''))"
  proof cases
    case 1
    with c have "ref = repo @ CHR ''@'' # reference" using Cut_found [of ref "CHR ''@''" n d] by simp
    with ref show ?thesis by simp
  next
    case 2
    with c' have e: "ref = repo @ CHR '':'' # reference" using Cut_found [of ref "CHR '':''" n' t] by simp
    with ref relRepo_chars(1) [OF repo] relDigest_chars(1) [of reference] have "CHR ''@'' \<notin> set ref"
      by (auto split: if_splits)
    with ref e show ?thesis by simp
  next
    case 3
    with ref relRepo_chars(1) [OF repo] show ?thesis by auto
  qed
qed

text \<open>Every repository with a tag or digest of the right form is accepted.\<close>

lemma IsRelativeRef_complete:
  assumes r: "re_in relRepo repo"
  shows "re_in relTag t \<Longrightarrow> IsRelativeRef (repo @ CHR '':'' # t) \<and> ParseRef (repo @ CHR '':'' # t) = (repo, t)"
    and "re_in relDigest d \<Longrightarrow> IsRelativeRef (repo @ CHR ''@'' # d) \<and> ParseRef (repo @ CHR ''@'' # d) = (repo, d)"
    and "IsRelativeRef repo \<and> ParseRef repo = (repo, ''latest'')"
proof -
  have ne: "repo \<noteq> []" using relRepo_nonempty r by auto
  note c = relRepo_chars [OF r]
  show "IsRelativeRef (repo @ CHR '':'' # t) \<and> ParseRef (repo @ CHR '':'' # t) = (repo, t)" if t: "re_in relTag t"
    using c ne t relTag_chars [OF t] r
    by (simp add: IsRelativeRef_def ParseRef_tag re_match_iff)
  show "IsRelativeRef (repo @ CHR ''@'' # d) \<and> ParseRef (repo @ CHR ''@'' # d) = (repo, d)" if d: "re_in relDigest d"
    using c ne d r by (simp add: IsRelativeRef_def ParseRef_digest re_match_iff)
  have "re_match relTag ''latest''" by code_simp
  then show "IsRelativeRef repo \<and> ParseRef repo = (repo, ''latest'')"
    using c r by (simp add: IsRelativeRef_def ParseRef_latest re_match_iff)
qed

end
