(* ===== verification/Oci_Registry.thy ===== *)
theory Oci_Registry
  imports Ociutil
begin

text \<open>
  The interfaces \<^verbatim>\<open>Uploader\<close> and \<^verbatim>\<open>Downloader\<close> of \<^verbatim>\<open>snapshot/snapshot.go\<close>, and the client
  \<^verbatim>\<open>OCIRegistry\<close> of \<^verbatim>\<open>oci/oci.go\<close> behind them. The state \<open>'r\<close> is the registry's; a call that may
  change it gives the new one.

  The client calls the package \<^verbatim>\<open>go-containerregistry\<close>, which is not part of the repository: its
  functions are the record \<open>Remote\<close>, an argument of every definition that uses them. The locale
  \<open>distribution\<close> states what its documentation and the OCI distribution specification promise of
  them; the locale \<open>blob_store\<close> is what the snapshot code relies on. The client turns the first
  into the second (a \<open>sublocale\<close>), and a registry in memory satisfies the first.
\<close>

section \<open>The interfaces\<close>

record 'r Uploader =
  up_HasBlob :: "string \<Rightarrow> string \<Rightarrow> 'r \<Rightarrow> bool res"
  up_PutBlob :: "string \<Rightarrow> string \<Rightarrow> bytes \<Rightarrow> int \<Rightarrow> 'r \<Rightarrow> goerr option \<times> 'r"
  up_PutManifest :: "string \<Rightarrow> string \<Rightarrow> bytes \<Rightarrow> string \<Rightarrow> 'r \<Rightarrow> goerr option \<times> 'r"

record 'r Downloader =
  dl_GetManifest :: "string \<Rightarrow> string \<Rightarrow> 'r \<Rightarrow> (bytes \<times> string) res"
  dl_GetBlob :: "string \<Rightarrow> string \<Rightarrow> 'r \<Rightarrow> reader res"

section \<open>The registry client library\<close>

text \<open>
  \<^verbatim>\<open>streamLayer\<close>: a layer of known digest and size; \<^verbatim>\<open>Compressed\<close> rewinds the body, so the library
  reads it from the start on every attempt. \<^verbatim>\<open>DiffID\<close> and \<^verbatim>\<open>Uncompressed\<close> only fail.
\<close>

record streamLayer =
  sl_hash :: string
  sl_size :: int
  sl_body :: bytes

definition errBlobUncompressed :: goerr where
  "errBlobUncompressed = Msg ''cocoon blob layers expose only compressed bytes''"

definition sl_Compressed :: "streamLayer \<Rightarrow> reader res" where
  "sl_Compressed l = Inr (rd_of_bytes (sl_body l))"

definition sl_Uncompressed :: "streamLayer \<Rightarrow> reader res" where
  "sl_Uncompressed l = Inl errBlobUncompressed"

text \<open>\<^verbatim>\<open>rawManifest\<close>: the serialized manifest and its media type.\<close>

record rawManifest =
  rm_data :: bytes
  rm_mediaType :: string

text \<open>
  \<^verbatim>\<open>name.ParseReference\<close>, \<^verbatim>\<open>name.NewDigest\<close> give the repository and the tag or digest, and
  \<^verbatim>\<open>remote.*\<close> talk to the registry. \<^verbatim>\<open>remote.Layer\<close> is lazy: \<^verbatim>\<open>Size\<close> and \<^verbatim>\<open>Compressed\<close> make the requests.
\<close>

record 'r Remote =
  ParseReference :: "string \<Rightarrow> (string \<times> string) res"
  NewDigest :: "string \<Rightarrow> (string \<times> string) res"
  NewRepository :: "string \<Rightarrow> string res"
  NewHash :: "string \<Rightarrow> string res"
  remote_Get :: "string \<times> string \<Rightarrow> 'r \<Rightarrow> rawManifest res"
  remote_Head :: "string \<times> string \<Rightarrow> 'r \<Rightarrow> unit res"
  remote_Layer :: "string \<times> string \<Rightarrow> 'r \<Rightarrow> (string \<times> string) res"
  layer_Size :: "string \<times> string \<Rightarrow> 'r \<Rightarrow> int res"
  layer_Compressed :: "string \<times> string \<Rightarrow> 'r \<Rightarrow> reader res"
  remote_WriteLayer :: "string \<Rightarrow> streamLayer \<Rightarrow> 'r \<Rightarrow> goerr option \<times> 'r"
  remote_Put :: "string \<times> string \<Rightarrow> rawManifest \<Rightarrow> 'r \<Rightarrow> goerr option \<times> 'r"
  remote_Delete :: "string \<times> string \<Rightarrow> 'r \<Rightarrow> goerr option \<times> 'r"

section \<open>The client\<close>

text \<open>\<^verbatim>\<open>OCIRegistry\<close>: the registry host with the repository prefix; options carry no state.\<close>

record 'r OCIRegistry =
  base :: string
  remote :: "'r Remote"

definition UploadSession :: "'r OCIRegistry \<Rightarrow> 'r OCIRegistry" where
  "UploadSession g = \<lparr>base = base g, remote = remote g\<rparr>"

fun isNotFound :: "goerr \<Rightarrow> bool" where
  "isNotFound (TransportError c) = (c = 404)"
| "isNotFound (Wrap s e) = isNotFound e"
| "isNotFound _ = False"

definition ignoreNotFound :: "goerr \<Rightarrow> string \<Rightarrow> goerr option" where
  "ignoreNotFound e action = (if isNotFound e then None else Some (Wrap action e))"

definition parseRef :: "'r OCIRegistry \<Rightarrow> string \<Rightarrow> string \<Rightarrow> (string \<times> string) res" where
  "parseRef g repo reference =
     (let sep = (if CHR '':'' \<in> set reference then ''@'' else '':'') in
      wrapR (''parse ref '' @ repo @ sep @ reference)
        (ParseReference (remote g) (base g @ ''/'' @ repo @ sep @ reference)))"

definition GetManifest :: "'r OCIRegistry \<Rightarrow> string \<Rightarrow> string \<Rightarrow> 'r \<Rightarrow> (bytes \<times> string) res" where
  "GetManifest g repo tag r =
     bindR (parseRef g repo tag) (\<lambda>ref.
       case remote_Get (remote g) ref r of
         Inl e \<Rightarrow>
           Inl (Wrap (''get manifest '' @ repo @ '':'' @ tag) (if isNotFound e then ErrManifestNotFound else e))
       | Inr desc \<Rightarrow> Inr (rm_data desc, rm_mediaType desc))"

definition digestRef :: "'r OCIRegistry \<Rightarrow> string \<Rightarrow> string \<Rightarrow> (string \<times> string) res" where
  "digestRef g repo digest =
     wrapR (''parse digest '' @ repo @ ''@'' @ digest)
       (NewDigest (remote g) (base g @ ''/'' @ repo @ ''@'' @ digest))"

definition GetBlob :: "'r OCIRegistry \<Rightarrow> string \<Rightarrow> string \<Rightarrow> 'r \<Rightarrow> reader res" where
  "GetBlob g repo digest r =
     bindR (digestRef g repo digest) (\<lambda>ref.
     bindR (wrapR (''get blob '' @ repo @ ''@'' @ digest) (remote_Layer (remote g) ref r)) (\<lambda>layer.
       layer_Compressed (remote g) layer r))"

definition HasBlob :: "'r OCIRegistry \<Rightarrow> string \<Rightarrow> string \<Rightarrow> 'r \<Rightarrow> bool res" where
  "HasBlob g repo digest r =
     bindR (digestRef g repo digest) (\<lambda>ref.
       case bindR (remote_Layer (remote g) ref r) (\<lambda>layer. layer_Size (remote g) layer r) of
         Inr _ \<Rightarrow> Inr True
       | Inl e \<Rightarrow>
           (case ignoreNotFound e (''head blob '' @ repo @ ''@'' @ digest) of
              None \<Rightarrow> Inr False
            | Some e' \<Rightarrow> Inl e'))"

definition HasManifest :: "'r OCIRegistry \<Rightarrow> string \<Rightarrow> string \<Rightarrow> 'r \<Rightarrow> bool res" where
  "HasManifest g repo tag r =
     bindR (parseRef g repo tag) (\<lambda>ref.
       case remote_Head (remote g) ref r of
         Inr _ \<Rightarrow> Inr True
       | Inl e \<Rightarrow>
           (case ignoreNotFound e (''head manifest '' @ repo @ '':'' @ tag) of
              None \<Rightarrow> Inr False
            | Some e' \<Rightarrow> Inl e'))"

definition PutBlob ::
  "'r OCIRegistry \<Rightarrow> string \<Rightarrow> string \<Rightarrow> bytes \<Rightarrow> int \<Rightarrow> 'r \<Rightarrow> goerr option \<times> 'r" where
  "PutBlob g repo digest body sz r =
     (case wrapR (''parse repo '' @ repo) (NewRepository (remote g) (base g @ ''/'' @ repo)) of
        Inl e \<Rightarrow> (Some e, r)
      | Inr repoRef \<Rightarrow>
          (case wrapR (''parse digest '' @ digest) (NewHash (remote g) digest) of
             Inl e \<Rightarrow> (Some e, r)
           | Inr hash \<Rightarrow>
               (case remote_WriteLayer (remote g) repoRef \<lparr>sl_hash = hash, sl_size = sz, sl_body = body\<rparr> r of
                  (Some e, r') \<Rightarrow> (Some (Wrap (''put blob '' @ repo @ ''@'' @ digest) e), r')
                | (None, r') \<Rightarrow> (None, r'))))"

definition PutManifest ::
  "'r OCIRegistry \<Rightarrow> string \<Rightarrow> string \<Rightarrow> bytes \<Rightarrow> string \<Rightarrow> 'r \<Rightarrow> goerr option \<times> 'r" where
  "PutManifest g repo tag data contentType r =
     (case parseRef g repo tag of
        Inl e \<Rightarrow> (Some e, r)
      | Inr ref \<Rightarrow>
          (case remote_Put (remote g) ref \<lparr>rm_data = data, rm_mediaType = contentType\<rparr> r of
             (Some e, r') \<Rightarrow> (Some (Wrap (''put manifest '' @ repo @ '':'' @ tag) e), r')
           | (None, r') \<Rightarrow> (None, r')))"

definition DeleteManifest :: "'r OCIRegistry \<Rightarrow> string \<Rightarrow> string \<Rightarrow> 'r \<Rightarrow> goerr option \<times> 'r" where
  "DeleteManifest g repo reference r =
     (case parseRef g repo reference of
        Inl e \<Rightarrow> (Some e, r)
      | Inr ref \<Rightarrow>
          (case remote_Delete (remote g) ref r of
             (Some e, r') \<Rightarrow> (ignoreNotFound e (''delete manifest '' @ repo @ '':'' @ reference), r')
           | (None, r') \<Rightarrow> (None, r')))"

definition ociUploader :: "'r OCIRegistry \<Rightarrow> 'r Uploader" where
  "ociUploader g = \<lparr>up_HasBlob = HasBlob g, up_PutBlob = PutBlob g, up_PutManifest = PutManifest g\<rparr>"

definition ociDownloader :: "'r OCIRegistry \<Rightarrow> 'r Downloader" where
  "ociDownloader g = \<lparr>dl_GetManifest = GetManifest g, dl_GetBlob = GetBlob g\<rparr>"

section \<open>What the snapshot code relies on\<close>

definition digestOf :: "bytes \<Rightarrow> string" where
  "digestOf b = ''sha256:'' @ SHA256Hex b"

text \<open>A body that delivers \<open>b\<close> and ends cleanly.\<close>

definition serves :: "reader \<Rightarrow> bytes \<Rightarrow> bool" where
  "serves body b = (rd_content body = b \<and> rd_end body = EOF \<and> rd_progress body)"

text \<open>
  \<open>blobs r n d\<close> is the blob with digest \<open>d\<close> in repository \<open>n\<close>, \<open>manif r n t\<close> the manifest at a tag.
  Blobs are stored under their own digest; what was put is there, and nothing else changes.
\<close>

locale blob_store =
  fixes up :: "'r Uploader" and dl :: "'r Downloader"
    and repo_ok :: "string \<Rightarrow> bool" and tag_ok :: "string \<Rightarrow> bool"
    and blobs :: "'r \<Rightarrow> string \<Rightarrow> string \<Rightarrow> bytes option"
    and manif :: "'r \<Rightarrow> string \<Rightarrow> string \<Rightarrow> bytes option"
  assumes has_blob: "repo_ok n \<Longrightarrow> up_HasBlob up n (digestOf b) r = Inr (blobs r n (digestOf b) \<noteq> None)"
    and verified: "repo_ok n \<Longrightarrow> blobs r n d = Some b \<Longrightarrow> d = digestOf b"
    and put_blob: "repo_ok n \<Longrightarrow> \<exists>r'. up_PutBlob up n (digestOf b) b (int (length b)) r = (None, r') \<and>
      blobs r' n = (blobs r n)(digestOf b \<mapsto> b) \<and> (\<forall>n'. n' \<noteq> n \<longrightarrow> blobs r' n' = blobs r n') \<and>
      manif r' = manif r"
    and put_manifest: "repo_ok n \<Longrightarrow> tag_ok t \<Longrightarrow> \<exists>r'. up_PutManifest up n t b c r = (None, r') \<and>
      manif r' n = (manif r n)(t \<mapsto> b) \<and> (\<forall>n'. n' \<noteq> n \<longrightarrow> manif r' n' = manif r n') \<and>
      blobs r' = blobs r"
    and get_blob: "repo_ok n \<Longrightarrow> blobs r n d = Some b \<Longrightarrow> \<exists>body. dl_GetBlob dl n d r = Inr body \<and> serves body b"
    and get_manifest: "repo_ok n \<Longrightarrow> tag_ok t \<Longrightarrow> manif r n t = Some b \<Longrightarrow>
      \<exists>c. dl_GetManifest dl n t r = Inr (b, c)"

section \<open>What the client library promises\<close>

text \<open>
  References that parse come back as the repository and the tag or digest; a missing blob is the
  status 404; a blob is stored under its digest, and the upload is verified against it.
\<close>

locale distribution =
  fixes rem :: "'r Remote" and root :: string
    and repo_ok :: "string \<Rightarrow> bool" and tag_ok :: "string \<Rightarrow> bool"
    and stored :: "'r \<Rightarrow> string \<Rightarrow> string \<Rightarrow> bytes option"
    and tagged :: "'r \<Rightarrow> string \<Rightarrow> string \<Rightarrow> rawManifest option"
  assumes parse_tag: "repo_ok n \<Longrightarrow> tag_ok t \<Longrightarrow> CHR '':'' \<notin> set t \<and>
      ParseReference rem (root @ ''/'' @ n @ '':'' @ t) = Inr (root @ ''/'' @ n, t)"
    and parse_digest: "repo_ok n \<Longrightarrow>
      NewDigest rem (root @ ''/'' @ n @ ''@'' @ digestOf b) = Inr (root @ ''/'' @ n, digestOf b)"
    and parse_repo: "repo_ok n \<Longrightarrow> NewRepository rem (root @ ''/'' @ n) = Inr (root @ ''/'' @ n)"
    and parse_hash: "NewHash rem (digestOf b) = Inr (digestOf b)"
    and layer_lazy: "remote_Layer rem ref r = Inr ref"
    and size_stored: "stored r n d = Some b \<Longrightarrow> layer_Size rem (n, d) r = Inr (int (length b))"
    and size_missing: "stored r n d = None \<Longrightarrow> layer_Size rem (n, d) r = Inl (TransportError 404)"
    and stored_verified: "stored r n d = Some b \<Longrightarrow> d = digestOf b"
    and compressed: "stored r n d = Some b \<Longrightarrow> \<exists>body. layer_Compressed rem (n, d) r = Inr body \<and> serves body b"
    and write_layer: "sl_hash l = digestOf (sl_body l) \<Longrightarrow> sl_size l = int (length (sl_body l)) \<Longrightarrow>
      \<exists>r'. remote_WriteLayer rem n l r = (None, r') \<and> stored r' n = (stored r n)(sl_hash l \<mapsto> sl_body l) \<and>
        (\<forall>n'. n' \<noteq> n \<longrightarrow> stored r' n' = stored r n') \<and> tagged r' = tagged r"
    and put_tag: "\<exists>r'. remote_Put rem (n, t) m r = (None, r') \<and> tagged r' n = (tagged r n)(t \<mapsto> m) \<and>
        (\<forall>n'. n' \<noteq> n \<longrightarrow> tagged r' n' = tagged r n') \<and> stored r' = stored r"
    and get_tag: "tagged r n t = Some m \<Longrightarrow> remote_Get rem (n, t) r = Inr m"
    and get_untagged: "tagged r n t = None \<Longrightarrow> remote_Get rem (n, t) r = Inl (TransportError 404)"
    and head_tag: "tagged r n t = Some m \<Longrightarrow> remote_Head rem (n, t) r = Inr ()"
    and head_untagged: "tagged r n t = None \<Longrightarrow> remote_Head rem (n, t) r = Inl (TransportError 404)"
    and delete_tag: "tagged r n t = Some m \<Longrightarrow> \<exists>r'. remote_Delete rem (n, t) r = (None, r') \<and>
        tagged r' n = (tagged r n)(t := None) \<and> (\<forall>n'. n' \<noteq> n \<longrightarrow> tagged r' n' = tagged r n') \<and>
        stored r' = stored r"
    and delete_untagged: "tagged r n t = None \<Longrightarrow> remote_Delete rem (n, t) r = (Some (TransportError 404), r)"

section \<open>The client keeps the promise\<close>

text \<open>How the client's references parse.\<close>

lemma isNotFound_404 [simp]: "isNotFound (TransportError 404)"
  by simp

context distribution
begin

abbreviation client :: "'r OCIRegistry" where
  "client \<equiv> \<lparr>base = root, remote = rem\<rparr>"

lemma client_parseRef: "repo_ok n \<Longrightarrow> tag_ok t \<Longrightarrow> parseRef client n t = Inr (root @ ''/'' @ n, t)"
  using parse_tag [of n t] by (simp add: parseRef_def)

lemma client_digestRef: "repo_ok n \<Longrightarrow> digestRef client n (digestOf b) = Inr (root @ ''/'' @ n, digestOf b)"
  using parse_digest [of n b] by (simp add: digestRef_def)

lemma client_HasBlob:
  "repo_ok n \<Longrightarrow> HasBlob client n (digestOf b) r = Inr (stored r (root @ ''/'' @ n) (digestOf b) \<noteq> None)"
  using size_stored [of r "root @ ''/'' @ n" "digestOf b"] size_missing [of r "root @ ''/'' @ n" "digestOf b"]
  by (cases "stored r (root @ ''/'' @ n) (digestOf b)")
    (simp_all add: HasBlob_def client_digestRef layer_lazy ignoreNotFound_def)

lemma client_GetManifest:
  "repo_ok n \<Longrightarrow> tag_ok t \<Longrightarrow> GetManifest client n t r =
     (case tagged r (root @ ''/'' @ n) t of
        Some m \<Rightarrow> Inr (rm_data m, rm_mediaType m)
      | None \<Rightarrow> Inl (Wrap (''get manifest '' @ n @ '':'' @ t) ErrManifestNotFound))"
  by (cases "tagged r (root @ ''/'' @ n) t")
    (simp_all add: GetManifest_def client_parseRef get_tag get_untagged)

lemma client_HasManifest:
  "repo_ok n \<Longrightarrow> tag_ok t \<Longrightarrow> HasManifest client n t r = Inr (tagged r (root @ ''/'' @ n) t \<noteq> None)"
  by (cases "tagged r (root @ ''/'' @ n) t")
    (auto simp: HasManifest_def client_parseRef head_tag head_untagged ignoreNotFound_def)

text \<open>Deleting succeeds whether the manifest is there or not, and then it is not.\<close>

lemma client_DeleteManifest:
  assumes "repo_ok n" and "tag_ok t"
  shows "\<exists>r'. DeleteManifest client n t r = (None, r') \<and>
    tagged r' (root @ ''/'' @ n) = (tagged r (root @ ''/'' @ n))(t := None) \<and>
    (\<forall>n'. n' \<noteq> root @ ''/'' @ n \<longrightarrow> tagged r' n' = tagged r n') \<and> stored r' = stored r"
proof (cases "tagged r (root @ ''/'' @ n) t")
  case None
  then have "(tagged r (root @ ''/'' @ n))(t := None) = tagged r (root @ ''/'' @ n)" by auto
  with None assms show ?thesis
    by (simp add: DeleteManifest_def client_parseRef delete_untagged ignoreNotFound_def)
next
  case (Some m)
  from delete_tag [OF this] assms show ?thesis
    by (auto simp: DeleteManifest_def client_parseRef)
qed

end

sublocale distribution \<subseteq> store: blob_store
  "ociUploader \<lparr>base = root, remote = rem\<rparr>" "ociDownloader \<lparr>base = root, remote = rem\<rparr>" repo_ok tag_ok
  "\<lambda>r n. stored r (root @ ''/'' @ n)" "\<lambda>r n t. map_option rm_data (tagged r (root @ ''/'' @ n) t)"
proof unfold_locales
  fix n b r
  assume n: "repo_ok n"
  show "up_HasBlob (ociUploader client) n (digestOf b) r = Inr (stored r (root @ ''/'' @ n) (digestOf b) \<noteq> None)"
    using client_HasBlob [OF n] by (simp add: ociUploader_def)
  from write_layer [of "\<lparr>sl_hash = digestOf b, sl_size = int (length b), sl_body = b\<rparr>" "root @ ''/'' @ n" r]
  show "\<exists>r'. up_PutBlob (ociUploader client) n (digestOf b) b (int (length b)) r = (None, r') \<and>
      stored r' (root @ ''/'' @ n) = (stored r (root @ ''/'' @ n))(digestOf b \<mapsto> b) \<and>
      (\<forall>n'. n' \<noteq> n \<longrightarrow> stored r' (root @ ''/'' @ n') = stored r (root @ ''/'' @ n')) \<and>
      (\<lambda>n t. map_option rm_data (tagged r' (root @ ''/'' @ n) t)) =
      (\<lambda>n t. map_option rm_data (tagged r (root @ ''/'' @ n) t))"
    by (auto simp: ociUploader_def PutBlob_def parse_repo [OF n, simplified] parse_hash)
next
  fix n r d b
  assume "stored r (root @ ''/'' @ n) d = Some b"
  then show "d = digestOf b" by (rule stored_verified)
next
  fix n t b c r
  assume n: "repo_ok n" "tag_ok t"
  from put_tag [of "root @ ''/'' @ n" t "\<lparr>rm_data = b, rm_mediaType = c\<rparr>" r]
  show "\<exists>r'. up_PutManifest (ociUploader client) n t b c r = (None, r') \<and>
      (\<lambda>t. map_option rm_data (tagged r' (root @ ''/'' @ n) t)) =
      (\<lambda>t. map_option rm_data (tagged r (root @ ''/'' @ n) t))(t \<mapsto> b) \<and>
      (\<forall>n'. n' \<noteq> n \<longrightarrow> (\<lambda>t. map_option rm_data (tagged r' (root @ ''/'' @ n') t)) =
        (\<lambda>t. map_option rm_data (tagged r (root @ ''/'' @ n') t))) \<and>
      (\<lambda>n. stored r' (root @ ''/'' @ n)) = (\<lambda>n. stored r (root @ ''/'' @ n))"
    by (auto simp: ociUploader_def PutManifest_def client_parseRef [OF n] fun_eq_iff)
next
  fix n r d b
  assume n: "repo_ok n" and s: "stored r (root @ ''/'' @ n) d = Some b"
  from stored_verified [OF s] have d: "d = digestOf b" .
  from compressed [OF s] show "\<exists>body. dl_GetBlob (ociDownloader client) n d r = Inr body \<and> serves body b"
    by (auto simp: ociDownloader_def GetBlob_def client_digestRef [OF n] layer_lazy d)
next
  fix n t r b
  assume n: "repo_ok n" "tag_ok t" and m: "map_option rm_data (tagged r (root @ ''/'' @ n) t) = Some b"
  then show "\<exists>c. dl_GetManifest (ociDownloader client) n t r = Inr (b, c)"
    by (auto simp: ociDownloader_def client_GetManifest [OF n])
qed

context distribution
begin

lemma client_store: "blob_store (ociUploader client) (ociDownloader client) repo_ok tag_ok
    (\<lambda>r n. stored r (root @ ''/'' @ n)) (\<lambda>r n t. map_option rm_data (tagged r (root @ ''/'' @ n) t))"
  by (rule store.blob_store_axioms)

end

section \<open>A registry in memory\<close>

text \<open>
  Blobs by repository and digest, manifests by repository and reference; a reference is split at
  the \<open>@\<close> or at the last \<open>:\<close>, and an upload with the wrong digest or size is refused.
\<close>

record mem =
  mem_blobs :: "(string \<times> string, bytes) fmap"
  mem_tags :: "(string \<times> string, rawManifest) fmap"

definition mem_split :: "char \<Rightarrow> string \<Rightarrow> (string \<times> string) res" where
  "mem_split sep s =
     (case Cut (rev s) sep of (after, before, ok) \<Rightarrow>
        if ok then Inr (rev before, rev after) else Inl (Msg ''could not parse reference''))"

definition mem_missing :: "'a option \<Rightarrow> 'a res" where
  "mem_missing x = (case x of None \<Rightarrow> Inl (TransportError 404) | Some v \<Rightarrow> Inr v)"

text \<open>Every state of the registry holds only blobs under their own digest: a blob put under another is not kept.\<close>

definition mem_blob :: "mem \<Rightarrow> string \<Rightarrow> string \<Rightarrow> bytes option" where
  "mem_blob r n d =
     (case fmlookup (mem_blobs r) (n, d) of
        None \<Rightarrow> None
      | Some b \<Rightarrow> if d = digestOf b then Some b else None)"

definition mem_remote :: "mem Remote" where
  "mem_remote =
     \<lparr>ParseReference = (\<lambda>s. if CHR ''@'' \<in> set s then mem_split CHR ''@'' s else mem_split CHR '':'' s),
      NewDigest = mem_split CHR ''@'',
      NewRepository = Inr,
      NewHash = Inr,
      remote_Get = (\<lambda>ref r. mem_missing (fmlookup (mem_tags r) ref)),
      remote_Head = (\<lambda>ref r. bindR (mem_missing (fmlookup (mem_tags r) ref)) (\<lambda>_. Inr ())),
      remote_Layer = (\<lambda>ref r. Inr ref),
      layer_Size = (\<lambda>(n, d) r. bindR (mem_missing (mem_blob r n d)) (\<lambda>b. Inr (int (length b)))),
      layer_Compressed = (\<lambda>(n, d) r. bindR (mem_missing (mem_blob r n d)) (\<lambda>b. Inr (rd_of_bytes b))),
      remote_WriteLayer = (\<lambda>n l r.
        if sl_hash l = digestOf (sl_body l) \<and> sl_size l = int (length (sl_body l))
        then (None, r\<lparr>mem_blobs := fmupd (n, sl_hash l) (sl_body l) (mem_blobs r)\<rparr>)
        else (Some (Msg ''digest mismatch''), r)),
      remote_Put = (\<lambda>ref m r. (None, r\<lparr>mem_tags := fmupd ref m (mem_tags r)\<rparr>)),
      remote_Delete = (\<lambda>ref r.
        case fmlookup (mem_tags r) ref of
          None \<Rightarrow> (Some (TransportError 404), r)
        | Some _ \<Rightarrow> (None, r\<lparr>mem_tags := fmdrop ref (mem_tags r)\<rparr>))\<rparr>"

definition mem_repo_ok :: "string \<Rightarrow> bool" where
  "mem_repo_ok n = (CHR ''@'' \<notin> set n)"

definition mem_tag_ok :: "string \<Rightarrow> bool" where
  "mem_tag_ok t = (CHR ''@'' \<notin> set t \<and> CHR '':'' \<notin> set t)"

lemma mem_split_last: "sep \<notin> set t \<Longrightarrow> mem_split sep (n @ sep # t) = Inr (n, t)"
  by (simp add: mem_split_def Cut_append)

lemma digestOf_chars: "CHR ''@'' \<notin> set (digestOf b)"
  using hex_encode_chars [of "CHR ''@''" "sha256 b"] by (auto simp: digestOf_def SHA256Hex_def)

definition mem_root :: string where
  "mem_root = ''registry.local/project''"

interpretation memory: distribution mem_remote mem_root mem_repo_ok mem_tag_ok mem_blob
  "\<lambda>r n t. fmlookup (mem_tags r) (n, t)"
proof unfold_locales
  fix n t
  assume "mem_repo_ok n" "mem_tag_ok t"
  then show "CHR '':'' \<notin> set t \<and>
      ParseReference mem_remote (mem_root @ ''/'' @ n @ '':'' @ t) = Inr (mem_root @ ''/'' @ n, t)"
    using mem_split_last [of "CHR '':''" t "mem_root @ ''/'' @ n"]
    by (simp add: mem_remote_def mem_tag_ok_def mem_repo_ok_def mem_root_def)
next
  fix n b
  show "NewDigest mem_remote (mem_root @ ''/'' @ n @ ''@'' @ digestOf b) = Inr (mem_root @ ''/'' @ n, digestOf b)"
    using mem_split_last [OF digestOf_chars, of "mem_root @ ''/'' @ n" b] by (simp add: mem_remote_def)
qed (auto simp: mem_remote_def mem_missing_def mem_blob_def serves_def fun_eq_iff split: option.splits if_splits)

end
