(* ===== verification/Go_Tar.thy ===== *)
theory Go_Tar
  imports Go_Io Go_Strconv
begin

text \<open>
  Go's \<^verbatim>\<open>archive/tar\<close> at the level of entries. A stream that is read is the list of its entries,
  each a header and the body behind it, and the error the list ends with. A writer keeps the
  entries written so far, the bytes still missing from the last one, and a fault schedule: for
  the k-th operation on the underlying \<^verbatim>\<open>io.Writer\<close>, the error it gives.

  The lemmas: the writer keeps the writer contract on its last entry and never touches an earlier
  one, so a body is complete when the next header is accepted.
\<close>

section \<open>Types\<close>

record tar_header =
  h_Name :: string
  h_Size :: int
  h_Mode :: int
  h_Typeflag :: char
  h_PAXRecords :: gomap
  h_ModTime :: string

definition TypeReg :: char where
  "TypeReg = CHR ''0''"

record tar_entry =
  e_hdr :: tar_header
  e_body :: reader

record tar_stream =
  ts_entries :: "tar_entry list"
  ts_end :: goerr

record tar_writer =
  tw_entries :: "(tar_header \<times> bytes) list"
  tw_left :: int
  tw_ops :: nat
  tw_fault :: "nat \<Rightarrow> goerr option"

definition newTarWriter :: "(nat \<Rightarrow> goerr option) \<Rightarrow> tar_writer" where
  "newTarWriter fault = \<lparr>tw_entries = [], tw_left = 0, tw_ops = 0, tw_fault = fault\<rparr>"

section \<open>Writing\<close>

text \<open>
  A header that no tar format can hold is refused: a negative size, a name with a NUL byte, or a mode
  beyond seven octal digits together with PAX records, which leave no base-256 numbers.
\<close>

definition header_ok :: "tar_header \<Rightarrow> bool" where
  "header_ok h =
     (0 \<le> h_Size h \<and> CHR 0x00 \<notin> set (h_Name h) \<and>
      (h_PAXRecords h = fmempty \<or> (0 \<le> h_Mode h \<and> h_Mode h < 8 ^ 7)))"

definition tw_flush :: "tar_writer \<Rightarrow> goerr option" where
  "tw_flush tw =
     (if tw_left tw > 0 then Some (Msg (''archive/tar: missed writing '' @ FormatInt (tw_left tw) @ '' bytes''))
      else None)"

definition tw_WriteHeader :: "tar_header \<Rightarrow> tar_writer \<Rightarrow> goerr option \<times> tar_writer" where
  "tw_WriteHeader h tw =
     (case tw_flush tw of
        Some e \<Rightarrow> (Some e, tw)
      | None \<Rightarrow>
          if \<not> header_ok h then (Some (Msg ''archive/tar: invalid tar header''), tw)
          else
            (case tw_fault tw (tw_ops tw) of
               Some e \<Rightarrow> (Some e, tw\<lparr>tw_ops := Suc (tw_ops tw)\<rparr>)
             | None \<Rightarrow>
                 (None, tw\<lparr>tw_entries := tw_entries tw @ [(h, [])], tw_left := h_Size h,
                    tw_ops := Suc (tw_ops tw)\<rparr>)))"

definition tw_append :: "bytes \<Rightarrow> tar_writer \<Rightarrow> tar_writer" where
  "tw_append d tw =
     tw\<lparr>tw_entries :=
          (if tw_entries tw = [] then []
           else butlast (tw_entries tw) @
             [(fst (last (tw_entries tw)), snd (last (tw_entries tw)) @ d)]),
        tw_left := tw_left tw - int (length d), tw_ops := Suc (tw_ops tw)\<rparr>"

definition tw_Write :: "tar_writer write_fn" where
  "tw_Write d tw =
     (let b = take (nat (tw_left tw)) d; over = int (length d) > tw_left tw in
      if b = [] then (0, if over then Some WriteTooLong else None, tw)
      else
        (case tw_fault tw (tw_ops tw) of
           Some e \<Rightarrow> (0, Some e, tw\<lparr>tw_ops := Suc (tw_ops tw)\<rparr>)
         | None \<Rightarrow> (length b, if over then Some WriteTooLong else None, tw_append b tw)))"

definition tw_Close :: "tar_writer \<Rightarrow> goerr option \<times> tar_writer" where
  "tw_Close tw =
     (case tw_flush tw of
        Some e \<Rightarrow> (Some e, tw)
      | None \<Rightarrow> (tw_fault tw (tw_ops tw), tw\<lparr>tw_ops := Suc (tw_ops tw)\<rparr>))"

section \<open>The writer contract\<close>

text \<open>The writer is inside the entry \<open>h\<close>, after the entries \<open>pre\<close>.\<close>

definition tw_in :: "(tar_header \<times> bytes) list \<Rightarrow> tar_header \<Rightarrow> tar_writer \<Rightarrow> bool" where
  "tw_in pre h tw =
     (\<exists>b. tw_entries tw = pre @ [(h, b)] \<and> 0 \<le> tw_left tw \<and> int (length b) + tw_left tw = h_Size h)"

definition tw_body :: "tar_writer \<Rightarrow> bytes" where
  "tw_body tw = snd (last (tw_entries tw))"

definition no_faults :: "tar_writer \<Rightarrow> bool" where
  "no_faults tw = (tw_fault tw = (\<lambda>_. None))"

definition tw_fits :: "nat \<Rightarrow> tar_writer \<Rightarrow> bool" where
  "tw_fits k tw = (int k \<le> tw_left tw \<and> no_faults tw)"

lemma tw_append_in:
  assumes "tw_in pre h tw" and "int (length d) \<le> tw_left tw"
  shows "tw_in pre h (tw_append d tw)" and "tw_body (tw_append d tw) = tw_body tw @ d"
  using assms by (auto simp: tw_in_def tw_append_def tw_body_def)

lemma tw_Write_full:
  assumes "tw_in pre h tw" and "tw_Write d tw = (n, None, tw')"
  shows "n = length d" and "tw_in pre h tw'" and "tw_body tw' = tw_body tw @ d"
proof -
  from assms have "int (length d) \<le> tw_left tw"
    by (auto simp: tw_Write_def Let_def split: if_splits option.splits)
  moreover from assms(1) have "0 \<le> tw_left tw" by (auto simp: tw_in_def)
  ultimately have t: "take (nat (tw_left tw)) d = d" by simp
  with assms(2) have "(d = [] \<and> n = 0 \<and> tw' = tw) \<or> (n = length d \<and> tw' = tw_append d tw)"
    by (auto simp: tw_Write_def Let_def split: if_splits option.splits)
  with tw_append_in [OF assms(1) \<open>int (length d) \<le> tw_left tw\<close>] assms(1)
  show "n = length d" and "tw_in pre h tw'" and "tw_body tw' = tw_body tw @ d"
    by auto
qed

lemma tw_ops_in [simp]: "tw_in pre h (tw\<lparr>tw_ops := k\<rparr>) = tw_in pre h tw"
  by (simp add: tw_in_def)

lemma tw_Write_in: "tw_in pre h tw \<Longrightarrow> tw_Write d tw = (n, e, tw') \<Longrightarrow> tw_in pre h tw'"
proof -
  assume i: "tw_in pre h tw" and w: "tw_Write d tw = (n, e, tw')"
  from i have "int (length (take (nat (tw_left tw)) d)) \<le> tw_left tw"
    by (auto simp: tw_in_def)
  from tw_append_in(1) [OF i this] i w show "tw_in pre h tw'"
    by (auto simp: tw_Write_def Let_def split: if_splits option.splits)
qed

interpretation tw: io_writer tw_Write "tw_in pre h" tw_body tw_fits for pre h
proof unfold_locales
  fix w w' :: tar_writer and d nw
  assume "tw_in pre h w" "tw_Write d w = (nw, None, w')"
  from tw_Write_full [OF this] show "nw = length d \<and> tw_in pre h w' \<and> tw_body w' = tw_body w @ d" by simp
next
  fix w w' :: tar_writer and d nw e
  assume "tw_in pre h w" "tw_Write d w = (nw, Some e, w')"
  then show "tw_in pre h w'" by (rule tw_Write_in)
next
  fix w :: tar_writer and d :: bytes and k
  assume a: "tw_in pre h w" "tw_fits k w" "d \<noteq> []" "length d \<le> k"
  then have "0 < length d" and "int (length d) \<le> tw_left w" by (auto simp: tw_fits_def)
  then have "0 < tw_left w" by linarith
  with a show "\<exists>w'. tw_Write d w = (length d, None, w') \<and> tw_fits (k - length d) w'"
    by (auto simp: tw_Write_def Let_def tw_fits_def tw_append_def no_faults_def)
qed

text \<open>The writer between entries: all bodies are complete.\<close>

definition tw_done :: "(tar_header \<times> bytes) list \<Rightarrow> tar_writer \<Rightarrow> bool" where
  "tw_done es tw = (tw_entries tw = es \<and> tw_left tw = 0)"

definition complete_entries :: "(tar_header \<times> bytes) list \<Rightarrow> bool" where
  "complete_entries es = (\<forall>(h, b) \<in> set es. int (length b) = h_Size h)"

lemma tw_done_new [simp]: "tw_done [] (newTarWriter f)"
  by (simp add: tw_done_def newTarWriter_def)

lemma tw_WriteHeader_ok:
  assumes "tw_done pre tw" and "tw_WriteHeader h tw = (None, tw')"
  shows "tw_in pre h tw'" and "tw_body tw' = []" and "tw_left tw' = h_Size h" and "tw_fault tw' = tw_fault tw"
  using assms
  by (auto simp: tw_WriteHeader_def tw_flush_def tw_done_def tw_in_def tw_body_def header_ok_def
      split: option.splits if_splits)

lemma tw_WriteHeader_no_fault:
  assumes "tw_done pre tw" and "no_faults tw" and "header_ok h"
  shows "\<exists>tw'. tw_WriteHeader h tw = (None, tw') \<and> no_faults tw'"
  using assms by (simp add: tw_WriteHeader_def tw_flush_def tw_done_def no_faults_def)

lemma tw_in_full:
  "tw_in pre h tw \<Longrightarrow> int (length (tw_body tw)) = h_Size h \<Longrightarrow> tw_done (pre @ [(h, tw_body tw)]) tw"
  by (auto simp: tw_in_def tw_done_def tw_body_def)

lemma tw_in_left: "tw_in pre h tw \<Longrightarrow> tw_left tw = h_Size h - int (length (tw_body tw))"
  by (auto simp: tw_in_def tw_body_def)

lemma tw_Close_ok: "tw_done es tw \<Longrightarrow> no_faults tw \<Longrightarrow> \<exists>tw'. tw_Close tw = (None, tw') \<and> tw_done es tw'"
  by (simp add: tw_Close_def tw_flush_def tw_done_def no_faults_def)

end
