(* ===== verification/Snapshot_Push.thy ===== *)
theory Snapshot_Push
  imports Snapshot_Envelope Oci_Registry Go_Tar
begin

text \<open>
  Pushing a snapshot (\<^verbatim>\<open>snapshot/push.go\<close>, \<^verbatim>\<open>snapshot/pushpipeline.go\<close>): the export stream is read
  entry by entry; each regular file becomes one blob, compressed or not, or a sequence of chunk
  blobs; the metadata goes into the config blob and everything is tied together by the manifest.

  State: the registry \<open>'r\<close> is passed through, and \<open>push_state\<close> holds the variables of the read
  loop, with \<open>ps_wait\<close> the first error of the worker group, which cancels its context. Workers
  are run here in the order they are started, each before the reader goes on. The zstd
  library, the clock, the caller's context and the export command are parameters; the spool file on
  the local disk is the bytes written to it.
\<close>

section \<open>Options and environment\<close>

record PushOptions =
  o_Name :: string
  o_LocalName :: string
  o_Tag :: string
  o_BaseImage :: string
  o_Source :: string
  o_Revision :: string
  o_Annotations :: gomap
  o_ZstdLevel :: int
  o_ChunkSizeMiB :: int
  o_Concurrency :: int
  o_MemoryBudgetMiB :: int

text \<open>
  \<^verbatim>\<open>klauspost/compress/zstd\<close>: the encoder on a whole buffer, the encoder as a stream, the decoder into
  a buffer of bounded size, and the decoder as a stream over bytes that end with an error.
\<close>

record zstd_lib =
  z_EncodeAll :: "int \<Rightarrow> bytes \<Rightarrow> bytes"
  z_EncodeStream :: "int \<Rightarrow> bytes \<Rightarrow> bytes"
  z_DecodeAll :: "int \<Rightarrow> bytes \<Rightarrow> bytes res"
  z_DecodeStream :: "bytes \<Rightarrow> goerr \<Rightarrow> bytes \<times> goerr"

record env =
  ev_zstd :: zstd_lib
  ev_nowJSON :: string
  ev_nowRFC3339 :: string
  ev_ctx :: "goerr option"

text \<open>
  \<^verbatim>\<open>Pusher\<close>: the uploader, the session it opens when it offers one, and the export command, which gives
  the stream and what \<^verbatim>\<open>wait\<close> returns.
\<close>

record 'r Pusher =
  pu_Uploader :: "'r Uploader"
  pu_Session :: "'r Uploader option"
  pu_Export :: "string \<Rightarrow> (tar_stream \<times> goerr option) res"

definition snapshotJSONName :: string where
  "snapshotJSONName = ''snapshot.json''"

definition sparsePAXMap :: string where
  "sparsePAXMap = ''COCOON.sparse.map''"

definition sparsePAXSize :: string where
  "sparsePAXSize = ''COCOON.sparse.size''"

definition defaultTransferConcurrency :: int where
  "defaultTransferConcurrency = 8"

definition errMissingSnapshotJSON :: goerr where
  "errMissingSnapshotJSON = Msg ''snapshot.json not found in export stream''"

definition compressMinBytes :: int where
  "compressMinBytes = 2 ^ 20"

definition maxChunkSizeMiB :: int where
  "maxChunkSizeMiB = 4096"

definition defaultPushMemoryBudgetMiB :: int where
  "defaultPushMemoryBudgetMiB = 9216"

section \<open>Parameters of the pipeline\<close>

definition pipelineParams :: "PushOptions \<Rightarrow> (int \<times> int) res" where
  "pipelineParams opts =
     (let workers = (if o_Concurrency opts \<le> 0 then defaultTransferConcurrency else o_Concurrency opts);
          chunkSize = max (o_ChunkSizeMiB opts) 0 * 2 ^ 20;
          budget = (let b = wrap64 (o_MemoryBudgetMiB opts * 2 ^ 20)
                    in if b \<le> 0 then defaultPushMemoryBudgetMiB * 2 ^ 20 else b)
      in if o_ChunkSizeMiB opts > maxChunkSizeMiB
         then Inl (Msg (''snapshot push: chunk size '' @ FormatInt (o_ChunkSizeMiB opts) @ '' MiB exceeds the '' @
                FormatInt maxChunkSizeMiB @ '' MiB maximum''))
         else if chunkSize = 0 then Inr (workers, 0)
         else if 4 * chunkSize > budget
         then Inl (Msg (''snapshot push: chunk size '' @ FormatInt (o_ChunkSizeMiB opts) @
                '' MiB needs at least a '' @ FormatInt (4 * chunkSize div 2 ^ 20) @ '' MiB memory budget, got '' @
                FormatInt (budget div 2 ^ 20) @ '' MiB''))
         else Inr (min workers (quot64 budget (2 * chunkSize) - 1), chunkSize))"

section \<open>Blobs\<close>

definition putBlobIfMissing ::
  "'r Uploader \<Rightarrow> string \<Rightarrow> string \<Rightarrow> bytes \<Rightarrow> int \<Rightarrow> 'r \<Rightarrow> goerr option \<times> 'r" where
  "putBlobIfMissing up name digest body sz r =
     (case up_HasBlob up name digest r of
        Inl e \<Rightarrow> (Some (Wrap (''check blob '' @ digest) e), r)
      | Inr exists \<Rightarrow>
          if exists then (None, r)
          else (case up_PutBlob up name digest body sz r of
                  (Some e, r') \<Rightarrow> (Some (Wrap (''put blob '' @ digest) e), r')
                | (None, r') \<Rightarrow> (None, r')))"

definition titled :: "string \<Rightarrow> string \<Rightarrow> bytes \<Rightarrow> Descriptor" where
  "titled mediaType title stored =
     \<lparr>d_MediaType = mediaType, d_Digest = ''sha256:'' @ SHA256Hex stored, d_Size = int (length stored),
      d_Annotations = fmupd AnnotationTitle title fmempty, d_ArtifactType = []\<rparr>"

text \<open>\<^verbatim>\<open>uploadSpooled\<close>: \<open>spool\<close> is what \<^verbatim>\<open>write\<close> left in the spool file, or its error.\<close>

definition uploadSpooled ::
  "'r Uploader \<Rightarrow> string \<Rightarrow> string \<Rightarrow> string \<Rightarrow> bytes res \<Rightarrow> 'r \<Rightarrow> Descriptor res \<times> 'r" where
  "uploadSpooled up name title mediaType spool r =
     (case spool of
        Inl e \<Rightarrow> (Inl e, r)
      | Inr data \<Rightarrow>
          (case putBlobIfMissing up name (''sha256:'' @ SHA256Hex data) data (int (length data)) r of
             (Some e, r') \<Rightarrow> (Inl e, r')
           | (None, r') \<Rightarrow> (Inr (titled mediaType title data), r')))"

text \<open>\<^verbatim>\<open>io.Copy(w, io.LimitReader(body, hdr.Size))\<close>: the bytes copied, or the error.\<close>

definition copyLimited :: "tar_entry \<Rightarrow> bytes res" where
  "copyLimited e =
     (case io_ReadAll lim_read \<lparr>lim_R = e_body e, lim_N = h_Size (e_hdr e)\<rparr> of
        None \<Rightarrow> Inl NoReturn
      | Some (b, _) \<Rightarrow> b)"

definition uploadTarEntry :: "'r Uploader \<Rightarrow> string \<Rightarrow> tar_entry \<Rightarrow> 'r \<Rightarrow> Descriptor res \<times> 'r" where
  "uploadTarEntry up name e r =
     uploadSpooled up name (h_Name (e_hdr e)) (MediaTypeForCocoonFile (h_Name (e_hdr e)))
       (wrapR ''buffer entry'' (copyLimited e)) r"

definition uploadCompressedSpool ::
  "env \<Rightarrow> 'r Uploader \<Rightarrow> int \<Rightarrow> string \<Rightarrow> tar_entry \<Rightarrow> 'r \<Rightarrow> Descriptor res \<times> 'r" where
  "uploadCompressedSpool ev up level name e r =
     uploadSpooled up name (h_Name (e_hdr e)) (ZstdMediaType (MediaTypeForCocoonFile (h_Name (e_hdr e))))
       (bindR (wrapR ''compress entry'' (copyLimited e)) (\<lambda>b. Inr (z_EncodeStream (ev_zstd ev) level b))) r"

section \<open>Chunks\<close>

definition uploadChunk ::
  "env \<Rightarrow> 'r Uploader \<Rightarrow> int \<Rightarrow> string \<Rightarrow> string \<Rightarrow> string \<Rightarrow> int \<Rightarrow> int \<Rightarrow> bytes \<Rightarrow> 'r \<Rightarrow>
     Descriptor res \<times> 'r" where
  "uploadChunk ev up level name mediaType title index count raw r =
     (let stored = (if IsZstdMediaType mediaType then z_EncodeAll (ev_zstd ev) level raw else raw) in
      case putBlobIfMissing up name (''sha256:'' @ SHA256Hex stored) stored (int (length stored)) r of
        (Some e, r') \<Rightarrow> (Inl e, r')
      | (None, r') \<Rightarrow>
          (let desc = titled mediaType title stored in
           Inr (if count > 1
                then desc\<lparr>d_Annotations := fmupd AnnotationChunkCount (Itoa count)
                       (fmupd AnnotationChunkIndex (Itoa index) (d_Annotations desc))\<rparr>
                else desc), r'))"

text \<open>
  The loop of \<^verbatim>\<open>enqueueChunks\<close> over the chunks still to cut. It gives the error it returns, the
  descriptors of the chunks whose worker finished, the first worker error and the registry.
\<close>

fun enqueueLoop ::
  "env \<Rightarrow> 'r Uploader \<Rightarrow> int \<Rightarrow> string \<Rightarrow> string \<Rightarrow> string \<Rightarrow> int \<Rightarrow> int \<Rightarrow>
     nat \<Rightarrow> int \<Rightarrow> int \<Rightarrow> reader \<Rightarrow> goerr option \<Rightarrow> 'r \<Rightarrow>
     goerr option \<times> Descriptor list \<times> goerr option \<times> 'r" where
  "enqueueLoop ev up level name mediaType title chunkSize count 0 i remaining body wait r = (None, [], wait, r)"
| "enqueueLoop ev up level name mediaType title chunkSize count (Suc k) i remaining body wait r =
     (if wait \<noteq> None \<or> ev_ctx ev \<noteq> None then (Some (case ev_ctx ev of None \<Rightarrow> Canceled | Some e \<Rightarrow> e), [], wait, r)
      else
        (let want = min chunkSize remaining in
         case io_ReadFull rd_read (nat want) body of
           None \<Rightarrow> (Some NoReturn, [], wait, r)
         | Some (data, Some e, _) \<Rightarrow>
             (Some (Wrap (''read '' @ title @ '' chunk '' @ FormatInt i) e), [], wait, r)
         | Some (data, None, body') \<Rightarrow>
             (case uploadChunk ev up level name mediaType title i count data r of
                (Inl e, r') \<Rightarrow>
                  (case enqueueLoop ev up level name mediaType title chunkSize count k (i + 1) (remaining - want)
                          body' (Some (Wrap (''upload '' @ title @ '' chunk '' @ FormatInt i) e)) r' of
                     (err, ds, w, r'') \<Rightarrow> (err, zeroDescriptor # ds, w, r''))
              | (Inr d, r') \<Rightarrow>
                  (case enqueueLoop ev up level name mediaType title chunkSize count k (i + 1) (remaining - want)
                          body' wait r' of
                     (err, ds, w, r'') \<Rightarrow> (err, d # ds, w, r'')))))"

definition enqueueChunks ::
  "env \<Rightarrow> 'r Uploader \<Rightarrow> int \<Rightarrow> string \<Rightarrow> tar_entry \<Rightarrow> int \<Rightarrow> bool \<Rightarrow> goerr option \<Rightarrow> 'r \<Rightarrow>
     goerr option \<times> Descriptor list \<times> goerr option \<times> 'r" where
  "enqueueChunks ev up level name e chunkSize compress wait r =
     (let hdr = e_hdr e;
          count = quot64 (wrap64 (wrap64 (h_Size hdr + chunkSize) - 1)) chunkSize;
          mt = MediaTypeForCocoonFile (h_Name hdr);
          mediaType = (if compress then ZstdMediaType mt else mt)
      in if count > 2 ^ 20 then
           (Some (Msg (h_Name hdr @ '': '' @ FormatInt count @ '' chunks exceeds sanity cap'')), [], wait, r)
         else if count < 0 then (Some (GoPanic ''makeslice: len out of range''), [], wait, r)
         else enqueueLoop ev up level name mediaType (h_Name hdr) chunkSize count (nat count) 0 (h_Size hdr)
                (e_body e) wait r)"

section \<open>The read loop\<close>

definition sparseFileMeta :: "tar_header \<Rightarrow> SnapshotFile res" where
  "sparseFileMeta hdr =
     (let fm = zeroFile\<lparr>f_Mode := h_Mode hdr\<rparr> in
      case fmlookup (h_PAXRecords hdr) sparsePAXMap of
        None \<Rightarrow> Inr fm
      | Some sparseMap \<Rightarrow>
          (case fmlookup (h_PAXRecords hdr) sparsePAXSize of
             None \<Rightarrow> Inl (Msg (''sparse entry '' @ h_Name hdr @ '' missing '' @ sparsePAXSize))
           | Some rawSize \<Rightarrow>
               (case ParseInt 64 rawSize of
                  None \<Rightarrow> Inl (Wrap (''parse sparse size for '' @ h_Name hdr) (Msg ''strconv.ParseInt''))
                | Some n \<Rightarrow> Inr (fm\<lparr>f_SparseMap := sparseMap, f_SparseSize := n\<rparr>))))"

record chunkGroup =
  g_name :: string
  g_descs :: "Descriptor list"

record push_state =
  ps_cfg :: "snapshotExportConfig option"
  ps_files :: "(string, SnapshotFile) fmap"
  ps_groups :: "chunkGroup list"
  ps_encoded :: bool
  ps_wait :: "goerr option"

definition initState :: push_state where
  "initState = \<lparr>ps_cfg = None, ps_files = fmempty, ps_groups = [], ps_encoded = False, ps_wait = None\<rparr>"

definition addGroup :: "string \<Rightarrow> Descriptor list \<Rightarrow> push_state \<Rightarrow> push_state" where
  "addGroup n ds st = st\<lparr>ps_groups := ps_groups st @ [\<lparr>g_name = n, g_descs = ds\<rparr>]\<rparr>"

text \<open>
  One entry: \<open>Inl\<close> the error the loop breaks with, or \<open>Inr\<close> the new state, and the registry.
  The state is also given with an error, for the worker error in it.
\<close>

definition pushFile ::
  "env \<Rightarrow> 'r Uploader \<Rightarrow> PushOptions \<Rightarrow> int \<Rightarrow> tar_entry \<Rightarrow> push_state \<Rightarrow> 'r \<Rightarrow>
     goerr option \<times> push_state \<times> 'r" where
  "pushFile ev up opts chunkSize e st r =
     (let hdr = e_hdr e; level = o_ZstdLevel opts;
          compress = (level > 0 \<and> h_Size hdr \<ge> compressMinBytes)
      in if chunkSize > 0 \<and> (compress \<or> h_Size hdr > chunkSize) then
           (case enqueueChunks ev up level (o_Name opts) e chunkSize compress (ps_wait st) r of
              (err, ds, wait, r') \<Rightarrow>
                (let st' = st\<lparr>ps_encoded := True, ps_wait := wait\<rparr> in
                 case err of
                   Some er \<Rightarrow> (Some er, st', r')
                 | None \<Rightarrow> (None, addGroup (h_Name hdr) ds st', r')))
         else
           (case (if compress then uploadCompressedSpool ev up level (o_Name opts) e r
                  else uploadTarEntry up (o_Name opts) e r) of
              (res, r') \<Rightarrow>
                (let st' = (if compress then st\<lparr>ps_encoded := True\<rparr> else st) in
                 case res of
                   Inl er \<Rightarrow> (Some (Wrap (''upload '' @ h_Name hdr) er), st', r')
                 | Inr d \<Rightarrow> (None, addGroup (h_Name hdr) [d] st', r'))))"

definition pushEntry ::
  "env \<Rightarrow> 'r Uploader \<Rightarrow> PushOptions \<Rightarrow> int \<Rightarrow> tar_entry \<Rightarrow> push_state \<Rightarrow> 'r \<Rightarrow>
     goerr option \<times> push_state \<times> 'r" where
  "pushEntry ev up opts chunkSize e st r =
     (let hdr = e_hdr e in
      if h_Name hdr = snapshotJSONName then
        (case decodeExportEnvelope (rd_content (e_body e)) of
           Inl er \<Rightarrow> (Some er, st\<lparr>ps_cfg := None\<rparr>, r)
         | Inr c \<Rightarrow> (None, st\<lparr>ps_cfg := Some c\<rparr>, r))
      else if h_Typeflag hdr \<noteq> TypeReg then (None, st, r)
      else if h_Size hdr < 0 then
        (Some (Msg (''tar entry '' @ h_Name hdr @ '' has negative size '' @ FormatInt (h_Size hdr))), st, r)
      else
        (case sparseFileMeta hdr of
           Inl er \<Rightarrow> (Some er, st, r)
         | Inr fm \<Rightarrow>
             pushFile ev up opts chunkSize e
               (st\<lparr>ps_files := fmupd (h_Name hdr) (fm\<lparr>f_Size := h_Size hdr\<rparr>) (ps_files st)\<rparr>) r))"

fun readLoop ::
  "env \<Rightarrow> 'r Uploader \<Rightarrow> PushOptions \<Rightarrow> int \<Rightarrow> tar_entry list \<Rightarrow> goerr \<Rightarrow> push_state \<Rightarrow> 'r \<Rightarrow>
     goerr option \<times> push_state \<times> 'r" where
  "readLoop ev up opts chunkSize es fin st r =
     (if ps_wait st \<noteq> None \<or> ev_ctx ev \<noteq> None then (None, st, r)
      else
        (case es of
           [] \<Rightarrow> (if errors_is fin EOF then None else Some (Wrap ''read tar entry'' fin), st, r)
         | e # es' \<Rightarrow>
             (case pushEntry ev up opts chunkSize e st r of
                (Some er, st', r') \<Rightarrow> (Some er, st', r')
              | (None, st', r') \<Rightarrow> readLoop ev up opts chunkSize es' fin st' r')))"

text \<open>After the loop: the layers in order, and the digests of the chunks of a file of two or more.\<close>

definition addChunks :: "chunkGroup \<Rightarrow> (string, SnapshotFile) fmap \<Rightarrow> (string, SnapshotFile) fmap" where
  "addChunks g files =
     (if length (g_descs g) < 2 then files
      else
        (let fm = (case fmlookup files (g_name g) of None \<Rightarrow> zeroFile | Some fm \<Rightarrow> fm) in
         fmupd (g_name g) (fm\<lparr>f_Chunks := map d_Digest (g_descs g)\<rparr>) files))"

record uploadedEntries =
  ue_cfg :: "snapshotExportConfig option"
  ue_files :: "(string, SnapshotFile) fmap"
  ue_layers :: "Descriptor list"
  ue_encoded :: bool

definition finishEntries :: "push_state \<Rightarrow> uploadedEntries" where
  "finishEntries st =
     \<lparr>ue_cfg = ps_cfg st, ue_files = fold addChunks (ps_groups st) (ps_files st),
      ue_layers = concat (map g_descs (ps_groups st)), ue_encoded = ps_encoded st\<rparr>"

text \<open>Which error is reported: the reader's, unless it is the cancellation a worker's error caused.\<close>

definition mergeErrors :: "goerr option \<Rightarrow> goerr option \<Rightarrow> goerr option \<Rightarrow> goerr option" where
  "mergeErrors readErr waitErr ctxErr =
     (let e = (case readErr of
                 None \<Rightarrow> waitErr
               | Some re \<Rightarrow> if waitErr \<noteq> None \<and> errors_is re Canceled then waitErr else Some re)
      in case e of None \<Rightarrow> ctxErr | Some _ \<Rightarrow> e)"

definition readAndUploadEntries ::
  "env \<Rightarrow> 'r Uploader \<Rightarrow> PushOptions \<Rightarrow> tar_stream \<Rightarrow> 'r \<Rightarrow> uploadedEntries res \<times> 'r" where
  "readAndUploadEntries ev up opts s r =
     (case pipelineParams opts of
        Inl e \<Rightarrow> (Inl e, r)
      | Inr (workers, chunkSize) \<Rightarrow>
          (case readLoop ev up opts chunkSize (ts_entries s) (ts_end s) initState r of
             (readErr, st, r') \<Rightarrow>
               (case mergeErrors readErr (ps_wait st) (ev_ctx ev) of
                  Some e \<Rightarrow> (Inl e, r')
                | None \<Rightarrow> (Inr (finishEntries st), r'))))"

section \<open>Config and manifest\<close>

definition snapshotVersionMarkers :: "bool \<Rightarrow> string \<times> string" where
  "snapshotVersionMarkers encoded =
     (if encoded then (''v2'', ArtifactTypeSnapshotV2) else (''v1'', ArtifactTypeSnapshot))"

definition configBlob ::
  "env \<Rightarrow> snapshotExportConfig \<Rightarrow> (string, SnapshotFile) fmap \<Rightarrow> string \<Rightarrow> SnapshotConfig" where
  "configBlob ev cfg files schemaVersion =
     \<lparr>c_SchemaVersion = schemaVersion, c_SnapshotID = x_ID cfg, c_Description = x_Description cfg,
      c_Image = x_Image cfg, c_ImageDigest = x_ImageDigest cfg, c_ImageType = x_ImageType cfg,
      c_ImageBlobIDs = x_ImageBlobIDs cfg, c_Hypervisor = x_Hypervisor cfg, c_CPU = x_CPU cfg,
      c_Memory = x_Memory cfg, c_Storage = x_Storage cfg, c_NICs = x_NICs cfg, c_Network = x_Network cfg,
      c_Windows = x_Windows cfg, c_Files = files, c_Engine = x_Engine cfg, c_CreatedAt = ev_nowJSON ev\<rparr>"

definition uploadSnapshotConfig ::
  "env \<Rightarrow> 'r Uploader \<Rightarrow> string \<Rightarrow> snapshotExportConfig \<Rightarrow> (string, SnapshotFile) fmap \<Rightarrow> string \<Rightarrow> 'r \<Rightarrow>
     Descriptor res \<times> 'r" where
  "uploadSnapshotConfig ev up name cfg files schemaVersion r =
     (let data = json_marshal (enc_config (configBlob ev cfg files schemaVersion)) in
      case putBlobIfMissing up name (''sha256:'' @ SHA256Hex data) data (int (length data)) r of
        (Some e, r') \<Rightarrow> (Inl e, r')
      | (None, r') \<Rightarrow>
          (Inr \<lparr>d_MediaType = MediaTypeSnapshotConfig, d_Digest = ''sha256:'' @ SHA256Hex data,
                d_Size = int (length data), d_Annotations = fmempty, d_ArtifactType = []\<rparr>, r'))"

definition manifestAnnotations :: "env \<Rightarrow> PushOptions \<Rightarrow> gomap" where
  "manifestAnnotations ev opts =
     (let a = fmupd AnnotationCreated (ev_nowRFC3339 ev) fmempty;
          a = (if o_BaseImage opts \<noteq> [] then fmupd AnnotationSnapshotBaseImage (o_BaseImage opts) a else a);
          a = (if o_Source opts \<noteq> [] then fmupd AnnotationSource (o_Source opts) a else a);
          a = (if o_Revision opts \<noteq> [] then fmupd AnnotationRevision (o_Revision opts) a else a)
      in a ++\<^sub>f o_Annotations opts)"

definition snapshotManifest ::
  "env \<Rightarrow> Descriptor \<Rightarrow> Descriptor list \<Rightarrow> PushOptions \<Rightarrow> string \<Rightarrow> OCIManifest" where
  "snapshotManifest ev config layers opts artifactType =
     \<lparr>m_SchemaVersion = 2, m_MediaType = MediaTypeOCIManifest, m_ArtifactType = artifactType,
      m_Config = config, m_Layers = layers, m_Manifests = [], m_Subject = None,
      m_Annotations = manifestAnnotations ev opts\<rparr>"

definition buildSnapshotManifest ::
  "env \<Rightarrow> Descriptor \<Rightarrow> Descriptor list \<Rightarrow> PushOptions \<Rightarrow> string \<Rightarrow> bytes" where
  "buildSnapshotManifest ev config layers opts artifactType =
     json_marshal_indent (enc_manifest (snapshotManifest ev config layers opts artifactType))"

section \<open>Push\<close>

text \<open>What follows when \<^verbatim>\<open>readAndUploadEntries\<close> has returned: the export command's result, the config and the manifest.\<close>

definition finishPush ::
  "env \<Rightarrow> 'r Uploader \<Rightarrow> PushOptions \<Rightarrow> goerr option \<Rightarrow> uploadedEntries res \<Rightarrow> 'r \<Rightarrow> goerr option \<times> 'r" where
  "finishPush ev up opts waitErr res r1 =
     (case res of
        Inl readErr \<Rightarrow> (Some readErr, r1)
      | Inr entries \<Rightarrow>
          (case waitErr of
             Some e \<Rightarrow> (Some e, r1)
           | None \<Rightarrow>
               (case ue_cfg entries of
                  None \<Rightarrow> (Some errMissingSnapshotJSON, r1)
                | Some cfg \<Rightarrow>
                    (case snapshotVersionMarkers (ue_encoded entries) of
                       (schemaVersion, artifactType) \<Rightarrow>
                         (case uploadSnapshotConfig ev up (o_Name opts) cfg (ue_files entries) schemaVersion r1 of
                            (Inl e, r2) \<Rightarrow> (Some (Wrap ''upload snapshot config'' e), r2)
                          | (Inr config, r2) \<Rightarrow>
                              (case up_PutManifest up (o_Name opts) (o_Tag opts)
                                      (buildSnapshotManifest ev config (ue_layers entries) opts artifactType)
                                      MediaTypeOCIManifest r2 of
                                 (Some e, r3) \<Rightarrow>
                                   (Some (Wrap (''put manifest '' @ o_Name opts @ '':'' @ o_Tag opts) e), r3)
                               | (None, r3) \<Rightarrow> (None, r3)))))))"

definition pushUploader :: "'r Pusher \<Rightarrow> 'r Uploader" where
  "pushUploader p = (case pu_Session p of Some s \<Rightarrow> s | None \<Rightarrow> pu_Uploader p)"

definition Push :: "env \<Rightarrow> 'r Pusher \<Rightarrow> PushOptions \<Rightarrow> 'r \<Rightarrow> goerr option \<times> 'r" where
  "Push ev p opts0 r =
     (if o_Name opts0 = [] then (Some (Msg ''snapshot push: name is required''), r)
      else
        (let opts = opts0\<lparr>o_Tag := or_str (o_Tag opts0) ''latest''\<rparr>;
             up = pushUploader p;
             localName = or_str (o_LocalName opts) (o_Name opts)
         in case pu_Export p localName of
              Inl e \<Rightarrow> (Some (Wrap (''cocoon export '' @ localName) e), r)
            | Inr (stream, waitErr) \<Rightarrow>
                (case readAndUploadEntries ev up opts stream r of
                   (res, r1) \<Rightarrow> finishPush ev up opts waitErr res r1)))"

end
