(* ===== verification/Snapshot_Pull.thy ===== *)
theory Snapshot_Pull
  imports Snapshot_Push
begin

text \<open>
  Pulling a snapshot (\<^verbatim>\<open>snapshot/pull.go\<close>, \<^verbatim>\<open>snapshot/pullencoded.go\<close>): the manifest is parsed and
  classified, an image index resolved to its linux/amd64 child, the config fetched, the layers
  validated and planned, and the import tar written entry by entry.

  The registry is only read, so it is an argument. The result of a call is the error it returns and
  the tar writer with everything written until then. Prefetched chunks are consumed in order, and a
  fetch depends on nothing but the registry, so the windowed path is written here as fetches in
  order; the theory \<^verbatim>\<open>Pull_Window\<close> models the goroutines, the window and the buffers.
\<close>

section \<open>Options\<close>

text \<open>\<^verbatim>\<open>StreamOptions\<close>: a nil \<^verbatim>\<open>Writer\<close> is \<open>None\<close>, another is its fault schedule.\<close>

record StreamOptions =
  so_Name :: string
  so_LocalName :: string
  so_Writer :: "(nat \<Rightarrow> goerr option) option"
  so_Concurrency :: int
  so_MemoryBudgetMiB :: int

definition maxSnapshotConfigSize :: int where
  "maxSnapshotConfigSize = 64 * 2 ^ 20"

definition defaultPullPrefetchBudget :: int where
  "defaultPullPrefetchBudget = 4 * 2 ^ 30"

definition maxBufferedChunkBytes :: int where
  "maxBufferedChunkBytes = 2 ^ 30"

section \<open>Config and validation\<close>

definition FetchSnapshotConfig :: "'r Downloader \<Rightarrow> string \<Rightarrow> Descriptor \<Rightarrow> 'r \<Rightarrow> SnapshotConfig res" where
  "FetchSnapshotConfig dl name desc r =
     (if d_MediaType desc \<noteq> MediaTypeSnapshotConfig then
        Inl (Msg (''unexpected config mediaType '' @ d_MediaType desc))
      else if d_Size desc > maxSnapshotConfigSize then
        Inl (Msg (''config blob too large: '' @ FormatInt (d_Size desc) @ '' > '' @ FormatInt maxSnapshotConfigSize))
      else
        (case dl_GetBlob dl name (d_Digest desc) r of
           Inl e \<Rightarrow> Inl (Wrap (''get config blob '' @ d_Digest desc) e)
         | Inr body \<Rightarrow>
             (case io_ReadAll lim_read \<lparr>lim_R = body, lim_N = maxSnapshotConfigSize + 1\<rparr> of
                None \<Rightarrow> Inl NoReturn
              | Some (Inl e, _) \<Rightarrow> Inl (Wrap ''read config blob'' e)
              | Some (Inr data, _) \<Rightarrow>
                  if int (length data) > maxSnapshotConfigSize then
                    Inl (Msg (''config blob exceeded cap '' @ FormatInt maxSnapshotConfigSize @ '' while streaming''))
                  else
                    (case Option.bind (json_unmarshal data) (dec_config zeroConfig) of
                       None \<Rightarrow> Inl (Wrap ''parse snapshot config'' (Msg ''json''))
                     | Some cfg \<Rightarrow> Inr cfg))))"

definition validateLayer :: "bool \<Rightarrow> Descriptor \<Rightarrow> goerr option" where
  "validateLayer encoded layer =
     (if d_Size layer < 0 then
        Some (Msg (''layer '' @ d_Digest layer @ '' has negative size '' @ FormatInt (d_Size layer)))
      else if \<not> IsSnapshotLayerMediaType (d_MediaType layer) then
        Some (Msg (''layer '' @ d_Digest layer @ '' has unsupported mediaType '' @ d_MediaType layer @
          '' (snapshot needs a newer reader)''))
      else if Title layer = [] then
        Some (Msg (''layer '' @ d_Digest layer @ '' missing '' @ AnnotationTitle @ '' annotation''))
      else if \<not> encoded \<and> IsZstdMediaType (d_MediaType layer) then
        Some (Msg (''layer '' @ d_Digest layer @ '' is zstd-compressed but manifest is not '' @ ArtifactTypeSnapshotV2))
      else None)"

fun validateLayers :: "bool \<Rightarrow> Descriptor list \<Rightarrow> goerr option" where
  "validateLayers encoded [] = None"
| "validateLayers encoded (l # ls) =
     (case validateLayer encoded l of Some e \<Rightarrow> Some e | None \<Rightarrow> validateLayers encoded ls)"

text \<open>Which chunked file is named depends on the map order; here it is the first by name.\<close>

definition validateSnapshotLayers :: "OCIManifest \<Rightarrow> SnapshotConfig \<Rightarrow> goerr option" where
  "validateSnapshotLayers m cfg =
     (let encoded = (m_ArtifactType m = ArtifactTypeSnapshotV2) in
      case validateLayers encoded (m_Layers m) of
        Some e \<Rightarrow> Some e
      | None \<Rightarrow>
          if encoded then None
          else
            (case filter (\<lambda>n. f_Chunks (the (fmlookup (c_Files cfg) n)) \<noteq> []) (sorted_keys (c_Files cfg)) of
               [] \<Rightarrow> None
             | n # _ \<Rightarrow> Some (Msg (''file '' @ n @ '' is chunked but manifest is not '' @ ArtifactTypeSnapshotV2))))"

fun pickIndex :: "IndexManifest list \<Rightarrow> IndexManifest res" where
  "pickIndex [] = Inl (Msg ''image-index has no linux/amd64 child'')"
| "pickIndex (c # cs) =
     (case i_Platform c of
        None \<Rightarrow> pickIndex cs
      | Some p \<Rightarrow>
          if p_OS p = ''linux'' \<and> p_Architecture p = ''amd64'' then Inr c else pickIndex cs)"

definition pickIndexChild :: "OCIManifest \<Rightarrow> IndexManifest res" where
  "pickIndexChild m = pickIndex (m_Manifests m)"

section \<open>The plan\<close>

text \<open>\<^verbatim>\<open>chunks\<close> is nil for a layer that is copied as it is.\<close>

record layerPlan =
  lp_title :: string
  lp_meta :: SnapshotFile
  lp_layer :: Descriptor
  lp_chunks :: "Descriptor list option"

definition lp_encoded :: "layerPlan \<Rightarrow> bool" where
  "lp_encoded e = (lp_chunks e \<noteq> None)"

definition lp_zstd :: "layerPlan \<Rightarrow> bool" where
  "lp_zstd e = IsZstdMediaType (d_MediaType (lp_layer e))"

definition lp_descs :: "layerPlan \<Rightarrow> Descriptor list" where
  "lp_descs e = (case lp_chunks e of None \<Rightarrow> [] | Some ds \<Rightarrow> ds)"

fun resolveChunks :: "string \<Rightarrow> int \<Rightarrow> string list \<Rightarrow> (string, Descriptor) fmap \<Rightarrow> Descriptor list res" where
  "resolveChunks title i [] byDigest = Inr []"
| "resolveChunks title i (g # gs) byDigest =
     (case fmlookup byDigest g of
        None \<Rightarrow> Inl (Msg (title @ '' chunk '' @ FormatInt i @ '' ('' @ g @ '') missing from manifest layers''))
      | Some d \<Rightarrow> bindR (resolveChunks title (i + 1) gs byDigest) (\<lambda>ds. Inr (d # ds)))"

definition resolveEncodedFile ::
  "Descriptor \<Rightarrow> SnapshotFile \<Rightarrow> (string, Descriptor) fmap \<Rightarrow> Descriptor list res" where
  "resolveEncodedFile layer fm byDigest =
     (if f_Size fm \<le> 0 then
        Inl (Msg (Title layer @ '': encoded layer missing files[].size in snapshot config''))
      else if f_Chunks fm = [] then Inr [layer]
      else resolveChunks (Title layer) 0 (f_Chunks fm) byDigest)"

definition layersByDigest :: "Descriptor list \<Rightarrow> (string, Descriptor) fmap" where
  "layersByDigest layers = fold (\<lambda>l m. fmupd (d_Digest l) l m) layers fmempty"

definition fileMeta :: "SnapshotConfig \<Rightarrow> string \<Rightarrow> SnapshotFile" where
  "fileMeta cfg title = (case fmlookup (c_Files cfg) title of None \<Rightarrow> zeroFile | Some fm \<Rightarrow> fm)"

fun planLoop ::
  "SnapshotConfig \<Rightarrow> (string, Descriptor) fmap \<Rightarrow> Descriptor list \<Rightarrow> string list \<Rightarrow> layerPlan list res" where
  "planLoop cfg byDigest [] emitted = Inr []"
| "planLoop cfg byDigest (layer # ls) emitted =
     (let title = Title layer; fm = fileMeta cfg title in
      if f_Chunks fm = [] \<and> \<not> IsZstdMediaType (d_MediaType layer) then
        bindR (planLoop cfg byDigest ls emitted) (\<lambda>es.
          Inr (\<lparr>lp_title = title, lp_meta = fm, lp_layer = layer, lp_chunks = None\<rparr> # es))
      else if title \<in> set emitted then planLoop cfg byDigest ls emitted
      else
        bindR (resolveEncodedFile layer fm byDigest) (\<lambda>descs.
        bindR (planLoop cfg byDigest ls (title # emitted)) (\<lambda>es.
          Inr (\<lparr>lp_title = title, lp_meta = fm, lp_layer = layer, lp_chunks = Some descs\<rparr> # es))))"

definition planLayers :: "SnapshotConfig \<Rightarrow> Descriptor list \<Rightarrow> layerPlan list res" where
  "planLayers cfg layers = planLoop cfg (layersByDigest layers) layers []"

section \<open>The chunk pipeline\<close>

definition rawChunkStride :: "int \<Rightarrow> int \<Rightarrow> int" where
  "rawChunkStride sz n = (if n \<le> 1 \<or> sz \<le> 0 then sz else quot64 (sz - 1) (n - 1) + 1)"

definition bufferCaps :: "layerPlan \<Rightarrow> int \<times> int" where
  "bufferCaps e =
     (let stored = fold (\<lambda>d m. max m (d_Size d)) (lp_descs e) 0 in
      if \<not> lp_zstd e then (0, stored)
      else (stored, rawChunkStride (f_Size (lp_meta e)) (int (length (lp_descs e)))))"

record chunkPipeline =
  cp_window :: int
  cp_inputCap :: int
  cp_outputCap :: int

definition pipelineCaps :: "layerPlan list \<Rightarrow> int \<times> int" where
  "pipelineCaps entries =
     fold (\<lambda>e (i, out).
       if \<not> lp_encoded e \<or> length (lp_descs e) < 2 then (i, out)
       else (max i (fst (bufferCaps e)), max out (snd (bufferCaps e)))) entries (0, 0)"

definition newChunkPipeline :: "layerPlan list \<Rightarrow> int \<Rightarrow> int \<Rightarrow> chunkPipeline" where
  "newChunkPipeline entries prefetch budget =
     (case pipelineCaps entries of (inputCap, outputCap) \<Rightarrow>
        (let p = \<lparr>cp_window = 0, cp_inputCap = inputCap, cp_outputCap = outputCap\<rparr> in
         if outputCap \<le> 0 \<or> inputCap > maxBufferedChunkBytes \<or> outputCap > maxBufferedChunkBytes then p
         else
           (let window = min prefetch (quot64 (budget - outputCap) (inputCap + outputCap)) in
            if budget > outputCap \<and> window \<ge> 2 then p\<lparr>cp_window := window\<rparr> else p)))"

definition fileWindow :: "chunkPipeline \<Rightarrow> layerPlan \<Rightarrow> int" where
  "fileWindow p e =
     (if cp_window p < 2 \<or> length (lp_descs e) < 2 then 0
      else min (cp_window p) (int (length (lp_descs e))))"

text \<open>\<^verbatim>\<open>read\<close> into a buffer of \<open>cap\<close> bytes.\<close>

definition chunkRead :: "'r Downloader \<Rightarrow> string \<Rightarrow> Descriptor \<Rightarrow> int \<Rightarrow> 'r \<Rightarrow> bytes res" where
  "chunkRead dl name desc cap r =
     (case dl_GetBlob dl name (d_Digest desc) r of
        Inl e \<Rightarrow> Inl (Wrap (''get blob '' @ d_Digest desc) e)
      | Inr body \<Rightarrow>
          if d_Size desc < 0 \<or> d_Size desc > cap then Inl (GoPanic ''slice bounds out of range'')
          else
            (case io_ReadFull checker_read (nat (d_Size desc))
                    (NewBlobSizeChecker body (d_Digest desc) (d_Size desc)) of
               None \<Rightarrow> Inl NoReturn
             | Some (stored, Some e, _) \<Rightarrow> Inl e
             | Some (stored, None, v) \<Rightarrow>
                 (case io_Copy checker_read buf_write v [] of
                    None \<Rightarrow> Inl NoReturn
                  | Some (_, Some e, _, _) \<Rightarrow> Inl e
                  | Some (_, None, _, _) \<Rightarrow> Inr stored)))"

definition chunkFetch ::
  "env \<Rightarrow> 'r Downloader \<Rightarrow> string \<Rightarrow> chunkPipeline \<Rightarrow> bool \<Rightarrow> Descriptor \<Rightarrow> 'r \<Rightarrow> bytes res" where
  "chunkFetch ev dl name p compressed desc r =
     (if \<not> compressed then chunkRead dl name desc (cp_outputCap p) r
      else
        bindR (chunkRead dl name desc (cp_inputCap p) r) (\<lambda>stored.
          wrapR (''decode chunk '' @ d_Digest desc) (z_DecodeAll (ev_zstd ev) (cp_outputCap p) stored)))"

text \<open>\<^verbatim>\<open>chunkSource.WriteTo\<close>: bytes written, error, writer.\<close>

fun writeChunks ::
  "(Descriptor \<Rightarrow> bytes res) \<Rightarrow> 'w write_fn \<Rightarrow> Descriptor list \<Rightarrow> int \<Rightarrow> 'w \<Rightarrow> int \<times> goerr option \<times> 'w" where
  "writeChunks fetch wr [] written w = (written, None, w)"
| "writeChunks fetch wr (d # ds) written w =
     (case fetch d of
        Inl e \<Rightarrow> (written, Some e, w)
      | Inr data \<Rightarrow>
          (case wr data w of
             (n, Some e, w') \<Rightarrow> (written + int n, Some e, w')
           | (n, None, w') \<Rightarrow>
               if n \<noteq> length data then (written + int n, Some ShortWrite, w')
               else writeChunks fetch wr ds (written + int n) w'))"

text \<open>\<^verbatim>\<open>chunkStream\<close>: the chunks one after the other, each under a size checker.\<close>

record chunkStream =
  cs_descs :: "Descriptor list"
  cs_i :: nat
  cs_cur :: "BlobSizeChecker option"

text \<open>Opening the next chunk when none is open, and one \<^verbatim>\<open>Read\<close>: it goes on to the next chunk at a chunk's end.\<close>

function chunkStreamRead :: "(string \<Rightarrow> reader res) \<Rightarrow> chunkStream read_fn" where
  "chunkStreamRead get n s =
     (case cs_cur s of
        None \<Rightarrow>
          if length (cs_descs s) \<le> cs_i s then ([], Some EOF, s)
          else
            (let desc = cs_descs s ! cs_i s in
             case get (d_Digest desc) of
               Inl e \<Rightarrow> ([], Some (Wrap (''get blob '' @ d_Digest desc) e), s)
             | Inr body \<Rightarrow>
                 (case checker_read n (NewBlobSizeChecker body (d_Digest desc) (d_Size desc)) of
                    (d, err, v) \<Rightarrow>
                      if (case err of None \<Rightarrow> False | Some e \<Rightarrow> errors_is e EOF) then
                        (if d \<noteq> [] then (d, None, s\<lparr>cs_cur := None, cs_i := Suc (cs_i s)\<rparr>)
                         else chunkStreamRead get n (s\<lparr>cs_cur := None, cs_i := Suc (cs_i s)\<rparr>))
                      else (d, err, s\<lparr>cs_cur := Some v\<rparr>)))
      | Some cur \<Rightarrow>
          (case checker_read n cur of
             (d, err, v) \<Rightarrow>
               if (case err of None \<Rightarrow> False | Some e \<Rightarrow> errors_is e EOF) then
                 (if d \<noteq> [] then (d, None, s\<lparr>cs_cur := None, cs_i := Suc (cs_i s)\<rparr>)
                  else chunkStreamRead get n (s\<lparr>cs_cur := None, cs_i := Suc (cs_i s)\<rparr>))
               else (d, err, s\<lparr>cs_cur := Some v\<rparr>)))"
  by pat_completeness auto
termination
  by (relation "measure (\<lambda>(get, n, s). 2 * (length (cs_descs s) - cs_i s) + (if cs_cur s = None then 0 else 1))")
    auto

section \<open>Writing the tar\<close>

definition layerHeader :: "string \<Rightarrow> int \<Rightarrow> SnapshotFile \<Rightarrow> string \<Rightarrow> tar_header res" where
  "layerHeader title sz fm modTime =
     (let hdr = \<lparr>h_Name = title, h_Size = sz, h_Mode = or_int (f_Mode fm) 416, h_Typeflag = TypeReg,
                 h_PAXRecords = fmempty, h_ModTime = modTime\<rparr> in
      if f_SparseMap fm \<noteq> [] then
        (if f_SparseSize fm \<le> 0 then Inl (Msg (''layer '' @ title @ '' has sparse map without sparse size''))
         else Inr (hdr\<lparr>h_PAXRecords := fmupd sparsePAXSize (FormatInt (f_SparseSize fm))
                (fmupd sparsePAXMap (f_SparseMap fm) fmempty)\<rparr>))
      else Inr hdr)"

definition streamLayerToTar ::
  "'r Downloader \<Rightarrow> string \<Rightarrow> Descriptor \<Rightarrow> SnapshotFile \<Rightarrow> string \<Rightarrow> 'r \<Rightarrow> tar_writer \<Rightarrow>
     goerr option \<times> tar_writer" where
  "streamLayerToTar dl name layer fm modTime r tw =
     (case layerHeader (Title layer) (d_Size layer) fm modTime of
        Inl e \<Rightarrow> (Some e, tw)
      | Inr hdr \<Rightarrow>
          (case tw_WriteHeader hdr tw of
             (Some e, tw1) \<Rightarrow> (Some (Wrap ''write tar header'' e), tw1)
           | (None, tw1) \<Rightarrow>
               (case dl_GetBlob dl name (d_Digest layer) r of
                  Inl e \<Rightarrow> (Some (Wrap (''get blob '' @ d_Digest layer) e), tw1)
                | Inr body \<Rightarrow>
                    (case CopyBlobSized tw_Write tw1 body (d_Digest layer) (d_Size layer) of
                       None \<Rightarrow> (Some NoReturn, tw1)
                     | Some (e, tw2) \<Rightarrow> (e, tw2)))))"

text \<open>
  The body of an encoded file: prefetched chunks when the window allows, and otherwise the chunk
  stream, through the streaming decoder when compressed.
\<close>

definition decodedBody :: "env \<Rightarrow> (string \<Rightarrow> reader res) \<Rightarrow> chunkStream \<Rightarrow> reader option" where
  "decodedBody ev get cs =
     (case io_Copy (chunkStreamRead get) buf_write cs [] of
        None \<Rightarrow> None
      | Some (_, e, _, b) \<Rightarrow>
          (case z_DecodeStream (ev_zstd ev) b (case e of None \<Rightarrow> EOF | Some er \<Rightarrow> er) of
             (out, fin) \<Rightarrow> Some ((rd_of_bytes out)\<lparr>rd_end := fin\<rparr>)))"

definition streamBody ::
  "env \<Rightarrow> 'r Downloader \<Rightarrow> string \<Rightarrow> chunkPipeline \<Rightarrow> layerPlan \<Rightarrow> 'r \<Rightarrow> tar_writer \<Rightarrow>
     (int \<times> goerr option \<times> tar_writer) option" where
  "streamBody ev dl name p e r tw =
     (let cs = \<lparr>cs_descs = lp_descs e, cs_i = 0, cs_cur = None\<rparr>; get = (\<lambda>g. dl_GetBlob dl name g r) in
      if fileWindow p e \<ge> 2 then
        Some (writeChunks (\<lambda>d. chunkFetch ev dl name p (lp_zstd e) d r) tw_Write (lp_descs e) 0 tw)
      else if lp_zstd e then
        (case decodedBody ev get cs of
           None \<Rightarrow> None
         | Some body \<Rightarrow> map_option (\<lambda>(n, er, _, w). (n, er, w)) (io_Copy rd_read tw_Write body tw))
      else map_option (\<lambda>(n, er, _, w). (n, er, w)) (io_Copy (chunkStreamRead get) tw_Write cs tw))"

definition streamFile ::
  "env \<Rightarrow> 'r Downloader \<Rightarrow> string \<Rightarrow> chunkPipeline \<Rightarrow> layerPlan \<Rightarrow> string \<Rightarrow> 'r \<Rightarrow> tar_writer \<Rightarrow>
     goerr option \<times> tar_writer" where
  "streamFile ev dl name p e modTime r tw =
     (case layerHeader (lp_title e) (f_Size (lp_meta e)) (lp_meta e) modTime of
        Inl er \<Rightarrow> (Some er, tw)
      | Inr hdr \<Rightarrow>
          (case tw_WriteHeader hdr tw of
             (Some er, tw1) \<Rightarrow> (Some (Wrap ''write tar header'' er), tw1)
           | (None, tw1) \<Rightarrow>
               (case streamBody ev dl name p e r tw1 of
                  None \<Rightarrow> (Some NoReturn, tw1)
                | Some (n, Some er, tw2) \<Rightarrow> (Some (Wrap (''stream '' @ lp_title e) er), tw2)
                | Some (n, None, tw2) \<Rightarrow>
                    if n \<noteq> f_Size (lp_meta e) then
                      (Some (Msg (lp_title e @ '' reconstructed to '' @ FormatInt n @ '' bytes, want '' @
                         FormatInt (f_Size (lp_meta e)))), tw2)
                    else (None, tw2))))"

definition writeTarFile ::
  "string \<Rightarrow> bytes \<Rightarrow> int \<Rightarrow> string \<Rightarrow> tar_writer \<Rightarrow> goerr option \<times> tar_writer" where
  "writeTarFile name data mode modTime tw =
     (case tw_WriteHeader \<lparr>h_Name = name, h_Size = int (length data), h_Mode = mode, h_Typeflag = TypeReg,
             h_PAXRecords = fmempty, h_ModTime = modTime\<rparr> tw of
        (Some e, tw1) \<Rightarrow> (Some (Wrap (''write tar header '' @ name) e), tw1)
      | (None, tw1) \<Rightarrow>
          (case tw_Write data tw1 of
             (_, Some e, tw2) \<Rightarrow> (Some (Wrap (''write tar body '' @ name) e), tw2)
           | (_, None, tw2) \<Rightarrow> (None, tw2)))"

definition writeEntry ::
  "env \<Rightarrow> 'r Downloader \<Rightarrow> string \<Rightarrow> chunkPipeline \<Rightarrow> layerPlan \<Rightarrow> 'r \<Rightarrow> tar_writer \<Rightarrow>
     goerr option \<times> tar_writer" where
  "writeEntry ev dl name p e r tw =
     (if \<not> lp_encoded e then streamLayerToTar dl name (lp_layer e) (lp_meta e) (ev_nowJSON ev) r tw
      else streamFile ev dl name p e (ev_nowJSON ev) r tw)"

fun writeEntries ::
  "env \<Rightarrow> 'r Downloader \<Rightarrow> string \<Rightarrow> chunkPipeline \<Rightarrow> layerPlan list \<Rightarrow> 'r \<Rightarrow> tar_writer \<Rightarrow>
     goerr option \<times> tar_writer" where
  "writeEntries ev dl name p [] r tw = (None, tw)"
| "writeEntries ev dl name p (e # es) r tw =
     (case writeEntry ev dl name p e r tw of
        (Some er, tw1) \<Rightarrow> (Some er, tw1)
      | (None, tw1) \<Rightarrow> writeEntries ev dl name p es r tw1)"

text \<open>The buffered writer is flushed last; the flush is one more operation on the sink.\<close>

definition tw_Flush :: "tar_writer \<Rightarrow> goerr option" where
  "tw_Flush tw = tw_fault tw (tw_ops tw)"

definition prefetchOf :: "StreamOptions \<Rightarrow> int" where
  "prefetchOf opts = (if so_Concurrency opts \<le> 0 then defaultTransferConcurrency else so_Concurrency opts)"

definition budgetOf :: "StreamOptions \<Rightarrow> int" where
  "budgetOf opts =
     (let b = wrap64 (so_MemoryBudgetMiB opts * 2 ^ 20) in if b \<le> 0 then defaultPullPrefetchBudget else b)"

definition writeImportTar ::
  "env \<Rightarrow> 'r Downloader \<Rightarrow> StreamOptions \<Rightarrow> SnapshotConfig \<Rightarrow> Descriptor list \<Rightarrow> 'r \<Rightarrow> tar_writer \<Rightarrow>
     goerr option \<times> tar_writer" where
  "writeImportTar ev dl opts cfg layers r tw =
     (let name = so_Name opts; localName = or_str (so_LocalName opts) (so_Name opts) in
      case planLayers cfg layers of
        Inl e \<Rightarrow> (Some e, tw)
      | Inr entries \<Rightarrow>
          (let p = newChunkPipeline entries (prefetchOf opts) (budgetOf opts) in
           case MarshalEnvelope cfg localName of
             Inl e \<Rightarrow> (Some e, tw)
           | Inr envelopeJSON \<Rightarrow>
               (case writeTarFile snapshotJSONName envelopeJSON 420 (ev_nowJSON ev) tw of
                  (Some e, tw1) \<Rightarrow> (Some (Wrap ''write snapshot envelope'' e), tw1)
                | (None, tw1) \<Rightarrow>
                    (case writeEntries ev dl name p entries r tw1 of
                       (Some e, tw2) \<Rightarrow> (Some e, tw2)
                     | (None, tw2) \<Rightarrow>
                         (case tw_Close tw2 of
                            (Some e, tw3) \<Rightarrow> (Some (Wrap ''close tar'' e), tw3)
                          | (None, tw3) \<Rightarrow> (tw_Flush tw3, tw3))))))"

section \<open>Stream\<close>

definition StreamParsed ::
  "env \<Rightarrow> OCIManifest \<Rightarrow> 'r Downloader \<Rightarrow> StreamOptions \<Rightarrow> 'r \<Rightarrow> goerr option \<times> tar_writer" where
  "StreamParsed ev m dl opts r =
     (let tw = newTarWriter (case so_Writer opts of None \<Rightarrow> (\<lambda>_. None) | Some f \<Rightarrow> f) in
      if so_Name opts = [] then (Some (Msg ''snapshot stream: name is required''), tw)
      else if so_Writer opts = None then (Some (Msg ''snapshot stream: writer is required''), tw)
      else
        (case FetchSnapshotConfig dl (so_Name opts) (m_Config m) r of
           Inl e \<Rightarrow> (Some (Wrap ''fetch snapshot config'' e), tw)
         | Inr cfg \<Rightarrow>
             (case validateSnapshotLayers m cfg of
                Some e \<Rightarrow> (Some e, tw)
              | None \<Rightarrow> writeImportTar ev dl opts cfg (m_Layers m) r tw)))"

definition resolveManifest :: "bytes \<Rightarrow> 'r Downloader \<Rightarrow> string \<Rightarrow> 'r \<Rightarrow> OCIManifest res" where
  "resolveManifest raw dl name r =
     bindR (wrapR ''parse manifest'' (Parse raw)) (\<lambda>m.
       if ClassifyParsed m = KindImageIndex then
         bindR (pickIndexChild m) (\<lambda>child.
         bindR (wrapR (''get child manifest '' @ i_Digest child) (dl_GetManifest dl name (i_Digest child) r)) (\<lambda>(childRaw, _).
           wrapR ''parse child manifest'' (Parse childRaw)))
       else Inr m)"

definition Stream ::
  "env \<Rightarrow> bytes \<Rightarrow> 'r Downloader \<Rightarrow> StreamOptions \<Rightarrow> 'r \<Rightarrow> goerr option \<times> tar_writer" where
  "Stream ev raw dl opts r =
     (let tw = newTarWriter (case so_Writer opts of None \<Rightarrow> (\<lambda>_. None) | Some f \<Rightarrow> f) in
      if so_Name opts = [] then (Some (Msg ''snapshot stream: name is required''), tw)
      else
        (case resolveManifest raw dl (so_Name opts) r of
           Inl e \<Rightarrow> (Some e, tw)
         | Inr m \<Rightarrow>
             if ClassifyParsed m \<noteq> KindSnapshot then
               (Some (Msg (''manifest is '' @ KindString (ClassifyParsed m) @ '', not a snapshot'')), tw)
             else StreamParsed ev m dl opts r))"

end
