(* ===== verification/Buf_Pool.thy ===== *)
theory Buf_Pool
  imports Go_Prelude
begin

text \<open>
  The free list \<^verbatim>\<open>bufPool\<close> of \<^verbatim>\<open>snapshot/pushpipeline.go\<close>: a channel of a fixed number of buffers,
  first all nil. A buffer is its capacity. \<open>None\<close> is an operation that blocks.

  The lemmas: taking and putting back keeps the number of buffers, and no buffer is larger than
  the capacities it was taken for. Counting lemmas for the goroutines that hold the buffers follow.
\<close>

section \<open>The pool\<close>

record bufPool =
  bp_free :: "int list"
  bp_size :: nat

definition newBufPool :: "nat \<Rightarrow> bufPool" where
  "newBufPool k = \<lparr>bp_free = replicate k 0, bp_size = k\<rparr>"

definition bufTake :: "int \<Rightarrow> bufPool \<Rightarrow> (int \<times> bufPool) option" where
  "bufTake capacity bp =
     (case bp_free bp of
        [] \<Rightarrow> None
      | b # bs \<Rightarrow> Some (if b < capacity then capacity else b, bp\<lparr>bp_free := bs\<rparr>))"

definition bufPut :: "int \<Rightarrow> bufPool \<Rightarrow> bufPool option" where
  "bufPut b bp = (if length (bp_free bp) < bp_size bp then Some (bp\<lparr>bp_free := bp_free bp @ [b]\<rparr>) else None)"

text \<open>\<open>held\<close> buffers are out, and the free ones are at most \<open>c\<close> bytes.\<close>

definition pool_ok :: "int \<Rightarrow> nat \<Rightarrow> nat \<Rightarrow> bufPool \<Rightarrow> bool" where
  "pool_ok c k out bp = (bp_size bp = k \<and> length (bp_free bp) + out = k \<and> (\<forall>b \<in> set (bp_free bp). 0 \<le> b \<and> b \<le> c))"

lemma pool_ok_new [simp]: "0 \<le> c \<Longrightarrow> pool_ok c k 0 (newBufPool k)"
  by (auto simp: pool_ok_def newBufPool_def)

lemma bufTake_ok:
  assumes "pool_ok c k out bp" and "bufTake c bp = Some (b, bp')" and "0 \<le> c"
  shows "pool_ok c k (Suc out) bp'" and "0 \<le> b" and "b \<le> c"
  using assms by (auto simp: pool_ok_def bufTake_def split: list.splits if_splits)

lemma bufTake_le:
  assumes "pool_ok c k out bp" and "bufTake d bp = Some (b, bp')" and "0 \<le> d" and "d \<le> c"
  shows "pool_ok c k (Suc out) bp'" and "0 \<le> b" and "b \<le> c"
  using assms by (auto simp: pool_ok_def bufTake_def split: list.splits if_splits)

lemma bufPut_ok:
  assumes "pool_ok c k (Suc out) bp" and "bufPut b bp = Some bp'" and "0 \<le> b" and "b \<le> c"
  shows "pool_ok c k out bp'"
  using assms by (auto simp: pool_ok_def bufPut_def split: if_splits)

lemma bufTake_enabled: "pool_ok c k out bp \<Longrightarrow> out < k \<Longrightarrow> \<exists>b bp'. bufTake d bp = Some (b, bp')"
  by (cases "bp_free bp") (auto simp: pool_ok_def bufTake_def)

lemma bufPut_enabled: "pool_ok c k (Suc out) bp \<Longrightarrow> \<exists>bp'. bufPut b bp = Some bp'"
  by (auto simp: pool_ok_def bufPut_def)

section \<open>Counting\<close>

definition count_of :: "('a \<Rightarrow> bool) \<Rightarrow> 'a list \<Rightarrow> nat" where
  "count_of P xs = length (filter P xs)"

lemma count_of_update:
  assumes "i < length xs"
  shows "count_of P (xs[i := x]) + (if P (xs ! i) then 1 else 0) = count_of P xs + (if P x then 1 else 0)"
  using assms
proof (induction xs arbitrary: i)
  case (Cons y ys)
  then show ?case by (cases i) (auto simp: count_of_def)
qed simp

lemma count_of_update_simps:
  assumes "i < length xs"
  shows "P (xs ! i) \<Longrightarrow> P x \<Longrightarrow> count_of P (xs[i := x]) = count_of P xs"
    and "\<not> P (xs ! i) \<Longrightarrow> \<not> P x \<Longrightarrow> count_of P (xs[i := x]) = count_of P xs"
    and "\<not> P (xs ! i) \<Longrightarrow> P x \<Longrightarrow> count_of P (xs[i := x]) = Suc (count_of P xs)"
    and "P (xs ! i) \<Longrightarrow> \<not> P x \<Longrightarrow> count_of P xs = Suc (count_of P (xs[i := x]))"
  using count_of_update [OF assms, of P x] by auto

lemma count_of_mono: "(\<And>x. P x \<Longrightarrow> Q x) \<Longrightarrow> count_of P xs \<le> count_of Q xs"
  by (induction xs) (auto simp: count_of_def)

lemma count_of_strict:
  assumes "\<And>x. P x \<Longrightarrow> Q x" and "i < length xs" and "Q (xs ! i)" and "\<not> P (xs ! i)"
  shows "count_of P xs < count_of Q xs"
  using assms(2-4)
proof (induction xs arbitrary: i)
  case (Cons y ys)
  show ?case
  proof (cases i)
    case 0
    with Cons.prems count_of_mono [of P Q ys] assms(1) show ?thesis by (auto simp: count_of_def less_Suc_eq_le)
  next
    case (Suc j)
    with Cons.IH [of j] Cons.prems assms(1) show ?thesis by (auto simp: count_of_def)
  qed
qed simp

lemma count_of_pos: "i < length xs \<Longrightarrow> P (xs ! i) \<Longrightarrow> 0 < count_of P xs"
  by (metis count_of_def filter_empty_conv length_greater_0_conv nth_mem)

lemma count_of_0: "count_of P xs = 0 \<longleftrightarrow> (\<forall>x \<in> set xs. \<not> P x)"
  by (simp add: count_of_def filter_empty_conv)

lemma sum_update:
  fixes f :: "'a \<Rightarrow> nat"
  assumes "i < length xs"
  shows "sum_list (map f (xs[i := x])) + f (xs ! i) = sum_list (map f xs) + f x"
  using assms
proof (induction xs arbitrary: i)
  case (Cons y ys)
  show ?case
  proof (cases i)
    case (Suc j)
    with Cons.IH [of j] Cons.prems show ?thesis by simp
  qed simp
qed simp

text \<open>A sum in which every counted element contributes at most \<open>c\<close> and the others nothing.\<close>

lemma sum_count_le:
  fixes f :: "'a \<Rightarrow> int"
  assumes "\<forall>x \<in> set xs. if P x then f x \<le> c else f x = 0"
  shows "sum_list (map f xs) \<le> int (count_of P xs) * c"
  using assms
proof (induction xs)
  case (Cons a xs)
  then have "sum_list (map f xs) \<le> int (count_of P xs) * c" "if P a then f a \<le> c else f a = 0" by simp_all
  then show ?case by (cases "P a") (simp_all add: count_of_def algebra_simps)
qed (simp add: count_of_def)

section \<open>Pools and their holders\<close>

text \<open>One holder changes its hold on a pool, of which \<open>m\<close> more buffers are out.\<close>

lemma pool_put_held:
  assumes "pool_ok c n (count_of H xs + m) bp" and "bufPut b bp = Some bp'" and "0 \<le> b" and "b \<le> c"
    and "i < length xs" and "H (xs ! i)" and "\<not> H x"
  shows "pool_ok c n (count_of H (xs[i := x]) + m) bp'"
  using assms bufPut_ok [of c n "count_of H (xs[i := x]) + m"] count_of_update_simps(4) [OF assms(5-7)] by simp

lemma pool_take_held:
  assumes "pool_ok c n (count_of H xs + m) bp" and "bufTake d bp = Some (b, bp')" and "0 \<le> d" and "d \<le> c"
    and "i < length xs" and "\<not> H (xs ! i)" and "H x"
  shows "pool_ok c n (count_of H (xs[i := x]) + m) bp'"
  using bufTake_le(1) [OF assms(1-4)] count_of_update_simps(3) [OF assms(5-7)] by simp

lemma pool_same_held:
  assumes "pool_ok c n (count_of H xs + m) bp" and "i < length xs" and "H (xs ! i) = H x"
  shows "pool_ok c n (count_of H (xs[i := x]) + m) bp"
proof -
  have "count_of H (xs[i := x]) = count_of H xs"
    using assms(3) count_of_update_simps(1,2) [OF assms(2), of H x] by (cases "H x") auto
  with assms(1) show ?thesis by simp
qed

text \<open>The bytes of the free buffers.\<close>

lemma pool_free_bytes:
  assumes "pool_ok c n h bp"
  shows "sum_list (bp_free bp) \<le> (int n - int h) * c"
proof -
  have "sum_list xs \<le> int (length xs) * c" if "\<forall>x \<in> set xs. x \<le> c" for xs
    using that by (induction xs) (auto simp: algebra_simps)
  from this [of "bp_free bp"] have "sum_list (bp_free bp) \<le> int (length (bp_free bp)) * c"
    using assms by (simp add: pool_ok_def)
  moreover have "int (length (bp_free bp)) = int n - int h" using assms by (auto simp: pool_ok_def)
  ultimately show ?thesis by simp
qed

end
