(* ===== verification/Pull_Window.thy ===== *)
theory Pull_Window
  imports Snapshot_Pull Buf_Pool
begin

text \<open>
  The prefetch window of a pull (\<^verbatim>\<open>newChunkSource\<close>, \<^verbatim>\<open>fetch\<close>, \<^verbatim>\<open>WriteTo\<close> and \<^verbatim>\<open>drain\<close> of
  \<^verbatim>\<open>snapshot/pullencoded.go\<close>) as goroutines: a producer that sends one future per chunk into a channel
  of \<open>window - 1\<close> places and starts a fetch for it, the fetches, which take and return buffers, and
  the consumer, which writes the results in order, or cancels and drains.

  The lemmas: no interleaving blocks for ever, every run ends, and it ends with exactly what
  fetching and writing one chunk after the other gives (\<open>writeChunks\<close>), with all buffers back
  in their pools and never more memory than the window was computed for.
\<close>

section \<open>State\<close>

text \<open>
  A fetch by the buffers it holds: the buffer from the input pool while the stored bytes are read and
  decoded, the buffer from the output pool with the result. \<open>FutErr\<close> and \<open>FutData\<close> are futures that are
  ready.
\<close>

datatype fetch_state =
    Idle | Started
  | ReadIn int | Stored int bytes | Decoding int int bytes
  | ReadOut int
  | FutErr goerr | FutData bytes int
  | Consumed

datatype producer = Sending | Spawning | Closed

datatype consumer = Receiving | Waiting | Draining goerr | DrainWaiting goerr | Returned "goerr option"

text \<open>\<open>w_sent\<close> futures have been sent and \<open>w_recv\<close> of them received.\<close>

record 'w window =
  w_sent :: nat
  w_recv :: nat
  w_fetch :: "fetch_state list"
  w_prod :: producer
  w_cons :: consumer
  w_cancel :: bool
  w_in :: bufPool
  w_out :: bufPool
  w_written :: int
  w_sink :: 'w

text \<open>The file that is streamed: the chunks, how a chunk is read and decoded, and where the bytes go.\<close>

record 'w source =
  s_descs :: "Descriptor list"
  s_window :: nat
  s_compressed :: bool
  s_inputCap :: int
  s_outputCap :: int
  s_read :: "Descriptor \<Rightarrow> bytes res"
  s_decode :: "Descriptor \<Rightarrow> bytes \<Rightarrow> bytes res"
  s_write :: "'w write_fn"

definition s_fetch :: "'w source \<Rightarrow> Descriptor \<Rightarrow> bytes res" where
  "s_fetch P d = (if s_compressed P then bindR (s_read P d) (s_decode P d) else s_read P d)"

text \<open>The state when \<^verbatim>\<open>newChunkSource\<close> returns, with the pipeline's pools as the files before left them.\<close>

definition newWindow :: "'w source \<Rightarrow> bufPool \<Rightarrow> bufPool \<Rightarrow> 'w \<Rightarrow> 'w window" where
  "newWindow P inp out w =
     \<lparr>w_sent = 0, w_recv = 0, w_fetch = replicate (length (s_descs P)) Idle, w_prod = Sending,
      w_cons = Receiving, w_cancel = False, w_in = inp, w_out = out,
      w_written = 0, w_sink = w\<rparr>"

section \<open>Steps\<close>

text \<open>The producer: send when the channel has a place, start the fetch, stop at the end or when cancelled.\<close>

inductive producer_step :: "'w source \<Rightarrow> 'w window \<Rightarrow> 'w window \<Rightarrow> bool" for P where
  send: "w_prod s = Sending \<Longrightarrow> w_sent s < length (s_descs P) \<Longrightarrow> w_sent s - w_recv s < s_window P - 1 \<Longrightarrow>
    producer_step P s (s\<lparr>w_sent := Suc (w_sent s), w_prod := Spawning\<rparr>)"
| spawn: "w_prod s = Spawning \<Longrightarrow>
    producer_step P s (s\<lparr>w_fetch := (w_fetch s)[w_sent s - 1 := Started], w_prod := Sending\<rparr>)"
| stop: "w_prod s = Sending \<Longrightarrow> w_cancel s \<Longrightarrow> producer_step P s (s\<lparr>w_prod := Closed\<rparr>)"
| all_sent: "w_prod s = Sending \<Longrightarrow> w_sent s = length (s_descs P) \<Longrightarrow> producer_step P s (s\<lparr>w_prod := Closed\<rparr>)"

text \<open>A fetch. Once the context is cancelled a read may fail with any error.\<close>

inductive fetch_step :: "'w source \<Rightarrow> nat \<Rightarrow> 'w window \<Rightarrow> 'w window \<Rightarrow> bool" for P i where
  take_out: "w_fetch s ! i = Started \<Longrightarrow> \<not> s_compressed P \<Longrightarrow> bufTake (s_outputCap P) (w_out s) = Some (b, out) \<Longrightarrow>
    fetch_step P i s (s\<lparr>w_fetch := (w_fetch s)[i := ReadOut b], w_out := out\<rparr>)"
| read_raw: "w_fetch s ! i = ReadOut b \<Longrightarrow> s_read P (s_descs P ! i) = Inr x \<Longrightarrow>
    fetch_step P i s (s\<lparr>w_fetch := (w_fetch s)[i := FutData x b]\<rparr>)"
| read_raw_err: "w_fetch s ! i = ReadOut b \<Longrightarrow> s_read P (s_descs P ! i) = Inl e \<or> w_cancel s \<Longrightarrow>
    bufPut b (w_out s) = Some out \<Longrightarrow>
    fetch_step P i s (s\<lparr>w_fetch := (w_fetch s)[i := FutErr e], w_out := out\<rparr>)"
| take_in: "w_fetch s ! i = Started \<Longrightarrow> s_compressed P \<Longrightarrow> bufTake (s_inputCap P) (w_in s) = Some (b, inp) \<Longrightarrow>
    fetch_step P i s (s\<lparr>w_fetch := (w_fetch s)[i := ReadIn b], w_in := inp\<rparr>)"
| read_stored: "w_fetch s ! i = ReadIn b \<Longrightarrow> s_read P (s_descs P ! i) = Inr x \<Longrightarrow>
    fetch_step P i s (s\<lparr>w_fetch := (w_fetch s)[i := Stored b x]\<rparr>)"
| read_stored_err: "w_fetch s ! i = ReadIn b \<Longrightarrow> s_read P (s_descs P ! i) = Inl e \<or> w_cancel s \<Longrightarrow>
    bufPut b (w_in s) = Some inp \<Longrightarrow>
    fetch_step P i s (s\<lparr>w_fetch := (w_fetch s)[i := FutErr e], w_in := inp\<rparr>)"
| take_dst: "w_fetch s ! i = Stored b x \<Longrightarrow> bufTake (s_outputCap P) (w_out s) = Some (d, out) \<Longrightarrow>
    fetch_step P i s (s\<lparr>w_fetch := (w_fetch s)[i := Decoding b d x], w_out := out\<rparr>)"
| decode: "w_fetch s ! i = Decoding b d x \<Longrightarrow> s_decode P (s_descs P ! i) x = Inr y \<Longrightarrow>
    bufPut b (w_in s) = Some inp \<Longrightarrow>
    fetch_step P i s (s\<lparr>w_fetch := (w_fetch s)[i := FutData y d], w_in := inp\<rparr>)"
| decode_err: "w_fetch s ! i = Decoding b d x \<Longrightarrow> s_decode P (s_descs P ! i) x = Inl e \<Longrightarrow>
    bufPut b (w_in s) = Some inp \<Longrightarrow> bufPut d (w_out s) = Some out \<Longrightarrow>
    fetch_step P i s (s\<lparr>w_fetch := (w_fetch s)[i := FutErr e], w_in := inp, w_out := out\<rparr>)"

text \<open>
  \<^verbatim>\<open>WriteTo\<close>: receive a future, wait for it, write it, put its buffer back. After an error of the fetch or
  of the write the context is cancelled and the futures that are left are drained. The channel is
  at its end when the producer has closed it and no future is in it.
\<close>

definition write_err :: "nat \<Rightarrow> goerr option \<Rightarrow> bytes \<Rightarrow> goerr option" where
  "write_err n e x = (case e of Some er \<Rightarrow> Some er | None \<Rightarrow> if n \<noteq> length x then Some ShortWrite else None)"

inductive consumer_step :: "'w source \<Rightarrow> 'w window \<Rightarrow> 'w window \<Rightarrow> bool" for P where
  receive: "w_cons s = Receiving \<Longrightarrow> w_recv s < w_sent s \<Longrightarrow>
    consumer_step P s (s\<lparr>w_recv := Suc (w_recv s), w_cons := Waiting\<rparr>)"
| finished: "w_cons s = Receiving \<Longrightarrow> w_recv s = w_sent s \<Longrightarrow> w_prod s = Closed \<Longrightarrow>
    consumer_step P s (s\<lparr>w_cons := Returned None\<rparr>)"
| failed: "w_cons s = Waiting \<Longrightarrow> w_fetch s ! (w_recv s - 1) = FutErr e \<Longrightarrow>
    consumer_step P s (s\<lparr>w_fetch := (w_fetch s)[w_recv s - 1 := Consumed], w_cons := Draining e, w_cancel := True\<rparr>)"
| wrote: "w_cons s = Waiting \<Longrightarrow> w_fetch s ! (w_recv s - 1) = FutData x b \<Longrightarrow> s_write P x (w_sink s) = (n, e, w) \<Longrightarrow>
    bufPut b (w_out s) = Some out \<Longrightarrow> write_err n e x = None \<Longrightarrow>
    consumer_step P s (s\<lparr>w_fetch := (w_fetch s)[w_recv s - 1 := Consumed], w_cons := Receiving, w_out := out,
      w_written := w_written s + int n, w_sink := w\<rparr>)"
| write_failed: "w_cons s = Waiting \<Longrightarrow> w_fetch s ! (w_recv s - 1) = FutData x b \<Longrightarrow> s_write P x (w_sink s) = (n, e, w) \<Longrightarrow>
    bufPut b (w_out s) = Some out \<Longrightarrow> write_err n e x = Some er \<Longrightarrow>
    consumer_step P s (s\<lparr>w_fetch := (w_fetch s)[w_recv s - 1 := Consumed], w_cons := Draining er, w_cancel := True,
      w_out := out, w_written := w_written s + int n, w_sink := w\<rparr>)"
| drain: "w_cons s = Draining e \<Longrightarrow> w_recv s < w_sent s \<Longrightarrow>
    consumer_step P s (s\<lparr>w_recv := Suc (w_recv s), w_cons := DrainWaiting e\<rparr>)"
| drained_err: "w_cons s = DrainWaiting e \<Longrightarrow> w_fetch s ! (w_recv s - 1) = FutErr e' \<Longrightarrow>
    consumer_step P s (s\<lparr>w_fetch := (w_fetch s)[w_recv s - 1 := Consumed], w_cons := Draining e\<rparr>)"
| drained_data: "w_cons s = DrainWaiting e \<Longrightarrow> w_fetch s ! (w_recv s - 1) = FutData x b \<Longrightarrow>
    bufPut b (w_out s) = Some out \<Longrightarrow>
    consumer_step P s (s\<lparr>w_fetch := (w_fetch s)[w_recv s - 1 := Consumed], w_cons := Draining e, w_out := out\<rparr>)"
| drained: "w_cons s = Draining e \<Longrightarrow> w_recv s = w_sent s \<Longrightarrow> w_prod s = Closed \<Longrightarrow>
    consumer_step P s (s\<lparr>w_cons := Returned (Some e)\<rparr>)"

inductive window_step :: "'w source \<Rightarrow> 'w window \<Rightarrow> 'w window \<Rightarrow> bool" for P where
  by_producer: "producer_step P s s' \<Longrightarrow> window_step P s s'"
| by_fetch: "i < length (s_descs P) \<Longrightarrow> fetch_step P i s s' \<Longrightarrow> window_step P s s'"
| by_consumer: "consumer_step P s s' \<Longrightarrow> window_step P s s'"

inductive window_reach :: "'w source \<Rightarrow> 'w window \<Rightarrow> 'w window \<Rightarrow> bool" for P s0 where
  start: "window_reach P s0 s0"
| more: "window_reach P s0 s \<Longrightarrow> window_step P s s' \<Longrightarrow> window_reach P s0 s'"

section \<open>The invariant\<close>

fun active :: "fetch_state \<Rightarrow> bool" where
  "active Idle = False" | "active Consumed = False" | "active _ = True"

fun holds_in :: "fetch_state \<Rightarrow> bool" where
  "holds_in (ReadIn _) = True" | "holds_in (Stored _ _) = True" | "holds_in (Decoding _ _ _) = True"
| "holds_in _ = False"

fun holds_out :: "fetch_state \<Rightarrow> bool" where
  "holds_out (ReadOut _) = True" | "holds_out (Decoding _ _ _) = True" | "holds_out (FutData _ _) = True"
| "holds_out _ = False"

fun in_buf :: "fetch_state \<Rightarrow> int" where
  "in_buf (ReadIn b) = b" | "in_buf (Stored b _) = b" | "in_buf (Decoding b _ _) = b" | "in_buf _ = 0"

fun out_buf :: "fetch_state \<Rightarrow> int" where
  "out_buf (ReadOut b) = b" | "out_buf (Decoding _ b _) = b" | "out_buf (FutData _ b) = b" | "out_buf _ = 0"

text \<open>What a fetch has obtained is right.\<close>

fun fetch_ok :: "'w source \<Rightarrow> bool \<Rightarrow> Descriptor \<Rightarrow> fetch_state \<Rightarrow> bool" where
  "fetch_ok P cancel d (ReadOut b) = (\<not> s_compressed P)"
| "fetch_ok P cancel d (ReadIn b) = s_compressed P"
| "fetch_ok P cancel d (Stored b x) = (s_compressed P \<and> s_read P d = Inr x)"
| "fetch_ok P cancel d (Decoding b c x) = (s_compressed P \<and> s_read P d = Inr x)"
| "fetch_ok P cancel d (FutData x b) = (s_fetch P d = Inr x)"
| "fetch_ok P cancel d (FutErr e) = (s_fetch P d = Inl e \<or> cancel)"
| "fetch_ok P cancel d _ = True"

definition spawned :: "'w window \<Rightarrow> nat" where
  "spawned s = (if w_prod s = Spawning then w_sent s - 1 else w_sent s)"

definition settled :: "'w window \<Rightarrow> nat" where
  "settled s = (case w_cons s of Waiting \<Rightarrow> w_recv s - 1 | DrainWaiting _ \<Rightarrow> w_recv s - 1 | _ \<Rightarrow> w_recv s)"

definition channel_inv :: "'w source \<Rightarrow> 'w window \<Rightarrow> bool" where
  "channel_inv P s =
     (length (w_fetch s) = length (s_descs P) \<and> w_recv s \<le> w_sent s \<and> w_sent s \<le> length (s_descs P) \<and>
      w_sent s - w_recv s \<le> s_window P - 1 \<and> settled s \<le> spawned s \<and>
      (w_prod s = Spawning \<longrightarrow> 0 < w_sent s) \<and>
      (case w_cons s of Waiting \<Rightarrow> 0 < w_recv s | DrainWaiting _ \<Rightarrow> 0 < w_recv s | _ \<Rightarrow> True) \<and>
      (w_prod s = Closed \<longrightarrow> w_sent s = length (s_descs P) \<or> w_cancel s) \<and>
      (case w_cons s of Returned _ \<Rightarrow> w_recv s = w_sent s \<and> w_prod s = Closed | _ \<Rightarrow> True))"

definition fetch_inv :: "'w source \<Rightarrow> 'w window \<Rightarrow> bool" where
  "fetch_inv P s =
     ((\<forall>i < length (s_descs P). (w_fetch s ! i = Idle \<longleftrightarrow> spawned s \<le> i) \<and> (w_fetch s ! i = Consumed \<longleftrightarrow> i < settled s) \<and>
        fetch_ok P (w_cancel s) (s_descs P ! i) (w_fetch s ! i)) \<and>
      count_of active (w_fetch s) = spawned s - settled s)"

definition buffer_inv :: "'w source \<Rightarrow> nat \<Rightarrow> 'w window \<Rightarrow> bool" where
  "buffer_inv P k s =
     (pool_ok (s_inputCap P) k (count_of holds_in (w_fetch s)) (w_in s) \<and>
      pool_ok (s_outputCap P) (k + 1) (count_of holds_out (w_fetch s)) (w_out s) \<and>
      (\<forall>f \<in> set (w_fetch s). 0 \<le> in_buf f \<and> in_buf f \<le> s_inputCap P \<and> 0 \<le> out_buf f \<and> out_buf f \<le> s_outputCap P))"

text \<open>
  The consumer is where the sequential \<open>writeChunks\<close> is, with the chunks that are not settled still to
  come, or it has the sequential result.
\<close>

definition output_inv :: "'w source \<Rightarrow> 'w \<Rightarrow> 'w window \<Rightarrow> bool" where
  "output_inv P w0 s =
     (let seq = writeChunks (s_fetch P) (s_write P) (s_descs P) 0 w0;
          rest = writeChunks (s_fetch P) (s_write P) (drop (settled s) (s_descs P)) (w_written s) (w_sink s)
      in case w_cons s of
           Receiving \<Rightarrow> \<not> w_cancel s \<and> seq = rest
         | Waiting \<Rightarrow> \<not> w_cancel s \<and> seq = rest
         | Draining e \<Rightarrow> w_cancel s \<and> seq = (w_written s, Some e, w_sink s)
         | DrainWaiting e \<Rightarrow> w_cancel s \<and> seq = (w_written s, Some e, w_sink s)
         | Returned e \<Rightarrow> seq = (w_written s, e, w_sink s))"

definition window_inv :: "'w source \<Rightarrow> nat \<Rightarrow> 'w \<Rightarrow> 'w window \<Rightarrow> bool" where
  "window_inv P k w0 s = (channel_inv P s \<and> fetch_inv P s \<and> buffer_inv P k s \<and> output_inv P w0 s)"

text \<open>A window as \<^verbatim>\<open>newChunkPipeline\<close> makes it, and pools with all their buffers.\<close>

definition source_ok :: "'w source \<Rightarrow> nat \<Rightarrow> bool" where
  "source_ok P k = (2 \<le> s_window P \<and> s_window P \<le> k \<and> 0 \<le> s_inputCap P \<and> 0 \<le> s_outputCap P)"

lemma window_inv_new:
  assumes "source_ok P k" and "pool_ok (s_inputCap P) k 0 inp" and "pool_ok (s_outputCap P) (k + 1) 0 out"
  shows "window_inv P k w (newWindow P inp out w)"
  using assms
  by (auto simp: window_inv_def channel_inv_def fetch_inv_def buffer_inv_def output_inv_def newWindow_def
      spawned_def settled_def source_ok_def count_of_def in_set_replicate)

lemma active_index:
  assumes "fetch_inv P s" and "i < length (s_descs P)" and "active (w_fetch s ! i)"
  shows "settled s \<le> i" and "i < spawned s"
  using assms by (auto simp: fetch_inv_def not_less not_le)

section \<open>Steps keep the invariant\<close>

text \<open>A step of a fetch changes its state and the pools only.\<close>

lemma fetch_step_shape:
  assumes "fetch_step P i s s'" and "i < length (w_fetch s)"
  shows "w_fetch s' = (w_fetch s)[i := w_fetch s' ! i]"
    and "w_sent s' = w_sent s" and "w_recv s' = w_recv s" and "w_prod s' = w_prod s" and "w_cons s' = w_cons s"
    and "w_cancel s' = w_cancel s" and "w_written s' = w_written s" and "w_sink s' = w_sink s"
    and "active (w_fetch s ! i)" and "active (w_fetch s' ! i)"
    and "fetch_ok P (w_cancel s) (s_descs P ! i) (w_fetch s ! i) \<Longrightarrow>
      fetch_ok P (w_cancel s) (s_descs P ! i) (w_fetch s' ! i)"
  using assms by (cases; auto simp: s_fetch_def)+

lemma fetch_step_same:
  assumes "fetch_step P i s s'" and "i < length (w_fetch s)"
  shows "spawned s' = spawned s" and "settled s' = settled s"
  unfolding spawned_def settled_def fetch_step_shape(2-5) [OF assms] by (rule refl)+

lemma fetch_step_inv:
  assumes f: "fetch_step P i s s'" and i: "i < length (s_descs P)" and c: "channel_inv P s" and v: "fetch_inv P s"
  shows "channel_inv P s'" and "fetch_inv P s'" and "output_inv P w0 s \<Longrightarrow> output_inv P w0 s'"
proof -
  have l: "length (w_fetch s) = length (s_descs P)" using c by (simp add: channel_inv_def)
  with i have il: "i < length (w_fetch s)" by simp
  note sh = fetch_step_shape [OF f il] and sm = fetch_step_same [OF f il]
  have l': "length (w_fetch s') = length (w_fetch s)" by (metis sh(1) length_list_update)
  show "channel_inv P s'" using c unfolding channel_inv_def l' sh(2-6) sm .
  show "output_inv P w0 s'" if "output_inv P w0 s" using that unfolding output_inv_def sh(2-8) sm .
  have cnt: "count_of active (w_fetch s') = count_of active (w_fetch s)"
    by (subst sh(1)) (rule count_of_update_simps(1) [OF il sh(9,10)])
  show "fetch_inv P s'"
    unfolding fetch_inv_def
  proof (intro conjI allI impI)
    show "count_of active (w_fetch s') = spawned s' - settled s'" using cnt v sm by (simp add: fetch_inv_def)
    fix j
    assume j: "j < length (s_descs P)"
    have vj: "(w_fetch s ! j = Idle \<longleftrightarrow> spawned s \<le> j) \<and> (w_fetch s ! j = Consumed \<longleftrightarrow> j < settled s) \<and>
        fetch_ok P (w_cancel s) (s_descs P ! j) (w_fetch s ! j)" using v j by (simp add: fetch_inv_def)
    have e: "w_fetch s' ! j = (if j = i then w_fetch s' ! i else w_fetch s ! j)"
      using sh(1) il by (metis nth_list_update)
    note ai = active_index [OF v i sh(9)]
    have na: "w_fetch s' ! i \<noteq> Idle" "w_fetch s' ! i \<noteq> Consumed" using sh(10) by auto
    show "(w_fetch s' ! j = Idle) = (spawned s' \<le> j)" using vj e ai na sm by (auto split: if_splits)
    show "(w_fetch s' ! j = Consumed) = (j < settled s')" using vj e ai na sm by (auto split: if_splits)
    show "fetch_ok P (w_cancel s') (s_descs P ! j) (w_fetch s' ! j)"
      using vj e sh(6,11) by (auto split: if_splits)
  qed
qed

text \<open>The buffers: each kind of change to one fetch.\<close>

definition buf_ok :: "'w source \<Rightarrow> fetch_state \<Rightarrow> bool" where
  "buf_ok P f = (0 \<le> in_buf f \<and> in_buf f \<le> s_inputCap P \<and> 0 \<le> out_buf f \<and> out_buf f \<le> s_outputCap P)"

lemma buffer_inv_update:
  assumes "w_fetch s' = (w_fetch s)[i := f]" and "buffer_inv P k s" and "buf_ok P f"
    and "pool_ok (s_inputCap P) k (count_of holds_in ((w_fetch s)[i := f])) (w_in s')"
    and "pool_ok (s_outputCap P) (k + 1) (count_of holds_out ((w_fetch s)[i := f])) (w_out s')"
  shows "buffer_inv P k s'"
proof -
  have "\<forall>g \<in> set ((w_fetch s)[i := f]). buf_ok P g"
    using assms(2,3) set_update_subset_insert [of "w_fetch s" i f] by (auto simp: buffer_inv_def buf_ok_def)
  with assms(1,4,5) show ?thesis by (simp add: buffer_inv_def buf_ok_def)
qed

lemma pool_put_update:
  assumes "pool_ok c n (count_of H xs) bp" and "bufPut b bp = Some bp'" and "0 \<le> b" and "b \<le> c"
    and "i < length xs" and "H (xs ! i)" and "\<not> H x"
  shows "pool_ok c n (count_of H (xs[i := x])) bp'"
  using pool_put_held [where m = 0] assms by simp

lemma pool_take_update:
  assumes "pool_ok c n (count_of H xs) bp" and "bufTake c bp = Some (b, bp')" and "0 \<le> c"
    and "i < length xs" and "\<not> H (xs ! i)" and "H x"
  shows "pool_ok c n (count_of H (xs[i := x])) bp'"
  using pool_take_held [OF _ assms(2,3) order.refl assms(4), where m = 0 and H = H and x = x] assms by simp

lemma pool_same_update:
  assumes "pool_ok c n (count_of H xs) bp" and "i < length xs" and "H (xs ! i) = H x"
  shows "pool_ok c n (count_of H (xs[i := x])) bp"
  using pool_same_held [where m = 0] assms by simp

lemma fetch_step_buffers:
  assumes f: "fetch_step P i s s'" and i: "i < length (w_fetch s)" and b: "buffer_inv P k s" and k: "source_ok P k"
  shows "buffer_inv P k s'"
proof -
  let ?F = "w_fetch s"
  have p: "pool_ok (s_inputCap P) k (count_of holds_in ?F) (w_in s)"
      "pool_ok (s_outputCap P) (k + 1) (count_of holds_out ?F) (w_out s)"
      "buf_ok P (?F ! i)"
    using b i by (simp_all add: buffer_inv_def buf_ok_def)
  have caps: "0 \<le> s_inputCap P" "0 \<le> s_outputCap P" using k by (simp_all add: source_ok_def)
  note same = pool_same_update [OF p(1) i] pool_same_update [OF p(2) i]
  from f show ?thesis
  proof cases
    case (take_out b out)
    note t = bufTake_ok [OF p(2) take_out(4) caps(2)]
    show ?thesis
      using take_out t caps same pool_take_update [OF p(2) take_out(4) caps(2) i, of "ReadOut b"]
      by (intro buffer_inv_update [OF _ b, of _ i "ReadOut b"]) (simp_all add: buf_ok_def)
  next
    case (read_raw b x)
    show ?thesis
      using read_raw p(3) same
      by (intro buffer_inv_update [OF _ b, of _ i "FutData x b"]) (simp_all add: buf_ok_def)
  next
    case (read_raw_err b e out)
    show ?thesis
      using read_raw_err p(3) caps same pool_put_update [OF p(2) read_raw_err(4) _ _ i, of "FutErr e"]
      by (intro buffer_inv_update [OF _ b, of _ i "FutErr e"]) (simp_all add: buf_ok_def)
  next
    case (take_in b inp)
    note t = bufTake_ok [OF p(1) take_in(4) caps(1)]
    show ?thesis
      using take_in t caps same pool_take_update [OF p(1) take_in(4) caps(1) i, of "ReadIn b"]
      by (intro buffer_inv_update [OF _ b, of _ i "ReadIn b"]) (simp_all add: buf_ok_def)
  next
    case (read_stored b x)
    show ?thesis
      using read_stored p(3) same
      by (intro buffer_inv_update [OF _ b, of _ i "Stored b x"]) (simp_all add: buf_ok_def)
  next
    case (read_stored_err b e inp)
    show ?thesis
      using read_stored_err p(3) caps same pool_put_update [OF p(1) read_stored_err(4) _ _ i, of "FutErr e"]
      by (intro buffer_inv_update [OF _ b, of _ i "FutErr e"]) (simp_all add: buf_ok_def)
  next
    case (take_dst b x d out)
    note t = bufTake_ok [OF p(2) take_dst(3) caps(2)]
    show ?thesis
      using take_dst t p(3) caps same pool_take_update [OF p(2) take_dst(3) caps(2) i, of "Decoding b d x"]
      by (intro buffer_inv_update [OF _ b, of _ i "Decoding b d x"]) (simp_all add: buf_ok_def)
  next
    case (decode b d x y inp)
    show ?thesis
      using decode p(3) caps same pool_put_update [OF p(1) decode(4) _ _ i, of "FutData y d"]
      by (intro buffer_inv_update [OF _ b, of _ i "FutData y d"]) (simp_all add: buf_ok_def)
  next
    case (decode_err b d x e inp out)
    show ?thesis
      using decode_err p(3) caps pool_put_update [OF p(1) decode_err(4) _ _ i, of "FutErr e"]
        pool_put_update [OF p(2) decode_err(5) _ _ i, of "FutErr e"]
      by (intro buffer_inv_update [OF _ b, of _ i "FutErr e"]) (simp_all add: buf_ok_def)
  qed
qed

lemma producer_step_inv:
  assumes st: "producer_step P s s'" and v: "window_inv P k w0 s" and k: "source_ok P k"
  shows "window_inv P k w0 s'"
proof -
  from v have c: "channel_inv P s" and f: "fetch_inv P s" and b: "buffer_inv P k s" and o: "output_inv P w0 s"
    by (simp_all add: window_inv_def)
  from st show ?thesis
  proof cases
    case send
    then have sp: "spawned s' = spawned s" "settled s' = settled s" by (simp_all add: spawned_def settled_def split: consumer.split)
    have "channel_inv P s'"
      using c send sp by (auto simp: channel_inv_def split: consumer.splits)
    moreover have "fetch_inv P s'" using f send sp by (simp add: fetch_inv_def)
    moreover have "buffer_inv P k s'" using b send by (simp add: buffer_inv_def)
    moreover have "output_inv P w0 s'" using o send sp by (auto simp: output_inv_def split: consumer.splits)
    ultimately show ?thesis by (simp add: window_inv_def)
  next
    case spawn
    let ?i = "w_sent s - 1"
    from c spawn have l: "length (w_fetch s) = length (s_descs P)" "?i < length (s_descs P)" "0 < w_sent s" "settled s \<le> ?i"
      by (auto simp: channel_inv_def spawned_def)
    have idle: "w_fetch s ! ?i = Idle" using f l spawn by (simp add: fetch_inv_def spawned_def)
    have il: "?i < length (w_fetch s)" using l by simp
    have sp: "spawned s' = Suc (spawned s)" "settled s' = settled s" using spawn l(3) by (simp_all add: spawned_def settled_def split: consumer.split)
    have "channel_inv P s'" using c spawn sp l by (auto simp: channel_inv_def split: consumer.splits)
    moreover have "fetch_inv P s'"
      using f spawn sp l idle count_of_update_simps(3) [OF il, of active Started]
      by (auto simp: fetch_inv_def spawned_def nth_list_update)
    moreover have "buffer_inv P k s'"
      using b k spawn idle il count_of_update_simps(2) [OF il, of holds_in Started] count_of_update_simps(2) [OF il, of holds_out Started]
      by (intro buffer_inv_update [of s' s ?i Started]) (simp_all add: buf_ok_def buffer_inv_def source_ok_def)
    moreover have "output_inv P w0 s'" using o spawn sp by (auto simp: output_inv_def split: consumer.splits)
    ultimately show ?thesis by (simp add: window_inv_def)
  next
    case stop
    then have sp: "spawned s' = spawned s" "settled s' = settled s" by (simp_all add: spawned_def settled_def split: consumer.split)
    with c f b o stop show ?thesis
      by (auto simp: window_inv_def channel_inv_def fetch_inv_def buffer_inv_def output_inv_def split: consumer.splits)
  next
    case all_sent
    then have sp: "spawned s' = spawned s" "settled s' = settled s" by (simp_all add: spawned_def settled_def split: consumer.split)
    with c f b o all_sent show ?thesis
      by (auto simp: window_inv_def channel_inv_def fetch_inv_def buffer_inv_def output_inv_def split: consumer.splits)
  qed
qed

text \<open>The consumer settles the future it waits for.\<close>

lemma settle_inv:
  assumes c: "channel_inv P s" and v: "fetch_inv P s" and i: "Suc (settled s) = w_recv s"
    and a: "active (w_fetch s ! (w_recv s - 1))" and F: "w_fetch s' = (w_fetch s)[w_recv s - 1 := Consumed]"
    and same: "spawned s' = spawned s" "settled s' = w_recv s" and cancel: "w_cancel s \<Longrightarrow> w_cancel s'"
  shows "fetch_inv P s'" and "settled s' \<le> spawned s'"
proof -
  let ?i = "w_recv s - 1"
  have si: "settled s = ?i" using i by simp
  have "?i < length (s_descs P)" using c i by (auto simp: channel_inv_def)
  moreover have "length (w_fetch s) = length (s_descs P)" using c by (simp add: channel_inv_def)
  ultimately have il: "?i < length (w_fetch s)" "?i < length (s_descs P)" by simp_all
  from active_index [OF v il(2) a] have lt: "?i < spawned s" by simp
  with same i show "settled s' \<le> spawned s'" by simp
  have "count_of active (w_fetch s) = Suc (count_of active (w_fetch s'))"
    unfolding F by (rule count_of_update_simps(4) [where P = active, OF il(1) a]) simp
  moreover have "count_of active (w_fetch s) = spawned s - settled s" using v by (simp add: fetch_inv_def)
  ultimately have cnt: "count_of active (w_fetch s') = spawned s' - settled s'"
    using same lt i by linarith
  have mono: "fetch_ok P (w_cancel s) d f \<Longrightarrow> fetch_ok P (w_cancel s') d f" for d f
    using cancel by (cases f) auto
  show "fetch_inv P s'"
    unfolding fetch_inv_def
  proof (intro conjI allI impI)
    show "count_of active (w_fetch s') = spawned s' - settled s'" by (rule cnt)
    fix j
    assume j: "j < length (s_descs P)"
    have vj: "(w_fetch s ! j = Idle \<longleftrightarrow> spawned s \<le> j) \<and> (w_fetch s ! j = Consumed \<longleftrightarrow> j < settled s) \<and>
        fetch_ok P (w_cancel s) (s_descs P ! j) (w_fetch s ! j)" using v j by (simp add: fetch_inv_def)
    have e: "w_fetch s' ! j = (if j = ?i then Consumed else w_fetch s ! j)" using F il(1) by simp
    show "(w_fetch s' ! j = Idle) = (spawned s' \<le> j)" using vj e lt same by auto
    show "(w_fetch s' ! j = Consumed) = (j < settled s')" using vj e same si i by auto
    show "fetch_ok P (w_cancel s') (s_descs P ! j) (w_fetch s' ! j)" using vj e mono by auto
  qed
qed

lemma settled_waiting: "channel_inv P s \<Longrightarrow> w_cons s = Waiting \<or> (\<exists>e. w_cons s = DrainWaiting e) \<Longrightarrow> Suc (settled s) = w_recv s"
  by (auto simp: channel_inv_def settled_def)

text \<open>The sequential loop at the future that is settled.\<close>

lemma writeChunks_at:
  assumes "i < length ds"
  shows "writeChunks fetch wr (drop i ds) written w =
    (case fetch (ds ! i) of
       Inl e \<Rightarrow> (written, Some e, w)
     | Inr x \<Rightarrow>
         (case wr x w of
            (n, e, w') \<Rightarrow>
              (case write_err n e x of
                 Some er \<Rightarrow> (written + int n, Some er, w')
               | None \<Rightarrow> writeChunks fetch wr (drop (Suc i) ds) (written + int n) w')))"
  unfolding Cons_nth_drop_Suc [OF assms, symmetric]
  by (auto simp: write_err_def split: sum.split prod.split option.split)

text \<open>What the steps that settle a future have in common: the buffer of its data goes back.\<close>

lemma settle_step:
  assumes c: "channel_inv P s" and f: "fetch_inv P s" and b: "buffer_inv P k s" and k: "source_ok P k"
    and w: "w_cons s = Waiting \<or> (\<exists>e. w_cons s = DrainWaiting e)"
    and w': "w_cons s' = Receiving \<or> (\<exists>e. w_cons s' = Draining e)"
    and F: "w_fetch s' = (w_fetch s)[w_recv s - 1 := Consumed]"
    and same: "w_sent s' = w_sent s" "w_recv s' = w_recv s" "w_prod s' = w_prod s" "w_in s' = w_in s"
    and cancel: "w_cancel s \<Longrightarrow> w_cancel s'"
    and out: "(\<exists>e. w_fetch s ! (w_recv s - 1) = FutErr e) \<and> w_out s' = w_out s \<or>
      (\<exists>x d. w_fetch s ! (w_recv s - 1) = FutData x d \<and> bufPut d (w_out s) = Some (w_out s'))"
  shows "channel_inv P s'" and "fetch_inv P s'" and "buffer_inv P k s'" and "settled s' = Suc (settled s)"
    and "settled s < length (s_descs P)" and "settled s = w_recv s - 1"
    and "fetch_ok P (w_cancel s) (s_descs P ! settled s) (w_fetch s ! settled s)"
proof -
  let ?i = "w_recv s - 1" and ?F = "w_fetch s"
  have su: "Suc (settled s) = w_recv s" using settled_waiting [OF c w] .
  then show si: "settled s = ?i" by simp
  have il: "?i < length ?F" "?i < length (s_descs P)" using su c by (auto simp: channel_inv_def)
  then show "settled s < length (s_descs P)" using si by simp
  have sp: "spawned s' = spawned s" "settled s' = w_recv s"
    using same w' by (auto simp: spawned_def settled_def)
  then show "settled s' = Suc (settled s)" using su by simp
  have "active (?F ! ?i)" using out by auto
  from settle_inv [OF c f su this F sp cancel] have f': "fetch_inv P s'" and le: "settled s' \<le> spawned s'" by simp_all
  from f' show "fetch_inv P s'" .
  show "channel_inv P s'"
    using c le same cancel F w' by (auto simp: channel_inv_def)
  show "fetch_ok P (w_cancel s) (s_descs P ! settled s) (?F ! settled s)" using f il(2) si by (simp add: fetch_inv_def)
  have p: "pool_ok (s_inputCap P) k (count_of holds_in ?F) (w_in s)"
      "pool_ok (s_outputCap P) (k + 1) (count_of holds_out ?F) (w_out s)" "buf_ok P (?F ! ?i)" "buf_ok P Consumed"
    using b il k by (simp_all add: buffer_inv_def buf_ok_def source_ok_def)
  have "pool_ok (s_outputCap P) (k + 1) (count_of holds_out (?F[?i := Consumed])) (w_out s')"
    using out
  proof
    assume "(\<exists>e. ?F ! ?i = FutErr e) \<and> w_out s' = w_out s"
    with pool_same_update [OF p(2) il(1), of Consumed] show ?thesis by auto
  next
    assume "\<exists>x d. ?F ! ?i = FutData x d \<and> bufPut d (w_out s) = Some (w_out s')"
    then obtain x d where d: "?F ! ?i = FutData x d" "bufPut d (w_out s) = Some (w_out s')" by blast
    with p(3) pool_put_update [OF p(2) d(2) _ _ il(1), of Consumed] show ?thesis by (simp add: buf_ok_def)
  qed
  moreover have "pool_ok (s_inputCap P) k (count_of holds_in (?F[?i := Consumed])) (w_in s')"
    using pool_same_update [OF p(1) il(1), of Consumed] out same by auto
  ultimately show "buffer_inv P k s'" using F p(4) by (intro buffer_inv_update [OF _ b]) simp_all
qed

lemma consumer_step_inv:
  assumes st: "consumer_step P s s'" and v: "window_inv P k w0 s" and k: "source_ok P k"
  shows "window_inv P k w0 s'"
proof -
  from v have c: "channel_inv P s" and f: "fetch_inv P s" and b: "buffer_inv P k s" and o: "output_inv P w0 s"
    by (simp_all add: window_inv_def)
  note settle = settle_step [OF c f b k, of s']
  note at = writeChunks_at [of "settled s" "s_descs P" "s_fetch P" "s_write P" "w_written s" "w_sink s"]
  from st show ?thesis
  proof cases
    case receive
    then have "spawned s' = spawned s" "settled s' = settled s" by (simp_all add: spawned_def settled_def)
    with c f b o receive show ?thesis
      by (auto simp: window_inv_def channel_inv_def fetch_inv_def buffer_inv_def output_inv_def)
  next
    case finished
    then have sp: "spawned s' = spawned s" "settled s' = settled s" "settled s = w_recv s" by (simp_all add: spawned_def settled_def)
    with finished c o have "drop (settled s) (s_descs P) = []" by (auto simp: channel_inv_def output_inv_def)
    with c f b o finished sp show ?thesis
      by (auto simp: window_inv_def channel_inv_def fetch_inv_def buffer_inv_def output_inv_def)
  next
    case (failed e)
    then have t: "channel_inv P s'" "fetch_inv P s'" "buffer_inv P k s'" "settled s' = Suc (settled s)"
        "settled s < length (s_descs P)" "settled s = w_recv s - 1"
        "fetch_ok P (w_cancel s) (s_descs P ! settled s) (w_fetch s ! settled s)"
      by (intro settle; simp)+
    with failed o have "s_fetch P (s_descs P ! settled s) = Inl e" by (simp add: output_inv_def)
    with o failed at [OF t(5)] have "output_inv P w0 s'" by (simp add: output_inv_def Let_def)
    with t show ?thesis by (simp add: window_inv_def)
  next
    case (wrote x d n e w out)
    then have t: "channel_inv P s'" "fetch_inv P s'" "buffer_inv P k s'" "settled s' = Suc (settled s)"
        "settled s < length (s_descs P)" "settled s = w_recv s - 1"
        "fetch_ok P (w_cancel s) (s_descs P ! settled s) (w_fetch s ! settled s)"
      by (intro settle; simp)+
    with wrote o at [OF t(5)] have "output_inv P w0 s'" by (simp add: output_inv_def Let_def)
    with t show ?thesis by (simp add: window_inv_def)
  next
    case (write_failed x d n e w out er)
    then have t: "channel_inv P s'" "fetch_inv P s'" "buffer_inv P k s'" "settled s' = Suc (settled s)"
        "settled s < length (s_descs P)" "settled s = w_recv s - 1"
        "fetch_ok P (w_cancel s) (s_descs P ! settled s) (w_fetch s ! settled s)"
      by (intro settle; simp)+
    with write_failed o at [OF t(5)] have "output_inv P w0 s'" by (simp add: output_inv_def Let_def)
    with t show ?thesis by (simp add: window_inv_def)
  next
    case (drain e)
    then have "spawned s' = spawned s" "settled s' = settled s" by (simp_all add: spawned_def settled_def)
    with c f b o drain show ?thesis
      by (auto simp: window_inv_def channel_inv_def fetch_inv_def buffer_inv_def output_inv_def)
  next
    case (drained_err e e')
    then have "channel_inv P s'" "fetch_inv P s'" "buffer_inv P k s'" by (intro settle; simp)+
    moreover have "output_inv P w0 s'" using o drained_err by (simp add: output_inv_def)
    ultimately show ?thesis by (simp add: window_inv_def)
  next
    case (drained_data e x d out)
    then have "channel_inv P s'" "fetch_inv P s'" "buffer_inv P k s'" by (intro settle; simp)+
    moreover have "output_inv P w0 s'" using o drained_data by (simp add: output_inv_def)
    ultimately show ?thesis by (simp add: window_inv_def)
  next
    case (drained e)
    then have "spawned s' = spawned s" "settled s' = settled s" by (simp_all add: spawned_def settled_def)
    with c f b o drained show ?thesis
      by (auto simp: window_inv_def channel_inv_def fetch_inv_def buffer_inv_def output_inv_def)
  qed
qed

lemma window_step_inv:
  assumes "window_step P s s'" and "window_inv P k w0 s" and "source_ok P k"
  shows "window_inv P k w0 s'"
  using assms(1)
proof cases
  case by_producer
  from producer_step_inv [OF this assms(2,3)] show ?thesis .
next
  case (by_fetch i)
  from assms(2) have "i < length (w_fetch s)" using by_fetch(1) by (simp add: window_inv_def channel_inv_def)
  with by_fetch assms(2,3) fetch_step_inv fetch_step_buffers show ?thesis by (auto simp: window_inv_def)
next
  case by_consumer
  from consumer_step_inv [OF this assms(2,3)] show ?thesis .
qed

lemma window_reach_inv:
  "window_reach P s0 s \<Longrightarrow> window_inv P k w0 s0 \<Longrightarrow> source_ok P k \<Longrightarrow> window_inv P k w0 s"
  by (induction rule: window_reach.induct) (blast intro: window_step_inv)+

section \<open>Progress\<close>

text \<open>A fetch that has started is never blocked: there are fewer fetches than buffers.\<close>

lemma fetch_enabled:
  assumes v: "window_inv P k w0 s" and k: "source_ok P k" and i: "i < length (s_descs P)" and a: "active (w_fetch s ! i)"
    and nf: "\<And>e. w_fetch s ! i \<noteq> FutErr e" "\<And>x b. w_fetch s ! i \<noteq> FutData x b"
  shows "\<exists>s'. fetch_step P i s s'"
proof -
  let ?F = "w_fetch s"
  from v have c: "channel_inv P s" and f: "fetch_inv P s" and b: "buffer_inv P k s" by (simp_all add: window_inv_def)
  have il: "i < length ?F" using c i by (simp add: channel_inv_def)
  have p: "pool_ok (s_inputCap P) k (count_of holds_in ?F) (w_in s)"
      "pool_ok (s_outputCap P) (k + 1) (count_of holds_out ?F) (w_out s)"
    using b by (simp_all add: buffer_inv_def)
  have "2 \<le> s_window P" using k by (simp add: source_ok_def)
  then have "spawned s - settled s \<le> s_window P"
    using c by (auto simp: channel_inv_def spawned_def settled_def split: consumer.splits if_splits)
  then have act: "count_of active ?F \<le> k" using f k by (simp add: fetch_inv_def source_ok_def)
  have imp: "holds_in x \<Longrightarrow> active x" "holds_out x \<Longrightarrow> active x" for x by (cases x; simp)+
  have tin: "\<exists>y bp. bufTake (s_inputCap P) (w_in s) = Some (y, bp)" if "\<not> holds_in (?F ! i)"
    using count_of_strict [where P = holds_in and Q = active, OF imp(1) il a that] act bufTake_enabled [OF p(1)] by simp
  have tout: "\<exists>y bp. bufTake (s_outputCap P) (w_out s) = Some (y, bp)" if "\<not> holds_out (?F ! i)"
    using count_of_strict [where P = holds_out and Q = active, OF imp(2) il a that] act bufTake_enabled [OF p(2)] by simp
  have pin: "\<exists>bp. bufPut y (w_in s) = Some bp" if "holds_in (?F ! i)" for y
    using count_of_pos [where P = holds_in, OF il that] p(1) bufPut_enabled by (metis Suc_pred)
  have pout: "\<exists>bp. bufPut y (w_out s) = Some bp" if "holds_out (?F ! i)" for y
    using count_of_pos [where P = holds_out, OF il that] p(2) bufPut_enabled by (metis Suc_pred)
  show ?thesis
  proof (cases "?F ! i")
    case Started
    with tin tout show ?thesis by (cases "s_compressed P") (fastforce intro: take_in take_out)+
  next
    case (ReadIn y)
    with pin show ?thesis by (cases "s_read P (s_descs P ! i)") (fastforce intro: read_stored read_stored_err)+
  next
    case (Stored y x)
    with tout show ?thesis by (fastforce intro: take_dst)
  next
    case (Decoding y d x)
    with pin pout show ?thesis by (cases "s_decode P (s_descs P ! i) x") (fastforce intro: decode decode_err)+
  next
    case (ReadOut y)
    with pout show ?thesis by (cases "s_read P (s_descs P ! i)") (fastforce intro: read_raw read_raw_err)+
  qed (use a nf in auto)
qed

lemma window_progress:
  assumes v: "window_inv P k w0 s" and k: "source_ok P k" and nr: "\<And>e. w_cons s \<noteq> Returned e"
  shows "\<exists>s'. window_step P s s'"
proof -
  from v have c: "channel_inv P s" and f: "fetch_inv P s" and b: "buffer_inv P k s" and o: "output_inv P w0 s"
    by (simp_all add: window_inv_def)
  let ?i = "w_recv s - 1"
  have prod: "\<exists>s'. producer_step P s s'" if "w_prod s \<noteq> Closed" "w_recv s = w_sent s"
  proof (cases "w_prod s")
    case Sending
    have "w_sent s \<le> length (s_descs P)" using c by (simp add: channel_inv_def)
    then show ?thesis
      using Sending that k by (cases "w_sent s = length (s_descs P)")
        (auto simp: source_ok_def intro!: exI producer_step.all_sent producer_step.send)
  qed (use that in \<open>auto intro: producer_step.spawn\<close>)
  have wait: "\<exists>s'. window_step P s s'" if w: "w_cons s = Waiting \<or> (\<exists>e. w_cons s = DrainWaiting e)"
  proof (cases "w_prod s = Spawning")
    case True
    then show ?thesis by (blast intro: window_step.by_producer producer_step.spawn)
  next
    case False
    have su: "Suc (settled s) = w_recv s" using settled_waiting [OF c w] .
    then have il: "?i < length (s_descs P)" "?i < w_sent s" "?i < length (w_fetch s)" "settled s = ?i" using c by (auto simp: channel_inv_def)
    then have a: "active (w_fetch s ! ?i)"
      using f False by (cases "w_fetch s ! ?i") (auto simp: fetch_inv_def spawned_def)
    show ?thesis
    proof (cases "(\<exists>e. w_fetch s ! ?i = FutErr e) \<or> (\<exists>x d. w_fetch s ! ?i = FutData x d)")
      case False
      with fetch_enabled [OF v k il(1) a] il(1) show ?thesis by (blast intro: window_step.by_fetch)
    next
      case True
      have put: "\<exists>out. bufPut d (w_out s) = Some out" if "w_fetch s ! ?i = FutData x d" for x d
      proof -
        have "0 < count_of holds_out (w_fetch s)" using count_of_pos [OF il(3), of holds_out] that by simp
        moreover have "pool_ok (s_outputCap P) (k + 1) (count_of holds_out (w_fetch s)) (w_out s)"
          using b by (simp add: buffer_inv_def)
        ultimately show ?thesis using bufPut_enabled by (metis Suc_pred)
      qed
      have "\<exists>s'. consumer_step P s s'"
      proof (cases "\<exists>e. w_fetch s ! ?i = FutErr e")
        case True
        with w show ?thesis by (blast intro: consumer_step.failed consumer_step.drained_err)
      next
        case False
        with \<open>(\<exists>e. w_fetch s ! ?i = FutErr e) \<or> (\<exists>x d. w_fetch s ! ?i = FutData x d)\<close> obtain x d where
          d: "w_fetch s ! ?i = FutData x d" by blast
        with put obtain out where out: "bufPut d (w_out s) = Some out" by blast
        obtain n e w where wr: "s_write P x (w_sink s) = (n, e, w)" by (metis prod_cases3)
        show ?thesis
          using w d out wr by (cases "write_err n e x")
            (blast intro: consumer_step.wrote consumer_step.write_failed consumer_step.drained_data)+
      qed
      then show ?thesis by (blast intro: window_step.by_consumer)
    qed
  qed
  have le: "w_recv s \<le> w_sent s" using c by (simp add: channel_inv_def)
  show ?thesis
  proof (cases "w_cons s")
    case Receiving
    show ?thesis
    proof (cases "w_recv s = w_sent s")
      case True
      with prod Receiving show ?thesis
        by (cases "w_prod s = Closed") (blast intro: window_step.by_producer window_step.by_consumer consumer_step.finished)+
    next
      case False
      with le Receiving consumer_step.receive [of s P] show ?thesis by (auto intro: window_step.by_consumer)
    qed
  next
    case (Draining e)
    show ?thesis
    proof (cases "w_recv s = w_sent s")
      case True
      with prod Draining show ?thesis
        by (cases "w_prod s = Closed") (blast intro: window_step.by_producer window_step.by_consumer consumer_step.drained)+
    next
      case False
      with le Draining consumer_step.drain [of s e P] show ?thesis by (auto intro: window_step.by_consumer)
    qed
  qed (use wait nr in auto)
qed

section \<open>Termination\<close>

fun fetch_rank :: "fetch_state \<Rightarrow> nat" where
  "fetch_rank Idle = 6" | "fetch_rank Started = 5" | "fetch_rank (ReadIn _) = 4" | "fetch_rank (Stored _ _) = 3"
| "fetch_rank (Decoding _ _ _) = 2" | "fetch_rank (ReadOut _) = 2" | "fetch_rank (FutErr _) = 1"
| "fetch_rank (FutData _ _) = 1" | "fetch_rank Consumed = 0"

definition window_rank :: "'w source \<Rightarrow> 'w window \<Rightarrow> nat" where
  "window_rank P s =
     sum_list (map fetch_rank (w_fetch s)) + 2 * (length (s_descs P) - w_sent s) + 2 * (length (s_descs P) - w_recv s) +
     (case w_prod s of Sending \<Rightarrow> 1 | Spawning \<Rightarrow> 2 | Closed \<Rightarrow> 0) +
     (case w_cons s of Receiving \<Rightarrow> 3 | Waiting \<Rightarrow> 4 | Draining _ \<Rightarrow> 1 | DrainWaiting _ \<Rightarrow> 2 | Returned _ \<Rightarrow> 0)"

lemma fetch_rank_update:
  assumes "i < length F" and "fetch_rank f < fetch_rank (F ! i)"
  shows "sum_list (map fetch_rank (F[i := f])) < sum_list (map fetch_rank F)"
  using sum_update [OF assms(1), of fetch_rank f] assms(2) by linarith

lemma window_step_rank:
  assumes st: "window_step P s s'" and c: "channel_inv P s" and f: "fetch_inv P s"
  shows "window_rank P s' < window_rank P s"
  using st
proof cases
  case by_producer
  then show ?thesis
  proof cases
    case send
    then show ?thesis by (simp add: window_rank_def split: consumer.split)
  next
    case spawn
    let ?i = "w_sent s - 1"
    from c spawn have il: "?i < length (w_fetch s)" "?i < length (s_descs P)" by (auto simp: channel_inv_def)
    have "w_fetch s ! ?i = Idle" using f il(2) spawn by (simp add: fetch_inv_def spawned_def)
    with fetch_rank_update [OF il(1), of Started] have
      "sum_list (map fetch_rank ((w_fetch s)[?i := Started])) < sum_list (map fetch_rank (w_fetch s))" by simp
    with spawn show ?thesis by (simp add: window_rank_def split: consumer.split)
  next
    case stop
    then show ?thesis by (simp add: window_rank_def split: consumer.split)
  next
    case all_sent
    then show ?thesis by (simp add: window_rank_def split: consumer.split)
  qed
next
  case (by_fetch i)
  have il: "i < length (w_fetch s)" using by_fetch(1) c by (simp add: channel_inv_def)
  have "fetch_rank (w_fetch s' ! i) < fetch_rank (w_fetch s ! i)"
    using by_fetch(2) il by cases simp_all
  from fetch_rank_update [OF il this] fetch_step_shape(1) [OF by_fetch(2) il]
  have "sum_list (map fetch_rank (w_fetch s')) < sum_list (map fetch_rank (w_fetch s))" by simp
  then show ?thesis unfolding window_rank_def fetch_step_shape(2-5) [OF by_fetch(2) il] by simp
next
  case by_consumer
  have le: "w_recv s \<le> w_sent s" "w_sent s \<le> length (s_descs P)" "length (w_fetch s) = length (s_descs P)"
    using c by (simp_all add: channel_inv_def)
  have il: "w_recv s - 1 < length (w_fetch s)" if "0 < w_recv s" using that le by simp
  have w0: "w_cons s = Waiting \<or> (\<exists>e. w_cons s = DrainWaiting e) \<Longrightarrow> 0 < w_recv s"
    using c by (auto simp: channel_inv_def)
  note upd = fetch_rank_update [OF il, of Consumed]
  from by_consumer show ?thesis
    by cases (use le w0 upd in \<open>auto simp: window_rank_def\<close>)
qed

section \<open>Every run ends as the sequential loop\<close>

lemma window_ends:
  assumes "window_inv P k w0 s" and "source_ok P k"
  shows "\<exists>s' e. window_reach P s s' \<and> w_cons s' = Returned e"
  using assms(1)
proof (induction "window_rank P s" arbitrary: s rule: less_induct)
  case less
  show ?case
  proof (cases "\<exists>e. w_cons s = Returned e")
    case True
    then show ?thesis by (blast intro: window_reach.start)
  next
    case False
    with window_progress [OF less.prems assms(2)] obtain s1 where s1: "window_step P s s1" by blast
    have "window_rank P s1 < window_rank P s"
      using window_step_rank [OF s1] less.prems by (simp add: window_inv_def)
    from less.hyps [OF this window_step_inv [OF s1 less.prems assms(2)]] obtain s' e where
      s': "window_reach P s1 s'" "w_cons s' = Returned e" by blast
    from s'(1) have "window_reach P s s'"
      by (induction rule: window_reach.induct) (blast intro: window_reach.intros s1)+
    with s'(2) show ?thesis by blast
  qed
qed

lemma window_no_infinite_run:
  assumes "window_inv P k w0 (f 0)" and "source_ok P k"
  shows "\<not> (\<forall>i. window_step P (f i) (f (Suc i)))"
proof
  assume st: "\<forall>i. window_step P (f i) (f (Suc i))"
  have inv: "window_inv P k w0 (f i)" for i
  proof (induction i)
    case (Suc i)
    from window_step_inv [OF st [rule_format] Suc assms(2)] show ?case .
  qed (rule assms(1))
  have "window_rank P (f i) + i \<le> window_rank P (f 0)" for i
  proof (induction i)
    case (Suc i)
    have "window_rank P (f (Suc i)) < window_rank P (f i)"
      using st inv [of i] window_step_rank [of P "f i" "f (Suc i)"] by (simp add: window_inv_def)
    with Suc show ?case by simp
  qed simp
  from this [of "Suc (window_rank P (f 0))"] show False by simp
qed

lemma window_result:
  assumes "window_inv P k w0 s" and "w_cons s = Returned e"
  shows "(w_written s, e, w_sink s) = writeChunks (s_fetch P) (s_write P) (s_descs P) 0 w0"
    and "pool_ok (s_inputCap P) k 0 (w_in s)" and "pool_ok (s_outputCap P) (k + 1) 0 (w_out s)"
proof -
  from assms have c: "channel_inv P s" and f: "fetch_inv P s" and b: "buffer_inv P k s" and o: "output_inv P w0 s"
    by (simp_all add: window_inv_def)
  show "(w_written s, e, w_sink s) = writeChunks (s_fetch P) (s_write P) (s_descs P) 0 w0"
    using o assms(2) by (simp add: output_inv_def Let_def)
  have "spawned s = settled s" using c assms(2) by (simp add: channel_inv_def spawned_def settled_def)
  then have "count_of active (w_fetch s) = 0" using f by (simp add: fetch_inv_def)
  moreover have "holds_in x \<Longrightarrow> active x" "holds_out x \<Longrightarrow> active x" for x by (cases x; simp)+
  ultimately have "count_of holds_in (w_fetch s) = 0" "count_of holds_out (w_fetch s) = 0" by (auto simp: count_of_0)
  with b show "pool_ok (s_inputCap P) k 0 (w_in s)" and "pool_ok (s_outputCap P) (k + 1) 0 (w_out s)"
    by (simp_all add: buffer_inv_def)
qed

text \<open>The memory of all buffers, free and held.\<close>

definition window_bytes :: "'w window \<Rightarrow> int" where
  "window_bytes s =
     sum_list (map in_buf (w_fetch s)) + sum_list (bp_free (w_in s)) +
     sum_list (map out_buf (w_fetch s)) + sum_list (bp_free (w_out s))"

lemma window_memory:
  assumes "window_inv P k w0 s"
  shows "window_bytes s \<le> int k * (s_inputCap P + s_outputCap P) + s_outputCap P"
proof -
  have b: "pool_ok (s_inputCap P) k (count_of holds_in (w_fetch s)) (w_in s)"
      "pool_ok (s_outputCap P) (k + 1) (count_of holds_out (w_fetch s)) (w_out s)"
      "\<forall>f \<in> set (w_fetch s). 0 \<le> in_buf f \<and> in_buf f \<le> s_inputCap P \<and> 0 \<le> out_buf f \<and> out_buf f \<le> s_outputCap P"
    using assms by (simp_all add: window_inv_def buffer_inv_def)
  have z: "\<not> holds_in f \<Longrightarrow> in_buf f = 0" "\<not> holds_out f \<Longrightarrow> out_buf f = 0" for f by (cases f; simp)+
  have "sum_list (map in_buf (w_fetch s)) \<le> int (count_of holds_in (w_fetch s)) * s_inputCap P"
    using b(3) z by (intro sum_count_le) auto
  moreover have "sum_list (map out_buf (w_fetch s)) \<le> int (count_of holds_out (w_fetch s)) * s_outputCap P"
    using b(3) z by (intro sum_count_le) auto
  moreover note pool_free_bytes [OF b(1)] pool_free_bytes [OF b(2)]
  ultimately show ?thesis by (simp add: window_bytes_def algebra_simps)
qed

section \<open>The window of a planned file\<close>

definition pullSource ::
  "env \<Rightarrow> 'r Downloader \<Rightarrow> string \<Rightarrow> chunkPipeline \<Rightarrow> layerPlan \<Rightarrow> 'r \<Rightarrow> tar_writer source" where
  "pullSource ev dl name p e r =
     \<lparr>s_descs = lp_descs e, s_window = nat (fileWindow p e), s_compressed = lp_zstd e,
      s_inputCap = cp_inputCap p, s_outputCap = cp_outputCap p,
      s_read = (\<lambda>d. chunkRead dl name d (if lp_zstd e then cp_inputCap p else cp_outputCap p) r),
      s_decode = (\<lambda>d x. wrapR (''decode chunk '' @ d_Digest d) (z_DecodeAll (ev_zstd ev) (cp_outputCap p) x)),
      s_write = tw_Write\<rparr>"

lemma pullSource_fetch: "s_fetch (pullSource ev dl name p e r) = (\<lambda>d. chunkFetch ev dl name p (lp_zstd e) d r)"
  by (auto simp: s_fetch_def pullSource_def chunkFetch_def fun_eq_iff)

lemma pullSource_ok:
  assumes "2 \<le> fileWindow p e" and "0 \<le> cp_inputCap p" and "0 \<le> cp_outputCap p"
  shows "source_ok (pullSource ev dl name p e r) (nat (cp_window p))"
  using assms by (auto simp: source_ok_def pullSource_def fileWindow_def split: if_splits)

lemma pullSource_streamBody:
  assumes "2 \<le> fileWindow p e"
  shows "streamBody ev dl name p e r tw =
    Some (writeChunks (s_fetch (pullSource ev dl name p e r)) (s_write (pullSource ev dl name p e r))
      (s_descs (pullSource ev dl name p e r)) 0 tw)"
  using assms by (simp add: streamBody_def Let_def pullSource_fetch) (simp add: pullSource_def)

end
