(* ===== verification/Push_Spec.thy ===== *)
theory Push_Spec
  imports Snapshot_Pull
begin

text \<open>
  What a push of a well-formed export stream does, in closed form: the blobs a file becomes, the
  descriptors of its layers, its entry in the config, and the lemmas that the read loop produces
  exactly these. The registry is any \<open>blob_store\<close>; the digests of the blobs at hand are assumed
  not to collide.
\<close>

section \<open>The blobs and layers of a file\<close>

definition isCompressed :: "PushOptions \<Rightarrow> tar_header \<Rightarrow> bool" where
  "isCompressed opts hdr = (o_ZstdLevel opts > 0 \<and> h_Size hdr \<ge> compressMinBytes)"

definition isChunked :: "PushOptions \<Rightarrow> int \<Rightarrow> tar_header \<Rightarrow> bool" where
  "isChunked opts cs hdr = (cs > 0 \<and> (isCompressed opts hdr \<or> h_Size hdr > cs))"

text \<open>Cutting at fixed offsets; the last piece may be shorter.\<close>

function pieces :: "nat \<Rightarrow> bytes \<Rightarrow> bytes list" where
  "pieces c xs = (if xs = [] \<or> c = 0 then [] else take c xs # pieces c (drop c xs))"
  by pat_completeness auto
termination
  by (relation "measure (\<lambda>(c, xs). length xs)") auto

declare pieces.simps [simp del]

definition fileMT :: "PushOptions \<Rightarrow> tar_header \<Rightarrow> string" where
  "fileMT opts hdr =
     (if isCompressed opts hdr then ZstdMediaType (MediaTypeForCocoonFile (h_Name hdr))
      else MediaTypeForCocoonFile (h_Name hdr))"

definition fileBlobs :: "env \<Rightarrow> PushOptions \<Rightarrow> int \<Rightarrow> tar_entry \<Rightarrow> bytes list" where
  "fileBlobs ev opts cs e =
     (let data = rd_content (e_body e); z = ev_zstd ev; l = o_ZstdLevel opts in
      if isChunked opts cs (e_hdr e) then
        map (\<lambda>b. if isCompressed opts (e_hdr e) then z_EncodeAll z l b else b) (pieces (nat cs) data)
      else [if isCompressed opts (e_hdr e) then z_EncodeStream z l data else data])"

definition chunkDesc :: "string \<Rightarrow> string \<Rightarrow> int \<Rightarrow> int \<Rightarrow> bytes \<Rightarrow> Descriptor" where
  "chunkDesc mediaType title count i stored =
     (let desc = titled mediaType title stored in
      if count > 1
      then desc\<lparr>d_Annotations := fmupd AnnotationChunkCount (Itoa count)
             (fmupd AnnotationChunkIndex (Itoa i) (d_Annotations desc))\<rparr>
      else desc)"

fun chunkDescs :: "string \<Rightarrow> string \<Rightarrow> int \<Rightarrow> int \<Rightarrow> bytes list \<Rightarrow> Descriptor list" where
  "chunkDescs mt title count i [] = []"
| "chunkDescs mt title count i (b # bs) = chunkDesc mt title count i b # chunkDescs mt title count (i + 1) bs"

definition fileDescs :: "env \<Rightarrow> PushOptions \<Rightarrow> int \<Rightarrow> tar_entry \<Rightarrow> Descriptor list" where
  "fileDescs ev opts cs e =
     (let bs = fileBlobs ev opts cs e; hdr = e_hdr e in
      if isChunked opts cs hdr then chunkDescs (fileMT opts hdr) (h_Name hdr) (int (length bs)) 0 bs
      else map (titled (fileMT opts hdr) (h_Name hdr)) bs)"

definition fileEntry :: "env \<Rightarrow> PushOptions \<Rightarrow> int \<Rightarrow> tar_entry \<Rightarrow> SnapshotFile" where
  "fileEntry ev opts cs e =
     (let hdr = e_hdr e; bs = fileBlobs ev opts cs e;
          fm = (case sparseFileMeta hdr of Inl _ \<Rightarrow> zeroFile | Inr fm \<Rightarrow> fm)
      in fm\<lparr>f_Size := h_Size hdr, f_Chunks := (if length bs < 2 then [] else map digestOf bs)\<rparr>)"

section \<open>Well-formed export streams\<close>

definition is_json :: "tar_entry \<Rightarrow> bool" where
  "is_json e = (h_Name (e_hdr e) = snapshotJSONName)"

definition is_file :: "tar_entry \<Rightarrow> bool" where
  "is_file e = (\<not> is_json e \<and> h_Typeflag (e_hdr e) = TypeReg)"

text \<open>Sparse metadata that survives: a map that is not empty, with a positive size, and a plain mode.\<close>

definition sparse_ok :: "tar_header \<Rightarrow> bool" where
  "sparse_ok hdr =
     (case fmlookup (h_PAXRecords hdr) sparsePAXMap of
        None \<Rightarrow> True
      | Some m \<Rightarrow>
          m \<noteq> [] \<and> valid_utf8 m \<and> 0 \<le> h_Mode hdr \<and> h_Mode hdr < 8 ^ 7 \<and>
          (case fmlookup (h_PAXRecords hdr) sparsePAXSize of
             None \<Rightarrow> False
           | Some s \<Rightarrow> (case ParseInt 64 s of None \<Rightarrow> False | Some n \<Rightarrow> 0 < n \<and> s = FormatInt n)))"

text \<open>
  A regular file whose body is all there, with a name, a mode and sparse metadata that the formats
  on the way can hold, and not more than \<open>2 ^ 20\<close> chunks.
\<close>

definition good_file :: "PushOptions \<Rightarrow> int \<Rightarrow> tar_entry \<Rightarrow> bool" where
  "good_file opts cs e =
     (let hdr = e_hdr e in
      h_Name hdr \<noteq> [] \<and> valid_utf8 (h_Name hdr) \<and> CHR 0x00 \<notin> set (h_Name hdr) \<and>
      0 \<le> h_Size hdr \<and> h_Size hdr < 2 ^ 62 \<and> int (length (rd_content (e_body e))) = h_Size hdr \<and>
      rd_end (e_body e) = EOF \<and> rd_progress (e_body e) \<and>
      (isChunked opts cs hdr \<longrightarrow> h_Size hdr \<le> 2 ^ 20 * cs) \<and>
      h_Mode hdr \<noteq> 0 \<and> in_int64 (h_Mode hdr) \<and> sparse_ok hdr)"

definition good_entry :: "PushOptions \<Rightarrow> int \<Rightarrow> tar_entry \<Rightarrow> bool" where
  "good_entry opts cs e =
     (if is_json e then is_ok (decodeExportEnvelope (rd_content (e_body e)))
      else is_file e \<longrightarrow> good_file opts cs e)"

definition entryState :: "env \<Rightarrow> PushOptions \<Rightarrow> int \<Rightarrow> tar_entry \<Rightarrow> push_state \<Rightarrow> push_state" where
  "entryState ev opts cs e st =
     (let hdr = e_hdr e in
      if is_json e then
        st\<lparr>ps_cfg := (case decodeExportEnvelope (rd_content (e_body e)) of Inl _ \<Rightarrow> None | Inr c \<Rightarrow> Some c)\<rparr>
      else if is_file e then
        addGroup (h_Name hdr) (fileDescs ev opts cs e)
          (st\<lparr>ps_files := fmupd (h_Name hdr) ((fileEntry ev opts cs e)\<lparr>f_Chunks := []\<rparr>) (ps_files st),
              ps_encoded := (ps_encoded st \<or> isChunked opts cs hdr \<or> isCompressed opts hdr)\<rparr>)
      else st)"

section \<open>Cutting\<close>

lemma pipelineParams_chunk: "pipelineParams opts = Inr (workers, cs) \<Longrightarrow> 0 \<le> cs \<and> cs \<le> 2 ^ 32"
  by (auto simp: pipelineParams_def Let_def maxChunkSizeMiB_def max_def split: if_splits)

lemma pieces_concat: "0 < c \<Longrightarrow> concat (pieces c xs) = xs"
proof (induction c xs rule: pieces.induct)
  case (1 c xs)
  show ?case
  proof (cases "xs = []")
    case False
    with 1 show ?thesis by (subst pieces.simps) simp
  qed (simp add: pieces.simps)
qed

lemma pieces_length: "0 < c \<Longrightarrow> length (pieces c xs) = (length xs + c - 1) div c"
proof (induction c xs rule: pieces.induct)
  case (1 c xs)
  show ?case
  proof (cases "xs = []")
    case True
    with 1 show ?thesis by (simp add: pieces.simps)
  next
    case False
    then have "length (pieces c xs) = Suc ((length (drop c xs) + c - 1) div c)"
      using 1 by (subst pieces.simps) simp
    also have "\<dots> = (length xs + c - 1) div c"
    proof (cases "length xs \<le> c")
      case True
      obtain y ys where "xs = y # ys" using False by (cases xs) auto
      then have "(length xs + c - 1) div c = 1"
        using True 1(2) by (intro div_nat_eqI) simp_all
      with True 1(2) show ?thesis by simp
    next
      case False
      then have "length xs + c - 1 = (length xs - c + c - 1) + c" by simp
      with False 1(2) show ?thesis
        by (simp only: length_drop) (metis Suc_eq_plus1 div_add_self2 less_irrefl)
    qed
    finally show ?thesis .
  qed
qed

lemma pieces_bound: "b \<in> set (pieces c xs) \<Longrightarrow> length b \<le> c"
proof (induction c xs rule: pieces.induct)
  case (1 c xs)
  show ?case
  proof (cases "xs = [] \<or> c = 0")
    case True
    with 1(2) show ?thesis by (subst (asm) pieces.simps) auto
  next
    case False
    then have "b = take c xs \<or> b \<in> set (pieces c (drop c xs))"
      using 1(2) by (subst (asm) pieces.simps) auto
    with 1(1) False show ?thesis by auto
  qed
qed

section \<open>Putting blobs\<close>

context blob_store
begin

definition holds :: "'r \<Rightarrow> string \<Rightarrow> bytes \<Rightarrow> bool" where
  "holds r n b = (blobs r n (digestOf b) = Some b)"

text \<open>The blobs at hand: the digests of those in \<open>B\<close> do not collide, and the repository holds no others.\<close>

definition within :: "bytes set \<Rightarrow> string \<Rightarrow> 'r \<Rightarrow> bool" where
  "within B n r = (inj_on digestOf B \<and> (\<forall>d b. blobs r n d = Some b \<longrightarrow> b \<in> B))"

text \<open>The registry has only gained blobs.\<close>

definition grows :: "bytes set \<Rightarrow> string \<Rightarrow> 'r \<Rightarrow> 'r \<Rightarrow> bool" where
  "grows B n r r' = (within B n r' \<and> manif r' = manif r \<and> (\<forall>b. holds r n b \<longrightarrow> holds r' n b))"

lemma grows_trans: "grows B n r r' \<Longrightarrow> grows B n r' r'' \<Longrightarrow> grows B n r r''"
  by (simp add: grows_def)

lemma grows_refl: "within B n r \<Longrightarrow> grows B n r r"
  by (simp add: grows_def)

lemma grows_within: "grows B n r r' \<Longrightarrow> within B n r'"
  by (simp add: grows_def)

lemma putBlobIfMissing_ok:
  assumes n: "repo_ok n" and b: "b \<in> B" and w: "within B n r"
  shows "\<exists>r'. putBlobIfMissing up n (''sha256:'' @ SHA256Hex b) b (int (length b)) r = (None, r') \<and>
    holds r' n b \<and> grows B n r r'"
proof (cases "blobs r n (digestOf b)")
  case (Some b')
  with verified [OF n Some] w b have "b' = b"
    by (auto simp: within_def dest: inj_onD)
  with Some w has_blob [OF n, of b r] show ?thesis
    by (auto simp: putBlobIfMissing_def holds_def grows_def digestOf_def)
next
  case None
  from put_blob [OF n, of b r] obtain r' where
    p: "up_PutBlob up n (digestOf b) b (int (length b)) r = (None, r')"
      "blobs r' n = (blobs r n)(digestOf b \<mapsto> b)" "manif r' = manif r"
    by blast
  have "within B n r'"
    using w b p(2) by (auto simp: within_def split: if_splits)
  moreover have "holds r n x \<longrightarrow> holds r' n x" for x
    using p(2) None by (auto simp: holds_def)
  ultimately show ?thesis
    using None p has_blob [OF n, of b r]
    by (auto simp: putBlobIfMissing_def holds_def grows_def digestOf_def)
qed

end

text \<open>
  An uploader that takes every blob of \<open>B\<close> for the repository \<open>n\<close>: what is known of its state, \<open>I\<close>, stays true,
  and it gains the blob and loses none. The read loop is followed over such an uploader.
\<close>

locale accepting =
  fixes up :: "'r Uploader" and n :: string and B :: "bytes set" and I :: "'r \<Rightarrow> bool" and has :: "'r \<Rightarrow> bytes \<Rightarrow> bool"
  assumes accept: "b \<in> B \<Longrightarrow> I r \<Longrightarrow>
    \<exists>r'. putBlobIfMissing up n (''sha256:'' @ SHA256Hex b) b (int (length b)) r = (None, r') \<and>
      has r' b \<and> I r' \<and> (\<forall>x. has r x \<longrightarrow> has r' x)"
begin

definition gains :: "'r \<Rightarrow> 'r \<Rightarrow> bool" where
  "gains r r' = (I r' \<and> (\<forall>x. has r x \<longrightarrow> has r' x))"

lemma gains_trans: "gains r r' \<Longrightarrow> gains r' r'' \<Longrightarrow> gains r r''"
  by (simp add: gains_def)

lemma gains_refl: "I r \<Longrightarrow> gains r r"
  by (simp add: gains_def)

lemma gains_within: "gains r r' \<Longrightarrow> I r'"
  by (simp add: gains_def)

lemmas accept_gains = accept [folded gains_def]

lemma uploadChunk_ok:
  assumes w: "I r"
    and b: "(if IsZstdMediaType mt then z_EncodeAll (ev_zstd ev) level raw else raw) \<in> B" (is "?b \<in> B")
  shows "\<exists>r'. uploadChunk ev up level n mt title i count raw r = (Inr (chunkDesc mt title count i ?b), r') \<and>
    has r' ?b \<and> gains r r'"
  using accept_gains [OF b w]
  by (auto simp: uploadChunk_def chunkDesc_def Let_def)

lemma uploadSpooled_ok:
  assumes w: "I r" and b: "b \<in> B"
  shows "\<exists>r'. uploadSpooled up n title mt (Inr b) r = (Inr (titled mt title b), r') \<and>
    has r' b \<and> gains r r'"
  using accept_gains [OF b w] by (auto simp: uploadSpooled_def)

lemma enqueueLoop_ok:
  fixes st :: "bytes \<Rightarrow> bytes"
  assumes ctx: "ev_ctx ev = None" and cs: "0 < cs"
    and st: "\<And>x. st x = (if IsZstdMediaType mt then z_EncodeAll (ev_zstd ev) level x else x)"
    and B: "\<forall>x \<in> set (pieces (nat cs) data). st x \<in> B" and w: "I r"
    and body: "rd_content body = data"
  shows "\<exists>r'. enqueueLoop ev up level n mt title cs count (length (pieces (nat cs) data)) i
      (int (length data)) body None r =
      (None, chunkDescs mt title count i (map st (pieces (nat cs) data)), None, r') \<and>
    (\<forall>x \<in> set (pieces (nat cs) data). has r' (st x)) \<and> gains r r'"
  using B w body
proof (induction "nat cs" data arbitrary: i r body rule: pieces.induct)
  case (1 xs)
  show ?case
  proof (cases "xs = []")
    case True
    with 1 show ?thesis by (simp add: pieces.simps gains_refl)
  next
    case False
    let ?c = "nat cs"
    have p: "pieces ?c xs = take ?c xs # pieces ?c (drop ?c xs)"
      using False cs by (subst pieces.simps) simp
    have wn: "nat (min cs (int (length xs))) = min ?c (length xs)" using cs by (simp add: min_def)
    have t: "take (min ?c (length xs)) xs = take ?c xs" by (simp add: min_def)
    from rd.ReadFull_enough [of "min ?c (length xs)" body] 1(4) t obtain body' where
      rf: "io_ReadFull rd_read (min ?c (length xs)) body = Some (take ?c xs, None, body')"
        "rd_content body' = drop (min ?c (length xs)) xs"
      by auto
    then have b': "rd_content body' = drop ?c xs" by (simp add: min_def split: if_splits)
    from 1(2) p have "st (take ?c xs) \<in> B" by simp
    then have tB: "(if IsZstdMediaType mt then z_EncodeAll (ev_zstd ev) level (take ?c xs) else take ?c xs) \<in> B"
      by (simp only: st)
    from uploadChunk_ok [OF 1(3) tB] obtain r1 where
      u: "uploadChunk ev up level n mt title i count (take ?c xs) r =
          (Inr (chunkDesc mt title count i (st (take ?c xs))), r1)"
        "has r1 (st (take ?c xs))" "gains r r1"
      unfolding st [symmetric] by blast
    have B': "\<forall>x \<in> set (pieces ?c (drop ?c xs)). st x \<in> B" using 1(2) p by simp
    have ne: "\<not> (xs = [] \<or> ?c = 0)" using False cs by simp
    from 1(1) [OF ne B' gains_within [OF u(3)] b', of "i + 1"] obtain r2 where
      ih: "enqueueLoop ev up level n mt title cs count (length (pieces ?c (drop ?c xs))) (i + 1)
          (int (length (drop ?c xs))) body' None r1 =
          (None, chunkDescs mt title count (i + 1) (map st (pieces ?c (drop ?c xs))), None, r2)"
        "\<forall>x \<in> set (pieces ?c (drop ?c xs)). has r2 (st x)" "gains r1 r2"
      by blast
    have rem: "int (length xs) - min cs (int (length xs)) = int (length (drop ?c xs))" using cs by (simp add: min_def)
    from ih(3) u(2) have "has r2 (st (take ?c xs))" by (simp add: gains_def)
    with ih u rf ctx wn rem p show ?thesis
      by (auto simp: Let_def intro: gains_trans)
  qed
qed

lemma enqueueChunks_ok:
  assumes ctx: "ev_ctx ev = None" and g: "good_file opts cs e" and cs: "cs \<le> 2 ^ 32"
    and c: "isChunked opts cs (e_hdr e)" and B: "set (fileBlobs ev opts cs e) \<subseteq> B" and w: "I r"
  shows "\<exists>r'. enqueueChunks ev up (o_ZstdLevel opts) n e cs (isCompressed opts (e_hdr e)) None r =
      (None, fileDescs ev opts cs e, None, r') \<and>
    (\<forall>b \<in> set (fileBlobs ev opts cs e). has r' b) \<and> gains r r'"
proof -
  let ?hdr = "e_hdr e" and ?data = "rd_content (e_body e)"
  let ?p = "pieces (nat cs) ?data"
  define st where "st x = (if IsZstdMediaType (fileMT opts ?hdr)
    then z_EncodeAll (ev_zstd ev) (o_ZstdLevel opts) x else x)" for x
  have zmt: "IsZstdMediaType (fileMT opts ?hdr) = isCompressed opts ?hdr" by (simp add: fileMT_def)
  have cs0: "0 < cs" using c by (simp add: isChunked_def)
  have sz: "0 \<le> h_Size ?hdr" "h_Size ?hdr < 2 ^ 62" "int (length ?data) = h_Size ?hdr" "h_Size ?hdr \<le> 2 ^ 20 * cs"
    using g c by (simp_all add: good_file_def Let_def)
  have bs: "fileBlobs ev opts cs e = map st ?p"
    using c by (simp add: fileBlobs_def st_def zmt)
  have cnt: "quot64 (wrap64 (wrap64 (h_Size ?hdr + cs) - 1)) cs = int (length ?p)"
  proof -
    have "in_int64 (h_Size ?hdr + cs)" "in_int64 (h_Size ?hdr + cs - 1)"
      using sz cs cs0 by (simp_all add: in_int64_def)
    then have "quot64 (wrap64 (wrap64 (h_Size ?hdr + cs) - 1)) cs = (h_Size ?hdr + cs - 1) div cs"
      using sz cs0 by (simp add: quot64_pos)
    also have "\<dots> = int ((length ?data + nat cs - 1) div nat cs)"
      using sz(3) cs0 by (simp add: zdiv_int of_nat_diff)
    also have "\<dots> = int (length ?p)" using cs0 by (simp add: pieces_length)
    finally show ?thesis .
  qed
  have cap: "int (length ?p) \<le> 2 ^ 20"
  proof -
    have "(h_Size ?hdr + cs - 1) div cs \<le> (2 ^ 20 * cs + cs - 1) div cs"
      using sz(4) cs0 by (intro zdiv_mono1) simp_all
    also have "2 ^ 20 * cs + cs - 1 = (cs - 1) + 2 ^ 20 * cs" by simp
    also have "\<dots> div cs = 2 ^ 20 + (cs - 1) div cs" using cs0 by (intro div_mult_self1) simp
    also have "(cs - 1) div cs = 0" using cs0 by (simp add: div_pos_pos_trivial)
    finally show ?thesis
      using cnt sz(3) cs0 by (simp add: pieces_length zdiv_int of_nat_diff)
  qed
  have "\<forall>x \<in> set ?p. st x \<in> B" using B bs by auto
  from enqueueLoop_ok [OF ctx cs0 st_def this w refl, of "h_Name ?hdr" "int (length ?p)" 0]
  show ?thesis
    using cnt cap sz c
    by (auto simp: enqueueChunks_def Let_def fileDescs_def bs fileMT_def)
qed

lemma copyLimited_ok:
  assumes "good_file opts cs e"
  shows "copyLimited e = Inr (rd_content (e_body e))"
proof -
  let ?l = "\<lparr>lim_R = e_body e, lim_N = h_Size (e_hdr e)\<rparr>"
  have g: "rd_progress (lim_R ?l)" "lim_rest ?l = rd_content (e_body e)" "lim_final ?l = EOF"
    using assms by (auto simp: good_file_def Let_def lim_rest_def lim_final_def)
  from ReadAll_reader [OF lim.io_reader_axioms, of ?l] g show ?thesis
    by (auto simp: copyLimited_def)
qed

lemma pushFile_ok:
  assumes n: "o_Name opts = n" and ctx: "ev_ctx ev = None" and g: "good_file opts cs e"
    and cs: "cs \<le> 2 ^ 32" and B: "set (fileBlobs ev opts cs e) \<subseteq> B" and w: "I r"
    and wait: "ps_wait st = None"
  shows "\<exists>r'. pushFile ev up opts cs e st r =
      (None, addGroup (h_Name (e_hdr e)) (fileDescs ev opts cs e)
        (st\<lparr>ps_encoded := (ps_encoded st \<or> isChunked opts cs (e_hdr e) \<or> isCompressed opts (e_hdr e))\<rparr>), r') \<and>
    (\<forall>b \<in> set (fileBlobs ev opts cs e). has r' b) \<and> gains r r'"
proof (cases "isChunked opts cs (e_hdr e)")
  case True
  from enqueueChunks_ok [OF ctx g cs True B w] obtain r' where
    *: "enqueueChunks ev up (o_ZstdLevel opts) (o_Name opts) e cs (isCompressed opts (e_hdr e)) None r =
      (None, fileDescs ev opts cs e, None, r')"
      "\<forall>b \<in> set (fileBlobs ev opts cs e). has r' b" "gains r r'"
    unfolding n by blast
  from True * wait show ?thesis
    by (cases st) (simp add: pushFile_def Let_def isChunked_def isCompressed_def [symmetric])
next
  case False
  define b where "b = (if isCompressed opts (e_hdr e)
    then z_EncodeStream (ev_zstd ev) (o_ZstdLevel opts) (rd_content (e_body e)) else rd_content (e_body e))"
  have bs: "fileBlobs ev opts cs e = [b]"
    using False by (simp add: fileBlobs_def Let_def b_def)
  then have "b \<in> B" using B by simp
  from uploadSpooled_ok [OF w this, of "h_Name (e_hdr e)" "fileMT opts (e_hdr e)"] obtain r' where
    *: "uploadSpooled up (o_Name opts) (h_Name (e_hdr e)) (fileMT opts (e_hdr e)) (Inr b) r =
        (Inr (titled (fileMT opts (e_hdr e)) (h_Name (e_hdr e)) b), r')"
      "has r' b" "gains r r'"
    unfolding n by blast
  have d: "fileDescs ev opts cs e = [titled (fileMT opts (e_hdr e)) (h_Name (e_hdr e)) b]"
    using False bs by (simp add: fileDescs_def Let_def)
  show ?thesis
  proof (cases "isCompressed opts (e_hdr e)")
    case True
    with * False d bs b_def copyLimited_ok [OF g] show ?thesis
      by (auto simp: pushFile_def Let_def isChunked_def isCompressed_def [symmetric] uploadCompressedSpool_def fileMT_def)
  next
    case nc: False
    with * False d bs b_def copyLimited_ok [OF g] show ?thesis
      by (auto simp: pushFile_def Let_def isChunked_def isCompressed_def [symmetric] uploadTarEntry_def fileMT_def)
  qed
qed

lemma sparseFileMeta_ok:
  assumes "sparse_ok hdr"
  shows "\<exists>fm. sparseFileMeta hdr = Inr fm \<and> f_Mode fm = h_Mode hdr \<and> f_Chunks fm = [] \<and>
    f_Size fm = 0 \<and> valid_utf8 (f_SparseMap fm) \<and> in_int64 (f_SparseSize fm)"
  using assms ParseInt_range [of 64]
  by (fastforce simp: sparse_ok_def sparseFileMeta_def Let_def zeroFile_def in_int64_def split: option.splits)

lemma pushEntry_ok:
  assumes n: "o_Name opts = n" and ctx: "ev_ctx ev = None" and g: "good_entry opts cs e"
    and cs: "cs \<le> 2 ^ 32" and B: "is_file e \<Longrightarrow> set (fileBlobs ev opts cs e) \<subseteq> B"
    and w: "I r" and wait: "ps_wait st = None"
  shows "\<exists>r'. pushEntry ev up opts cs e st r = (None, entryState ev opts cs e st, r') \<and>
    (is_file e \<longrightarrow> (\<forall>b \<in> set (fileBlobs ev opts cs e). has r' b)) \<and>
    gains r r' \<and> ps_wait (entryState ev opts cs e st) = None"
proof (cases "is_file e")
  case True
  then have gf: "good_file opts cs e" using g by (auto simp: good_entry_def is_file_def split: if_splits)
  then have "sparse_ok (e_hdr e)" and sz: "0 \<le> h_Size (e_hdr e)" by (simp_all add: good_file_def Let_def)
  from sparseFileMeta_ok [OF this(1)] obtain fm where
    fm: "sparseFileMeta (e_hdr e) = Inr fm" "f_Chunks fm = []" by blast
  let ?st = "st\<lparr>ps_files := fmupd (h_Name (e_hdr e)) (fm\<lparr>f_Size := h_Size (e_hdr e)\<rparr>) (ps_files st)\<rparr>"
  have "(fileEntry ev opts cs e)\<lparr>f_Chunks := []\<rparr> = fm\<lparr>f_Size := h_Size (e_hdr e)\<rparr>"
    using fm by (cases fm) (simp add: fileEntry_def Let_def)
  with pushFile_ok [OF n ctx gf cs B [OF True] w, of ?st] True fm sz wait show ?thesis
    by (auto simp: pushEntry_def entryState_def Let_def is_file_def is_json_def addGroup_def)
next
  case False
  with g w wait show ?thesis
    by (auto simp: pushEntry_def entryState_def Let_def is_file_def is_json_def good_entry_def
        is_ok_def gains_refl split: sum.splits)
qed

lemma readLoop_ok:
  assumes n: "o_Name opts = n" and ctx: "ev_ctx ev = None" and cs: "cs \<le> 2 ^ 32"
    and g: "list_all (good_entry opts cs) es"
    and B: "\<forall>e \<in> set es. is_file e \<longrightarrow> set (fileBlobs ev opts cs e) \<subseteq> B"
    and w: "I r" and wait: "ps_wait st = None"
  shows "\<exists>r'. readLoop ev up opts cs es EOF st r = (None, fold (entryState ev opts cs) es st, r') \<and>
    (\<forall>e \<in> set es. is_file e \<longrightarrow> (\<forall>b \<in> set (fileBlobs ev opts cs e). has r' b)) \<and>
    gains r r' \<and> ps_wait (fold (entryState ev opts cs) es st) = None"
  using g B w wait
proof (induction es arbitrary: st r)
  case Nil
  with ctx show ?case by (simp add: readLoop.simps gains_refl)
next
  case (Cons e es)
  from pushEntry_ok [OF n ctx _ cs _ Cons.prems(3,4), of e] Cons.prems obtain r1 where
    1: "pushEntry ev up opts cs e st r = (None, entryState ev opts cs e st, r1)"
      "is_file e \<longrightarrow> (\<forall>b \<in> set (fileBlobs ev opts cs e). has r1 b)"
      "gains r r1" "ps_wait (entryState ev opts cs e st) = None"
    by auto
  from Cons.IH [of r1 "entryState ev opts cs e st"] Cons.prems 1 gains_within obtain r2 where
    2: "readLoop ev up opts cs es EOF (entryState ev opts cs e st) r1 =
        (None, fold (entryState ev opts cs) (e # es) st, r2)"
      "\<forall>e \<in> set es. is_file e \<longrightarrow> (\<forall>b \<in> set (fileBlobs ev opts cs e). has r2 b)"
      "gains r1 r2" "ps_wait (fold (entryState ev opts cs) (e # es) st) = None"
    by auto
  from 1(2) 2(3) have "is_file e \<longrightarrow> (\<forall>b \<in> set (fileBlobs ev opts cs e). has r2 b)"
    by (auto simp: gains_def)
  moreover have "readLoop ev up opts cs (e # es) EOF st r = (None, fold (entryState ev opts cs) (e # es) st, r2)"
    using 1(1) 2(1) Cons.prems(4) ctx by (subst readLoop.simps) simp
  moreover have "gains r r2" using 1(3) 2(3) by (rule gains_trans)
  ultimately show ?case using 2 by auto
qed

end

section \<open>The state after the loop\<close>

definition files_of :: "tar_entry list \<Rightarrow> tar_entry list" where
  "files_of es = filter is_file es"

definition distinct_names :: "tar_entry list \<Rightarrow> bool" where
  "distinct_names es = distinct (map (\<lambda>e. h_Name (e_hdr e)) (files_of es))"

definition filesMap :: "env \<Rightarrow> PushOptions \<Rightarrow> int \<Rightarrow> tar_entry list \<Rightarrow> (string, SnapshotFile) fmap" where
  "filesMap ev opts cs es = fmap_of_list (map (\<lambda>e. (h_Name (e_hdr e), fileEntry ev opts cs e)) (files_of es))"

definition streamEncoded :: "PushOptions \<Rightarrow> int \<Rightarrow> tar_entry list \<Rightarrow> bool" where
  "streamEncoded opts cs es =
     list_ex (\<lambda>e. isChunked opts cs (e_hdr e) \<or> isCompressed opts (e_hdr e)) (files_of es)"

definition streamLayers :: "env \<Rightarrow> PushOptions \<Rightarrow> int \<Rightarrow> tar_entry list \<Rightarrow> Descriptor list" where
  "streamLayers ev opts cs es = concat (map (fileDescs ev opts cs) (files_of es))"

lemma chunkDescs_digest [simp]:
  "map d_Digest (chunkDescs mt title count i bs) = map digestOf bs"
  by (induction bs arbitrary: i) (simp_all add: chunkDesc_def titled_def digestOf_def Let_def)

lemma chunkDescs_length [simp]: "length (chunkDescs mt title count i bs) = length bs"
  by (induction bs arbitrary: i) simp_all

lemma fileDescs_digest: "map d_Digest (fileDescs ev opts cs e) = map digestOf (fileBlobs ev opts cs e)"
  by (simp add: fileDescs_def Let_def titled_def digestOf_def)

lemma fileDescs_length: "length (fileDescs ev opts cs e) = length (fileBlobs ev opts cs e)"
  by (simp add: fileDescs_def Let_def)

lemma fold_groups:
  "ps_groups (fold (entryState ev opts cs) es st) =
     ps_groups st @ map (\<lambda>e. \<lparr>g_name = h_Name (e_hdr e), g_descs = fileDescs ev opts cs e\<rparr>) (files_of es)"
  by (induction es arbitrary: st)
    (auto simp: files_of_def entryState_def is_file_def Let_def addGroup_def)

lemma fold_encoded:
  "ps_encoded (fold (entryState ev opts cs) es st) \<longleftrightarrow> ps_encoded st \<or> streamEncoded opts cs es"
  by (induction es arbitrary: st)
    (auto simp: streamEncoded_def files_of_def entryState_def is_file_def Let_def addGroup_def)

lemma fold_files:
  assumes "distinct_names es"
  shows "fmlookup (ps_files (fold (entryState ev opts cs) es st)) n =
    (case map_of (map (\<lambda>e. (h_Name (e_hdr e), (fileEntry ev opts cs e)\<lparr>f_Chunks := []\<rparr>)) (files_of es)) n of
       None \<Rightarrow> fmlookup (ps_files st) n
     | Some f \<Rightarrow> Some f)"
  using assms
proof (induction es arbitrary: st)
  case (Cons e es)
  then have d: "distinct_names es" by (auto simp: distinct_names_def files_of_def split: if_splits)
  note ih = Cons.IH [OF d, of "entryState ev opts cs e st"]
  show ?case
  proof (cases "is_file e")
    case False
    then have "ps_files (entryState ev opts cs e st) = ps_files st"
      by (auto simp: entryState_def is_file_def Let_def)
    with False ih show ?thesis by (simp add: files_of_def split: option.split)
  next
    case True
    then have st: "ps_files (entryState ev opts cs e st) =
        fmupd (h_Name (e_hdr e)) ((fileEntry ev opts cs e)\<lparr>f_Chunks := []\<rparr>) (ps_files st)"
      by (auto simp: entryState_def is_file_def Let_def addGroup_def)
    have "map_of (map (\<lambda>e. (h_Name (e_hdr e), (fileEntry ev opts cs e)\<lparr>f_Chunks := []\<rparr>)) (files_of es)) (h_Name (e_hdr e)) = None"
      using Cons.prems True by (auto simp: distinct_names_def files_of_def map_of_eq_None_iff)
    with True ih st show ?thesis by (auto simp: files_of_def split: option.splits)
  qed
qed (simp add: files_of_def)

lemma fold_addChunks:
  assumes "distinct (map (\<lambda>e. h_Name (e_hdr e)) fs)"
    and "\<And>e. e \<in> set fs \<Longrightarrow> fmlookup m (h_Name (e_hdr e)) = Some ((fileEntry ev opts cs e)\<lparr>f_Chunks := []\<rparr>)"
  shows "fmlookup (fold addChunks (map (\<lambda>e. \<lparr>g_name = h_Name (e_hdr e), g_descs = fileDescs ev opts cs e\<rparr>) fs) m) n =
    (case map_of (map (\<lambda>e. (h_Name (e_hdr e), fileEntry ev opts cs e)) fs) n of
       None \<Rightarrow> fmlookup m n
     | Some f \<Rightarrow> Some f)"
  using assms
proof (induction fs arbitrary: m)
  case (Cons e fs)
  let ?m = "addChunks \<lparr>g_name = h_Name (e_hdr e), g_descs = fileDescs ev opts cs e\<rparr> m"
  have me: "fmlookup m (h_Name (e_hdr e)) = Some ((fileEntry ev opts cs e)\<lparr>f_Chunks := []\<rparr>)"
    using Cons.prems(2) by simp
  have upd: "fmlookup ?m k = (if k = h_Name (e_hdr e) then Some (fileEntry ev opts cs e) else fmlookup m k)" for k
    using me by (auto simp: addChunks_def Let_def fileDescs_length fileDescs_digest fileEntry_def)
  have "fmlookup ?m (h_Name (e_hdr x)) = Some ((fileEntry ev opts cs x)\<lparr>f_Chunks := []\<rparr>)" if "x \<in> set fs" for x
    using that Cons.prems upd by (auto simp: image_iff)
  with Cons.IH [of ?m] Cons.prems(1)
  have ih: "fmlookup (fold addChunks (map (\<lambda>e. \<lparr>g_name = h_Name (e_hdr e), g_descs = fileDescs ev opts cs e\<rparr>) fs) ?m) n =
    (case map_of (map (\<lambda>e. (h_Name (e_hdr e), fileEntry ev opts cs e)) fs) n of
       None \<Rightarrow> fmlookup ?m n | Some f \<Rightarrow> Some f)" by simp
  have "map_of (map (\<lambda>e. (h_Name (e_hdr e), fileEntry ev opts cs e)) fs) (h_Name (e_hdr e)) = None"
    using Cons.prems(1) by (auto simp: map_of_eq_None_iff)
  with ih upd show ?case by (auto split: option.splits)
qed simp

lemma finish_files:
  assumes "distinct_names es"
  shows "ue_files (finishEntries (fold (entryState ev opts cs) es initState)) = filesMap ev opts cs es"
proof (rule fmap_ext)
  fix n
  let ?st = "fold (entryState ev opts cs) es initState"
  have d: "distinct (map (\<lambda>e. h_Name (e_hdr e)) (files_of es))" using assms by (simp add: distinct_names_def)
  have "fmlookup (ps_files ?st) (h_Name (e_hdr e)) = Some ((fileEntry ev opts cs e)\<lparr>f_Chunks := []\<rparr>)"
    if "e \<in> set (files_of es)" for e
  proof -
    have "map_of (map (\<lambda>e. (h_Name (e_hdr e), (fileEntry ev opts cs e)\<lparr>f_Chunks := []\<rparr>)) (files_of es)) (h_Name (e_hdr e)) =
        Some ((fileEntry ev opts cs e)\<lparr>f_Chunks := []\<rparr>)"
      using that d by (intro map_of_is_SomeI) (auto simp: comp_def)
    then show ?thesis by (simp add: fold_files [OF assms])
  qed
  from fold_addChunks [OF d this] have "fmlookup (ue_files (finishEntries ?st)) n =
      (case map_of (map (\<lambda>e. (h_Name (e_hdr e), fileEntry ev opts cs e)) (files_of es)) n of
         None \<Rightarrow> fmlookup (ps_files ?st) n | Some f \<Rightarrow> Some f)"
    by (simp add: finishEntries_def fold_groups initState_def)
  moreover have "fmlookup (ps_files ?st) n = None"
    if "map_of (map (\<lambda>e. (h_Name (e_hdr e), fileEntry ev opts cs e)) (files_of es)) n = None"
  proof -
    have "map_of (map (\<lambda>e. (h_Name (e_hdr e), (fileEntry ev opts cs e)\<lparr>f_Chunks := []\<rparr>)) (files_of es)) n = None"
      using that by (force simp: map_of_eq_None_iff)
    then show ?thesis by (simp add: fold_files [OF assms] initState_def)
  qed
  ultimately show "fmlookup (ue_files (finishEntries ?st)) n = fmlookup (filesMap ev opts cs es) n"
    by (auto simp: filesMap_def fmlookup_of_list split: option.splits)
qed

lemma finish_layers:
  "ue_layers (finishEntries (fold (entryState ev opts cs) es initState)) = streamLayers ev opts cs es"
  by (simp add: finishEntries_def fold_groups initState_def streamLayers_def comp_def)

lemma finish_encoded:
  "ue_encoded (finishEntries (fold (entryState ev opts cs) es initState)) = streamEncoded opts cs es"
  by (simp add: finishEntries_def fold_encoded initState_def)

text \<open>The config is that of the one \<^verbatim>\<open>snapshot.json\<close>.\<close>

lemma fold_cfg_same:
  "filter is_json es = [] \<Longrightarrow> ps_cfg (fold (entryState ev opts cs) es st) = ps_cfg st"
  by (induction es arbitrary: st) (auto simp: entryState_def Let_def addGroup_def split: if_splits)

lemma finish_cfg:
  assumes "filter is_json es = [j]" and "decodeExportEnvelope (rd_content (e_body j)) = Inr cfg"
  shows "ue_cfg (finishEntries (fold (entryState ev opts cs) es st)) = Some cfg"
proof -
  have "ps_cfg (fold (entryState ev opts cs) es st) = Some cfg"
    using assms(1)
  proof (induction es arbitrary: st)
    case (Cons e es)
    show ?case
    proof (cases "is_json e")
      case True
      with Cons.prems have ej: "e = j" "filter is_json es = []" by simp_all
      moreover have "ps_cfg (entryState ev opts cs j st) = Some cfg"
        using ej(1) True assms(2) by (simp add: entryState_def Let_def)
      ultimately show ?thesis by (simp add: fold_cfg_same)
    next
      case False
      with Cons show ?thesis by simp
    qed
  qed simp
  then show ?thesis by (simp add: finishEntries_def)
qed

section \<open>The whole push\<close>

definition pushedConfig ::
  "env \<Rightarrow> PushOptions \<Rightarrow> int \<Rightarrow> tar_entry list \<Rightarrow> snapshotExportConfig \<Rightarrow> SnapshotConfig" where
  "pushedConfig ev opts cs es cfg =
     configBlob ev cfg (filesMap ev opts cs es) (fst (snapshotVersionMarkers (streamEncoded opts cs es)))"

definition configData :: "SnapshotConfig \<Rightarrow> bytes" where
  "configData c = json_marshal (enc_config c)"

definition configDesc :: "SnapshotConfig \<Rightarrow> Descriptor" where
  "configDesc c =
     \<lparr>d_MediaType = MediaTypeSnapshotConfig, d_Digest = digestOf (configData c),
      d_Size = int (length (configData c)), d_Annotations = fmempty, d_ArtifactType = []\<rparr>"

definition pushedManifest ::
  "env \<Rightarrow> PushOptions \<Rightarrow> int \<Rightarrow> tar_entry list \<Rightarrow> snapshotExportConfig \<Rightarrow> OCIManifest" where
  "pushedManifest ev opts cs es cfg =
     snapshotManifest ev (configDesc (pushedConfig ev opts cs es cfg)) (streamLayers ev opts cs es) opts
       (snd (snapshotVersionMarkers (streamEncoded opts cs es)))"

text \<open>Every blob a push uploads.\<close>

definition pushedBlobs ::
  "env \<Rightarrow> PushOptions \<Rightarrow> int \<Rightarrow> tar_entry list \<Rightarrow> snapshotExportConfig \<Rightarrow> bytes list" where
  "pushedBlobs ev opts cs es cfg =
     concat (map (fileBlobs ev opts cs) (files_of es)) @ [configData (pushedConfig ev opts cs es cfg)]"

text \<open>The tag is not used before the manifest is put.\<close>

lemma tag_irrelevant [simp]:
  "pipelineParams (opts\<lparr>o_Tag := t\<rparr>) = pipelineParams opts"
  "isCompressed (opts\<lparr>o_Tag := t\<rparr>) = isCompressed opts"
  "isChunked (opts\<lparr>o_Tag := t\<rparr>) = isChunked opts"
  "good_entry (opts\<lparr>o_Tag := t\<rparr>) = good_entry opts"
  "fileBlobs ev (opts\<lparr>o_Tag := t\<rparr>) = fileBlobs ev opts"
  "fileMT (opts\<lparr>o_Tag := t\<rparr>) = fileMT opts"
  "fileDescs ev (opts\<lparr>o_Tag := t\<rparr>) = fileDescs ev opts"
  "fileEntry ev (opts\<lparr>o_Tag := t\<rparr>) = fileEntry ev opts"
  "filesMap ev (opts\<lparr>o_Tag := t\<rparr>) = filesMap ev opts"
  "streamEncoded (opts\<lparr>o_Tag := t\<rparr>) = streamEncoded opts"
  "streamLayers ev (opts\<lparr>o_Tag := t\<rparr>) = streamLayers ev opts"
  "manifestAnnotations ev (opts\<lparr>o_Tag := t\<rparr>) = manifestAnnotations ev opts"
proof -
  show "pipelineParams (opts\<lparr>o_Tag := t\<rparr>) = pipelineParams opts"
    by (cases opts) (simp only: pipelineParams_def PushOptions.select_convs PushOptions.update_convs)
  show c: "isCompressed (opts\<lparr>o_Tag := t\<rparr>) = isCompressed opts" by (simp add: isCompressed_def fun_eq_iff)
  then show k: "isChunked (opts\<lparr>o_Tag := t\<rparr>) = isChunked opts" by (simp add: isChunked_def fun_eq_iff)
  then show "good_entry (opts\<lparr>o_Tag := t\<rparr>) = good_entry opts" by (simp add: good_entry_def good_file_def fun_eq_iff)
  show b: "fileBlobs ev (opts\<lparr>o_Tag := t\<rparr>) = fileBlobs ev opts" using c k by (simp add: fileBlobs_def fun_eq_iff Let_def)
  show m: "fileMT (opts\<lparr>o_Tag := t\<rparr>) = fileMT opts" using c by (simp add: fileMT_def fun_eq_iff)
  show d: "fileDescs ev (opts\<lparr>o_Tag := t\<rparr>) = fileDescs ev opts" using b m k by (simp add: fileDescs_def fun_eq_iff Let_def)
  show e: "fileEntry ev (opts\<lparr>o_Tag := t\<rparr>) = fileEntry ev opts" using b by (simp add: fileEntry_def fun_eq_iff Let_def)
  show "filesMap ev (opts\<lparr>o_Tag := t\<rparr>) = filesMap ev opts" using e by (simp add: filesMap_def fun_eq_iff)
  show "streamEncoded (opts\<lparr>o_Tag := t\<rparr>) = streamEncoded opts" using c k by (simp add: streamEncoded_def fun_eq_iff)
  show "streamLayers ev (opts\<lparr>o_Tag := t\<rparr>) = streamLayers ev opts" by (rule ext)+ (simp only: streamLayers_def d)
  show "manifestAnnotations ev (opts\<lparr>o_Tag := t\<rparr>) = manifestAnnotations ev opts"
    by (simp add: manifestAnnotations_def Let_def)
qed

text \<open>A stream that can be pushed: it ends cleanly, has one \<^verbatim>\<open>snapshot.json\<close> and files of distinct names.\<close>

definition good_stream :: "PushOptions \<Rightarrow> int \<Rightarrow> tar_stream \<Rightarrow> snapshotExportConfig \<Rightarrow> bool" where
  "good_stream opts cs s cfg =
     (ts_end s = EOF \<and> list_all (good_entry opts cs) (ts_entries s) \<and> distinct_names (ts_entries s) \<and>
      map (\<lambda>j. decodeExportEnvelope (rd_content (e_body j))) (filter is_json (ts_entries s)) = [Inr cfg])"

context accepting
begin

lemma readAndUploadEntries_ok:
  assumes n: "o_Name opts = n" and ctx: "ev_ctx ev = None" and pp: "pipelineParams opts = Inr (workers, cs)"
    and cs: "cs \<le> 2 ^ 32" and g: "good_stream opts cs s cfg"
    and B: "set (pushedBlobs ev opts cs (ts_entries s) cfg) \<subseteq> B" and w: "I r"
  shows "\<exists>r'. readAndUploadEntries ev up opts s r =
      (Inr \<lparr>ue_cfg = Some cfg, ue_files = filesMap ev opts cs (ts_entries s),
            ue_layers = streamLayers ev opts cs (ts_entries s), ue_encoded = streamEncoded opts cs (ts_entries s)\<rparr>, r') \<and>
    (\<forall>e \<in> set (files_of (ts_entries s)). \<forall>b \<in> set (fileBlobs ev opts cs e). has r' b) \<and>
    gains r r'"
proof -
  let ?es = "ts_entries s"
  from g have gs: "ts_end s = EOF" "list_all (good_entry opts cs) ?es" "distinct_names ?es"
      "map (\<lambda>j. decodeExportEnvelope (rd_content (e_body j))) (filter is_json ?es) = [Inr cfg]"
    by (simp_all add: good_stream_def)
  from gs(4) obtain j where j: "filter is_json ?es = [j]" "decodeExportEnvelope (rd_content (e_body j)) = Inr cfg"
    by auto
  have "\<forall>e \<in> set ?es. is_file e \<longrightarrow> set (fileBlobs ev opts cs e) \<subseteq> B"
    using B by (auto simp: pushedBlobs_def files_of_def)
  from readLoop_ok [OF n ctx cs gs(2) this w, of initState] obtain r' where
    l: "readLoop ev up opts cs ?es EOF initState r = (None, fold (entryState ev opts cs) ?es initState, r')"
      "\<forall>e \<in> set ?es. is_file e \<longrightarrow> (\<forall>b \<in> set (fileBlobs ev opts cs e). has r' b)"
      "gains r r'" "ps_wait (fold (entryState ev opts cs) ?es initState) = None"
    by (auto simp: initState_def)
  have "finishEntries (fold (entryState ev opts cs) ?es initState) =
      \<lparr>ue_cfg = Some cfg, ue_files = filesMap ev opts cs ?es,
       ue_layers = streamLayers ev opts cs ?es, ue_encoded = streamEncoded opts cs ?es\<rparr>"
    using finish_cfg [OF j] finish_files [OF gs(3)] finish_layers finish_encoded by simp
  with l pp gs(1) ctx show ?thesis
    by (auto simp: readAndUploadEntries_def mergeErrors_def files_of_def)
qed

end

context blob_store
begin

lemma accepts: "repo_ok n \<Longrightarrow> accepting up n B (\<lambda>r. within B n r \<and> manif r = M) (\<lambda>r. holds r n)"
  using putBlobIfMissing_ok [of n _ B] by unfold_locales (fastforce simp: grows_def)

lemma readAndUploadEntries_ok:
  assumes n: "repo_ok (o_Name opts)" and ctx: "ev_ctx ev = None" and pp: "pipelineParams opts = Inr (workers, cs)"
    and cs: "cs \<le> 2 ^ 32" and g: "good_stream opts cs s cfg"
    and B: "set (pushedBlobs ev opts cs (ts_entries s) cfg) \<subseteq> B" and w: "within B (o_Name opts) r"
  shows "\<exists>r'. readAndUploadEntries ev up opts s r =
      (Inr \<lparr>ue_cfg = Some cfg, ue_files = filesMap ev opts cs (ts_entries s),
            ue_layers = streamLayers ev opts cs (ts_entries s), ue_encoded = streamEncoded opts cs (ts_entries s)\<rparr>, r') \<and>
    (\<forall>e \<in> set (files_of (ts_entries s)). \<forall>b \<in> set (fileBlobs ev opts cs e). holds r' (o_Name opts) b) \<and>
    grows B (o_Name opts) r r'"
proof -
  note acc = accepts [OF n, where M = "manif r"]
  from accepting.readAndUploadEntries_ok [OF acc refl ctx pp cs g B conjI [OF w refl]] show ?thesis
    unfolding accepting.gains_def [OF acc] grows_def by blast
qed

text \<open>The end of a push whose files are in the registry.\<close>

lemma finishPush_ok:
  assumes n: "repo_ok (o_Name opts)" and t: "tag_ok (or_str (o_Tag opts) ''latest'')"
    and o: "opts' = opts\<lparr>o_Tag := or_str (o_Tag opts) ''latest''\<rparr>"
    and ue: "ue = \<lparr>ue_cfg = Some cfg, ue_files = filesMap ev opts cs es, ue_layers = streamLayers ev opts cs es,
      ue_encoded = streamEncoded opts cs es\<rparr>"
    and B: "set (pushedBlobs ev opts cs es cfg) \<subseteq> B" and w: "within B (o_Name opts) r"
    and files: "\<forall>e \<in> set (files_of es). \<forall>b \<in> set (fileBlobs ev opts cs e). holds r (o_Name opts) b"
  shows "\<exists>r'. finishPush ev up opts' None (Inr ue) r = (None, r') \<and>
    manif r' (o_Name opts) (or_str (o_Tag opts) ''latest'') =
      Some (json_marshal_indent (enc_manifest (pushedManifest ev opts cs es cfg))) \<and>
    (\<forall>b \<in> set (pushedBlobs ev opts cs es cfg). holds r' (o_Name opts) b) \<and> within B (o_Name opts) r'"
proof -
  let ?n = "o_Name opts" and ?t = "or_str (o_Tag opts) ''latest''" and ?c = "pushedConfig ev opts cs es cfg"
  have "configData ?c \<in> B" using B by (simp add: pushedBlobs_def)
  from putBlobIfMissing_ok [OF n this w] obtain r2 where
    2: "putBlobIfMissing up ?n (''sha256:'' @ SHA256Hex (configData ?c)) (configData ?c) (int (length (configData ?c))) r = (None, r2)"
      "holds r2 ?n (configData ?c)" "grows B ?n r r2"
    by blast
  from 2(1) have u: "uploadSnapshotConfig ev up ?n cfg (filesMap ev opts cs es)
      (fst (snapshotVersionMarkers (streamEncoded opts cs es))) r = (Inr (configDesc ?c), r2)"
    by (simp add: uploadSnapshotConfig_def configDesc_def configData_def pushedConfig_def Let_def digestOf_def)
  from put_manifest [OF n t] obtain r3 where
    3: "up_PutManifest up ?n ?t (json_marshal_indent (enc_manifest (pushedManifest ev opts cs es cfg)))
        MediaTypeOCIManifest r2 = (None, r3)"
      "manif r3 ?n = (manif r2 ?n)(?t \<mapsto> json_marshal_indent (enc_manifest (pushedManifest ev opts cs es cfg)))"
      "blobs r3 = blobs r2"
    by blast
  have "buildSnapshotManifest ev (configDesc ?c) (streamLayers ev opts cs es) opts'
      (snd (snapshotVersionMarkers (streamEncoded opts cs es))) =
      json_marshal_indent (enc_manifest (pushedManifest ev opts cs es cfg))"
    by (simp add: buildSnapshotManifest_def pushedManifest_def snapshotManifest_def o)
  moreover obtain sv at where "snapshotVersionMarkers (streamEncoded opts cs es) = (sv, at)" by fastforce
  ultimately have "finishPush ev up opts' None (Inr ue) r = (None, r3)"
    using u 3(1) by (simp add: finishPush_def ue o)
  moreover have "holds r3 ?n b" if "b \<in> set (pushedBlobs ev opts cs es cfg)" for b
    using that files 2(2,3) 3(3) by (auto simp: pushedBlobs_def holds_def grows_def)
  moreover have "within B ?n r3" using grows_within [OF 2(3)] 3(3) by (simp add: within_def)
  ultimately show ?thesis using 3(2) by auto
qed

end

text \<open>The tag is filled in before the stream is read.\<close>

lemma good_stream_tag [simp]: "good_stream (opts\<lparr>o_Tag := t\<rparr>) cs s cfg = good_stream opts cs s cfg"
  by (simp add: good_stream_def)

lemma pushedBlobs_tag [simp]: "pushedBlobs ev (opts\<lparr>o_Tag := t\<rparr>) cs es cfg = pushedBlobs ev opts cs es cfg"
  by (simp add: pushedBlobs_def pushedConfig_def)

end
