(* ===== verification/Pull_Spec.thy ===== *)
theory Pull_Spec
  imports Push_Spec
begin

text \<open>
  What a pull does when the blobs it needs are there: the chunk stream keeps the reader contract, a
  buffered fetch returns the chunk, and an encoded file is written back byte for byte, through the
  prefetch window or sequentially.
\<close>

declare chunkStreamRead.simps [simp del]

section \<open>Blobs that are there\<close>

definition blob_at :: "(string \<Rightarrow> reader res) \<Rightarrow> Descriptor \<Rightarrow> bytes" where
  "blob_at get d = (case get (d_Digest d) of Inl _ \<Rightarrow> [] | Inr body \<Rightarrow> rd_content body)"

definition desc_ok :: "(string \<Rightarrow> reader res) \<Rightarrow> Descriptor \<Rightarrow> bool" where
  "desc_ok get d =
     (case get (d_Digest d) of
        Inl _ \<Rightarrow> False
      | Inr body \<Rightarrow> rd_end body = EOF \<and> rd_progress body \<and> d_Size d = int (length (rd_content body)))"

lemma desc_okD:
  assumes "desc_ok get d"
  obtains body where "get (d_Digest d) = Inr body" "rd_progress body" "rd_content body = blob_at get d"
    "blob_complete body (d_Size d)" "d_Size d = int (length (blob_at get d))"
  using assms by (auto simp: desc_ok_def blob_at_def blob_complete_def split: sum.splits)

section \<open>The chunk stream\<close>

definition openChecker :: "(string \<Rightarrow> reader res) \<Rightarrow> Descriptor \<Rightarrow> BlobSizeChecker" where
  "openChecker get d =
     (case get (d_Digest d) of
        Inl _ \<Rightarrow> NewBlobSizeChecker (rd_of_bytes []) [] 0
      | Inr body \<Rightarrow> NewBlobSizeChecker body (d_Digest d) (d_Size d))"

definition cs_ok :: "(string \<Rightarrow> reader res) \<Rightarrow> chunkStream \<Rightarrow> bool" where
  "cs_ok get s =
     (list_all (desc_ok get) (drop (cs_i s) (cs_descs s)) \<and>
      (case cs_cur s of
         None \<Rightarrow> True
       | Some v \<Rightarrow> rd_progress (b_body v) \<and> checker_final v = EOF \<and> cs_i s < length (cs_descs s)))"

definition cs_rest :: "(string \<Rightarrow> reader res) \<Rightarrow> chunkStream \<Rightarrow> bytes" where
  "cs_rest get s =
     (case cs_cur s of
        None \<Rightarrow> concat (map (blob_at get) (drop (cs_i s) (cs_descs s)))
      | Some v \<Rightarrow> checker_rest v @ concat (map (blob_at get) (drop (Suc (cs_i s)) (cs_descs s))))"

definition cs_work :: "(string \<Rightarrow> reader res) \<Rightarrow> chunkStream \<Rightarrow> nat" where
  "cs_work get s =
     (let w = (\<lambda>ds. sum_list (map (\<lambda>d. 2 + checker_work (openChecker get d)) ds)) in
      case cs_cur s of
        None \<Rightarrow> w (drop (cs_i s) (cs_descs s))
      | Some v \<Rightarrow> Suc (checker_work v) + w (drop (Suc (cs_i s)) (cs_descs s)))"

lemma checker_read_cases:
  assumes "rd_progress (b_body v)" and "checker_final v = EOF" and "0 < n" and "checker_read n v = (d, err, v')"
  shows "length d \<le> n" and "rd_progress (b_body v')"
    and "err = None \<Longrightarrow> checker_rest v = d @ checker_rest v' \<and> checker_final v' = EOF \<and> checker_work v' < checker_work v"
    and "err \<noteq> None \<Longrightarrow> err = Some EOF \<and> checker_rest v = d"
  using checker_read_cont [OF assms(1,3), of d v'] checker_read_end [OF assms(1,3), of d _ v'] assms(2,4)
  by (cases err; auto)+

lemma openChecker_ok:
  assumes "desc_ok get d"
  shows "rd_progress (b_body (openChecker get d))" and "checker_final (openChecker get d) = EOF"
    and "checker_rest (openChecker get d) = blob_at get d"
    and "get (d_Digest d) = Inr body \<Longrightarrow> NewBlobSizeChecker body (d_Digest d) (d_Size d) = openChecker get d"
proof -
  from assms obtain body where b: "get (d_Digest d) = Inr body" "rd_progress body" "rd_content body = blob_at get d"
    "blob_complete body (d_Size d)" by (rule desc_okD)
  then show "rd_progress (b_body (openChecker get d))" "checker_final (openChecker get d) = EOF"
    "checker_rest (openChecker get d) = blob_at get d"
    by (simp_all add: openChecker_def checker_final_New checker_rest_complete) (simp add: NewBlobSizeChecker_def)
qed (simp add: openChecker_def)

text \<open>The part of a read after the checker's read: pass on, or go to the next chunk.\<close>

definition afterRead ::
  "(string \<Rightarrow> reader res) \<Rightarrow> nat \<Rightarrow> chunkStream \<Rightarrow> bytes \<times> goerr option \<times> BlobSizeChecker \<Rightarrow>
     bytes \<times> goerr option \<times> chunkStream" where
  "afterRead get n s x =
     (case x of (d, err, v) \<Rightarrow>
        if (case err of None \<Rightarrow> False | Some e \<Rightarrow> errors_is e EOF) then
          (if d \<noteq> [] then (d, None, s\<lparr>cs_cur := None, cs_i := Suc (cs_i s)\<rparr>)
           else chunkStreamRead get n (s\<lparr>cs_cur := None, cs_i := Suc (cs_i s)\<rparr>))
        else (d, err, s\<lparr>cs_cur := Some v\<rparr>))"

lemma chunkStreamRead_open:
  assumes "cs_cur s = None" and "cs_i s < length (cs_descs s)" and "desc_ok get (cs_descs s ! cs_i s)"
  shows "chunkStreamRead get n s = afterRead get n s (checker_read n (openChecker get (cs_descs s ! cs_i s)))"
proof -
  from assms(3) obtain body where b: "get (d_Digest (cs_descs s ! cs_i s)) = Inr body" by (rule desc_okD)
  show ?thesis
    using assms b openChecker_ok(4) [OF assms(3) b]
    by (subst chunkStreamRead.simps) (simp add: Let_def afterRead_def split: prod.splits)
qed

lemma chunkStreamRead_cur:
  "cs_cur s = Some v \<Longrightarrow> chunkStreamRead get n s = afterRead get n s (checker_read n v)"
  by (subst chunkStreamRead.simps) (simp add: afterRead_def split: prod.splits)

definition read_result ::
  "(string \<Rightarrow> reader res) \<Rightarrow> nat \<Rightarrow> chunkStream \<Rightarrow> bytes \<times> goerr option \<times> chunkStream \<Rightarrow> bool" where
  "read_result get n s x =
     (case x of (d, e, s') \<Rightarrow>
        length d \<le> n \<and> cs_ok get s' \<and> cs_rest get s = d @ cs_rest get s' \<and>
        (case e of None \<Rightarrow> cs_work get s' < cs_work get s | Some er \<Rightarrow> er = EOF \<and> cs_rest get s' = []))"

text \<open>One step, given that reads from the next chunk on are right.\<close>

lemma afterRead_ok:
  assumes n: "0 < n" and v: "rd_progress (b_body v)" "checker_final v = EOF" "cs_i s < length (cs_descs s)"
    and ok: "list_all (desc_ok get) (drop (Suc (cs_i s)) (cs_descs s))"
    and rest: "cs_rest get s = checker_rest v @ concat (map (blob_at get) (drop (Suc (cs_i s)) (cs_descs s)))"
    and work: "cs_work get (s\<lparr>cs_cur := Some v\<rparr>) \<le> cs_work get s"
    and d0: "desc_ok get (cs_descs s ! cs_i s)"
    and ih: "\<And>t. t = s\<lparr>cs_cur := None, cs_i := Suc (cs_i s)\<rparr> \<Longrightarrow> cs_ok get t \<Longrightarrow>
      read_result get n t (chunkStreamRead get n t)"
  shows "read_result get n s (afterRead get n s (checker_read n v))"
proof -
  obtain d err v' where r: "checker_read n v = (d, err, v')" by (metis prod_cases3)
  note c = checker_read_cases [OF v(1,2) n r]
  let ?t = "s\<lparr>cs_cur := None, cs_i := Suc (cs_i s)\<rparr>"
  have t_ok: "cs_ok get ?t" using ok by (simp add: cs_ok_def)
  have t_rest: "cs_rest get ?t = concat (map (blob_at get) (drop (Suc (cs_i s)) (cs_descs s)))"
    by (simp add: cs_rest_def)
  have t_work: "cs_work get ?t < cs_work get s" using work by (simp add: cs_work_def Let_def)
  show ?thesis
  proof (cases err)
    case None
    have l: "list_all (desc_ok get) (drop (cs_i s) (cs_descs s))"
      using ok d0 v(3) by (simp add: Cons_nth_drop_Suc [symmetric])
    from c(3) [OF None] have "cs_work get (s\<lparr>cs_cur := Some v'\<rparr>) < cs_work get (s\<lparr>cs_cur := Some v\<rparr>)"
      by (simp add: cs_work_def Let_def)
    with None c r rest work v(3) l show ?thesis
      by (simp add: read_result_def afterRead_def cs_ok_def cs_rest_def)
  next
    case (Some e)
    with c(4) have e: "e = EOF" "checker_rest v = d" by simp_all
    show ?thesis
    proof (cases "d = []")
      case False
      with Some e r c(1) rest t_ok t_rest t_work show ?thesis
        by (simp add: read_result_def afterRead_def)
    next
      case True
      with e rest t_rest have "cs_rest get s = cs_rest get ?t" by simp
      moreover have "afterRead get n s (checker_read n v) = chunkStreamRead get n ?t"
        using Some e r True by (simp add: afterRead_def)
      moreover obtain d2 e2 s2 where x: "chunkStreamRead get n ?t = (d2, e2, s2)" by (metis prod_cases3)
      ultimately show ?thesis
        using ih [OF refl t_ok] t_work unfolding read_result_def x by (cases e2) simp_all
    qed
  qed
qed

lemma chunkStreamRead_ok:
  assumes "0 < n" and "cs_ok get s"
  shows "read_result get n s (chunkStreamRead get n s)"
  using assms(2)
proof (induction "length (cs_descs s) - cs_i s" arbitrary: s rule: less_induct)
  case less
  show ?case
  proof (cases "cs_cur s")
    case (Some v)
    with less.prems have v: "rd_progress (b_body v)" "checker_final v = EOF" "cs_i s < length (cs_descs s)"
        "list_all (desc_ok get) (drop (cs_i s) (cs_descs s))"
      by (simp_all add: cs_ok_def)
    from v(3,4) have d: "desc_ok get (cs_descs s ! cs_i s)" "list_all (desc_ok get) (drop (Suc (cs_i s)) (cs_descs s))"
      by (simp_all add: Cons_nth_drop_Suc [symmetric])
    have "read_result get n s (afterRead get n s (checker_read n v))"
      by (rule afterRead_ok [OF assms(1) v(1-3) d(2) _ _ d(1)])
        (use Some v(3) less.hyps in \<open>auto simp: cs_rest_def cs_work_def\<close>)
    with chunkStreamRead_cur [OF Some, of get n] show ?thesis by simp
  next
    case None
    show ?thesis
    proof (cases "cs_i s < length (cs_descs s)")
      case False
      with None less.prems show ?thesis
        by (subst chunkStreamRead.simps) (simp add: read_result_def cs_rest_def)
    next
      case True
      with less.prems have d: "desc_ok get (cs_descs s ! cs_i s)" "list_all (desc_ok get) (drop (Suc (cs_i s)) (cs_descs s))"
        by (simp_all add: cs_ok_def Cons_nth_drop_Suc [symmetric])
      note o = openChecker_ok(1-3) [OF d(1)]
      have "read_result get n s (afterRead get n s (checker_read n (openChecker get (cs_descs s ! cs_i s))))"
        by (rule afterRead_ok [OF assms(1) o(1,2) True d(2) _ _ d(1)])
          (use None True o(3) less.hyps in \<open>auto simp: cs_rest_def cs_work_def Let_def Cons_nth_drop_Suc [symmetric]\<close>)
      with chunkStreamRead_open [OF None True d(1), of n] show ?thesis by simp
    qed
  qed
qed

lemma chunkStream_reader:
  "io_reader (chunkStreamRead get) (cs_ok get) (cs_rest get) (\<lambda>_. EOF) (cs_work get)"
proof unfold_locales
  fix s s' :: chunkStream and n d
  assume "cs_ok get s" "0 < n" "chunkStreamRead get n s = (d, None, s')"
  with chunkStreamRead_ok [of n get s] show "length d \<le> n \<and> cs_ok get s' \<and> cs_rest get s = d @ cs_rest get s' \<and>
      EOF = EOF \<and> cs_work get s' < cs_work get s"
    by (simp add: read_result_def)
next
  fix s s' :: chunkStream and n d e
  assume "cs_ok get s" "0 < n" "chunkStreamRead get n s = (d, Some e, s')"
  with chunkStreamRead_ok [of n get s] show "length d \<le> n \<and> cs_ok get s' \<and> cs_rest get s = d \<and>
      cs_rest get s' = [] \<and> e = EOF"
    by (auto simp: read_result_def)
qed

section \<open>Fetching a chunk into a buffer\<close>

lemma chunkRead_ok:
  assumes "desc_ok (\<lambda>g. dl_GetBlob dl name g r) d" and "d_Size d \<le> cap"
  shows "chunkRead dl name d cap r = Inr (blob_at (\<lambda>g. dl_GetBlob dl name g r) d)"
proof -
  let ?get = "\<lambda>g. dl_GetBlob dl name g r"
  let ?v = "openChecker ?get d"
  from assms(1) obtain body where b: "dl_GetBlob dl name (d_Digest d) r = Inr body"
      "d_Size d = int (length (blob_at ?get d))"
    by (auto elim: desc_okD)
  note o = openChecker_ok [OF assms(1)]
  have v: "NewBlobSizeChecker body (d_Digest d) (d_Size d) = ?v" using o(4) b(1) by simp
  from checker.ReadFull_enough [of ?v "nat (d_Size d)"] o(1-3) b(2) obtain v' where
    rf: "io_ReadFull checker_read (nat (d_Size d)) ?v = Some (blob_at ?get d, None, v')"
      "rd_progress (b_body v')" "checker_rest v' = []" "checker_final v' = EOF"
    by auto
  have c: "io_copy checker_read (\<lambda>v. rd_progress (b_body v)) checker_rest checker_final checker_work
      buf_write (\<lambda>_. True) (\<lambda>w. w) (\<lambda>_ _. True)"
    using checker.io_reader_axioms buf.io_writer_axioms by (rule io_copy.intro)
  from io_copy.Copy_fits [OF c rf(2), of "[]"] rf(3,4) obtain s' w' where
    "io_Copy checker_read buf_write v' [] = Some (0, None, s', w')" by auto
  with b assms(2) v rf(1) show ?thesis by (simp add: chunkRead_def)
qed

section \<open>Writing the body of a file\<close>

lemma tw_Write_fit:
  assumes "tw_in pre h tw" and "tw_fits k tw" and "length d \<le> k"
  shows "\<exists>tw'. tw_Write d tw = (length d, None, tw') \<and> tw_in pre h tw' \<and> tw_body tw' = tw_body tw @ d \<and>
    tw_fits (k - length d) tw'"
proof (cases "d = []")
  case True
  with assms show ?thesis by (auto simp: tw_Write_def tw_fits_def)
next
  case False
  from tw.write_fits [OF assms(1,2) False assms(3)] obtain tw' where
    "tw_Write d tw = (length d, None, tw')" "tw_fits (k - length d) tw'" by blast
  with tw_Write_full [OF assms(1)] show ?thesis by blast
qed

lemma writeChunks_ok:
  assumes "list_all2 (\<lambda>d x. fetch d = Inr x) ds xs" and "tw_in pre h tw" and "tw_fits (length (concat xs)) tw"
  shows "\<exists>tw'. writeChunks fetch tw_Write ds written tw = (written + int (length (concat xs)), None, tw') \<and>
    tw_in pre h tw' \<and> tw_body tw' = tw_body tw @ concat xs \<and> tw_fits 0 tw'"
  using assms
proof (induction arbitrary: written tw rule: list_all2_induct)
  case Nil
  then show ?case by simp
next
  case (Cons d ds x xs)
  from tw_Write_fit [OF Cons.prems, of x] obtain tw1 where
    1: "tw_Write x tw = (length x, None, tw1)" "tw_in pre h tw1" "tw_body tw1 = tw_body tw @ x"
      "tw_fits (length (concat xs)) tw1"
    by auto
  from Cons.IH [OF 1(2,4), of "written + int (length x)"] 1 Cons.hyps show ?case by auto
qed

text \<open>A copy from any reader that keeps the contract and ends cleanly.\<close>

lemma copy_to_tar:
  assumes "io_reader rd rinv rest (\<lambda>_. EOF) work" and "rinv s" and "tw_in pre h tw" and "tw_fits (length (rest s)) tw"
  shows "\<exists>s' tw'. io_Copy rd tw_Write s tw = Some (int (length (rest s)), None, s', tw') \<and>
    tw_in pre h tw' \<and> tw_body tw' = tw_body tw @ rest s \<and> tw_fits 0 tw'"
proof -
  have c: "io_copy rd rinv rest (\<lambda>_. EOF) work tw_Write (tw_in pre h) tw_body tw_fits"
    using assms(1) tw.io_writer_axioms by (rule io_copy.intro)
  from io_copy.Copy_fits [OF c assms(2-4)] show ?thesis by auto
qed

lemma rd_reader_EOF: "io_reader rd_read (\<lambda>r. rd_end r = EOF) rd_content (\<lambda>_. EOF) rd_work"
proof unfold_locales
  fix s s' :: reader and n d
  assume "rd_end s = EOF" "0 < n" "rd_read n s = (d, None, s')"
  with rd.read_more [of n s d s'] show "length d \<le> n \<and> rd_end s' = EOF \<and> rd_content s = d @ rd_content s' \<and>
      EOF = EOF \<and> rd_work s' < rd_work s" by simp
next
  fix s s' :: reader and n d e
  assume "rd_end s = EOF" "0 < n" "rd_read n s = (d, Some e, s')"
  with rd.read_end [of n s d e s'] rd_read_cases(3) [of n s d "Some e" s']
  show "length d \<le> n \<and> rd_end s' = EOF \<and> rd_content s = d \<and> rd_content s' = [] \<and> e = EOF" by simp
qed

text \<open>What the zstd library promises: decoding undoes encoding, and frames can be concatenated.\<close>

definition zstd_laws :: "zstd_lib \<Rightarrow> bool" where
  "zstd_laws z =
     ((\<forall>level cap x. int (length x) \<le> cap \<longrightarrow> z_DecodeAll z cap (z_EncodeAll z level x) = Inr x) \<and>
      (\<forall>level xs. z_DecodeStream z (concat (map (z_EncodeAll z level) xs)) EOF = (concat xs, EOF)) \<and>
      (\<forall>level x. z_DecodeStream z (z_EncodeStream z level x) EOF = (x, EOF)))"

text \<open>
  An encoded file with the chunks \<open>ds\<close> of stored blobs \<open>bs\<close> that decode to the pieces \<open>xs\<close>:
  one by one into a buffer of the pipeline's size, and as a stream.
\<close>

definition file_there ::
  "env \<Rightarrow> (string \<Rightarrow> reader res) \<Rightarrow> chunkPipeline \<Rightarrow> layerPlan \<Rightarrow> bytes list \<Rightarrow> bool" where
  "file_there ev get p e xs =
     (list_all (desc_ok get) (lp_descs e) \<and>
      (if lp_zstd e then
         z_DecodeStream (ev_zstd ev) (concat (map (blob_at get) (lp_descs e))) EOF = (concat xs, EOF)
       else map (blob_at get) (lp_descs e) = xs) \<and>
      (2 \<le> fileWindow p e \<longrightarrow>
         list_all2 (\<lambda>d x. if lp_zstd e
            then d_Size d \<le> cp_inputCap p \<and> z_DecodeAll (ev_zstd ev) (cp_outputCap p) (blob_at get d) = Inr x
            else d_Size d \<le> cp_outputCap p) (lp_descs e) xs))"

lemma streamBody_ok:
  assumes f: "file_there ev (\<lambda>g. dl_GetBlob dl name g r) p e xs" and t: "tw_in pre h tw"
    and fit: "tw_fits (length (concat xs)) tw"
  shows "\<exists>tw'. streamBody ev dl name p e r tw = Some (int (length (concat xs)), None, tw') \<and>
    tw_in pre h tw' \<and> tw_body tw' = tw_body tw @ concat xs \<and> tw_fits 0 tw'"
proof -
  let ?get = "\<lambda>g. dl_GetBlob dl name g r"
  let ?cs = "\<lparr>cs_descs = lp_descs e, cs_i = 0, cs_cur = None\<rparr>"
  have ok: "list_all (desc_ok ?get) (lp_descs e)" using f by (simp add: file_there_def)
  have cs: "cs_ok ?get ?cs" "cs_rest ?get ?cs = concat (map (blob_at ?get) (lp_descs e))"
    using ok by (simp_all add: cs_ok_def cs_rest_def)
  show ?thesis
  proof (cases "2 \<le> fileWindow p e")
    case True
    have fe: "list_all2 (\<lambda>d x. chunkFetch ev dl name p (lp_zstd e) d r = Inr x) (lp_descs e) xs"
    proof (cases "lp_zstd e")
      case z: True
      with f True have "list_all2 (\<lambda>d x. d_Size d \<le> cp_inputCap p \<and>
          z_DecodeAll (ev_zstd ev) (cp_outputCap p) (blob_at ?get d) = Inr x) (lp_descs e) xs"
        by (simp add: file_there_def)
      then show ?thesis
        using z ok chunkRead_ok [of dl name r]
        by (auto simp: chunkFetch_def list_all2_conv_all_nth list_all_length)
    next
      case z: False
      with f True have "list_all (\<lambda>d. d_Size d \<le> cp_outputCap p) (lp_descs e)" "map (blob_at ?get) (lp_descs e) = xs"
        by (auto simp: file_there_def list_all2_conv_all_nth list_all_length)
      then show ?thesis
        using z ok chunkRead_ok [of dl name r]
        by (auto simp: chunkFetch_def list_all2_conv_all_nth list_all_length)
    qed
    from writeChunks_ok [OF this t fit, of 0] True show ?thesis by (simp add: streamBody_def Let_def)
  next
    case False
    show ?thesis
    proof (cases "lp_zstd e")
      case z: True
      have c: "io_copy (chunkStreamRead ?get) (cs_ok ?get) (cs_rest ?get) (\<lambda>_. EOF) (cs_work ?get)
          buf_write (\<lambda>_. True) (\<lambda>w. w) (\<lambda>_ _. True)"
        using chunkStream_reader buf.io_writer_axioms by (rule io_copy.intro)
      from io_copy.Copy_fits [OF c cs(1), of "[]"] cs(2) obtain s' n' where
        "io_Copy (chunkStreamRead ?get) buf_write ?cs [] = Some (n', None, s', concat (map (blob_at ?get) (lp_descs e)))"
        by auto
      with f z have d: "decodedBody ev ?get ?cs = Some (rd_of_bytes (concat xs)\<lparr>rd_end := EOF\<rparr>)"
        by (simp add: decodedBody_def file_there_def)
      let ?b = "rd_of_bytes (concat xs)\<lparr>rd_end := EOF\<rparr>"
      have b: "rd_end ?b = EOF" "rd_content ?b = concat xs" by (simp_all add: rd_content_def rd_of_bytes_def)
      from copy_to_tar [OF rd_reader_EOF b(1) t] fit b(2) d z False show ?thesis
        by (auto simp: streamBody_def Let_def)
    next
      case z: False
      with f have "cs_rest ?get ?cs = concat xs" using cs(2) by (simp add: file_there_def)
      with copy_to_tar [OF chunkStream_reader cs(1) t] fit z False show ?thesis
        by (auto simp: streamBody_def Let_def)
    qed
  qed
qed

section \<open>The layers of a pushed file\<close>

definition encodedFile :: "PushOptions \<Rightarrow> int \<Rightarrow> tar_entry \<Rightarrow> bool" where
  "encodedFile opts cs e = (isChunked opts cs (e_hdr e) \<or> isCompressed opts (e_hdr e))"

lemma Title_titled [simp]: "Title (titled mt t b) = t"
  by (simp add: Title_def titled_def)

lemma Title_chunkDesc [simp]: "Title (chunkDesc mt t count i b) = t"
  by (simp add: chunkDesc_def Let_def Title_def titled_def media_consts)

lemma chunkDesc_fields [simp]:
  "d_MediaType (chunkDesc mt t count i b) = mt"
  "d_Digest (chunkDesc mt t count i b) = digestOf b"
  "d_Size (chunkDesc mt t count i b) = int (length b)"
  by (simp_all add: chunkDesc_def Let_def titled_def digestOf_def)

lemma titled_fields [simp]:
  "d_MediaType (titled mt t b) = mt"
  "d_Digest (titled mt t b) = digestOf b"
  "d_Size (titled mt t b) = int (length b)"
  by (simp_all add: titled_def digestOf_def)

lemma chunkDescs_mem:
  "d \<in> set (chunkDescs mt t count i bs) \<Longrightarrow>
     d_MediaType d = mt \<and> Title d = t \<and> (\<exists>b \<in> set bs. d_Digest d = digestOf b \<and> d_Size d = int (length b))"
  by (induction bs arbitrary: i) auto

lemma fileDescs_mem:
  assumes "d \<in> set (fileDescs ev opts cs e)"
  shows "d_MediaType d = fileMT opts (e_hdr e)" and "Title d = h_Name (e_hdr e)"
    and "\<exists>b \<in> set (fileBlobs ev opts cs e). d_Digest d = digestOf b \<and> d_Size d = int (length b)"
  using assms by (auto simp: fileDescs_def Let_def dest: chunkDescs_mem split: if_splits)

lemma fileMT_zstd: "IsZstdMediaType (fileMT opts hdr) = isCompressed opts hdr"
  by (simp add: fileMT_def)

lemma fileBlobs_many:
  assumes g: "good_file opts cs e" and c: "isChunked opts cs (e_hdr e)" and "\<not> isCompressed opts (e_hdr e)"
  shows "2 \<le> length (fileBlobs ev opts cs e)"
proof -
  have cs: "0 < cs" "cs < h_Size (e_hdr e)" using c assms(3) by (auto simp: isChunked_def)
  let ?c = "nat cs" and ?d = "rd_content (e_body e)"
  have "?c < length ?d" using cs g by (auto simp: good_file_def Let_def)
  then have "2 * ?c \<le> length ?d + ?c - 1" by simp
  then have "2 * ?c div ?c \<le> (length ?d + ?c - 1) div ?c" by (rule div_le_mono)
  then have "2 \<le> (length ?d + ?c - 1) div ?c" using cs(1) by simp
  then show ?thesis using c cs(1) by (simp add: fileBlobs_def Let_def pieces_length)
qed

lemma fileBlobs_nonempty:
  assumes g: "good_file opts cs e"
  shows "fileBlobs ev opts cs e \<noteq> []"
proof (cases "isChunked opts cs (e_hdr e)")
  case True
  then have "0 < cs" "0 < h_Size (e_hdr e)"
    by (auto simp: isChunked_def isCompressed_def compressMinBytes_def)
  then have "rd_content (e_body e) \<noteq> []" using g by (auto simp: good_file_def Let_def)
  with True \<open>0 < cs\<close> show ?thesis
    by (simp add: fileBlobs_def Let_def) (subst pieces.simps, simp)
qed (simp add: fileBlobs_def Let_def)

lemma fileEntry_fields [simp]:
  "f_Size (fileEntry ev opts cs e) = h_Size (e_hdr e)"
  "f_Chunks (fileEntry ev opts cs e) =
     (if length (fileBlobs ev opts cs e) < 2 then [] else map digestOf (fileBlobs ev opts cs e))"
  by (simp_all add: fileEntry_def Let_def)

text \<open>How the plan treats the file.\<close>

lemma plan_raw_iff:
  assumes "good_file opts cs e" and "d \<in> set (fileDescs ev opts cs e)"
  shows "f_Chunks (fileEntry ev opts cs e) = [] \<and> \<not> IsZstdMediaType (d_MediaType d) \<longleftrightarrow> \<not> encodedFile opts cs e"
proof (cases "isCompressed opts (e_hdr e)")
  case True
  then show ?thesis using fileDescs_mem(1) [OF assms(2)] by (simp add: fileMT_zstd encodedFile_def)
next
  case False
  show ?thesis
  proof (cases "isChunked opts cs (e_hdr e)")
    case True
    with fileBlobs_many [OF assms(1) True False, of ev] show ?thesis by (auto simp: encodedFile_def)
  next
    case nc: False
    with False fileDescs_mem(1) [OF assms(2)] show ?thesis
      by (simp add: fileMT_zstd encodedFile_def fileBlobs_def Let_def)
  qed
qed

section \<open>Planning\<close>

definition plan_for :: "env \<Rightarrow> PushOptions \<Rightarrow> int \<Rightarrow> tar_entry \<Rightarrow> layerPlan \<Rightarrow> bool" where
  "plan_for ev opts cs e pl =
     (lp_title pl = h_Name (e_hdr e) \<and> lp_meta pl = fileEntry ev opts cs e \<and>
      lp_layer pl = hd (fileDescs ev opts cs e) \<and>
      (if encodedFile opts cs e then
         lp_chunks pl \<noteq> None \<and> map d_Digest (lp_descs pl) = map digestOf (fileBlobs ev opts cs e) \<and>
         map d_Size (lp_descs pl) = map (\<lambda>b. int (length b)) (fileBlobs ev opts cs e)
       else lp_chunks pl = None))"

definition resolves :: "(string, Descriptor) fmap \<Rightarrow> bytes \<Rightarrow> bool" where
  "resolves m b =
     (case fmlookup m (digestOf b) of
        None \<Rightarrow> False
      | Some d \<Rightarrow> d_Digest d = digestOf b \<and> d_Size d = int (length b))"

lemma resolveChunks_ok:
  "list_all (resolves m) bs \<Longrightarrow> \<exists>ds. resolveChunks t i (map digestOf bs) m = Inr ds \<and>
     map d_Digest ds = map digestOf bs \<and> map d_Size ds = map (\<lambda>b. int (length b)) bs"
proof (induction bs arbitrary: i)
  case (Cons b bs)
  then obtain d where d: "fmlookup m (digestOf b) = Some d" "d_Digest d = digestOf b" "d_Size d = int (length b)"
    by (auto simp: resolves_def split: option.splits)
  from Cons.IH [of "i + 1"] Cons.prems obtain ds where
    "resolveChunks t (i + 1) (map digestOf bs) m = Inr ds" "map d_Digest ds = map digestOf bs"
    "map d_Size ds = map (\<lambda>b. int (length b)) bs" by auto
  with d show ?case by simp
qed simp

lemma planLoop_skip:
  assumes "\<And>d. d \<in> set ls1 \<Longrightarrow> Title d = t \<and> \<not> (f_Chunks (fileMeta cfg t) = [] \<and> \<not> IsZstdMediaType (d_MediaType d))"
    and "t \<in> set emitted"
  shows "planLoop cfg m (ls1 @ ls2) emitted = planLoop cfg m ls2 emitted"
  using assms by (induction ls1) (auto simp: Let_def)

lemma planLoop_ok:
  assumes "\<And>e. e \<in> set fs \<Longrightarrow> good_file opts cs e \<and> fileMeta cfg (h_Name (e_hdr e)) = fileEntry ev opts cs e \<and>
      list_all (resolves m) (fileBlobs ev opts cs e) \<and> h_Name (e_hdr e) \<notin> set emitted"
    and "distinct (map (\<lambda>e. h_Name (e_hdr e)) fs)"
  shows "\<exists>pls. planLoop cfg m (concat (map (fileDescs ev opts cs) fs)) emitted = Inr pls \<and>
    list_all2 (plan_for ev opts cs) fs pls"
  using assms
proof (induction fs arbitrary: emitted)
  case (Cons e fs)
  let ?n = "h_Name (e_hdr e)"
  have e: "good_file opts cs e" "fileMeta cfg ?n = fileEntry ev opts cs e"
      "list_all (resolves m) (fileBlobs ev opts cs e)" "?n \<notin> set emitted"
    using Cons.prems(1) [of e] by simp_all
  obtain l ls where ls: "fileDescs ev opts cs e = l # ls"
    using fileBlobs_nonempty [OF e(1), of ev] fileDescs_length [of ev opts cs e]
    by (cases "fileDescs ev opts cs e") auto
  have l: "Title l = ?n" "d_MediaType l = fileMT opts (e_hdr e)" using fileDescs_mem [of l ev opts cs e] ls by simp_all
  show ?case
  proof (cases "encodedFile opts cs e")
    case False
    then have "length (fileBlobs ev opts cs e) = 1" by (simp add: encodedFile_def fileBlobs_def Let_def)
    then have "ls = []" using fileDescs_length [of ev opts cs e] ls by simp
    moreover from Cons obtain pls where "planLoop cfg m (concat (map (fileDescs ev opts cs) fs)) emitted = Inr pls"
        "list_all2 (plan_for ev opts cs) fs pls" by fastforce
    moreover have "f_Chunks (fileMeta cfg (Title l)) = [] \<and> \<not> IsZstdMediaType (d_MediaType l)"
      using plan_raw_iff [OF e(1), of l ev] False ls l(1) e(2) by simp
    moreover have "plan_for ev opts cs e \<lparr>lp_title = ?n, lp_meta = fileEntry ev opts cs e, lp_layer = l, lp_chunks = None\<rparr>"
      using False ls by (simp add: plan_for_def)
    ultimately show ?thesis
      using ls l e(2) by (simp add: Let_def)
  next
    case True
    have nr: "\<not> (f_Chunks (fileMeta cfg (Title d)) = [] \<and> \<not> IsZstdMediaType (d_MediaType d))" and td: "Title d = ?n"
      if "d \<in> set (l # ls)" for d
      using plan_raw_iff [OF e(1), of d ev] True ls that e(2) fileDescs_mem(2) [of d ev opts cs e] by auto
    have emitted': "h_Name (e_hdr x) \<notin> set (?n # emitted)" if "x \<in> set fs" for x
      using that Cons.prems by (auto simp: image_iff)
    from Cons.IH [of "?n # emitted"] Cons.prems emitted' obtain pls where
      pls: "planLoop cfg m (concat (map (fileDescs ev opts cs) fs)) (?n # emitted) = Inr pls"
        "list_all2 (plan_for ev opts cs) fs pls" by fastforce
    have sz: "0 < h_Size (e_hdr e)"
      using True by (auto simp: encodedFile_def isChunked_def isCompressed_def compressMinBytes_def)
    obtain ds where ds: "resolveEncodedFile l (fileEntry ev opts cs e) m = Inr ds"
        "map d_Digest ds = map digestOf (fileBlobs ev opts cs e)"
        "map d_Size ds = map (\<lambda>b. int (length b)) (fileBlobs ev opts cs e)"
    proof (cases "length (fileBlobs ev opts cs e) < 2")
      case True
      then obtain b where b: "fileBlobs ev opts cs e = [b]"
        using fileBlobs_nonempty [OF e(1), of ev] by (cases "fileBlobs ev opts cs e") (auto simp: Suc_le_eq)
      with ls fileDescs_mem(3) [of l ev opts cs e] have "d_Digest l = digestOf b" "d_Size l = int (length b)" by auto
      with b sz True show ?thesis by (intro that [of "[l]"]) (simp_all add: resolveEncodedFile_def)
    next
      case False
      then have "f_Chunks (fileEntry ev opts cs e) = map digestOf (fileBlobs ev opts cs e)"
          "map digestOf (fileBlobs ev opts cs e) \<noteq> []"
        by auto
      with resolveChunks_ok [OF e(3), of "Title l" 0] sz that show ?thesis
        by (auto simp: resolveEncodedFile_def simp del: fileEntry_fields(2))
    qed
    have skip: "planLoop cfg m (ls @ concat (map (fileDescs ev opts cs) fs)) (?n # emitted) =
        planLoop cfg m (concat (map (fileDescs ev opts cs) fs)) (?n # emitted)"
      by (rule planLoop_skip [where t = ?n]) (use nr td in auto)
    have "planLoop cfg m (concat (map (fileDescs ev opts cs) (e # fs))) emitted =
        Inr (\<lparr>lp_title = ?n, lp_meta = fileEntry ev opts cs e, lp_layer = l, lp_chunks = Some ds\<rparr> # pls)"
      using nr [of l] l(1) e(2,4) ds(1) skip pls(1) ls by (auto simp: Let_def simp del: fileEntry_fields)
    moreover have "plan_for ev opts cs e \<lparr>lp_title = ?n, lp_meta = fileEntry ev opts cs e, lp_layer = l, lp_chunks = Some ds\<rparr>"
      using ds True ls by (simp add: plan_for_def lp_descs_def)
    ultimately show ?thesis using pls(2) by simp
  qed
qed simp

text \<open>The map by digest finds, for every blob, a layer of its digest and size.\<close>

lemma layersByDigest_mem:
  assumes "l \<in> set ls"
  shows "\<exists>d \<in> set ls. fmlookup (layersByDigest ls) (d_Digest l) = Some d \<and> d_Digest d = d_Digest l"
proof -
  have "(fmlookup (fold (\<lambda>l m. fmupd (d_Digest l) l m) ls m) g =
      (case find (\<lambda>d. d_Digest d = g) (rev ls) of None \<Rightarrow> fmlookup m g | Some d \<Rightarrow> Some d))" for m g
    by (induction ls rule: rev_induct) auto
  then have *: "fmlookup (layersByDigest ls) (d_Digest l) = find (\<lambda>d. d_Digest d = d_Digest l) (rev ls)"
    by (simp add: layersByDigest_def split: option.split)
  from assms have "find (\<lambda>d. d_Digest d = d_Digest l) (rev ls) \<noteq> None"
    by (auto simp: find_None_iff)
  then obtain d where d: "find (\<lambda>d. d_Digest d = d_Digest l) (rev ls) = Some d" by blast
  then have "d_Digest d = d_Digest l" "d \<in> set ls"
    by (auto simp: find_Some_iff) (metis in_set_conv_nth length_rev set_rev)
  with * d show ?thesis by auto
qed

lemma layers_resolve:
  assumes inj: "inj_on digestOf B" and B: "\<And>e. e \<in> set fs \<Longrightarrow> set (fileBlobs ev opts cs e) \<subseteq> B"
    and b: "e \<in> set fs" "b \<in> set (fileBlobs ev opts cs e)"
  shows "resolves (layersByDigest (concat (map (fileDescs ev opts cs) fs))) b"
proof -
  let ?ls = "concat (map (fileDescs ev opts cs) fs)"
  have "digestOf b \<in> set (map d_Digest (fileDescs ev opts cs e))"
    using b(2) by (simp add: fileDescs_digest)
  then obtain l where l: "l \<in> set (fileDescs ev opts cs e)" "d_Digest l = digestOf b" by auto
  then have "l \<in> set ?ls" using b(1) by auto
  from layersByDigest_mem [OF this] obtain d where
    d: "d \<in> set ?ls" "fmlookup (layersByDigest ?ls) (digestOf b) = Some d" "d_Digest d = digestOf b"
    using l(2) by auto
  then obtain e' where e': "e' \<in> set fs" "d \<in> set (fileDescs ev opts cs e')" by auto
  from fileDescs_mem(3) [OF e'(2)] obtain b' where
    b': "b' \<in> set (fileBlobs ev opts cs e')" "d_Digest d = digestOf b'" "d_Size d = int (length b')" by blast
  have "b' = b"
    using inj_onD [OF inj, of b' b] b' d(3) B [OF e'(1)] B [OF b(1)] b(2) by auto
  with b' d show ?thesis by (simp add: resolves_def)
qed

section \<open>Buffer capacities\<close>

lemma bufferCaps_bound:
  assumes "d \<in> set (lp_descs e)"
  shows "lp_zstd e \<Longrightarrow> d_Size d \<le> fst (bufferCaps e)" and "\<not> lp_zstd e \<Longrightarrow> d_Size d \<le> snd (bufferCaps e)"
proof -
  have mono: "m \<le> fold (\<lambda>d m. max m (d_Size d)) ds m" for m and ds :: "Descriptor list"
  proof (induction ds arbitrary: m)
    case (Cons x ds)
    from Cons [of "max m (d_Size x)"] show ?case by simp
  qed simp
  have "d \<in> set ds \<Longrightarrow> d_Size d \<le> fold (\<lambda>d m. max m (d_Size d)) ds m" for m ds
  proof (induction ds arbitrary: m)
    case (Cons x ds)
    with mono [of "max m (d_Size x)" ds] show ?case by auto
  qed simp
  with assms show "lp_zstd e \<Longrightarrow> d_Size d \<le> fst (bufferCaps e)" and "\<not> lp_zstd e \<Longrightarrow> d_Size d \<le> snd (bufferCaps e)"
    by (simp_all add: bufferCaps_def Let_def)
qed

lemma pipelineCaps_bound:
  assumes "e \<in> set es" and "lp_encoded e" and "2 \<le> length (lp_descs e)"
  shows "fst (bufferCaps e) \<le> fst (pipelineCaps es)" and "snd (bufferCaps e) \<le> snd (pipelineCaps es)"
proof -
  define f where "f = (\<lambda>e (i, out). if \<not> lp_encoded e \<or> length (lp_descs e) < 2 then (i, out)
    else (max i (fst (bufferCaps e)), max out (snd (bufferCaps e))))"
  have step: "fst c \<le> fst (f x c) \<and> snd c \<le> snd (f x c)" for x c
    by (cases c) (auto simp: f_def)
  have mono: "fst c \<le> fst (fold f es c) \<and> snd c \<le> snd (fold f es c)" for c es
  proof (induction es arbitrary: c)
    case (Cons x es)
    from Cons [of "f x c"] step [of c x] show ?case by auto
  qed simp
  have "e \<in> set es \<Longrightarrow> fst (bufferCaps e) \<le> fst (fold f es c) \<and> snd (bufferCaps e) \<le> snd (fold f es c)" for c
  proof (induction es arbitrary: c)
    case (Cons x es)
    show ?case
    proof (cases "x = e")
      case True
      have "fst (bufferCaps e) \<le> fst (f e c) \<and> snd (bufferCaps e) \<le> snd (f e c)"
        using assms(2,3) by (cases c) (simp add: f_def)
      with mono [of "f e c" es] True show ?thesis by auto
    next
      case False
      with Cons show ?thesis by simp
    qed
  qed simp
  with assms(1) show "fst (bufferCaps e) \<le> fst (pipelineCaps es)" and "snd (bufferCaps e) \<le> snd (pipelineCaps es)"
    by (simp_all add: pipelineCaps_def f_def)
qed

lemma newChunkPipeline_caps:
  "cp_inputCap (newChunkPipeline es k b) = fst (pipelineCaps es)"
  "cp_outputCap (newChunkPipeline es k b) = snd (pipelineCaps es)"
  by (auto simp: newChunkPipeline_def Let_def split: prod.splits)

text \<open>The stride covers every chunk: the chunks but the last have one length, and the last is not longer.\<close>

lemma rawChunkStride_covers:
  assumes "0 < c" and "b \<in> set (pieces c xs)" and "2 \<le> length (pieces c xs)" and "int (length xs) < 2 ^ 62"
  shows "int (length b) \<le> rawChunkStride (int (length xs)) (int (length (pieces c xs)))"
proof -
  let ?n = "length (pieces c xs)" and ?l = "length xs"
  have xs: "xs \<noteq> []" using assms(3) by (auto simp: pieces.simps)
  have "?n = (?l + c - 1) div c" using assms(1) by (rule pieces_length)
  then have "?n * c \<le> ?l + c - 1" by (simp add: times_div_less_eq_dividend mult.commute)
  then have "(?n - 1) * c \<le> ?l - 1" using assms(3) xs by (simp add: diff_mult_distrib)
  then have "int ((?n - 1) * c) \<le> int (?l - 1)" by (simp only: of_nat_le_iff)
  moreover have "1 \<le> ?n" "1 \<le> ?l" using assms(3) xs by (linarith, simp add: Suc_le_eq)
  ultimately have m: "(int ?n - 1) * int c \<le> int ?l - 1" by (simp add: of_nat_diff)
  have "int c \<le> (int ?l - 1) div (int ?n - 1)"
    using zdiv_mono1 [OF m, of "int ?n - 1"] assms(3) by simp
  moreover have "length b \<le> c" using assms(2) by (rule pieces_bound)
  moreover have "quot64 (int ?l - 1) (int ?n - 1) = (int ?l - 1) div (int ?n - 1)"
    using assms(3,4) xs by (intro quot64_pos) (auto simp: in_int64_def Suc_le_eq)
  ultimately show ?thesis using assms(3) xs by (simp add: rawChunkStride_def)
qed

end
