(* ===== verification/Pull_Safety.thy ===== *)
theory Pull_Safety
  imports Pull_Spec
begin

text \<open>
  What a pull guarantees whatever the registry serves: nothing is written before the manifest, the
  config, the layers and the plan have been accepted; a stream that reports success is a complete
  tar with the envelope and one entry for each planned file; no prefetched chunk is read past
  its buffer; and the prefetch buffers stay within the budget.
\<close>

section \<open>Complete tars\<close>

text \<open>All entries are complete, but for the one the writer is in.\<close>

definition tw_partial :: "string list \<Rightarrow> tar_writer \<Rightarrow> bool" where
  "tw_partial names tw =
     (\<exists>pre. complete_entries pre \<and>
        (tw_done pre tw \<and> map (h_Name \<circ> fst) pre = names \<or>
         (\<exists>h. tw_in pre h tw \<and> map (h_Name \<circ> fst) pre @ [h_Name h] = names)))"

lemma tw_partial_new [simp]: "tw_partial [] (newTarWriter f)"
  by (auto simp: tw_partial_def complete_entries_def intro!: exI [of _ "[]"])

lemma tw_partial_flushed:
  assumes "tw_partial names tw" and "tw_flush tw = None"
  shows "complete_entries (tw_entries tw) \<and> tw_done (tw_entries tw) tw \<and> map (h_Name \<circ> fst) (tw_entries tw) = names"
  using assms
  by (auto simp: tw_partial_def tw_flush_def tw_done_def tw_in_def complete_entries_def split: if_splits)

lemma tw_partial_WriteHeader:
  assumes "tw_partial names tw" and "tw_WriteHeader h tw = (None, tw')"
  shows "tw_partial (names @ [h_Name h]) tw'"
proof -
  have "tw_flush tw = None" using assms(2) by (auto simp: tw_WriteHeader_def split: option.splits)
  from tw_partial_flushed [OF assms(1) this] tw_WriteHeader_ok(1) [OF _ assms(2)] show ?thesis
    by (auto simp: tw_partial_def)
qed

lemma tw_partial_Write:
  assumes "tw_partial names tw" and "tw_Write d tw = (n, e, tw')"
  shows "tw_partial names tw'"
proof -
  from assms(1) consider pre where "complete_entries pre" "tw_done pre tw" "map (h_Name \<circ> fst) pre = names"
    | pre h where "complete_entries pre" "tw_in pre h tw" "map (h_Name \<circ> fst) pre @ [h_Name h] = names"
    by (auto simp: tw_partial_def)
  then show ?thesis
  proof cases
    case 1
    then have "tw_left tw = 0" by (simp add: tw_done_def)
    with assms(2) have "tw' = tw" by (auto simp: tw_Write_def Let_def split: if_splits)
    with assms(1) show ?thesis by simp
  next
    case 2
    with tw_Write_in [OF 2(2) assms(2)] show ?thesis by (auto simp: tw_partial_def)
  qed
qed

text \<open>A copy loop writes with the writer it was given, whatever the reader does.\<close>

lemma copy_loop_inv:
  assumes "copy_loop rd wr written s w = Some y" and "P w"
    and "\<And>d w n e w'. P w \<Longrightarrow> wr d w = (n, e, w') \<Longrightarrow> P w'"
  shows "P (snd (snd (snd y)))"
proof -
  have "(\<forall>d w n e w'. P w \<longrightarrow> wr d w = (n, e, w') \<longrightarrow> P w') \<longrightarrow> P w \<longrightarrow> P (snd (snd (snd y)))"
    using assms(1)
  proof (rule copy_loop.raw_induct [of "\<lambda>rd wr written s w y.
      (\<forall>d w n e w'. P w \<longrightarrow> wr d w = (n, e, w') \<longrightarrow> P w') \<longrightarrow> P w \<longrightarrow> P (snd (snd (snd y)))", rotated])
    fix loop :: "'a read_fn \<Rightarrow> 'b write_fn \<Rightarrow> int \<Rightarrow> 'a \<Rightarrow> 'b \<Rightarrow> (int \<times> goerr option \<times> 'a \<times> 'b) option"
      and rd :: "'a read_fn" and wr :: "'b write_fn" and written s w y
    assume ih: "\<And>rd wr written s w y. loop rd wr written s w = Some y \<Longrightarrow>
        (\<forall>d w n e w'. P w \<longrightarrow> wr d w = (n, e, w') \<longrightarrow> P w') \<longrightarrow> P w \<longrightarrow> P (snd (snd (snd y)))"
      and body: "(case rd 32768 s of (d, er, s') \<Rightarrow>
        (if d = [] then
           (case er of
              Some e \<Rightarrow> Some (written, if e = EOF then None else Some e, s', w)
            | None \<Rightarrow> loop rd wr written s' w)
         else
           (case wr d w of (nw, ew, w') \<Rightarrow>
              (case ew of
                 Some e \<Rightarrow> Some (written + int nw, Some e, s', w')
               | None \<Rightarrow>
                   if nw \<noteq> length d then Some (written + int nw, Some ShortWrite, s', w')
                   else
                     (case er of
                        Some e \<Rightarrow>
                          Some (written + int nw, if e = EOF then None else Some e, s', w')
                      | None \<Rightarrow> loop rd wr (written + int nw) s' w'))))) = Some y"
    show "(\<forall>d w n e w'. P w \<longrightarrow> wr d w = (n, e, w') \<longrightarrow> P w') \<longrightarrow> P w \<longrightarrow> P (snd (snd (snd y)))"
    proof (intro impI)
      assume st: "\<forall>d w n e w'. P w \<longrightarrow> wr d w = (n, e, w') \<longrightarrow> P w'" and w: "P w"
      obtain d er s' where r: "rd 32768 s = (d, er, s')" by (metis prod_cases3)
      obtain nw ew w' where wd: "wr d w = (nw, ew, w')" by (metis prod_cases3)
      have w': "P w'" using st w wd by blast
      show "P (snd (snd (snd y)))"
        using body r wd w w' ih [of rd wr written s' w y] ih [of rd wr "written + int nw" s' w' y] st
        by (auto split: if_splits option.splits)
    qed
  qed
  with assms(2,3) show ?thesis by blast
qed

lemma tw_partial_Copy:
  assumes "io_Copy rd tw_Write s tw = Some (n, e, s', tw')" and "tw_partial names tw"
  shows "tw_partial names tw'"
  using copy_loop_inv [OF assms(1) [unfolded io_Copy_def], of "tw_partial names"] assms(2) tw_partial_Write
  by auto

lemma tw_partial_CopyBlobSized:
  "CopyBlobSized tw_Write tw body g sz = Some (e, tw') \<Longrightarrow> tw_partial names tw \<Longrightarrow> tw_partial names tw'"
  by (auto simp: CopyBlobSized_def intro: tw_partial_Copy)

lemma tw_partial_writeChunks:
  "writeChunks fetch tw_Write ds written tw = (n, e, tw') \<Longrightarrow> tw_partial names tw \<Longrightarrow> tw_partial names tw'"
proof (induction ds arbitrary: written tw)
  case (Cons d ds)
  then show ?case
    by (auto split: sum.splits prod.splits option.splits if_splits dest: tw_partial_Write)
qed simp

lemma tw_partial_streamBody:
  "streamBody ev dl name p e r tw = Some (n, er, tw') \<Longrightarrow> tw_partial names tw \<Longrightarrow> tw_partial names tw'"
  by (auto simp: streamBody_def Let_def split: if_splits option.splits
      intro: tw_partial_writeChunks tw_partial_Copy)

lemma layerHeader_name: "layerHeader t sz fm now = Inr hdr \<Longrightarrow> h_Name hdr = t"
  by (auto simp: layerHeader_def Let_def split: if_splits)

lemma tw_partial_writeEntry:
  assumes "writeEntry ev dl name p e r tw = (None, tw')" and "tw_partial names tw" and "lp_title e = Title (lp_layer e)"
  shows "tw_partial (names @ [lp_title e]) tw'"
proof (cases "lp_encoded e")
  case True
  with assms(1) obtain hdr tw1 n where
    h: "layerHeader (lp_title e) (f_Size (lp_meta e)) (lp_meta e) (ev_nowJSON ev) = Inr hdr"
      "tw_WriteHeader hdr tw = (None, tw1)" "streamBody ev dl name p e r tw1 = Some (n, None, tw')"
    by (auto simp: writeEntry_def streamFile_def split: sum.splits prod.splits option.splits if_splits)
  from tw_partial_streamBody [OF h(3) tw_partial_WriteHeader [OF assms(2) h(2)]] layerHeader_name [OF h(1)]
  show ?thesis by simp
next
  case False
  with assms(1) obtain hdr tw1 body where
    h: "layerHeader (Title (lp_layer e)) (d_Size (lp_layer e)) (lp_meta e) (ev_nowJSON ev) = Inr hdr"
      "tw_WriteHeader hdr tw = (None, tw1)"
      "CopyBlobSized tw_Write tw1 body (d_Digest (lp_layer e)) (d_Size (lp_layer e)) = Some (None, tw')"
    by (auto simp: writeEntry_def streamLayerToTar_def split: sum.splits prod.splits option.splits if_splits)
  from tw_partial_CopyBlobSized [OF h(3) tw_partial_WriteHeader [OF assms(2) h(2)]] layerHeader_name [OF h(1)] assms(3)
  show ?thesis by simp
qed

lemma tw_partial_writeEntries:
  "writeEntries ev dl name p es r tw = (None, tw') \<Longrightarrow> tw_partial names tw \<Longrightarrow>
     (\<And>e. e \<in> set es \<Longrightarrow> lp_title e = Title (lp_layer e)) \<Longrightarrow> tw_partial (names @ map lp_title es) tw'"
proof (induction es arbitrary: tw names)
  case (Cons e es)
  from Cons.prems(1) obtain tw1 where 1: "writeEntry ev dl name p e r tw = (None, tw1)"
      "writeEntries ev dl name p es r tw1 = (None, tw')"
    by (auto split: prod.splits option.splits)
  from Cons.IH [OF 1(2) tw_partial_writeEntry [OF 1(1) Cons.prems(2)]] Cons.prems(3) show ?case by simp
qed simp

lemma planLoop_titles:
  "planLoop cfg byDigest ls emitted = Inr es \<Longrightarrow> e \<in> set es \<Longrightarrow> lp_title e = Title (lp_layer e)"
  by (induction ls arbitrary: emitted es)
    (auto simp: Let_def bindR_def split: if_splits sum.splits)

text \<open>
  Success of \<^verbatim>\<open>writeImportTar\<close>: the envelope and one complete entry for each planned file, in order.
\<close>

lemma writeImportTar_complete:
  assumes "writeImportTar ev dl opts cfg layers r (newTarWriter f) = (None, tw)"
  shows "\<exists>es. planLayers cfg layers = Inr es \<and> complete_entries (tw_entries tw) \<and>
    map (h_Name \<circ> fst) (tw_entries tw) = snapshotJSONName # map lp_title es"
proof -
  from assms obtain es data tw1 tw2 where
    e: "planLayers cfg layers = Inr es"
      "writeTarFile snapshotJSONName data 420 (ev_nowJSON ev) (newTarWriter f) = (None, tw1)"
      "writeEntries ev dl (so_Name opts) (newChunkPipeline es (prefetchOf opts) (budgetOf opts)) es r tw1 = (None, tw2)"
      "tw_Close tw2 = (None, tw)"
    by (auto simp: writeImportTar_def Let_def split: sum.splits prod.splits option.splits)
  from e(2) obtain tw0 n where w: "tw_WriteHeader (\<lparr>h_Name = snapshotJSONName, h_Size = int (length data), h_Mode = 420,
        h_Typeflag = TypeReg, h_PAXRecords = fmempty, h_ModTime = ev_nowJSON ev\<rparr>) (newTarWriter f) = (None, tw0)"
      "tw_Write data tw0 = (n, None, tw1)"
    by (auto simp: writeTarFile_def split: prod.splits option.splits)
  have "tw_partial [snapshotJSONName] tw1"
    using tw_partial_Write [OF tw_partial_WriteHeader [OF tw_partial_new w(1)] w(2)] by simp
  from tw_partial_writeEntries [OF e(3) this] planLoop_titles e(1)
  have "tw_partial (snapshotJSONName # map lp_title es) tw2" by (auto simp: planLayers_def)
  moreover from e(4) have "tw_flush tw2 = None" "tw_entries tw = tw_entries tw2"
    by (auto simp: tw_Close_def split: option.splits)
  ultimately show ?thesis using tw_partial_flushed e(1) by auto
qed

lemma Stream_complete:
  assumes "Stream ev raw dl opts r = (None, tw)"
  shows "\<exists>m cfg es. resolveManifest raw dl (so_Name opts) r = Inr m \<and>
    FetchSnapshotConfig dl (so_Name opts) (m_Config m) r = Inr cfg \<and> planLayers cfg (m_Layers m) = Inr es \<and>
    complete_entries (tw_entries tw) \<and>
    map (h_Name \<circ> fst) (tw_entries tw) = snapshotJSONName # map lp_title es"
proof -
  from assms obtain m cfg f where m: "resolveManifest raw dl (so_Name opts) r = Inr m"
      "FetchSnapshotConfig dl (so_Name opts) (m_Config m) r = Inr cfg"
      "writeImportTar ev dl opts cfg (m_Layers m) r (newTarWriter f) = (None, tw)"
    by (auto simp: Stream_def StreamParsed_def Let_def split: if_splits sum.splits option.splits)
  from writeImportTar_complete [OF m(3)] m(1,2) show ?thesis by auto
qed

section \<open>Nothing is written too early\<close>

lemma tw_WriteHeader_grows: "tw_entries (snd (tw_WriteHeader h tw)) \<noteq> [] \<Longrightarrow> tw_entries tw = [] \<Longrightarrow>
    header_ok h \<and> fst (tw_WriteHeader h tw) = None"
  by (auto simp: tw_WriteHeader_def split: option.splits if_splits)

lemma Stream_guarded:
  assumes "Stream ev raw dl opts r = (err, tw)" and "tw_entries tw \<noteq> []"
  shows "\<exists>m cfg es data. resolveManifest raw dl (so_Name opts) r = Inr m \<and> ClassifyParsed m = KindSnapshot \<and>
    FetchSnapshotConfig dl (so_Name opts) (m_Config m) r = Inr cfg \<and> validateSnapshotLayers m cfg = None \<and>
    planLayers cfg (m_Layers m) = Inr es \<and>
    MarshalEnvelope cfg (or_str (so_LocalName opts) (so_Name opts)) = Inr data"
proof -
  have new: "tw_entries (newTarWriter f) = []" for f by (simp add: newTarWriter_def)
  from assms show ?thesis
    by (auto simp: Stream_def StreamParsed_def writeImportTar_def Let_def new
        split: if_splits sum.splits option.splits prod.splits)
qed

section \<open>Prefetched chunks fit their buffers\<close>

lemma validateLayers_size:
  "validateLayers encoded ls = None \<Longrightarrow> l \<in> set ls \<Longrightarrow> 0 \<le> d_Size l"
  by (induction ls) (auto simp: validateLayer_def split: option.splits if_splits)

lemma layersByDigest_range: "fmlookup (layersByDigest ls) g = Some d \<Longrightarrow> d \<in> set ls"
proof -
  have "fmlookup (fold (\<lambda>l m. fmupd (d_Digest l) l m) ls m) g = Some d \<Longrightarrow> fmlookup m g = Some d \<or> d \<in> set ls" for m
    by (induction ls arbitrary: m) (fastforce split: if_splits)+
  then show "fmlookup (layersByDigest ls) g = Some d \<Longrightarrow> d \<in> set ls" by (fastforce simp: layersByDigest_def)
qed

lemma resolveChunks_range:
  "resolveChunks t i gs (layersByDigest ls) = Inr ds \<Longrightarrow> set ds \<subseteq> set ls"
proof (induction gs arbitrary: i ds)
  case (Cons g gs)
  from Cons.prems obtain d es where "fmlookup (layersByDigest ls) g = Some d" "ds = d # es"
      "resolveChunks t (i + 1) gs (layersByDigest ls) = Inr es"
    by (auto simp: bindR_def split: option.splits sum.splits)
  with layersByDigest_range [of ls g d] Cons.IH [of "i + 1" es] show ?case by simp
qed simp

lemma planLoop_range:
  "planLoop cfg (layersByDigest all) ls emitted = Inr es \<Longrightarrow> set ls \<subseteq> set all \<Longrightarrow> e \<in> set es \<Longrightarrow>
     set (lp_descs e) \<subseteq> set all"
proof (induction ls arbitrary: emitted es)
  case (Cons l ls)
  have r: "set ds \<subseteq> set all" if "resolveEncodedFile l fm (layersByDigest all) = Inr ds" for fm ds
    using that Cons.prems(2) resolveChunks_range by (auto simp: resolveEncodedFile_def split: if_splits)
  from Cons r show ?case
    by (auto simp: Let_def bindR_def lp_descs_def split: if_splits sum.splits) blast+
qed simp

lemma planned_fits:
  assumes v: "validateSnapshotLayers m cfg = None" and p: "planLayers cfg (m_Layers m) = Inr es"
    and e: "e \<in> set es" "d \<in> set (lp_descs e)" and w: "2 \<le> fileWindow (newChunkPipeline es k b) e"
  shows "0 \<le> d_Size d" and "d_Size d \<le> (if lp_zstd e then cp_inputCap (newChunkPipeline es k b)
      else cp_outputCap (newChunkPipeline es k b))"
proof -
  have "d \<in> set (m_Layers m)" using planLoop_range [OF p [unfolded planLayers_def] order_refl e(1)] e(2) by blast
  with v show "0 \<le> d_Size d"
    by (auto simp: validateSnapshotLayers_def Let_def dest: validateLayers_size split: option.splits)
  have two: "2 \<le> length (lp_descs e)" using w by (auto simp: fileWindow_def split: if_splits)
  then have enc: "lp_encoded e" by (cases "lp_chunks e") (auto simp: lp_encoded_def lp_descs_def)
  from pipelineCaps_bound [OF e(1) enc two] bufferCaps_bound [OF e(2)]
  show "d_Size d \<le> (if lp_zstd e then cp_inputCap (newChunkPipeline es k b) else cp_outputCap (newChunkPipeline es k b))"
    by (auto simp: newChunkPipeline_caps)
qed

section \<open>The prefetch budget\<close>

text \<open>
  While a chunk is written from one output buffer, \<open>window\<close> fetches hold an input and an output
  buffer each.
\<close>

lemma pipelineCaps_nonneg: "0 \<le> fst (pipelineCaps es)" "0 \<le> snd (pipelineCaps es)"
proof -
  have "0 \<le> fst c \<Longrightarrow> 0 \<le> snd c \<Longrightarrow>
      0 \<le> fst (fold (\<lambda>e (i, out). if \<not> lp_encoded e \<or> length (lp_descs e) < 2 then (i, out)
        else (max i (fst (bufferCaps e)), max out (snd (bufferCaps e)))) es c) \<and>
      0 \<le> snd (fold (\<lambda>e (i, out). if \<not> lp_encoded e \<or> length (lp_descs e) < 2 then (i, out)
        else (max i (fst (bufferCaps e)), max out (snd (bufferCaps e)))) es c)" for c :: "int \<times> int"
    by (induction es arbitrary: c) (auto split: prod.splits)
  from this [of "(0, 0)"] show "0 \<le> fst (pipelineCaps es)" "0 \<le> snd (pipelineCaps es)"
    by (simp_all add: pipelineCaps_def)
qed

lemma budgetOf_range: "in_int64 (budgetOf opts)" and budgetOf_pos: "0 < budgetOf opts"
  by (auto simp: budgetOf_def Let_def defaultPullPrefetchBudget_def in_int64_def wrap64_def)

lemma newChunkPipeline_budget:
  assumes "0 < cp_window (newChunkPipeline es k b)" and "in_int64 b"
  shows "2 \<le> cp_window (newChunkPipeline es k b)" and "cp_window (newChunkPipeline es k b) \<le> k"
    and "cp_window (newChunkPipeline es k b) * (fst (pipelineCaps es) + snd (pipelineCaps es)) +
      snd (pipelineCaps es) \<le> b"
proof -
  obtain i out where c: "pipelineCaps es = (i, out)" by fastforce
  let ?q = "quot64 (b - out) (i + out)"
  from assms c have w: "cp_window (newChunkPipeline es k b) = min k ?q" "0 < out" "out < b" "2 \<le> min k ?q"
    by (auto simp: newChunkPipeline_def Let_def split: if_splits)
  then show "2 \<le> cp_window (newChunkPipeline es k b)" and "cp_window (newChunkPipeline es k b) \<le> k" by simp_all
  have i: "0 \<le> i" using pipelineCaps_nonneg [of es] c by simp
  have "in_int64 (b - out)" using assms(2) w(2,3) by (simp add: in_int64_def)
  then have q: "?q = (b - out) div (i + out)" using w(2,3) i by (intro quot64_pos) simp_all
  have "min k ?q * (i + out) \<le> ?q * (i + out)" using w(2) i by (intro mult_right_mono) simp_all
  also have "\<dots> \<le> b - out" unfolding q using div_mult_mod_eq [of "b - out" "i + out"] pos_mod_sign [of "i + out" "b - out"] w(2) i
    by linarith
  finally show "cp_window (newChunkPipeline es k b) * (fst (pipelineCaps es) + snd (pipelineCaps es)) +
      snd (pipelineCaps es) \<le> b"
    using w(1) c by simp
qed

end
