(* ===== verification/Push_Wire.thy ===== *)
theory Push_Wire
  imports Push_Spec
begin

text \<open>
  What a push writes survives the wire: the config and the manifest of a well-formed export stream
  have only valid UTF-8 and 64-bit integers, so that decoding their JSON gives them back, and the
  manifest passes the reader's validation.
\<close>

section \<open>ASCII text\<close>

lemma valid_utf8_digestOf [simp]: "valid_utf8 (digestOf b)"
proof (rule valid_utf8_ascii)
  have "list_all (\<lambda>c. cp c < 128) (hex_encode (sha256 b))"
    using hex_encode_chars [of _ "sha256 b"] by (fastforce simp: list_all_iff cp_def)
  then show "list_all (\<lambda>c. cp c < 128) (digestOf b)" by (simp add: digestOf_def SHA256Hex_def cp_def)
qed

lemma valid_utf8_Itoa [simp]: "valid_utf8 (Itoa n)"
proof (rule valid_utf8_ascii)
  show "list_all (\<lambda>c. cp c < 128) (Itoa n)"
    using FormatInt_chars [of _ n] by (force simp: list_all_iff cp_def Itoa_def is_digit_def)
qed

lemma valid_utf8_rawLayerTypes:
  assumes "mt \<in> set rawLayerTypes"
  shows "valid_utf8 mt" and "valid_utf8 (ZstdMediaType mt)"
proof -
  have "list_all (\<lambda>c. cp c < 128) mt"
    using assms by (auto simp: rawLayerTypes_def media_consts cp_def)
  moreover from this have "list_all (\<lambda>c. cp c < 128) (ZstdMediaType mt)"
    by (simp add: ZstdMediaType_def media_consts cp_def)
  ultimately show "valid_utf8 mt" and "valid_utf8 (ZstdMediaType mt)" by (simp_all add: valid_utf8_ascii)
qed

lemma valid_utf8_fileMT [simp]: "valid_utf8 (fileMT opts hdr)"
  using valid_utf8_rawLayerTypes [OF MediaTypeForCocoonFile_raw] by (simp add: fileMT_def)

lemma wire_const_utf8 [simp]:
  "valid_utf8 AnnotationTitle" "valid_utf8 AnnotationChunkCount" "valid_utf8 AnnotationChunkIndex"
  "valid_utf8 AnnotationCreated" "valid_utf8 AnnotationSnapshotBaseImage" "valid_utf8 AnnotationSource"
  "valid_utf8 AnnotationRevision" "valid_utf8 MediaTypeOCIManifest" "valid_utf8 MediaTypeSnapshotConfig"
  "valid_utf8 ArtifactTypeSnapshot" "valid_utf8 ArtifactTypeSnapshotV2" "valid_utf8 ''v1''" "valid_utf8 ''v2''"
  by (rule valid_utf8_ascii, simp add: cp_def media_consts)+

lemma utf8_map_upd [simp]: "utf8_map m \<Longrightarrow> valid_utf8 k \<Longrightarrow> valid_utf8 v \<Longrightarrow> utf8_map (fmupd k v m)"
  by (simp add: utf8_map_def fmpred_upd)

lemma utf8_map_empty [simp]: "utf8_map fmempty"
  by (simp add: utf8_map_def)

lemma utf8_map_add [simp]: "utf8_map m \<Longrightarrow> utf8_map m' \<Longrightarrow> utf8_map (m ++\<^sub>f m')"
  by (simp add: utf8_map_def fmpred_add)

section \<open>Descriptors and files\<close>

text \<open>The options and the clock give valid text, and no blob is longer than a 64-bit size can say.\<close>

definition good_meta :: "env \<Rightarrow> PushOptions \<Rightarrow> bool" where
  "good_meta ev opts =
     (list_all valid_utf8 [o_BaseImage opts, o_Source opts, o_Revision opts, ev_nowRFC3339 ev] \<and>
      utf8_map (o_Annotations opts) \<and> wf_time (ev_nowJSON ev))"

lemma wf_titled [simp]: "valid_utf8 mt \<Longrightarrow> valid_utf8 t \<Longrightarrow> in_int64 (int (length b)) \<Longrightarrow> wf_descriptor (titled mt t b)"
  using valid_utf8_digestOf [of b] by (simp add: wf_descriptor_def titled_def digestOf_def)

lemma wf_chunkDesc [simp]:
  "valid_utf8 mt \<Longrightarrow> valid_utf8 t \<Longrightarrow> in_int64 (int (length b)) \<Longrightarrow> wf_descriptor (chunkDesc mt t count i b)"
  using wf_titled [of mt t b] by (simp add: chunkDesc_def Let_def wf_descriptor_def)

lemma wf_chunkDescs:
  "valid_utf8 mt \<Longrightarrow> valid_utf8 t \<Longrightarrow> (\<And>b. b \<in> set bs \<Longrightarrow> in_int64 (int (length b))) \<Longrightarrow>
     list_all wf_descriptor (chunkDescs mt t count i bs)"
  by (induction bs arbitrary: i) simp_all

lemma wf_fileDescs:
  assumes "good_file opts cs e" and "\<And>b. b \<in> set (fileBlobs ev opts cs e) \<Longrightarrow> in_int64 (int (length b))"
  shows "list_all wf_descriptor (fileDescs ev opts cs e)"
  using assms wf_chunkDescs [of "fileMT opts (e_hdr e)" "h_Name (e_hdr e)" "fileBlobs ev opts cs e"]
  by (auto simp: fileDescs_def Let_def good_file_def list_all_iff)

lemma wf_fileEntry:
  assumes "good_file opts cs e"
  shows "wf_file (fileEntry ev opts cs e)"
proof -
  from assms have g: "sparse_ok (e_hdr e)" "in_int64 (h_Mode (e_hdr e))" "in_int64 (h_Size (e_hdr e))"
    by (auto simp: good_file_def Let_def in_int64_def)
  from g show ?thesis
    using ParseInt_range [of 64]
    by (fastforce simp: wf_file_def fileEntry_def Let_def sparseFileMeta_def sparse_ok_def zeroFile_def
        in_int64_def list_all_iff split: option.splits)
qed

lemma filesMap_lookup:
  assumes "distinct_names es" and "e \<in> set (files_of es)"
  shows "fmlookup (filesMap ev opts cs es) (h_Name (e_hdr e)) = Some (fileEntry ev opts cs e)"
  using assms map_of_is_SomeI [of "map (\<lambda>e. (h_Name (e_hdr e), fileEntry ev opts cs e)) (files_of es)"]
  by (auto simp: filesMap_def distinct_names_def fmlookup_of_list comp_def)

lemma filesMap_cases:
  assumes "fmlookup (filesMap ev opts cs es) k = Some f"
  obtains e where "e \<in> set (files_of es)" "k = h_Name (e_hdr e)" "f = fileEntry ev opts cs e"
  using assms by (auto simp: filesMap_def fmlookup_of_list dest!: map_of_SomeD)

lemma good_files:
  assumes "list_all (good_entry opts cs) es" and "e \<in> set (files_of es)"
  shows "good_file opts cs e"
  using assms by (auto simp: files_of_def list_all_iff good_entry_def is_file_def split: if_splits)

section \<open>Config and manifest\<close>

lemma good_stream_cfg:
  assumes "good_stream opts cs s cfg"
  shows "wf_export cfg" and "\<exists>ms. x_Engine cfg = Some (JObj ms) \<and> wf_members ms"
proof -
  from assms have "map (\<lambda>j. decodeExportEnvelope (rd_content (e_body j))) (filter is_json (ts_entries s)) = [Inr cfg]"
    by (simp add: good_stream_def)
  then obtain j :: tar_entry where "decodeExportEnvelope (rd_content (e_body j)) = Inr cfg" by auto
  then show "wf_export cfg" and "\<exists>ms. x_Engine cfg = Some (JObj ms) \<and> wf_members ms"
    by (rule decodeExportEnvelope_wf)+
qed

lemma wf_pushedConfig:
  assumes g: "good_stream opts cs s cfg" and m: "good_meta ev opts"
  shows "wf_config (pushedConfig ev opts cs (ts_entries s) cfg)"
proof -
  note c = good_stream_cfg [OF g]
  have files: "fmpred (\<lambda>k f. valid_utf8 k \<and> wf_file f) (filesMap ev opts cs (ts_entries s))"
  proof (rule fmpred_iff [THEN iffD2], intro allI impI)
    fix k f
    assume "fmlookup (filesMap ev opts cs (ts_entries s)) k = Some f"
    then obtain e where e: "e \<in> set (files_of (ts_entries s))" "k = h_Name (e_hdr e)" "f = fileEntry ev opts cs e"
      by (rule filesMap_cases)
    with good_files [of opts cs "ts_entries s" e] g have "good_file opts cs e" by (simp add: good_stream_def)
    with e wf_fileEntry [OF this] show "valid_utf8 k \<and> wf_file f" by (simp add: good_file_def Let_def)
  qed
  from c(2) have e: "pred_option wf_json (x_Engine cfg)" by auto
  have t: "wf_time (ev_nowJSON ev)" using m by (simp add: good_meta_def)
  from c(1) files e t show ?thesis
    by (simp add: wf_config_def pushedConfig_def configBlob_def wf_export_def snapshotVersionMarkers_def)
qed

lemma wf_pushedManifest:
  assumes g: "good_stream opts cs s cfg" and m: "good_meta ev opts"
    and b: "\<And>b. b \<in> set (pushedBlobs ev opts cs (ts_entries s) cfg) \<Longrightarrow> in_int64 (int (length b))"
  shows "wf_manifest (pushedManifest ev opts cs (ts_entries s) cfg)"
proof -
  let ?c = "pushedConfig ev opts cs (ts_entries s) cfg"
  have l: "list_all wf_descriptor (streamLayers ev opts cs (ts_entries s))"
    unfolding streamLayers_def list_all_iff
  proof clarsimp
    fix e d
    assume e: "e \<in> set (files_of (ts_entries s))" and d: "d \<in> set (fileDescs ev opts cs e)"
    have "good_file opts cs e" using good_files [of opts cs "ts_entries s" e] e g by (simp add: good_stream_def)
    then have "list_all wf_descriptor (fileDescs ev opts cs e)"
      using b e by (intro wf_fileDescs) (auto simp: pushedBlobs_def)
    with d show "wf_descriptor d" by (simp add: list_all_iff)
  qed
  have c: "wf_descriptor (configDesc ?c)"
    using b [of "configData ?c"] by (simp add: wf_descriptor_def configDesc_def pushedBlobs_def)
  have a: "utf8_map (manifestAnnotations ev opts)"
    using m by (simp add: manifestAnnotations_def good_meta_def Let_def)
  from l c a show ?thesis
    by (auto simp: wf_manifest_def pushedManifest_def snapshotManifest_def snapshotVersionMarkers_def in_int64_def)
qed

text \<open>Parsing the manifest that was put, and decoding the config that was put.\<close>

lemmas Parse_pushed = Parse_enc [OF wf_pushedManifest]

lemma unmarshal_pushedConfig:
  assumes "good_stream opts cs s cfg" and "good_meta ev opts"
  shows "Option.bind (json_unmarshal (configData (pushedConfig ev opts cs (ts_entries s) cfg))) (dec_config zeroConfig) =
    Some (pushedConfig ev opts cs (ts_entries s) cfg)"
  using conf.unmarshal_enc [OF wf_pushedConfig [OF assms]] by (simp add: configData_def)

lemma Classify_pushed: "ClassifyParsed (pushedManifest ev opts cs es cfg) = KindSnapshot"
  by (simp add: ClassifyParsed_def classifyFields_def pushedManifest_def snapshotManifest_def
      snapshotVersionMarkers_def media_consts)

end
