(* ===== verification/Snapshot_Roundtrip.thy ===== *)
theory Snapshot_Roundtrip
  imports Pull_Spec Push_Wire
begin

text \<open>
  Pushing and pulling together: what a push left in the registry is streamed back as an import tar
  with the same files, in the same order, with the same bytes, modes and sparse metadata, whatever
  the compression, chunking and concurrency options of either side.
\<close>

section \<open>The entries that come back\<close>

definition sparseRecords :: "tar_header \<Rightarrow> gomap" where
  "sparseRecords hdr =
     (case fmlookup (h_PAXRecords hdr) sparsePAXMap of
        None \<Rightarrow> fmempty
      | Some m \<Rightarrow> fmupd sparsePAXSize (mget (h_PAXRecords hdr) sparsePAXSize) (fmupd sparsePAXMap m fmempty))"

definition outHeader :: "string \<Rightarrow> tar_entry \<Rightarrow> tar_header" where
  "outHeader now e =
     \<lparr>h_Name = h_Name (e_hdr e), h_Size = h_Size (e_hdr e), h_Mode = h_Mode (e_hdr e), h_Typeflag = TypeReg,
      h_PAXRecords = sparseRecords (e_hdr e), h_ModTime = now\<rparr>"

definition outEntry :: "string \<Rightarrow> tar_entry \<Rightarrow> tar_header \<times> bytes" where
  "outEntry now e = (outHeader now e, rd_content (e_body e))"

lemma layerHeader_ok:
  assumes "good_file opts cs e"
  shows "layerHeader (h_Name (e_hdr e)) (h_Size (e_hdr e)) (fileEntry ev opts cs e) now = Inr (outHeader now e)"
    and "header_ok (outHeader now e)"
proof -
  have g: "sparse_ok (e_hdr e)" "0 \<le> h_Size (e_hdr e)" "CHR 0x00 \<notin> set (h_Name (e_hdr e))" "h_Mode (e_hdr e) \<noteq> 0"
    using assms by (simp_all add: good_file_def Let_def)
  show "header_ok (outHeader now e)"
    using g by (auto simp: header_ok_def outHeader_def sparseRecords_def sparse_ok_def split: option.splits)
  show "layerHeader (h_Name (e_hdr e)) (h_Size (e_hdr e)) (fileEntry ev opts cs e) now = Inr (outHeader now e)"
  proof (cases "fmlookup (h_PAXRecords (e_hdr e)) sparsePAXMap")
    case None
    with g(4) show ?thesis
      by (simp add: layerHeader_def Let_def fileEntry_def sparseFileMeta_def zeroFile_def outHeader_def
          sparseRecords_def or_int_def)
  next
    case (Some m)
    with g(1) obtain s k where s: "fmlookup (h_PAXRecords (e_hdr e)) sparsePAXSize = Some s"
        "ParseInt 64 s = Some k" "0 < k" "s = FormatInt k" "m \<noteq> []"
      by (auto simp: sparse_ok_def split: option.splits)
    with Some g(4) show ?thesis
      by (simp add: layerHeader_def Let_def fileEntry_def sparseFileMeta_def zeroFile_def outHeader_def
          sparseRecords_def or_int_def mget_def)
  qed
qed

section \<open>Writing the entries\<close>

context blob_store
begin

lemma holds_desc_ok:
  assumes "repo_ok n" and "holds r n b" and "d_Digest d = digestOf b" and "d_Size d = int (length b)"
  shows "desc_ok (\<lambda>g. dl_GetBlob dl n g r) d" and "blob_at (\<lambda>g. dl_GetBlob dl n g r) d = b"
  using get_blob [OF assms(1), of r "digestOf b" b] assms(2-4)
  by (auto simp: desc_ok_def blob_at_def holds_def serves_def)

lemma descs_there:
  assumes n: "repo_ok n" and h: "\<forall>b \<in> set bs. holds r n b"
    and d: "map d_Digest ds = map digestOf bs" "map d_Size ds = map (\<lambda>b. int (length b)) bs"
  shows "list_all (desc_ok (\<lambda>g. dl_GetBlob dl n g r)) ds" and "map (blob_at (\<lambda>g. dl_GetBlob dl n g r)) ds = bs"
proof -
  have l: "length ds = length bs" using d(1) by (metis length_map)
  have i: "desc_ok (\<lambda>g. dl_GetBlob dl n g r) (ds ! i) \<and> blob_at (\<lambda>g. dl_GetBlob dl n g r) (ds ! i) = bs ! i"
    if "i < length ds" for i
  proof -
    have "d_Digest (ds ! i) = digestOf (bs ! i)" "d_Size (ds ! i) = int (length (bs ! i))"
      using that l arg_cong [OF d(1), of "\<lambda>xs. xs ! i"] arg_cong [OF d(2), of "\<lambda>xs. xs ! i"] by simp_all
    moreover have "holds r n (bs ! i)" using h that l by simp
    ultimately show ?thesis using holds_desc_ok [OF n] by blast
  qed
  then show "list_all (desc_ok (\<lambda>g. dl_GetBlob dl n g r)) ds" by (simp add: list_all_length)
  show "map (blob_at (\<lambda>g. dl_GetBlob dl n g r)) ds = bs"
    using i l by (intro nth_equalityI) simp_all
qed

lemma file_there_ok:
  assumes n: "repo_ok n" and z: "zstd_laws (ev_zstd ev)" and ev: "ev_zstd ev' = ev_zstd ev"
    and g: "good_file opts cs e" and enc: "encodedFile opts cs e" and pl: "plan_for ev opts cs e pl"
    and h: "\<forall>b \<in> set (fileBlobs ev opts cs e). holds r n b"
    and caps: "2 \<le> length (lp_descs pl) \<Longrightarrow>
      fst (bufferCaps pl) \<le> cp_inputCap p \<and> snd (bufferCaps pl) \<le> cp_outputCap p"
  shows "\<exists>xs. concat xs = rd_content (e_body e) \<and> file_there ev' (\<lambda>g. dl_GetBlob dl n g r) p pl xs"
proof -
  let ?get = "\<lambda>g. dl_GetBlob dl n g r" and ?data = "rd_content (e_body e)" and ?bs = "fileBlobs ev opts cs e"
  from pl enc have p: "map d_Digest (lp_descs pl) = map digestOf ?bs" "map d_Size (lp_descs pl) = map (\<lambda>b. int (length b)) ?bs"
      "lp_layer pl = hd (fileDescs ev opts cs e)" "lp_meta pl = fileEntry ev opts cs e"
    by (simp_all add: plan_for_def)
  note there = descs_there [OF n h p(1,2)]
  have len: "length (lp_descs pl) = length ?bs" using p(1) by (metis length_map)
  have "fileDescs ev opts cs e \<noteq> []"
    using fileBlobs_nonempty [OF g, of ev] fileDescs_length [of ev opts cs e] by auto
  then have zs: "lp_zstd pl = isCompressed opts (e_hdr e)"
    using fileDescs_mem(1) [of "hd (fileDescs ev opts cs e)" ev opts cs e] p(3) by (simp add: lp_zstd_def fileMT_zstd)
  have sz: "int (length ?data) = h_Size (e_hdr e)" "h_Size (e_hdr e) < 2 ^ 62" using g by (simp_all add: good_file_def Let_def)
  show ?thesis
  proof (cases "isChunked opts cs (e_hdr e)")
    case False
    then have "isCompressed opts (e_hdr e)" using enc by (simp add: encodedFile_def)
    moreover from this False have "?bs = [z_EncodeStream (ev_zstd ev) (o_ZstdLevel opts) ?data]"
      by (simp add: fileBlobs_def Let_def)
    moreover have "fileWindow p pl = 0" using calculation(2) len by (simp add: fileWindow_def)
    ultimately show ?thesis
      using there zs z ev by (intro exI [of _ "[?data]"]) (simp add: file_there_def zstd_laws_def)
  next
    case True
    then have cs: "0 < nat cs" by (simp add: isChunked_def)
    let ?xs = "pieces (nat cs) ?data"
    have bs: "?bs = map (\<lambda>b. if isCompressed opts (e_hdr e) then z_EncodeAll (ev_zstd ev) (o_ZstdLevel opts) b else b) ?xs"
      using True by (simp add: fileBlobs_def Let_def)
    have win: "list_all2 (\<lambda>d x. if lp_zstd pl
        then d_Size d \<le> cp_inputCap p \<and> z_DecodeAll (ev_zstd ev') (cp_outputCap p) (blob_at ?get d) = Inr x
        else d_Size d \<le> cp_outputCap p) (lp_descs pl) ?xs" if w: "2 \<le> fileWindow p pl"
    proof (rule list_all2_all_nthI)
      show "length (lp_descs pl) = length ?xs" using len bs by simp
      fix i
      assume i: "i < length (lp_descs pl)"
      have two: "2 \<le> length (lp_descs pl)" using w by (auto simp: fileWindow_def split: if_splits)
      note b = bufferCaps_bound [of "lp_descs pl ! i" pl] and c = caps [OF two]
      have mem: "lp_descs pl ! i \<in> set (lp_descs pl)" "?xs ! i \<in> set ?xs" using i len bs by simp_all
      have at: "blob_at ?get (lp_descs pl ! i) = ?bs ! i" using there(2) i by (metis nth_map)
      have "int (length (?xs ! i)) \<le> cp_outputCap p" if "lp_zstd pl"
      proof -
        have "int (length (?xs ! i)) \<le> rawChunkStride (int (length ?data)) (int (length ?xs))"
          using rawChunkStride_covers [OF cs mem(2)] two len bs sz by simp
        also have "\<dots> = snd (bufferCaps pl)"
          using that p(4) sz(1) len bs by (simp add: bufferCaps_def Let_def)
        finally show ?thesis using c by simp
      qed
      then show "if lp_zstd pl
        then d_Size (lp_descs pl ! i) \<le> cp_inputCap p \<and>
          z_DecodeAll (ev_zstd ev') (cp_outputCap p) (blob_at ?get (lp_descs pl ! i)) = Inr (?xs ! i)
        else d_Size (lp_descs pl ! i) \<le> cp_outputCap p"
        using b [OF mem(1)] c at bs z zs i len ev by (auto simp: zstd_laws_def)
    qed
    have "z_DecodeStream (ev_zstd ev') (concat ?bs) EOF = (concat ?xs, EOF)" if "lp_zstd pl"
      using that zs z ev bs by (simp add: zstd_laws_def)
    with there win zs bs show ?thesis
      using pieces_concat [OF cs, of ?data] by (intro exI [of _ ?xs]) (auto simp: file_there_def)
  qed
qed

lemma writeEntry_ok:
  assumes n: "repo_ok n" and z: "zstd_laws (ev_zstd ev)" and ev: "ev_zstd ev' = ev_zstd ev"
    and g: "good_file opts cs e" and pl: "plan_for ev opts cs e pl"
    and h: "\<forall>b \<in> set (fileBlobs ev opts cs e). holds r n b"
    and caps: "lp_encoded pl \<Longrightarrow> 2 \<le> length (lp_descs pl) \<Longrightarrow>
      fst (bufferCaps pl) \<le> cp_inputCap p \<and> snd (bufferCaps pl) \<le> cp_outputCap p"
    and tw: "tw_done pre tw" "no_faults tw"
  shows "\<exists>tw'. writeEntry ev' dl n p pl r tw = (None, tw') \<and>
    tw_done (pre @ [outEntry (ev_nowJSON ev') e]) tw' \<and> no_faults tw'"
proof -
  let ?h = "outHeader (ev_nowJSON ev') e" and ?data = "rd_content (e_body e)"
  note lh = layerHeader_ok(1) [OF g, of ev "ev_nowJSON ev'"] layerHeader_ok(2) [OF g, of "ev_nowJSON ev'"]
  have sz: "int (length ?data) = h_Size (e_hdr e)" using g by (simp add: good_file_def Let_def)
  from tw_WriteHeader_no_fault [OF tw lh(2)] obtain tw1 where
    t1: "tw_WriteHeader ?h tw = (None, tw1)" "no_faults tw1" by blast
  note in1 = tw_WriteHeader_ok [OF tw(1) t1(1)]
  have left: "tw_left tw1 = int (length ?data)" using in1(3) sz by (simp add: outHeader_def)
  then have fit: "tw_fits (length ?data) tw1" using t1(2) by (simp add: tw_fits_def)
  have fin: "tw_done (pre @ [outEntry (ev_nowJSON ev') e]) tw2 \<and> no_faults tw2"
    if "tw_in pre ?h tw2" "tw_body tw2 = tw_body tw1 @ ?data" "tw_fits 0 tw2" for tw2
    using tw_in_full [OF that(1)] that(2,3) in1(2) sz by (simp add: outEntry_def outHeader_def tw_fits_def)
  show ?thesis
  proof (cases "encodedFile opts cs e")
    case True
    with pl have e: "lp_encoded pl" "lp_title pl = h_Name (e_hdr e)" "lp_meta pl = fileEntry ev opts cs e"
      by (simp_all add: plan_for_def lp_encoded_def)
    from file_there_ok [OF n z ev g True pl h caps [OF e(1)]] obtain xs where
      xs: "concat xs = ?data" "file_there ev' (\<lambda>g. dl_GetBlob dl n g r) p pl xs" by blast
    from streamBody_ok [OF xs(2) in1(1)] fit xs(1) obtain tw2 where
      "streamBody ev' dl n p pl r tw1 = Some (int (length ?data), None, tw2)"
      "tw_in pre ?h tw2" "tw_body tw2 = tw_body tw1 @ ?data" "tw_fits 0 tw2"
      by auto
    with fin [of tw2] e lh(1) t1(1) sz show ?thesis
      by (auto simp: writeEntry_def streamFile_def)
  next
    case False
    then have b: "fileBlobs ev opts cs e = [?data]" by (simp add: encodedFile_def fileBlobs_def Let_def)
    let ?l = "titled (fileMT opts (e_hdr e)) (h_Name (e_hdr e)) ?data"
    have d: "fileDescs ev opts cs e = [?l]" using b False by (simp add: fileDescs_def encodedFile_def Let_def)
    with pl False have e: "\<not> lp_encoded pl" "lp_layer pl = ?l" "lp_meta pl = fileEntry ev opts cs e"
      by (simp_all add: plan_for_def lp_encoded_def)
    from get_blob [OF n, of r "digestOf ?data" ?data] h b obtain body where
      body: "dl_GetBlob dl n (digestOf ?data) r = Inr body" "serves body ?data"
      by (auto simp: holds_def)
    then have bc: "rd_progress body" "blob_complete body (int (length ?data))" "rd_content body = ?data"
      by (simp_all add: serves_def blob_complete_def)
    from CopyBlobSized_total [OF tw.io_writer_axioms bc(1) in1(1), of "digestOf ?data" "int (length ?data)"] fit bc(2,3)
    obtain tw2 where "CopyBlobSized tw_Write tw1 body (digestOf ?data) (int (length ?data)) = Some (None, tw2)"
      "tw_in pre ?h tw2" "tw_body tw2 = tw_body tw1 @ ?data" "tw_fits 0 tw2"
      by auto
    with fin [of tw2] e body(1) lh(1) t1(1) sz show ?thesis
      by (auto simp: writeEntry_def streamLayerToTar_def)
  qed
qed

lemma writeEntries_ok:
  assumes n: "repo_ok n" and z: "zstd_laws (ev_zstd ev)" and ev: "ev_zstd ev' = ev_zstd ev"
    and pl: "list_all2 (plan_for ev opts cs) fs pls"
    and g: "\<forall>e \<in> set fs. good_file opts cs e \<and> (\<forall>b \<in> set (fileBlobs ev opts cs e). holds r n b)"
    and caps: "\<And>pl. pl \<in> set pls \<Longrightarrow> lp_encoded pl \<Longrightarrow> 2 \<le> length (lp_descs pl) \<Longrightarrow>
      fst (bufferCaps pl) \<le> cp_inputCap p \<and> snd (bufferCaps pl) \<le> cp_outputCap p"
    and tw: "tw_done pre tw" "no_faults tw"
  shows "\<exists>tw'. writeEntries ev' dl n p pls r tw = (None, tw') \<and>
    tw_done (pre @ map (outEntry (ev_nowJSON ev')) fs) tw' \<and> no_faults tw'"
  using pl g caps tw
proof (induction fs pls arbitrary: pre tw rule: list_all2_induct)
  case Nil
  then show ?case by simp
next
  case (Cons e fs pl pls)
  from writeEntry_ok [OF n z ev _ Cons.hyps(1) _ _ Cons.prems(3,4), of r p] Cons.prems(1,2) obtain tw1 where
    1: "writeEntry ev' dl n p pl r tw = (None, tw1)" "tw_done (pre @ [outEntry (ev_nowJSON ev') e]) tw1" "no_faults tw1"
    by auto
  from Cons.IH [OF _ _ 1(2,3)] Cons.prems(1,2) obtain tw2 where
    "writeEntries ev' dl n p pls r tw1 = (None, tw2)"
    "tw_done ((pre @ [outEntry (ev_nowJSON ev') e]) @ map (outEntry (ev_nowJSON ev')) fs) tw2" "no_faults tw2"
    by auto
  with 1(1) show ?case by auto
qed

end

section \<open>The manifest that was pushed is accepted\<close>

lemma fileDescs_valid:
  assumes "good_file opts cs e" and "d \<in> set (fileDescs ev opts cs e)" and "encodedFile opts cs e \<Longrightarrow> encoded"
  shows "validateLayer encoded d = None"
proof -
  note m = fileDescs_mem [OF assms(2)]
  have "IsSnapshotLayerMediaType (d_MediaType d)" using m(1) by (simp add: fileMT_def)
  moreover have "Title d \<noteq> []" using m(2) assms(1) by (simp add: good_file_def Let_def)
  moreover have "0 \<le> d_Size d" using m(3) by auto
  moreover have "IsZstdMediaType (d_MediaType d) \<Longrightarrow> encoded"
    using m(1) assms(3) by (simp add: fileMT_zstd encodedFile_def)
  ultimately show ?thesis by (auto simp: validateLayer_def)
qed

lemma validateLayers_iff: "validateLayers encoded ls = None \<longleftrightarrow> (\<forall>l \<in> set ls. validateLayer encoded l = None)"
  by (induction ls) (auto split: option.splits)

lemma pushed_valid:
  assumes g: "good_stream opts cs s cfg"
  shows "validateSnapshotLayers (pushedManifest ev opts cs (ts_entries s) cfg)
    (pushedConfig ev opts cs (ts_entries s) cfg) = None"
proof -
  let ?es = "ts_entries s"
  have gf: "good_file opts cs e" if "e \<in> set (files_of ?es)" for e
    using good_files [OF _ that] g by (simp add: good_stream_def)
  have enc: "streamEncoded opts cs ?es" if "e \<in> set (files_of ?es)" "encodedFile opts cs e" for e
    using that by (auto simp: streamEncoded_def encodedFile_def list_ex_iff)
  have v: "validateLayers (streamEncoded opts cs ?es) (streamLayers ev opts cs ?es) = None"
    unfolding validateLayers_iff streamLayers_def
    using fileDescs_valid [OF gf] enc by auto
  have c: "f_Chunks (the (fmlookup (filesMap ev opts cs ?es) n)) = []"
    if "\<not> streamEncoded opts cs ?es" "n \<in> set (sorted_keys (filesMap ev opts cs ?es))" for n
  proof -
    from that(2) obtain f where "fmlookup (filesMap ev opts cs ?es) n = Some f" by (auto simp: fmlookup_dom_iff)
    moreover from this obtain e where e: "e \<in> set (files_of ?es)" "f = fileEntry ev opts cs e"
      by (rule filesMap_cases)
    moreover from enc [OF e(1)] that(1) have "fileBlobs ev opts cs e = [rd_content (e_body e)]"
      by (auto simp: fileBlobs_def encodedFile_def Let_def)
    ultimately show ?thesis by simp
  qed
  have m: "m_Layers (pushedManifest ev opts cs ?es cfg) = streamLayers ev opts cs ?es"
    "(m_ArtifactType (pushedManifest ev opts cs ?es cfg) = ArtifactTypeSnapshotV2) = streamEncoded opts cs ?es"
    "c_Files (pushedConfig ev opts cs ?es cfg) = filesMap ev opts cs ?es"
    by (simp_all add: pushedManifest_def snapshotManifest_def snapshotVersionMarkers_def media_consts
        pushedConfig_def configBlob_def)
  have "filter (\<lambda>n. f_Chunks (the (fmlookup (filesMap ev opts cs ?es) n)) \<noteq> []) (sorted_keys (filesMap ev opts cs ?es)) = []"
    if "\<not> streamEncoded opts cs ?es"
    using c [OF that] by (simp add: filter_empty_conv)
  with v m show ?thesis by (simp add: validateSnapshotLayers_def Let_def)
qed

section \<open>Streaming it back\<close>

definition envelopeHeader :: "string \<Rightarrow> bytes \<Rightarrow> tar_header" where
  "envelopeHeader now data =
     \<lparr>h_Name = snapshotJSONName, h_Size = int (length data), h_Mode = 420, h_Typeflag = TypeReg,
      h_PAXRecords = fmempty, h_ModTime = now\<rparr>"

lemma writeTarFile_ok:
  assumes "tw_done [] tw" and "no_faults tw"
  shows "\<exists>tw'. writeTarFile snapshotJSONName data 420 now tw = (None, tw') \<and>
    tw_done [(envelopeHeader now data, data)] tw' \<and> no_faults tw'"
proof -
  let ?h = "envelopeHeader now data"
  have "header_ok ?h" by (simp add: header_ok_def envelopeHeader_def snapshotJSONName_def)
  from tw_WriteHeader_no_fault [OF assms this] obtain tw1 where
    t1: "tw_WriteHeader ?h tw = (None, tw1)" "no_faults tw1" by blast
  note in1 = tw_WriteHeader_ok [OF assms(1) t1(1)]
  have "tw_fits (length data) tw1" using in1(3) t1(2) by (simp add: tw_fits_def envelopeHeader_def)
  from tw_Write_fit [OF in1(1) this, of data] obtain tw2 where
    t2: "tw_Write data tw1 = (length data, None, tw2)" "tw_in [] ?h tw2" "tw_body tw2 = data" "tw_fits 0 tw2"
    using in1(2) by auto
  from tw_in_full [OF t2(2)] t2(3,4) have "tw_done [(?h, data)] tw2 \<and> no_faults tw2"
    by (simp add: envelopeHeader_def tw_fits_def)
  with t1(1) t2(1) show ?thesis by (simp add: writeTarFile_def envelopeHeader_def)
qed

context blob_store
begin

lemma FetchSnapshotConfig_ok:
  assumes n: "repo_ok n" and h: "holds r n (configData c)" and w: "wf_config c"
    and sz: "int (length (configData c)) \<le> maxSnapshotConfigSize"
  shows "FetchSnapshotConfig dl n (configDesc c) r = Inr c"
proof -
  from get_blob [OF n, of r "digestOf (configData c)" "configData c"] h obtain body where
    b: "dl_GetBlob dl n (digestOf (configData c)) r = Inr body" "serves body (configData c)"
    by (auto simp: holds_def)
  let ?l = "\<lparr>lim_R = body, lim_N = maxSnapshotConfigSize + 1\<rparr>"
  have "rd_progress (lim_R ?l)" "lim_rest ?l = configData c" "lim_final ?l = EOF"
    using b(2) sz by (auto simp: serves_def lim_rest_def lim_final_def)
  with ReadAll_reader [OF lim.io_reader_axioms, of ?l] obtain l' where
    "io_ReadAll lim_read ?l = Some (Inr (configData c), l')" by auto
  with b(1) sz conf.unmarshal_enc [OF w] show ?thesis
    by (simp add: FetchSnapshotConfig_def configDesc_def configData_def)
qed

lemma Stream_ok:
  assumes n: "repo_ok (o_Name opts)" and z: "zstd_laws (ev_zstd ev)" and ev: "ev_zstd ev' = ev_zstd ev"
    and g: "good_stream opts cs s cfg" and m: "good_meta ev opts"
    and so: "so_Name so = o_Name opts" "so_Name so \<noteq> []" "so_Writer so = Some (\<lambda>_. None)"
    and local: "valid_utf8 (or_str (so_LocalName so) (so_Name so))"
    and inj: "inj_on digestOf B" and B: "set (pushedBlobs ev opts cs (ts_entries s) cfg) \<subseteq> B"
    and sz: "\<And>b. b \<in> set (pushedBlobs ev opts cs (ts_entries s) cfg) \<Longrightarrow> in_int64 (int (length b))"
    and csz: "int (length (configData (pushedConfig ev opts cs (ts_entries s) cfg))) \<le> maxSnapshotConfigSize"
    and h: "\<And>b. b \<in> set (pushedBlobs ev opts cs (ts_entries s) cfg) \<Longrightarrow> holds r (o_Name opts) b"
  shows "\<exists>data tw. MarshalEnvelope (pushedConfig ev opts cs (ts_entries s) cfg)
        (or_str (so_LocalName so) (so_Name so)) = Inr data \<and>
    Stream ev' (json_marshal_indent (enc_manifest (pushedManifest ev opts cs (ts_entries s) cfg))) dl so r = (None, tw) \<and>
    tw_done ((envelopeHeader (ev_nowJSON ev') data, data) #
      map (outEntry (ev_nowJSON ev')) (files_of (ts_entries s))) tw"
proof -
  let ?es = "ts_entries s" and ?n = "o_Name opts" and ?now = "ev_nowJSON ev'"
  let ?c = "pushedConfig ev opts cs ?es cfg" and ?m = "pushedManifest ev opts cs ?es cfg"
  let ?fs = "files_of ?es" and ?ls = "streamLayers ev opts cs ?es"
  have gf: "good_file opts cs e" if "e \<in> set ?fs" for e
    using good_files [OF _ that] g by (simp add: good_stream_def)
  have dn: "distinct_names ?es" using g by (simp add: good_stream_def)
  have meta: "fileMeta ?c (h_Name (e_hdr e)) = fileEntry ev opts cs e" if "e \<in> set ?fs" for e
    using filesMap_lookup [OF dn that, of ev opts cs] by (simp add: fileMeta_def pushedConfig_def configBlob_def)
  have res: "list_all (resolves (layersByDigest ?ls)) (fileBlobs ev opts cs e)" if "e \<in> set ?fs" for e
    using layers_resolve [OF inj, of ?fs ev opts cs e] B that
    by (auto simp: list_all_iff streamLayers_def pushedBlobs_def)
  from planLoop_ok [of ?fs opts cs ?c ev "layersByDigest ?ls" "[]"] gf meta res dn obtain pls where
    pl: "planLayers ?c ?ls = Inr pls" "list_all2 (plan_for ev opts cs) ?fs pls"
    by (auto simp: planLayers_def streamLayers_def distinct_names_def)
  let ?p = "newChunkPipeline pls (prefetchOf so) (budgetOf so)"
  have caps: "fst (bufferCaps pl) \<le> cp_inputCap ?p \<and> snd (bufferCaps pl) \<le> cp_outputCap ?p"
    if "pl \<in> set pls" "lp_encoded pl" "2 \<le> length (lp_descs pl)" for pl
    using pipelineCaps_bound [OF that] by (simp add: newChunkPipeline_caps)
  from good_stream_cfg(2) [OF g] obtain ms where "c_Engine ?c = Some (JObj ms)" "wf_members ms"
    by (auto simp: pushedConfig_def configBlob_def)
  from MarshalEnvelope_engine [OF this local] obtain data where
    d: "MarshalEnvelope ?c (or_str (so_LocalName so) (so_Name so)) = Inr data" by blast
  have new: "tw_done [] (newTarWriter (\<lambda>_. None))" "no_faults (newTarWriter (\<lambda>_. None))"
    by (simp_all add: no_faults_def newTarWriter_def tw_done_def)
  from writeTarFile_ok [OF new] obtain tw1 where
    1: "writeTarFile snapshotJSONName data 420 ?now (newTarWriter (\<lambda>_. None)) = (None, tw1)"
      "tw_done [(envelopeHeader ?now data, data)] tw1" "no_faults tw1"
    by blast
  have there: "\<forall>e \<in> set ?fs. good_file opts cs e \<and> (\<forall>b \<in> set (fileBlobs ev opts cs e). holds r ?n b)"
    using gf h by (auto simp: pushedBlobs_def)
  from writeEntries_ok [OF n z ev pl(2) there caps 1(2,3)] obtain tw2 where
    2: "writeEntries ev' dl ?n ?p pls r tw1 = (None, tw2)"
      "tw_done ((envelopeHeader ?now data, data) # map (outEntry ?now) ?fs) tw2" "no_faults tw2"
    by auto
  from tw_Close_ok [OF 2(2,3)] obtain tw3 where
    3: "tw_Close tw2 = (None, tw3)" "tw_done ((envelopeHeader ?now data, data) # map (outEntry ?now) ?fs) tw3"
    by blast
  have "tw_Flush tw3 = None" using 3(1) 2(2,3) by (auto simp: tw_Flush_def tw_Close_def tw_flush_def no_faults_def tw_done_def)
  with pl d 1 2 3 so have w: "writeImportTar ev' dl so ?c ?ls r (newTarWriter (\<lambda>_. None)) = (None, tw3)"
    by (simp add: writeImportTar_def Let_def)
  have f: "FetchSnapshotConfig dl ?n (configDesc ?c) r = Inr ?c"
    using h by (intro FetchSnapshotConfig_ok [OF n _ wf_pushedConfig [OF g m] csz]) (simp add: pushedBlobs_def)
  have "m_Config ?m = configDesc ?c" "m_Layers ?m = ?ls" by (simp_all add: pushedManifest_def snapshotManifest_def)
  with w f pushed_valid [OF g, of ev] so have "StreamParsed ev' ?m dl so r = (None, tw3)"
    by (simp add: StreamParsed_def Let_def)
  with Parse_pushed [OF g m sz] so(2) Classify_pushed [of ev opts cs ?es cfg] have
    "Stream ev' (json_marshal_indent (enc_manifest ?m)) dl so r = (None, tw3)"
    by (simp add: Stream_def resolveManifest_def Let_def)
  with d 3(2) show ?thesis by blast
qed

end

end
