(* ===== verification/Example_Snapshot.thy ===== *)
theory Example_Snapshot
  imports Snapshot_Roundtrip
begin

text \<open>
  A small snapshot for the concrete instances of the theorems: an export stream with
  \<^verbatim>\<open>snapshot.json\<close> and one disk, pushed to the registry in memory, with a compressor that stores.
  The disk holds the bytes of the config the push writes, so that only one blob is stored.
\<close>

definition exZstd :: zstd_lib where
  "exZstd =
     \<lparr>z_EncodeAll = (\<lambda>_ b. b), z_EncodeStream = (\<lambda>_ b. b), z_DecodeAll = (\<lambda>_ b. Inr b),
      z_DecodeStream = (\<lambda>b e. (b, e))\<rparr>"

definition exNow :: string where
  "exNow = ''2025-01-02T03:04:05Z''"

definition exEnv :: env where
  "exEnv = \<lparr>ev_zstd = exZstd, ev_nowJSON = exNow, ev_nowRFC3339 = exNow, ev_ctx = None\<rparr>"

definition exOpts :: PushOptions where
  "exOpts =
     \<lparr>o_Name = ''vm'', o_LocalName = [], o_Tag = [], o_BaseImage = [], o_Source = [], o_Revision = [],
      o_Annotations = fmempty, o_ZstdLevel = 3, o_ChunkSizeMiB = 256, o_Concurrency = 0, o_MemoryBudgetMiB = 0\<rparr>"

definition exCfg :: snapshotExportConfig where
  "exCfg = zeroExport\<lparr>x_ID := ''s1'', x_Engine := Some (JObj [(''id'', JStr ''s1'')])\<rparr>"

definition exConfig :: SnapshotConfig where
  "exConfig =
     configBlob exEnv exCfg (fmap_of_list [(''disk.raw'', zeroFile\<lparr>f_Mode := 420, f_Size := 141\<rparr>)]) ''v1''"

definition exHeader :: "string \<Rightarrow> int \<Rightarrow> tar_header" where
  "exHeader name n =
     \<lparr>h_Name = name, h_Size = n, h_Mode = 420, h_Typeflag = TypeReg, h_PAXRecords = fmempty, h_ModTime = exNow\<rparr>"

definition exJson :: bytes where
  "exJson = json_marshal (JObj [(''config'', JObj [(''id'', JStr ''s1'')])])"

definition exStream :: tar_stream where
  "exStream =
     \<lparr>ts_entries =
        [\<lparr>e_hdr = exHeader snapshotJSONName (int (length exJson)), e_body = rd_of_bytes exJson\<rparr>,
         \<lparr>e_hdr = exHeader ''disk.raw'' 141, e_body = rd_of_bytes (configData exConfig)\<rparr>],
      ts_end = EOF\<rparr>"

definition exRegistry :: "mem OCIRegistry" where
  "exRegistry = \<lparr>base = mem_root, remote = mem_remote\<rparr>"

definition exMem :: mem where
  "exMem = \<lparr>mem_blobs = fmempty, mem_tags = fmempty\<rparr>"

definition exPusher :: "mem Pusher" where
  "exPusher =
     \<lparr>pu_Uploader = ociUploader exRegistry, pu_Session = Some (ociUploader (UploadSession exRegistry)),
      pu_Export = (\<lambda>_. Inr (exStream, None))\<rparr>"

definition exStreamOpts :: StreamOptions where
  "exStreamOpts =
     \<lparr>so_Name = ''vm'', so_LocalName = [], so_Writer = Some (\<lambda>_. None), so_Concurrency = 0, so_MemoryBudgetMiB = 0\<rparr>"

section \<open>Facts\<close>

lemma exZstd_laws: "zstd_laws exZstd"
  by (simp add: zstd_laws_def exZstd_def)

lemma exConfig_length: "length (configData exConfig) = 141"
  by code_simp

lemma exParams: "pipelineParams exOpts = Inr (8, 256 * 2 ^ 20)"
  by code_simp

lemma exDecode: "decodeExportEnvelope exJson = Inr exCfg"
  by code_simp

lemma exMeta: "good_meta exEnv exOpts"
proof -
  have "valid_utf8 exNow" by (rule valid_utf8_ascii) (simp add: exNow_def cp_def)
  moreover have "valid_rfc3339 exNow" by code_simp
  ultimately show ?thesis by (simp add: good_meta_def exEnv_def exOpts_def wf_time_def)
qed

lemma exFiles: "files_of (ts_entries exStream) =
    [\<lparr>e_hdr = exHeader ''disk.raw'' 141, e_body = rd_of_bytes (configData exConfig)\<rparr>]"
  by (simp add: files_of_def exStream_def is_file_def is_json_def exHeader_def snapshotJSONName_def)

lemma exPlain:
  "isChunked exOpts (256 * 2 ^ 20) (exHeader ''disk.raw'' 141) = False"
  "isCompressed exOpts (exHeader ''disk.raw'' 141) = False"
  by (simp_all add: isChunked_def isCompressed_def exOpts_def exHeader_def compressMinBytes_def)

lemma exGood: "good_stream exOpts (256 * 2 ^ 20) exStream exCfg"
proof -
  have "valid_utf8 ''disk.raw''" by (rule valid_utf8_ascii) (simp add: cp_def)
  moreover have "configData exConfig \<noteq> []" using exConfig_length by auto
  ultimately have "good_file exOpts (256 * 2 ^ 20)
      \<lparr>e_hdr = exHeader ''disk.raw'' 141, e_body = rd_of_bytes (configData exConfig)\<rparr>"
    using exPlain exConfig_length
    by (simp add: good_file_def Let_def exHeader_def sparse_ok_def in_int64_def)
  with exFiles exDecode show ?thesis
    by (simp add: good_stream_def distinct_names_def)
      (simp add: exStream_def good_entry_def is_json_def is_ok_def exHeader_def snapshotJSONName_def)
qed

lemma exPushed:
  "pushedConfig exEnv exOpts (256 * 2 ^ 20) (ts_entries exStream) exCfg = exConfig"
  "pushedBlobs exEnv exOpts (256 * 2 ^ 20) (ts_entries exStream) exCfg = [configData exConfig, configData exConfig]"
proof -
  show c: "pushedConfig exEnv exOpts (256 * 2 ^ 20) (ts_entries exStream) exCfg = exConfig"
    unfolding pushedConfig_def filesMap_def streamEncoded_def exFiles exConfig_def
    using exPlain by (simp add: snapshotVersionMarkers_def fileEntry_def fileBlobs_def sparseFileMeta_def Let_def exHeader_def zeroFile_def)
  show "pushedBlobs exEnv exOpts (256 * 2 ^ 20) (ts_entries exStream) exCfg = [configData exConfig, configData exConfig]"
    unfolding pushedBlobs_def c exFiles using exPlain by (simp add: fileBlobs_def Let_def)
qed

end
