(* ===== verification/Pull_Concurrent.thy ===== *)
theory Pull_Concurrent
  imports Pull_Window Pull_Safety Example_Snapshot
begin

text \<open>
  The chunk window inside a pull: the pipeline of \<^verbatim>\<open>newChunkPipeline\<close> with its pools, and the states
  that the window of one file reaches from pools that hold all their buffers. With the facts about the window
  and the budget, every such state keeps the invariant, and the bytes it holds stay within the budget.
\<close>

text \<open>
  The pipeline allocates the pools once; the window of a file starts when the one before has ended, with every
  buffer back.
\<close>

definition pullWindow ::
  "env \<Rightarrow> 'r Downloader \<Rightarrow> string \<Rightarrow> layerPlan list \<Rightarrow> int \<Rightarrow> int \<Rightarrow> layerPlan \<Rightarrow> 'r \<Rightarrow> tar_writer \<Rightarrow>
   tar_writer window \<Rightarrow> bool" where
  "pullWindow ev dl name entries prefetch budget e r tw s \<longleftrightarrow>
     (let p = newChunkPipeline entries prefetch budget; P = pullSource ev dl name p e r in
      2 \<le> fileWindow p e \<and>
      (\<exists>inp out. pool_ok (cp_inputCap p) (nat (cp_window p)) 0 inp \<and>
         pool_ok (cp_outputCap p) (nat (cp_window p) + 1) 0 out \<and> window_reach P (newWindow P inp out tw) s))"

lemma pullWindow_inv:
  assumes "pullWindow ev dl name es k b e r tw s" and "p = newChunkPipeline es k b" and "P = pullSource ev dl name p e r"
  shows "2 \<le> fileWindow p e" and "source_ok P (nat (cp_window p))" and "window_inv P (nat (cp_window p)) tw s"
proof -
  from assms obtain inp out where w: "2 \<le> fileWindow p e" "pool_ok (cp_inputCap p) (nat (cp_window p)) 0 inp"
      "pool_ok (cp_outputCap p) (nat (cp_window p) + 1) 0 out" "window_reach P (newWindow P inp out tw) s"
    by (auto simp: pullWindow_def Let_def)
  show "2 \<le> fileWindow p e" by (fact w)
  show ok: "source_ok P (nat (cp_window p))"
    unfolding assms(3) by (rule pullSource_ok) (use w(1) pipelineCaps_nonneg in \<open>simp_all add: assms(2) newChunkPipeline_caps\<close>)
  have "window_inv P (nat (cp_window p)) tw (newWindow P inp out tw)"
    by (rule window_inv_new [OF ok]) (use w(2,3) in \<open>simp_all add: assms(3) pullSource_def\<close>)
  with window_reach_inv [OF w(4) _ ok] show "window_inv P (nat (cp_window p)) tw s" .
qed

lemma pullWindow_start:
  assumes "2 \<le> fileWindow (newChunkPipeline es k b) e"
  shows "pullWindow ev dl name es k b e r tw
    (newWindow (pullSource ev dl name (newChunkPipeline es k b) e r)
      (newBufPool (nat (cp_window (newChunkPipeline es k b)))) (newBufPool (nat (cp_window (newChunkPipeline es k b)) + 1)) tw)"
proof -
  have "0 \<le> cp_inputCap (newChunkPipeline es k b)" "0 \<le> cp_outputCap (newChunkPipeline es k b)"
    using pipelineCaps_nonneg by (simp_all add: newChunkPipeline_caps)
  with assms show ?thesis
    unfolding pullWindow_def Let_def by (blast intro: window_reach.start pool_ok_new)
qed

lemma pullWindow_reach:
  assumes "pullWindow ev dl name es k b e r tw s" and "window_reach (pullSource ev dl name (newChunkPipeline es k b) e r) s s'"
  shows "pullWindow ev dl name es k b e r tw s'"
proof -
  have "window_reach P s0 s1 \<Longrightarrow> window_reach P s1 s2 \<Longrightarrow> window_reach P s0 s2" for P :: "tar_writer source" and s0 s1 s2
    by (rotate_tac 1, induction rule: window_reach.induct) (auto intro: window_reach.intros)
  with assms show ?thesis unfolding pullWindow_def Let_def by blast
qed

lemma pullWindow_budget:
  assumes "pullWindow ev dl name es k b e r tw s" and "in_int64 b"
  shows "window_bytes s \<le> b"
proof -
  let ?p = "newChunkPipeline es k b"
  note inv = pullWindow_inv [OF assms(1) refl refl]
  have w: "0 < cp_window ?p" using inv(1) by (auto simp: fileWindow_def split: if_splits)
  have "window_bytes s \<le> cp_window ?p * (cp_inputCap ?p + cp_outputCap ?p) + cp_outputCap ?p"
    using window_memory [OF inv(3)] w by (simp add: pullSource_def)
  also have "\<dots> \<le> b"
    using newChunkPipeline_budget(3) [OF w assms(2)] by (simp add: newChunkPipeline_caps)
  finally show ?thesis .
qed

section \<open>A concrete window\<close>

text \<open>A disk of two equal chunks.\<close>

definition exChunk :: Descriptor where
  "exChunk =
     zeroDescriptor\<lparr>d_MediaType := MediaTypeDiskRaw, d_Digest := ''sha256:ab'', d_Size := 2,
       d_Annotations := fmap_of_list [(AnnotationTitle, ''disk.raw'')]\<rparr>"

definition exChunked :: SnapshotConfig where
  "exChunked =
     zeroConfig\<lparr>c_Files := fmap_of_list
       [(''disk.raw'', zeroFile\<lparr>f_Mode := 420, f_Size := 4, f_Chunks := [d_Digest exChunk, d_Digest exChunk]\<rparr>)]\<rparr>"

definition exManifest :: OCIManifest where
  "exManifest = zeroManifest\<lparr>m_ArtifactType := ArtifactTypeSnapshotV2, m_Layers := [exChunk]\<rparr>"

definition exCloud :: OCIManifest where
  "exCloud = zeroManifest\<lparr>m_ArtifactType := ArtifactTypeOSImage, m_Layers := [exChunk]\<rparr>"

lemma exCloud_parse: "Parse (json_marshal_indent (enc_manifest exCloud)) = Inr exCloud"
proof (rule Parse_enc)
  have "valid_utf8 ArtifactTypeOSImage" "valid_utf8 MediaTypeDiskRaw" "valid_utf8 ''sha256:ab''"
      "valid_utf8 AnnotationTitle" "valid_utf8 ''disk.raw''"
    by (rule valid_utf8_ascii, simp add: cp_def media_consts)+
  then show "wf_manifest exCloud"
    by (simp add: wf_manifest_def exCloud_def exChunk_def zeroManifest_def wf_descriptor_def zeroDescriptor_def in_int64_def)
qed

definition exPlan :: layerPlan where
  "exPlan =
     \<lparr>lp_title = ''disk.raw'', lp_meta = fileMeta exChunked ''disk.raw'', lp_layer = exChunk,
      lp_chunks = Some [exChunk, exChunk]\<rparr>"

definition exTar :: tar_writer where
  "exTar = newTarWriter (\<lambda>_. None)"

lemma exPlan_window: "2 \<le> fileWindow (newChunkPipeline [exPlan] 2 100) exPlan"
  by code_simp

lemma exPlan_valid: "validateSnapshotLayers exManifest exChunked = None"
  by code_simp

lemma exPlan_planned: "planLayers exChunked (m_Layers exManifest) = Inr [exPlan]"
proof -
  have "planLayers exChunked (m_Layers exManifest) =
      Inr [\<lparr>lp_title = ''disk.raw'', lp_meta = fileMeta exChunked ''disk.raw'', lp_layer = exChunk,
        lp_chunks = Some [exChunk, exChunk]\<rparr>]"
    by (simp add: planLayers_def exManifest_def Title_def layersByDigest_def exChunk_def fileMeta_def exChunked_def
        resolveEncodedFile_def Let_def)
  then show ?thesis by (simp add: exPlan_def)
qed

end
