(* ===== verification/Push_Safety.thy ===== *)
theory Push_Safety
  imports Push_Spec
begin

text \<open>
  What a push guarantees over a registry that may fail at any call, and for any export stream: the
  manifest is put last and only when every blob it names is in the registry, so a push that fails
  leaves every tag as it was. The locale \<open>upload_store\<close> says what is relied on: an upload that
  reports success has stored the blob, and no call removes one.

  Also the memory budget of the workers, and the overflow in the count of chunks.
\<close>

section \<open>Uploads that may fail\<close>

locale upload_store =
  fixes up :: "'r Uploader"
    and has :: "'r \<Rightarrow> string \<Rightarrow> string \<Rightarrow> bool"
    and tags :: "'r \<Rightarrow> 't"
  assumes head_true: "up_HasBlob up n d r = Inr True \<Longrightarrow> has r n d"
    and blob_stored: "up_PutBlob up n d b sz r = (None, r') \<Longrightarrow> has r' n d"
    and blob_keeps: "up_PutBlob up n d b sz r = (e, r') \<Longrightarrow> has r m g \<Longrightarrow> has r' m g"
    and blob_tags: "up_PutBlob up n d b sz r = (e, r') \<Longrightarrow> tags r' = tags r"
begin

definition keeps :: "'r \<Rightarrow> 'r \<Rightarrow> bool" where
  "keeps r r' = (tags r' = tags r \<and> (\<forall>m g. has r m g \<longrightarrow> has r' m g))"

definition held :: "'r \<Rightarrow> string \<Rightarrow> Descriptor list \<Rightarrow> bool" where
  "held r n ds = (\<forall>d \<in> set ds. has r n (d_Digest d))"

text \<open>The groups collected so far are in the registry, unless a worker has failed.\<close>

definition collected :: "string \<Rightarrow> 'r \<Rightarrow> push_state \<Rightarrow> bool" where
  "collected n r st = (ps_wait st = None \<longrightarrow> (\<forall>g \<in> set (ps_groups st). held r n (g_descs g)))"

lemma keeps_refl [simp]: "keeps r r"
  by (simp add: keeps_def)

lemma keeps_trans: "keeps r r' \<Longrightarrow> keeps r' r'' \<Longrightarrow> keeps r r''"
  by (simp add: keeps_def)

lemma held_keeps: "held r n ds \<Longrightarrow> keeps r r' \<Longrightarrow> held r' n ds"
  by (simp add: held_def keeps_def)

lemma collected_keeps: "collected n r st \<Longrightarrow> keeps r r' \<Longrightarrow> collected n r' st"
  by (auto simp: collected_def intro: held_keeps)

lemma putBlobIfMissing_keeps:
  assumes "putBlobIfMissing up n d b sz r = (e, r')"
  shows "keeps r r'" and "e = None \<Longrightarrow> has r' n d"
  using assms head_true [of n d r] blob_stored [of n d b sz r] blob_keeps [of n d b sz r] blob_tags [of n d b sz r]
  by (auto simp: putBlobIfMissing_def keeps_def split: sum.splits if_splits prod.splits option.splits)

lemma uploadChunk_keeps:
  assumes "uploadChunk ev up level n mt title i count raw r = (res, r')"
  shows "keeps r r'" and "res = Inr d \<Longrightarrow> has r' n (d_Digest d)"
proof -
  let ?b = "if IsZstdMediaType mt then z_EncodeAll (ev_zstd ev) level raw else raw"
  obtain e r1 where p: "putBlobIfMissing up n (''sha256:'' @ SHA256Hex ?b) ?b (int (length ?b)) r = (e, r1)"
    by fastforce
  note k = putBlobIfMissing_keeps [OF p]
  have c: "uploadChunk ev up level n mt title i count raw r =
      (case e of Some er \<Rightarrow> Inl er | None \<Rightarrow> Inr (chunkDesc mt title count i ?b), r1)"
    unfolding uploadChunk_def Let_def p by (simp add: chunkDesc_def Let_def split: option.split)
  from assms c k(1) show "keeps r r'" by simp
  show "has r' n (d_Digest d)" if "res = Inr d"
    using assms c k(2) that by (auto simp: chunkDesc_def titled_def Let_def split: option.splits)
qed

lemma uploadSpooled_keeps:
  assumes "uploadSpooled up n title mt spool r = (res, r')"
  shows "keeps r r'" and "res = Inr d \<Longrightarrow> has r' n (d_Digest d)"
  using assms putBlobIfMissing_keeps
  by (auto simp: uploadSpooled_def titled_def split: sum.splits prod.splits option.splits)

lemma enqueueLoop_keeps:
  assumes "enqueueLoop ev up level n mt title cs count k i rem body wait r = (err, ds, w, r')"
  shows "keeps r r'" and "w = None \<Longrightarrow> wait = None \<and> held r' n ds"
proof -
  have "keeps r r' \<and> (w = None \<longrightarrow> wait = None \<and> held r' n ds)"
    using assms
  proof (induction k arbitrary: i rem body wait r err ds)
    case 0
    then show ?case by (auto simp: held_def)
  next
    case (Suc k)
    show ?case
    proof (cases "wait \<noteq> None \<or> ev_ctx ev \<noteq> None")
      case True
      with Suc.prems show ?thesis by (auto simp: held_def)
    next
      case False
      let ?want = "min cs rem"
      show ?thesis
      proof (cases "\<exists>data body'. io_ReadFull rd_read (nat ?want) body = Some (data, None, body')")
        case False
        with Suc.prems \<open>\<not> (wait \<noteq> None \<or> ev_ctx ev \<noteq> None)\<close> show ?thesis
          by (auto simp: Let_def held_def split: option.splits)
      next
        case True
        then obtain data body' where rf: "io_ReadFull rd_read (nat ?want) body = Some (data, None, body')" by blast
        obtain res r1 where u: "uploadChunk ev up level n mt title i count data r = (res, r1)" by fastforce
        define wait1 where "wait1 = (case res of Inl e \<Rightarrow> Some (Wrap (''upload '' @ title @ '' chunk '' @ FormatInt i) e)
          | Inr _ \<Rightarrow> wait)"
        define d1 where "d1 = (case res of Inl _ \<Rightarrow> zeroDescriptor | Inr d \<Rightarrow> d)"
        obtain ds1 where l: "enqueueLoop ev up level n mt title cs count k (i + 1) (rem - ?want) body' wait1 r1 =
            (err, ds1, w, r')" and ds: "ds = d1 # ds1"
          using Suc.prems False rf u
          by (cases res) (auto simp: Let_def wait1_def d1_def split: prod.splits)
        note ih = Suc.IH [OF l]
        note uk = uploadChunk_keeps [OF u]
        have "keeps r r'" using ih uk(1) keeps_trans by blast
        moreover have "wait = None \<and> held r' n ds" if "w = None"
        proof -
          from ih that have w1: "wait1 = None" "held r' n ds1" by auto
          then obtain d where d: "res = Inr d" by (auto simp: wait1_def split: sum.splits)
          have "has r' n (d_Digest d)" using uk(2) [OF d] ih by (auto simp: keeps_def)
          with w1 d ds show ?thesis by (simp add: held_def d1_def wait1_def)
        qed
        ultimately show ?thesis by blast
      qed
    qed
  qed
  then show "keeps r r'" and "w = None \<Longrightarrow> wait = None \<and> held r' n ds" by auto
qed

lemma enqueueChunks_keeps:
  assumes "enqueueChunks ev up level n e cs compress wait r = (err, ds, w, r')"
  shows "keeps r r'" and "w = None \<Longrightarrow> wait = None \<and> held r' n ds"
  using assms enqueueLoop_keeps
  by (auto simp: enqueueChunks_def Let_def held_def split: if_splits)

lemma pushFile_keeps:
  assumes "pushFile ev up opts cs e st r = (err, st', r')" and "collected (o_Name opts) r st"
  shows "keeps r r' \<and> collected (o_Name opts) r' st'"
proof (cases "cs > 0 \<and> (o_ZstdLevel opts > 0 \<and> h_Size (e_hdr e) \<ge> compressMinBytes \<or> h_Size (e_hdr e) > cs)")
  case True
  obtain er ds w r1 where q: "enqueueChunks ev up (o_ZstdLevel opts) (o_Name opts) e cs
      (o_ZstdLevel opts > 0 \<and> h_Size (e_hdr e) \<ge> compressMinBytes) (ps_wait st) r = (er, ds, w, r1)"
    by (metis prod_cases4)
  note k = enqueueChunks_keeps [OF q]
  from k(2) collected_keeps [OF assms(2) k(1)]
  have c: "w = None \<Longrightarrow> held r1 (o_Name opts) ds \<and> (\<forall>g \<in> set (ps_groups st). held r1 (o_Name opts) (g_descs g))"
    by (auto simp: collected_def)
  with assms(1) True q k(1) show ?thesis
    by (auto simp: pushFile_def Let_def addGroup_def collected_def split: option.splits)
next
  case False
  let ?compress = "o_ZstdLevel opts > 0 \<and> h_Size (e_hdr e) \<ge> compressMinBytes"
  obtain res r1 where u: "(if ?compress then uploadCompressedSpool ev up (o_ZstdLevel opts) (o_Name opts) e r
      else uploadTarEntry up (o_Name opts) e r) = (res, r1)" by fastforce
  then have k: "keeps r r1" "\<And>d. res = Inr d \<Longrightarrow> has r1 (o_Name opts) (d_Digest d)"
    using uploadSpooled_keeps
    by (auto simp: uploadCompressedSpool_def uploadTarEntry_def split: if_splits)
  from assms(1) False u k collected_keeps [OF assms(2) k(1)] show ?thesis
    by (auto simp: pushFile_def Let_def addGroup_def collected_def held_def split: sum.splits if_splits)
qed

lemma pushEntry_keeps:
  assumes "pushEntry ev up opts cs e st r = (err, st', r')" and "collected (o_Name opts) r st"
  shows "keeps r r' \<and> collected (o_Name opts) r' st'"
  using assms pushFile_keeps
  by (auto simp: pushEntry_def Let_def collected_def split: if_splits sum.splits)

lemma readLoop_keeps:
  "readLoop ev up opts cs es fin st r = (err, st', r') \<Longrightarrow> collected (o_Name opts) r st \<Longrightarrow>
     keeps r r' \<and> collected (o_Name opts) r' st'"
proof (induction es arbitrary: st r)
  case Nil
  then show ?case by (auto simp: readLoop.simps split: if_splits)
next
  case (Cons e es)
  obtain er st1 r1 where p: "pushEntry ev up opts cs e st r = (er, st1, r1)" by (metis prod_cases3)
  note k = pushEntry_keeps [OF p Cons.prems(2)]
  show ?case
  proof (cases "ps_wait st \<noteq> None \<or> ev_ctx ev \<noteq> None")
    case True
    with Cons.prems show ?thesis by (subst (asm) readLoop.simps) auto
  next
    case False
    show ?thesis
    proof (cases er)
      case None
      with Cons.prems(1) False p have "readLoop ev up opts cs es fin st1 r1 = (err, st', r')"
        by (subst (asm) readLoop.simps) auto
      with Cons.IH k show ?thesis by (blast intro: keeps_trans)
    next
      case (Some x)
      with Cons.prems(1) False p k show ?thesis by (subst (asm) readLoop.simps) auto
    qed
  qed
qed

lemma readAndUploadEntries_keeps:
  assumes "readAndUploadEntries ev up opts s r = (res, r')"
  shows "keeps r r'" and "res = Inr ue \<Longrightarrow> held r' (o_Name opts) (ue_layers ue)"
proof -
  have "keeps r r' \<and> (\<forall>ue. res = Inr ue \<longrightarrow> held r' (o_Name opts) (ue_layers ue))"
  proof (cases "pipelineParams opts")
    case (Inl e)
    with assms show ?thesis by (auto simp: readAndUploadEntries_def)
  next
    case (Inr wc)
    obtain workers cs where wc: "wc = (workers, cs)" by fastforce
    obtain err st r1 where l: "readLoop ev up opts cs (ts_entries s) (ts_end s) initState r = (err, st, r1)"
      by (metis prod_cases3)
    have "collected (o_Name opts) r initState" by (simp add: collected_def initState_def)
    note k = readLoop_keeps [OF l this]
    from assms Inr wc l have r: "r' = r1" "res = (case mergeErrors err (ps_wait st) (ev_ctx ev) of
        Some e \<Rightarrow> Inl e | None \<Rightarrow> Inr (finishEntries st))"
      by (auto simp: readAndUploadEntries_def split: option.splits)
    have "held r1 (o_Name opts) (ue_layers (finishEntries st))" if "mergeErrors err (ps_wait st) (ev_ctx ev) = None"
    proof -
      from that have "ps_wait st = None"
        by (auto simp: mergeErrors_def Let_def split: option.splits if_splits)
      with k show ?thesis by (auto simp: collected_def held_def finishEntries_def)
    qed
    with r k show ?thesis by (auto split: option.splits)
  qed
  then show "keeps r r'" and "res = Inr ue \<Longrightarrow> held r' (o_Name opts) (ue_layers ue)" by auto
qed

text \<open>
  Either the rest of the push fails and no tag has changed, or it comes to the one \<^verbatim>\<open>PutManifest\<close>, with a manifest
  all of whose blobs are there, and the result is the result of that call.
\<close>

lemma finishPush_atomic:
  assumes f: "finishPush ev up opts we res r = (out, r')"
    and h: "\<And>ue. res = Inr ue \<Longrightarrow> held r (o_Name opts) (ue_layers ue)"
  shows "(out \<noteq> None \<and> tags r' = tags r) \<or>
    (\<exists>m r1 e. tags r1 = tags r \<and> (\<forall>d \<in> set (m_Config m # m_Layers m). has r1 (o_Name opts) (d_Digest d)) \<and>
      up_PutManifest up (o_Name opts) (o_Tag opts) (json_marshal_indent (enc_manifest m)) MediaTypeOCIManifest r1 = (e, r') \<and>
      (out = None \<longleftrightarrow> e = None))"
proof (cases "\<exists>ue cfg. res = Inr ue \<and> we = None \<and> ue_cfg ue = Some cfg")
  case False
  with f show ?thesis by (auto simp: finishPush_def split: sum.splits option.splits)
next
  case True
  then obtain ue cfg where ue: "res = Inr ue" "we = None" "ue_cfg ue = Some cfg" by blast
  obtain sv at where v: "snapshotVersionMarkers (ue_encoded ue) = (sv, at)" by fastforce
  obtain rc r2 where rc: "uploadSnapshotConfig ev up (o_Name opts) cfg (ue_files ue) sv r = (rc, r2)" by fastforce
  have k: "keeps r r2" "\<And>c. rc = Inr c \<Longrightarrow> has r2 (o_Name opts) (d_Digest c)"
    using rc putBlobIfMissing_keeps
    by (auto simp: uploadSnapshotConfig_def Let_def split: prod.splits option.splits)
  then have t: "tags r2 = tags r" by (simp add: keeps_def)
  show ?thesis
  proof (cases rc)
    case (Inl e)
    with f ue v rc t show ?thesis by (auto simp: finishPush_def)
  next
    case (Inr config)
    let ?m = "snapshotManifest ev config (ue_layers ue) opts at"
    have "held r2 (o_Name opts) (ue_layers ue)" using h [OF ue(1)] held_keeps [OF _ k(1)] by simp
    then have "\<forall>d \<in> set (m_Config ?m # m_Layers ?m). has r2 (o_Name opts) (d_Digest d)"
      using k(2) [OF Inr] by (simp add: held_def snapshotManifest_def)
    moreover obtain e r3 where pm: "up_PutManifest up (o_Name opts) (o_Tag opts) (json_marshal_indent (enc_manifest ?m))
        MediaTypeOCIManifest r2 = (e, r3)" by fastforce
    moreover have "r3 = r' \<and> (out = None \<longleftrightarrow> e = None)"
      using f ue v rc Inr pm by (cases e) (auto simp: finishPush_def buildSnapshotManifest_def)
    ultimately show ?thesis using t by blast
  qed
qed

end

text \<open>The client over the registry in memory: what is refused is not stored, and nothing is removed.\<close>

interpretation memUpload: upload_store "ociUploader \<lparr>base = mem_root, remote = mem_remote\<rparr>"
  "\<lambda>r n d. mem_repo_ok n \<longrightarrow> d \<in> range digestOf \<longrightarrow> mem_blob r (mem_root @ ''/'' @ n) d \<noteq> None" mem_tags
proof unfold_locales
  fix n d r
  assume "up_HasBlob (ociUploader \<lparr>base = mem_root, remote = mem_remote\<rparr>) n d r = Inr True"
  then show "mem_repo_ok n \<longrightarrow> d \<in> range digestOf \<longrightarrow> mem_blob r (mem_root @ ''/'' @ n) d \<noteq> None"
    using memory.client_HasBlob [of n _ r] by (auto simp: ociUploader_def)
next
  fix n d b sz r r'
  assume "up_PutBlob (ociUploader \<lparr>base = mem_root, remote = mem_remote\<rparr>) n d b sz r = (None, r')"
  then show "mem_repo_ok n \<longrightarrow> d \<in> range digestOf \<longrightarrow> mem_blob r' (mem_root @ ''/'' @ n) d \<noteq> None"
    by (auto simp: ociUploader_def PutBlob_def mem_remote_def mem_blob_def split: if_splits)
next
  fix n d b sz r e r' m g
  assume "up_PutBlob (ociUploader \<lparr>base = mem_root, remote = mem_remote\<rparr>) n d b sz r = (e, r')"
    and "mem_repo_ok m \<longrightarrow> g \<in> range digestOf \<longrightarrow> mem_blob r (mem_root @ ''/'' @ m) g \<noteq> None"
  then show "mem_repo_ok m \<longrightarrow> g \<in> range digestOf \<longrightarrow> mem_blob r' (mem_root @ ''/'' @ m) g \<noteq> None"
    by (auto simp: ociUploader_def PutBlob_def mem_remote_def mem_blob_def split: if_splits)
next
  fix n d b sz r e r'
  assume "up_PutBlob (ociUploader \<lparr>base = mem_root, remote = mem_remote\<rparr>) n d b sz r = (e, r')"
  then show "mem_tags r' = mem_tags r"
    by (auto simp: ociUploader_def PutBlob_def mem_remote_def split: if_splits)
qed

section \<open>The memory of the workers\<close>

text \<open>
  Each worker holds a chunk and its compressed copy, and the reader fills one more pair.
\<close>

definition pushBudget :: "PushOptions \<Rightarrow> int" where
  "pushBudget opts =
     (let b = wrap64 (o_MemoryBudgetMiB opts * 2 ^ 20)
      in if b \<le> 0 then defaultPushMemoryBudgetMiB * 2 ^ 20 else b)"

lemma pipelineParams_budget:
  assumes "pipelineParams opts = Inr (workers, cs)"
  shows "1 \<le> workers" and "0 < o_Concurrency opts \<Longrightarrow> workers \<le> o_Concurrency opts"
    and "0 < cs \<Longrightarrow> (workers + 1) * (2 * cs) \<le> pushBudget opts"
proof -
  let ?w = "if o_Concurrency opts \<le> 0 then defaultTransferConcurrency else o_Concurrency opts"
  let ?q = "quot64 (pushBudget opts) (2 * cs) - 1"
  have w1: "1 \<le> ?w" by (simp add: defaultTransferConcurrency_def)
  have b: "0 < pushBudget opts" "in_int64 (pushBudget opts)"
    by (auto simp: pushBudget_def Let_def defaultPushMemoryBudgetMiB_def in_int64_def wrap64_def)
  have c: "(cs = 0 \<and> workers = ?w) \<or> (0 < cs \<and> 4 * cs \<le> pushBudget opts \<and> workers = min ?w ?q)"
    using assms by (auto simp: pipelineParams_def pushBudget_def [symmetric] Let_def max_def split: if_splits)
      (auto simp: pushBudget_def Let_def)
  have q: "?q = pushBudget opts div (2 * cs) - 1" if "0 < cs"
    using that b by (simp add: quot64_pos)
  have "2 \<le> pushBudget opts div (2 * cs)" if "0 < cs" "4 * cs \<le> pushBudget opts"
    using that zdiv_mono1 [of "2 * (2 * cs)" "pushBudget opts" "2 * cs"] by simp
  with c q w1 show "1 \<le> workers" by auto
  show "workers \<le> o_Concurrency opts" if "0 < o_Concurrency opts" using c that by auto
  show "(workers + 1) * (2 * cs) \<le> pushBudget opts" if "0 < cs"
  proof -
    have "workers + 1 \<le> pushBudget opts div (2 * cs)" using c q that by auto
    then have "(workers + 1) * (2 * cs) \<le> pushBudget opts div (2 * cs) * (2 * cs)" using that by (intro mult_right_mono) simp_all
    also have "\<dots> \<le> pushBudget opts"
      using div_mult_mod_eq [of "pushBudget opts" "2 * cs"] pos_mod_sign [of "2 * cs" "pushBudget opts"] that by linarith
    finally show ?thesis .
  qed
qed

section \<open>Overflow in the count of chunks\<close>

text \<open>
  A header size close to \<open>2 ^ 63\<close> makes \<^verbatim>\<open>hdr.Size + chunkSize - 1\<close> wrap: the negative count passes the
  sanity cap, and allocating the descriptors panics.
\<close>

lemma wrap64_above: "2 ^ 63 \<le> x \<Longrightarrow> x < 2 ^ 64 \<Longrightarrow> wrap64 x = x - 2 ^ 64"
proof -
  assume a: "2 ^ 63 \<le> x" "x < 2 ^ 64"
  have "(x + 2 ^ 63) mod 2 ^ 64 = (x - 2 ^ 63 + 2 ^ 64) mod 2 ^ 64" by (simp add: add.commute)
  also have "\<dots> = (x - 2 ^ 63) mod 2 ^ 64" by (rule mod_add_self2)
  also have "\<dots> = x - 2 ^ 63" using a by (intro mod_pos_pos_trivial) simp_all
  finally show ?thesis by (simp add: wrap64_def)
qed

lemma enqueueChunks_overflow:
  assumes "0 < cs" and "cs \<le> 2 ^ 32" and "2 ^ 63 - cs < h_Size (e_hdr e)" and "h_Size (e_hdr e) < 2 ^ 63"
  shows "enqueueChunks ev up level n e cs compress wait r =
    (Some (GoPanic ''makeslice: len out of range''), [], wait, r)"
proof -
  let ?s = "h_Size (e_hdr e)"
  let ?v = "?s + cs - 1 - 2 ^ 64"
  have "wrap64 (?s + cs) = ?s + cs - 2 ^ 64" using assms by (intro wrap64_above) simp_all
  moreover have "wrap64 ?v = ?v" using assms by (intro wrap64_id) (simp add: in_int64_def)
  moreover have "?s + cs - 2 ^ 64 - 1 = ?v" by simp
  ultimately have v: "wrap64 (wrap64 (?s + cs) - 1) = ?v" by (simp only:)
  have neg: "?v < 0" "\<bar>?v\<bar> = 2 ^ 64 - ?s - cs + 1" using assms by simp_all
  have "cs \<le> \<bar>?v\<bar>" using assms neg by simp
  then have "1 \<le> \<bar>?v\<bar> div cs" using zdiv_mono1 [of cs "\<bar>?v\<bar>" cs] assms(1) by simp
  moreover have "\<bar>?v\<bar> div cs \<le> \<bar>?v\<bar>" using zdiv_mono2 [of "\<bar>?v\<bar>" 1 cs] assms(1) by simp
  ultimately have "quot64 ?v cs < 0"
    using neg assms by (simp add: quot64_def in_int64_def)
  with v show ?thesis by (simp add: enqueueChunks_def Let_def)
qed

end
