(* ===== verification/Push_Pool.thy ===== *)
theory Push_Pool
  imports Push_Safety Buf_Pool
begin

text \<open>
  The worker pool of a push (\<^verbatim>\<open>readAndUploadEntries\<close>, \<^verbatim>\<open>enqueueChunks\<close> and \<^verbatim>\<open>uploadChunk\<close> of
  \<^verbatim>\<open>snapshot/pushpipeline.go\<close>) as goroutines: the reader, which walks the export stream, fills raw buffers
  and starts one worker per chunk through the error group, at most \<open>workers\<close> at a time, and the workers, which
  compress, ask for the blob, upload it and write the descriptor into the slice the reader has handed out.
  The registry, the two buffer pools, the descriptor slices and the group's error are shared; every
  request, every buffer operation and every write is a step of its own, in any order.

  The first error cancels the group's context, and the caller may cancel its own at any time; from then on
  a request may fail with any error, and an upload may or may not have reached the registry.
\<close>

section \<open>State\<close>

text \<open>What a worker is started with: the slice and the index its descriptor goes to, and the chunk.\<close>

record job =
  j_slice :: nat
  j_index :: nat
  j_mediaType :: string
  j_title :: string
  j_count :: int
  j_data :: bytes

text \<open>The buffer a worker has to put back when it returns.\<close>

datatype owned = RawBuf int | OutBuf int

datatype phase =
    PhStart int
  | PhEncode int int
  | PhHas bytes owned
  | PhPut bytes owned
  | PhReturn bytes owned "goerr option"
  | PhFinish bytes "goerr option"
  | PhDone

record worker =
  k_job :: job
  k_phase :: phase

text \<open>The loop variables of \<^verbatim>\<open>enqueueChunks\<close>: the chunks left, the next index, and the rest of the entry.\<close>

record cutting =
  u_slice :: nat
  u_mediaType :: string
  u_title :: string
  u_count :: int
  u_left :: nat
  u_index :: nat
  u_remaining :: int
  u_body :: reader

datatype reader_at =
    AtLoop "tar_entry list"
  | AtCheck cutting "tar_entry list"
  | AtTake cutting "tar_entry list"
  | AtRead cutting int "tar_entry list"
  | AtGo cutting int bytes reader "tar_entry list"
  | AtHas string string bytes "tar_entry list"
  | AtPut string string bytes "tar_entry list"
  | AtWait "goerr option"
  | AtDone "uploadedEntries res"

text \<open>
  \<open>q_slices\<close> is the store of descriptor slices, and a group is a name with the address of its slice; \<open>q_st\<close>
  holds the other variables of the read loop, with the error of the group in \<open>ps_wait\<close>; \<open>q_eg\<close> and
  \<open>q_ctx\<close> are \<^verbatim>\<open>egCtx.Err()\<close> and \<^verbatim>\<open>ctx.Err()\<close>.
\<close>

record 'r pool =
  q_reader :: reader_at
  q_workers :: "worker list"
  q_raw :: bufPool
  q_out :: bufPool
  q_slices :: "Descriptor list list"
  q_groups :: "(string \<times> nat) list"
  q_st :: push_state
  q_eg :: "goerr option"
  q_ctx :: "goerr option"
  q_reg :: 'r

text \<open>
  What does not change: the options, the uploader, the parameters, the end of the stream, and how \<^verbatim>\<open>append\<close>
  grows a buffer of a capacity when so many bytes are encoded into it.
\<close>

record 'r pipeline =
  pl_env :: env
  pl_up :: "'r Uploader"
  pl_opts :: PushOptions
  pl_workers :: nat
  pl_chunkSize :: int
  pl_end :: goerr
  pl_grow :: "int \<Rightarrow> nat \<Rightarrow> int"

definition newPool :: "'r pipeline \<Rightarrow> tar_entry list \<Rightarrow> 'r \<Rightarrow> 'r pool" where
  "newPool P es r =
     \<lparr>q_reader = AtLoop es, q_workers = [], q_raw = newBufPool (pl_workers P + 1),
      q_out = newBufPool (pl_workers P + 1), q_slices = [], q_groups = [], q_st = initState,
      q_eg = ev_ctx (pl_env P), q_ctx = ev_ctx (pl_env P), q_reg = r\<rparr>"

definition finished :: "worker \<Rightarrow> bool" where
  "finished k = (k_phase k = PhDone)"

definition running :: "'r pool \<Rightarrow> nat" where
  "running s = count_of (\<lambda>k. \<not> finished k) (q_workers s)"

section \<open>The reader\<close>

definition setAt :: "reader_at \<Rightarrow> 'r pool \<Rightarrow> 'r pool" where
  "setAt a s = s\<lparr>q_reader := a\<rparr>"

definition setSt :: "push_state \<Rightarrow> 'r pool \<Rightarrow> 'r pool" where
  "setSt st s = s\<lparr>q_st := st\<rparr>"

text \<open>The head of \<^verbatim>\<open>enqueueChunks\<close>, up to its loop.\<close>

definition startChunks :: "'r pipeline \<Rightarrow> tar_entry \<Rightarrow> bool \<Rightarrow> tar_entry list \<Rightarrow> 'r pool \<Rightarrow> 'r pool" where
  "startChunks P e compress es s =
     (let hdr = e_hdr e; chunkSize = pl_chunkSize P;
          count = quot64 (wrap64 (wrap64 (h_Size hdr + chunkSize) - 1)) chunkSize;
          mt = MediaTypeForCocoonFile (h_Name hdr);
          mediaType = (if compress then ZstdMediaType mt else mt)
      in if count > 2 ^ 20 then
           setAt (AtWait (Some (Msg (h_Name hdr @ '': '' @ FormatInt count @ '' chunks exceeds sanity cap'')))) s
         else if count < 0 then setAt (AtWait (Some (GoPanic ''makeslice: len out of range''))) s
         else setAt (AtCheck \<lparr>u_slice = length (q_slices s), u_mediaType = mediaType, u_title = h_Name hdr,
                u_count = count, u_left = nat count, u_index = 0, u_remaining = h_Size hdr, u_body = e_body e\<rparr> es)
                (s\<lparr>q_slices := q_slices s @ [replicate (nat count) zeroDescriptor]\<rparr>))"

text \<open>A file after its metadata: the chunks, or the spool file that is uploaded whole.\<close>

definition startFile :: "'r pipeline \<Rightarrow> tar_entry \<Rightarrow> tar_entry list \<Rightarrow> 'r pool \<Rightarrow> 'r pool" where
  "startFile P e es s =
     (let hdr = e_hdr e; level = o_ZstdLevel (pl_opts P); chunkSize = pl_chunkSize P;
          compress = (level > 0 \<and> h_Size hdr \<ge> compressMinBytes);
          mt = MediaTypeForCocoonFile (h_Name hdr);
          enc = setSt ((q_st s)\<lparr>ps_encoded := True\<rparr>) s
      in if chunkSize > 0 \<and> (compress \<or> h_Size hdr > chunkSize) then startChunks P e compress es enc
         else if compress then
           (case wrapR ''compress entry'' (copyLimited e) of
              Inl er \<Rightarrow> setAt (AtWait (Some (Wrap (''upload '' @ h_Name hdr) er))) enc
            | Inr b \<Rightarrow> setAt (AtHas (h_Name hdr) (ZstdMediaType mt) (z_EncodeStream (ev_zstd (pl_env P)) level b) es) enc)
         else
           (case wrapR ''buffer entry'' (copyLimited e) of
              Inl er \<Rightarrow> setAt (AtWait (Some (Wrap (''upload '' @ h_Name hdr) er))) s
            | Inr b \<Rightarrow> setAt (AtHas (h_Name hdr) mt b es) s))"

definition startEntry :: "'r pipeline \<Rightarrow> tar_entry \<Rightarrow> tar_entry list \<Rightarrow> 'r pool \<Rightarrow> 'r pool" where
  "startEntry P e es s =
     (let hdr = e_hdr e; st = q_st s in
      if h_Name hdr = snapshotJSONName then
        (case decodeExportEnvelope (rd_content (e_body e)) of
           Inl er \<Rightarrow> setAt (AtWait (Some er)) (setSt (st\<lparr>ps_cfg := None\<rparr>) s)
         | Inr c \<Rightarrow> setAt (AtLoop es) (setSt (st\<lparr>ps_cfg := Some c\<rparr>) s))
      else if h_Typeflag hdr \<noteq> TypeReg then setAt (AtLoop es) s
      else if h_Size hdr < 0 then
        setAt (AtWait (Some (Msg (''tar entry '' @ h_Name hdr @ '' has negative size '' @ FormatInt (h_Size hdr))))) s
      else
        (case sparseFileMeta hdr of
           Inl er \<Rightarrow> setAt (AtWait (Some er)) s
         | Inr fm \<Rightarrow>
             startFile P e es
               (setSt (st\<lparr>ps_files := fmupd (h_Name hdr) (fm\<lparr>f_Size := h_Size hdr\<rparr>) (ps_files st)\<rparr>) s)))"

text \<open>What reading a chunk reports when the buffer is not filled.\<close>

definition readError :: "cutting \<Rightarrow> (bytes \<times> goerr option \<times> reader) option \<Rightarrow> goerr option" where
  "readError c res =
     (case res of
        None \<Rightarrow> Some NoReturn
      | Some (_, Some e, _) \<Rightarrow> Some (Wrap (''read '' @ u_title c @ '' chunk '' @ FormatInt (int (u_index c))) e)
      | Some (_, None, _) \<Rightarrow> None)"

definition want :: "'r pipeline \<Rightarrow> cutting \<Rightarrow> int" where
  "want P c = min (pl_chunkSize P) (u_remaining c)"

definition readChunk :: "'r pipeline \<Rightarrow> cutting \<Rightarrow> (bytes \<times> goerr option \<times> reader) option" where
  "readChunk P c = io_ReadFull rd_read (nat (want P c)) (u_body c)"

definition jobOf :: "cutting \<Rightarrow> bytes \<Rightarrow> job" where
  "jobOf c data = \<lparr>j_slice = u_slice c, j_index = u_index c, j_mediaType = u_mediaType c, j_title = u_title c,
     j_count = u_count c, j_data = data\<rparr>"

definition nextCut :: "'r pipeline \<Rightarrow> cutting \<Rightarrow> reader \<Rightarrow> cutting" where
  "nextCut P c body =
     c\<lparr>u_left := u_left c - 1, u_index := u_index c + 1, u_remaining := u_remaining c - want P c, u_body := body\<rparr>"

text \<open>A whole file is in the registry: its one descriptor is a new slice.\<close>

definition addWhole :: "string \<Rightarrow> string \<Rightarrow> bytes \<Rightarrow> tar_entry list \<Rightarrow> 'r pool \<Rightarrow> 'r pool" where
  "addWhole title mt data es s =
     setAt (AtLoop es) (s\<lparr>q_groups := q_groups s @ [(title, length (q_slices s))],
       q_slices := q_slices s @ [[titled mt title data]]\<rparr>)"

definition resolve :: "Descriptor list list \<Rightarrow> (string \<times> nat) list \<Rightarrow> chunkGroup list" where
  "resolve H gs = map (\<lambda>(n, a). \<lparr>g_name = n, g_descs = H ! a\<rparr>) gs"

text \<open>After \<^verbatim>\<open>eg.Wait()\<close>: the error, or the entries with the descriptors that the slices hold now.\<close>

definition outcome :: "goerr option \<Rightarrow> 'r pool \<Rightarrow> uploadedEntries res" where
  "outcome readErr s =
     (case mergeErrors readErr (ps_wait (q_st s)) (q_ctx s) of
        Some e \<Rightarrow> Inl e
      | None \<Rightarrow> Inr (finishEntries ((q_st s)\<lparr>ps_groups := resolve (q_slices s) (q_groups s)\<rparr>)))"

definition uploadErr :: "string \<Rightarrow> goerr \<Rightarrow> goerr option" where
  "uploadErr title e = Some (Wrap (''upload '' @ title) e)"

inductive reader_step :: "'r pipeline \<Rightarrow> 'r pool \<Rightarrow> 'r pool \<Rightarrow> bool" for P where
  loop_cancelled: "q_reader s = AtLoop es \<Longrightarrow> q_eg s \<noteq> None \<Longrightarrow> reader_step P s (setAt (AtWait None) s)"
| loop_end: "q_reader s = AtLoop [] \<Longrightarrow> q_eg s = None \<Longrightarrow>
    reader_step P s (setAt (AtWait (if errors_is (pl_end P) EOF then None
      else Some (Wrap ''read tar entry'' (pl_end P)))) s)"
| loop_entry: "q_reader s = AtLoop (e # es) \<Longrightarrow> q_eg s = None \<Longrightarrow> reader_step P s (startEntry P e es s)"
| cut_cancelled: "q_reader s = AtCheck c es \<Longrightarrow> 0 < u_left c \<Longrightarrow> q_eg s = Some e \<Longrightarrow>
    reader_step P s (setAt (AtWait (Some e)) s)"
| cut_next: "q_reader s = AtCheck c es \<Longrightarrow> 0 < u_left c \<Longrightarrow> q_eg s = None \<Longrightarrow>
    reader_step P s (setAt (AtTake c es) s)"
| cut_end: "q_reader s = AtCheck c es \<Longrightarrow> u_left c = 0 \<Longrightarrow>
    reader_step P s (setAt (AtLoop es) (s\<lparr>q_groups := q_groups s @ [(u_title c, u_slice c)]\<rparr>))"
| cut_take: "q_reader s = AtTake c es \<Longrightarrow> bufTake (pl_chunkSize P) (q_raw s) = Some (b, raw) \<Longrightarrow>
    reader_step P s (setAt (AtRead c b es) (s\<lparr>q_raw := raw\<rparr>))"
| cut_read: "q_reader s = AtRead c b es \<Longrightarrow> readChunk P c = Some (data, None, body) \<Longrightarrow>
    reader_step P s (setAt (AtGo c b data body es) s)"
| cut_failed: "q_reader s = AtRead c b es \<Longrightarrow> readError c (readChunk P c) = Some e \<Longrightarrow> bufPut b (q_raw s) = Some raw \<Longrightarrow>
    reader_step P s (setAt (AtWait (Some e)) (s\<lparr>q_raw := raw\<rparr>))"
| cut_go: "q_reader s = AtGo c b data body es \<Longrightarrow> running s < pl_workers P \<Longrightarrow>
    reader_step P s (setAt (AtCheck (nextCut P c body) es)
      (s\<lparr>q_workers := q_workers s @ [\<lparr>k_job = jobOf c data, k_phase = PhStart b\<rparr>]\<rparr>))"
| whole_has: "q_reader s = AtHas title mt data es \<Longrightarrow>
    up_HasBlob (pl_up P) (o_Name (pl_opts P)) (digestOf data) (q_reg s) = Inr found \<Longrightarrow>
    reader_step P s (if found then addWhole title mt data es s else setAt (AtPut title mt data es) s)"
| whole_has_err: "q_reader s = AtHas title mt data es \<Longrightarrow>
    up_HasBlob (pl_up P) (o_Name (pl_opts P)) (digestOf data) (q_reg s) = Inl e \<or> q_eg s \<noteq> None \<Longrightarrow>
    reader_step P s (setAt (AtWait (uploadErr title (Wrap (''check blob '' @ digestOf data) e))) s)"
| whole_put: "q_reader s = AtPut title mt data es \<Longrightarrow>
    up_PutBlob (pl_up P) (o_Name (pl_opts P)) (digestOf data) data (int (length data)) (q_reg s) = (None, r') \<Longrightarrow>
    reader_step P s (addWhole title mt data es (s\<lparr>q_reg := r'\<rparr>))"
| whole_put_err: "q_reader s = AtPut title mt data es \<Longrightarrow>
    up_PutBlob (pl_up P) (o_Name (pl_opts P)) (digestOf data) data (int (length data)) (q_reg s) = (err, r') \<Longrightarrow>
    err = Some e \<or> q_eg s \<noteq> None \<Longrightarrow>
    reader_step P s (setAt (AtWait (uploadErr title (Wrap (''put blob '' @ digestOf data) e))) (s\<lparr>q_reg := r'\<rparr>))"
| whole_put_lost: "q_reader s = AtPut title mt data es \<Longrightarrow> q_eg s \<noteq> None \<Longrightarrow>
    reader_step P s (setAt (AtWait (uploadErr title (Wrap (''put blob '' @ digestOf data) e))) s)"
| waited: "q_reader s = AtWait err \<Longrightarrow> running s = 0 \<Longrightarrow> reader_step P s (setAt (AtDone (outcome err s)) s)"

section \<open>The workers\<close>

definition setPhase :: "nat \<Rightarrow> phase \<Rightarrow> 'r pool \<Rightarrow> 'r pool" where
  "setPhase i ph s = s\<lparr>q_workers := (q_workers s)[i := (q_workers s ! i)\<lparr>k_phase := ph\<rparr>]\<rparr>"

definition encodeJob :: "'r pipeline \<Rightarrow> job \<Rightarrow> bytes" where
  "encodeJob P j = z_EncodeAll (ev_zstd (pl_env P)) (o_ZstdLevel (pl_opts P)) (j_data j)"

definition jobDesc :: "job \<Rightarrow> bytes \<Rightarrow> Descriptor" where
  "jobDesc j stored = chunkDesc (j_mediaType j) (j_title j) (j_count j) (int (j_index j)) stored"

definition writeSlot :: "nat \<Rightarrow> nat \<Rightarrow> Descriptor \<Rightarrow> Descriptor list list \<Rightarrow> Descriptor list list" where
  "writeSlot a i d H = H[a := (H ! a)[i := d]]"

text \<open>The error group keeps the first error and cancels its context with it.\<close>

definition groupError :: "job \<Rightarrow> goerr \<Rightarrow> 'r pool \<Rightarrow> 'r pool" where
  "groupError j e s =
     s\<lparr>q_st := (q_st s)\<lparr>ps_wait := (case ps_wait (q_st s) of
           Some w \<Rightarrow> Some w
         | None \<Rightarrow> Some (Wrap (''upload '' @ j_title j @ '' chunk '' @ FormatInt (int (j_index j))) e))\<rparr>,
       q_eg := (case q_eg s of Some x \<Rightarrow> Some x | None \<Rightarrow> Some Canceled)\<rparr>"

inductive worker_step :: "'r pipeline \<Rightarrow> nat \<Rightarrow> 'r pool \<Rightarrow> 'r pool \<Rightarrow> bool" for P i where
  take_out: "q_workers s ! i = k \<Longrightarrow> k_phase k = PhStart b \<Longrightarrow> IsZstdMediaType (j_mediaType (k_job k)) \<Longrightarrow>
    bufTake (int (length (j_data (k_job k)))) (q_out s) = Some (o', out) \<Longrightarrow>
    worker_step P i s (setPhase i (PhEncode b o') (s\<lparr>q_out := out\<rparr>))"
| keep_raw: "q_workers s ! i = k \<Longrightarrow> k_phase k = PhStart b \<Longrightarrow> \<not> IsZstdMediaType (j_mediaType (k_job k)) \<Longrightarrow>
    worker_step P i s (setPhase i (PhHas (j_data (k_job k)) (RawBuf b)) s)"
| encode: "q_workers s ! i = k \<Longrightarrow> k_phase k = PhEncode b o' \<Longrightarrow> bufPut b (q_raw s) = Some raw \<Longrightarrow>
    worker_step P i s (setPhase i (PhHas (encodeJob P (k_job k))
      (OutBuf (pl_grow P o' (length (encodeJob P (k_job k)))))) (s\<lparr>q_raw := raw\<rparr>))"
| has: "q_workers s ! i = k \<Longrightarrow> k_phase k = PhHas x h \<Longrightarrow>
    up_HasBlob (pl_up P) (o_Name (pl_opts P)) (digestOf x) (q_reg s) = Inr found \<Longrightarrow>
    worker_step P i s (setPhase i (if found then PhReturn x h None else PhPut x h) s)"
| has_err: "q_workers s ! i = k \<Longrightarrow> k_phase k = PhHas x h \<Longrightarrow>
    up_HasBlob (pl_up P) (o_Name (pl_opts P)) (digestOf x) (q_reg s) = Inl e \<or> q_eg s \<noteq> None \<Longrightarrow>
    worker_step P i s (setPhase i (PhReturn x h (Some (Wrap (''check blob '' @ digestOf x) e))) s)"
| put: "q_workers s ! i = k \<Longrightarrow> k_phase k = PhPut x h \<Longrightarrow>
    up_PutBlob (pl_up P) (o_Name (pl_opts P)) (digestOf x) x (int (length x)) (q_reg s) = (None, r') \<Longrightarrow>
    worker_step P i s (setPhase i (PhReturn x h None) (s\<lparr>q_reg := r'\<rparr>))"
| put_err: "q_workers s ! i = k \<Longrightarrow> k_phase k = PhPut x h \<Longrightarrow>
    up_PutBlob (pl_up P) (o_Name (pl_opts P)) (digestOf x) x (int (length x)) (q_reg s) = (err, r') \<Longrightarrow>
    err = Some e \<or> q_eg s \<noteq> None \<Longrightarrow>
    worker_step P i s (setPhase i (PhReturn x h (Some (Wrap (''put blob '' @ digestOf x) e))) (s\<lparr>q_reg := r'\<rparr>))"
| put_lost: "q_workers s ! i = k \<Longrightarrow> k_phase k = PhPut x h \<Longrightarrow> q_eg s \<noteq> None \<Longrightarrow>
    worker_step P i s (setPhase i (PhReturn x h (Some (Wrap (''put blob '' @ digestOf x) e))) s)"
| release_raw: "q_workers s ! i = k \<Longrightarrow> k_phase k = PhReturn x (RawBuf b) res \<Longrightarrow> bufPut b (q_raw s) = Some raw \<Longrightarrow>
    worker_step P i s (setPhase i (PhFinish x res) (s\<lparr>q_raw := raw\<rparr>))"
| release_out: "q_workers s ! i = k \<Longrightarrow> k_phase k = PhReturn x (OutBuf b) res \<Longrightarrow> bufPut b (q_out s) = Some out \<Longrightarrow>
    worker_step P i s (setPhase i (PhFinish x res) (s\<lparr>q_out := out\<rparr>))"
| finish: "q_workers s ! i = k \<Longrightarrow> k_phase k = PhFinish x None \<Longrightarrow>
    worker_step P i s (setPhase i PhDone
      (s\<lparr>q_slices := writeSlot (j_slice (k_job k)) (j_index (k_job k)) (jobDesc (k_job k) x) (q_slices s)\<rparr>))"
| fail: "q_workers s ! i = k \<Longrightarrow> k_phase k = PhFinish x (Some e) \<Longrightarrow>
    worker_step P i s (setPhase i PhDone (groupError (k_job k) e s))"

text \<open>The caller's context may end at any time, and the group's with it.\<close>

inductive pool_step :: "'r pipeline \<Rightarrow> 'r pool \<Rightarrow> 'r pool \<Rightarrow> bool" for P where
  by_reader: "reader_step P s s' \<Longrightarrow> pool_step P s s'"
| by_worker: "i < length (q_workers s) \<Longrightarrow> worker_step P i s s' \<Longrightarrow> pool_step P s s'"
| by_caller: "q_ctx s = None \<Longrightarrow>
    pool_step P s (s\<lparr>q_ctx := Some e, q_eg := (case q_eg s of Some x \<Rightarrow> Some x | None \<Rightarrow> Some e)\<rparr>)"

inductive pool_reach :: "'r pipeline \<Rightarrow> 'r pool \<Rightarrow> 'r pool \<Rightarrow> bool" for P s0 where
  start: "pool_reach P s0 s0"
| more: "pool_reach P s0 s \<Longrightarrow> pool_step P s s' \<Longrightarrow> pool_reach P s0 s'"

end
