(* ===== verification/Push_Pool_Inv.thy ===== *)
theory Push_Pool_Inv
  imports Push_Pool
begin

text \<open>
  The invariant that ties the upload pool to the sequential reading of the same stream: what the reader has done so
  far, with the jobs that are out, is a prefix of what \<open>readLoop\<close> does over a registry that accepts everything;
  every chunk slot that is filled holds the descriptor of its chunk; and an error of the group has a cause.
\<close>

section \<open>The sequential reference\<close>

text \<open>A registry that has nothing and accepts every blob; its state is what it was given.\<close>

definition acceptAll :: "(string \<times> bytes) list Uploader" where
  "acceptAll = \<lparr>up_HasBlob = \<lambda>n d r. Inr False, up_PutBlob = \<lambda>n d b sz r. (None, r @ [(d, b)]),
     up_PutManifest = \<lambda>n t b c r. (None, r)\<rparr>"

definition calm :: "env \<Rightarrow> env" where
  "calm ev = ev\<lparr>ev_ctx := None\<rparr>"

definition jobStored :: "'r pipeline \<Rightarrow> job \<Rightarrow> bytes" where
  "jobStored P j = (if IsZstdMediaType (j_mediaType j) then encodeJob P j else j_data j)"

definition offered :: "bytes \<Rightarrow> (string \<times> bytes) list" where
  "offered b = [(digestOf b, b)]"

definition seqLoop ::
  "'r pipeline \<Rightarrow> tar_entry list \<Rightarrow> push_state \<Rightarrow> (string \<times> bytes) list \<Rightarrow>
   goerr option \<times> push_state \<times> (string \<times> bytes) list" where
  "seqLoop P es st rec = readLoop (calm (pl_env P)) acceptAll (pl_opts P) (pl_chunkSize P) es (pl_end P) st rec"

definition seqCut ::
  "'r pipeline \<Rightarrow> cutting \<Rightarrow> tar_entry list \<Rightarrow> push_state \<Rightarrow> Descriptor list \<Rightarrow> (string \<times> bytes) list \<Rightarrow>
   goerr option \<times> push_state \<times> (string \<times> bytes) list" where
  "seqCut P c es st ds0 rec =
     (case enqueueLoop (calm (pl_env P)) acceptAll (o_ZstdLevel (pl_opts P)) (o_Name (pl_opts P)) (u_mediaType c)
             (u_title c) (pl_chunkSize P) (u_count c) (u_left c) (int (u_index c)) (u_remaining c) (u_body c) None rec of
        (err, ds, w, rec') \<Rightarrow>
          (case err of
             Some er \<Rightarrow> (Some er, st\<lparr>ps_wait := w\<rparr>, rec')
           | None \<Rightarrow> seqLoop P es (addGroup (u_title c) (ds0 @ ds) (st\<lparr>ps_wait := w\<rparr>)) rec'))"

lemma calm_simps [simp]: "ev_ctx (calm ev) = None" "ev_zstd (calm ev) = ev_zstd ev"
  by (simp_all add: calm_def)

lemma acceptAll_put [simp]:
  "putBlobIfMissing acceptAll n d b sz r = (None, r @ [(d, b)])"
  by (simp add: putBlobIfMissing_def acceptAll_def)

lemma acceptAll_chunk:
  "uploadChunk (calm (pl_env P)) acceptAll (o_ZstdLevel (pl_opts P)) n (u_mediaType c) (u_title c) (int (u_index c))
     (u_count c) data rec =
   (Inr (jobDesc (jobOf c data) (jobStored P (jobOf c data))), rec @ offered (jobStored P (jobOf c data)))"
  by (auto simp: uploadChunk_def Let_def jobDesc_def jobStored_def jobOf_def encodeJob_def chunkDesc_def offered_def
      digestOf_def)

lemma acceptAll_spooled:
  "uploadSpooled acceptAll n title mt (Inr b) rec = (Inr (titled mt title b), rec @ offered b)"
  "uploadSpooled acceptAll n title mt (Inl e) rec = (Inl e, rec)"
  by (simp_all add: uploadSpooled_def offered_def digestOf_def)

text \<open>Unfolding the reference along the reader's steps.\<close>

lemma seqCut_end: "u_left c = 0 \<Longrightarrow> ps_wait st = None \<Longrightarrow> seqCut P c es st ds rec = seqLoop P es (addGroup (u_title c) ds st) rec"
  by (cases st) (simp add: seqCut_def)

lemma seqCut_failed:
  assumes "0 < u_left c" and "readError c (readChunk P c) = Some e" and "ps_wait st = None"
  shows "seqCut P c es st ds rec = (Some e, st, rec)"
proof -
  obtain k where k: "u_left c = Suc k" using assms(1) by (cases "u_left c") auto
  show ?thesis
    using assms(2,3) by (cases st) (auto simp: seqCut_def k readError_def readChunk_def want_def Let_def
      split: option.splits prod.splits)
qed

lemma seqCut_next:
  assumes "0 < u_left c" and "readChunk P c = Some (data, None, body)"
  shows "seqCut P c es st ds rec = seqCut P (nextCut P c body) es st
    (ds @ [jobDesc (jobOf c data) (jobStored P (jobOf c data))]) (rec @ offered (jobStored P (jobOf c data)))"
proof -
  obtain k where k: "u_left c = Suc k" using assms(1) by (cases "u_left c") auto
  show ?thesis
    using assms(2) by (simp add: seqCut_def k readChunk_def want_def nextCut_def Let_def acceptAll_chunk add.commute
      split: prod.split option.split)
qed

lemma seqLoop_Nil:
  "ps_wait st = None \<Longrightarrow> seqLoop P [] st rec =
     (if errors_is (pl_end P) EOF then None else Some (Wrap ''read tar entry'' (pl_end P)), st, rec)"
  by (simp add: seqLoop_def readLoop.simps)

text \<open>The reference offers its blobs one after the other, and nothing sets the group's error.\<close>

lemma enqueueLoop_offers:
  assumes "enqueueLoop (calm ev) acceptAll level n mt title cs count k i rem body None rec = (err, ds, w, rec')"
  shows "w = None \<and> (\<exists>more. rec' = rec @ more)"
  using assms
proof (induction k arbitrary: i rem body rec err ds)
  case (Suc k)
  show ?case
  proof (cases "\<exists>data body'. io_ReadFull rd_read (nat (min cs rem)) body = Some (data, None, body')")
    case False
    with Suc.prems show ?thesis by (auto simp: Let_def split: option.splits)
  next
    case True
    then obtain data body' where rf: "io_ReadFull rd_read (nat (min cs rem)) body = Some (data, None, body')" by blast
    obtain d x where u: "uploadChunk (calm ev) acceptAll level n mt title i count data rec = (Inr d, rec @ x)"
      by (auto simp: uploadChunk_def Let_def)
    from Suc.prems rf u obtain ds1 where
      "enqueueLoop (calm ev) acceptAll level n mt title cs count k (i + 1) (rem - min cs rem) body' None (rec @ x) =
        (err, ds1, w, rec')"
      by (auto simp: Let_def split: prod.splits)
    from Suc.IH [OF this] show ?thesis by auto
  qed
qed auto


lemma enqueueChunks_offers:
  assumes "enqueueChunks (calm ev) acceptAll level n e cs compress None rec = (err, ds, w, rec')"
  shows "w = None \<and> (\<exists>more. rec' = rec @ more)"
  using assms by (auto simp: enqueueChunks_def Let_def split: if_splits dest: enqueueLoop_offers)

lemma pushFile_offers:
  assumes "pushFile (calm ev) acceptAll opts cs e st rec = (err, st', rec')" and "ps_wait st = None"
  shows "ps_wait st' = None \<and> (\<exists>more. rec' = rec @ more)"
proof (cases "cs > 0 \<and> (o_ZstdLevel opts > 0 \<and> h_Size (e_hdr e) \<ge> compressMinBytes \<or> h_Size (e_hdr e) > cs)")
  case True
  obtain er ds w r1 where q: "enqueueChunks (calm ev) acceptAll (o_ZstdLevel opts) (o_Name opts) e cs
      (o_ZstdLevel opts > 0 \<and> h_Size (e_hdr e) \<ge> compressMinBytes) None rec = (er, ds, w, r1)"
    by (metis prod_cases4)
  from enqueueChunks_offers [OF q] assms True q show ?thesis
    by (auto simp: pushFile_def Let_def addGroup_def split: option.splits)
next
  case False
  show ?thesis
  proof (cases "copyLimited e")
    case (Inl er)
    with False assms show ?thesis
      by (auto simp: pushFile_def Let_def addGroup_def uploadCompressedSpool_def uploadTarEntry_def acceptAll_spooled
          split: if_splits)
  next
    case (Inr b)
    with False assms show ?thesis
      by (auto simp: pushFile_def Let_def addGroup_def uploadCompressedSpool_def uploadTarEntry_def acceptAll_spooled
          split: if_splits)
  qed
qed

lemma pushEntry_offers:
  assumes "pushEntry (calm ev) acceptAll opts cs e st rec = (err, st', rec')" and "ps_wait st = None"
  shows "ps_wait st' = None \<and> (\<exists>more. rec' = rec @ more)"
  using assms pushFile_offers [of ev opts cs e _ rec err st' rec']
  by (auto simp: pushEntry_def Let_def split: if_splits sum.splits)

lemma seqLoop_Cons:
  "ps_wait st = None \<Longrightarrow> seqLoop P (e # es) st rec =
     (case pushEntry (calm (pl_env P)) acceptAll (pl_opts P) (pl_chunkSize P) e st rec of
        (Some er, st', rec') \<Rightarrow> (Some er, st', rec')
      | (None, st', rec') \<Rightarrow> seqLoop P es st' rec')"
  unfolding seqLoop_def by (subst readLoop.simps) (simp split: prod.split option.split)

lemma seqLoop_offers:
  "seqLoop P es st rec = (err, st', rec') \<Longrightarrow> ps_wait st = None \<Longrightarrow> ps_wait st' = None \<and> (\<exists>more. rec' = rec @ more)"
proof (induction es arbitrary: st rec)
  case Nil
  then show ?case by (auto simp: seqLoop_Nil)
next
  case (Cons e es)
  obtain er st1 rec1 where p: "pushEntry (calm (pl_env P)) acceptAll (pl_opts P) (pl_chunkSize P) e st rec = (er, st1, rec1)"
    by (metis prod_cases3)
  note o = pushEntry_offers [OF p Cons.prems(2)]
  show ?case
  proof (cases er)
    case None
    with Cons.prems p have "seqLoop P es st1 rec1 = (err, st', rec')" by (simp add: seqLoop_Cons)
    with Cons.IH o show ?thesis by fastforce
  next
    case (Some x)
    with Cons.prems p o show ?thesis by (auto simp: seqLoop_Cons)
  qed
qed

lemma seqCut_offers:
  assumes "seqCut P c es st ds rec = (err, st', rec')" and "ps_wait st = None"
  shows "ps_wait st' = None \<and> (\<exists>more. rec' = rec @ more)"
proof -
  obtain er ds1 w rec1 where q: "enqueueLoop (calm (pl_env P)) acceptAll (o_ZstdLevel (pl_opts P)) (o_Name (pl_opts P))
      (u_mediaType c) (u_title c) (pl_chunkSize P) (u_count c) (u_left c) (int (u_index c)) (u_remaining c) (u_body c)
      None rec = (er, ds1, w, rec1)"
    by (metis prod_cases4)
  note o = enqueueLoop_offers [OF q]
  show ?thesis
  proof (cases er)
    case None
    with assms q have "seqLoop P es (addGroup (u_title c) (ds @ ds1) (st\<lparr>ps_wait := w\<rparr>)) rec1 = (err, st', rec')"
      by (simp add: seqCut_def)
    from seqLoop_offers [OF this] o show ?thesis by (auto simp: addGroup_def)
  next
    case (Some x)
    with assms q o show ?thesis by (auto simp: seqCut_def)
  qed
qed

section \<open>The link to the reference\<close>

text \<open>
  \<open>G\<close> is the store of slices with the descriptors of all workers, also of those that have not written
  theirs yet; \<open>rec\<close> is what the reference has offered when it is where the reader is.
\<close>

definition absState :: "Descriptor list list \<Rightarrow> 'r pool \<Rightarrow> push_state" where
  "absState G s = (q_st s)\<lparr>ps_groups := resolve G (q_groups s), ps_wait := None\<rparr>"

definition reliable :: "'r Uploader \<Rightarrow> string \<Rightarrow> bool" where
  "reliable up n =
     ((\<forall>b r. \<exists>x. up_HasBlob up n (digestOf b) r = Inr x) \<and>
      (\<forall>b r. fst (up_PutBlob up n (digestOf b) b (int (length b)) r) = None))"

fun cut_of :: "reader_at \<Rightarrow> (cutting \<times> tar_entry list) option" where
  "cut_of (AtCheck c es) = Some (c, es)" | "cut_of (AtTake c es) = Some (c, es)" | "cut_of (AtRead c b es) = Some (c, es)"
| "cut_of (AtGo c b d body es) = Some (c, es)" | "cut_of _ = None"

fun whole_of :: "reader_at \<Rightarrow> (string \<times> string \<times> bytes \<times> tar_entry list) option" where
  "whole_of (AtHas t m d es) = Some (t, m, d, es)" | "whole_of (AtPut t m d es) = Some (t, m, d, es)" | "whole_of _ = None"

fun buf_at :: "reader_at \<Rightarrow> int option" where
  "buf_at (AtRead c b es) = Some b" | "buf_at (AtGo c b d body es) = Some b" | "buf_at _ = None"

fun more_left :: "reader_at \<Rightarrow> bool" where
  "more_left (AtTake c es) = (0 < u_left c)" | "more_left (AtRead c b es) = (0 < u_left c)"
| "more_left (AtGo c b d body es) = (0 < u_left c)" | "more_left _ = True"

definition follows :: "'r pipeline \<Rightarrow> tar_entry list \<Rightarrow> Descriptor list list \<Rightarrow> (string \<times> bytes) list \<Rightarrow> 'r pool \<Rightarrow> bool" where
  "follows P es0 G rec s =
     (let seq = seqLoop P es0 initState [] in
      (\<forall>es. q_reader s = AtLoop es \<longrightarrow> seq = seqLoop P es (absState G s) rec) \<and>
      (\<forall>c es. cut_of (q_reader s) = Some (c, es) \<longrightarrow>
         seq = seqCut P c es (absState G s) (take (u_index c) (G ! u_slice c)) rec \<and>
         u_slice c < length G \<and> u_slice c \<notin> snd ` set (q_groups s) \<and> u_index c + u_left c = length (G ! u_slice c) \<and>
         (\<forall>k \<in> set (q_workers s). j_slice (k_job k) = u_slice c \<longrightarrow> j_index (k_job k) < u_index c)) \<and>
      more_left (q_reader s) \<and>
      (\<forall>c b data body es. q_reader s = AtGo c b data body es \<longrightarrow> readChunk P c = Some (data, None, body)) \<and>
      (\<forall>t m d es. whole_of (q_reader s) = Some (t, m, d, es) \<longrightarrow>
         seq = seqLoop P es (addGroup t [titled m t d] (absState G s)) rec \<and> (digestOf d, d) \<in> set rec) \<and>
      (\<forall>err. q_reader s = AtWait err \<longrightarrow> q_eg s = None \<longrightarrow> err = None \<or> reliable (pl_up P) (o_Name (pl_opts P)) \<longrightarrow>
         (\<exists>st L. seq = (err, st, L) \<and> (err = None \<longrightarrow> st = absState G s \<and> L = rec))))"

definition pending :: "'r pool \<Rightarrow> nat \<Rightarrow> nat \<Rightarrow> bool" where
  "pending s a i = (\<exists>k \<in> set (q_workers s). \<not> finished k \<and> j_slice (k_job k) = a \<and> j_index (k_job k) = i)"

definition slices_ok :: "'r pipeline \<Rightarrow> Descriptor list list \<Rightarrow> 'r pool \<Rightarrow> bool" where
  "slices_ok P G s =
     (length (q_slices s) = length G \<and>
      (\<forall>a < length G. length (q_slices s ! a) = length (G ! a) \<and>
        (\<forall>i < length (G ! a). q_slices s ! a ! i = G ! a ! i \<or> pending s a i \<or> ps_wait (q_st s) \<noteq> None)) \<and>
      (\<forall>g \<in> set (q_groups s). snd g < length G) \<and>
      (\<forall>k \<in> set (q_workers s). let j = k_job k in
         j_slice j < length G \<and> j_index j < length (G ! j_slice j) \<and>
         G ! j_slice j ! j_index j = jobDesc j (jobStored P j)))"

definition stored_ok :: "'r pipeline \<Rightarrow> worker \<Rightarrow> bool" where
  "stored_ok P k =
     (case k_phase k of
        PhEncode b o' \<Rightarrow> IsZstdMediaType (j_mediaType (k_job k))
      | PhHas x h \<Rightarrow> x = jobStored P (k_job k)
      | PhPut x h \<Rightarrow> x = jobStored P (k_job k)
      | PhReturn x h res \<Rightarrow> x = jobStored P (k_job k)
      | PhFinish x res \<Rightarrow> x = jobStored P (k_job k)
      | _ \<Rightarrow> True)"

definition link_inv :: "'r pipeline \<Rightarrow> tar_entry list \<Rightarrow> Descriptor list list \<Rightarrow> (string \<times> bytes) list \<Rightarrow> 'r pool \<Rightarrow> bool" where
  "link_inv P es0 G rec s = (follows P es0 G rec s \<and> slices_ok P G s \<and> (\<forall>k \<in> set (q_workers s). stored_ok P k))"

lemmas pool_defs = setAt_def setSt_def setPhase_def

lemma absState_wait [simp]: "ps_wait (absState G s) = None"
  by (simp add: absState_def)

lemma link_new: "link_inv P es [] [] (newPool P es r)"
  by (simp add: link_inv_def follows_def slices_ok_def newPool_def absState_def initState_def resolve_def)

text \<open>A step of a worker changes its phase, the pools, the registry, and at its end a slot or the error.\<close>

lemma worker_step_shape:
  assumes "worker_step P i s s'"
  shows "\<exists>ph. q_workers s' = (q_workers s)[i := (q_workers s ! i)\<lparr>k_phase := ph\<rparr>] \<and>
      (stored_ok P (q_workers s ! i) \<longrightarrow> stored_ok P ((q_workers s ! i)\<lparr>k_phase := ph\<rparr>)) \<and>
      \<not> finished (q_workers s ! i) \<and>
      (ph = PhDone \<longrightarrow>
        (\<exists>x. k_phase (q_workers s ! i) = PhFinish x None \<and> q_slices s' = writeSlot (j_slice (k_job (q_workers s ! i)))
          (j_index (k_job (q_workers s ! i))) (jobDesc (k_job (q_workers s ! i)) x) (q_slices s)) \<or>
        (q_slices s' = q_slices s \<and> ps_wait (q_st s') \<noteq> None)) \<and>
      (ph \<noteq> PhDone \<longrightarrow> q_slices s' = q_slices s)"
    and "q_reader s' = q_reader s" and "q_groups s' = q_groups s" and "absState G s' = absState G s"
    and "q_eg s' = None \<Longrightarrow> q_eg s = None" and "ps_wait (q_st s) \<noteq> None \<Longrightarrow> ps_wait (q_st s') \<noteq> None"
    and "q_ctx s' = q_ctx s"
  using assms
  by (cases; auto simp: pool_defs finished_def stored_ok_def jobStored_def groupError_def absState_def split: option.splits)+


lemma pending_update:
  assumes "q_workers s' = (q_workers s)[i := (q_workers s ! i)\<lparr>k_phase := ph\<rparr>]" and "i < length (q_workers s)"
    and "pending s a n" and "ph = PhDone \<Longrightarrow> j_slice (k_job (q_workers s ! i)) \<noteq> a \<or> j_index (k_job (q_workers s ! i)) \<noteq> n"
  shows "pending s' a n"
proof -
  from assms(3) obtain l where l: "l < length (q_workers s)" "\<not> finished (q_workers s ! l)"
      "j_slice (k_job (q_workers s ! l)) = a" "j_index (k_job (q_workers s ! l)) = n"
    by (auto simp: pending_def in_set_conv_nth)
  have "q_workers s' ! l = (if l = i then (q_workers s ! i)\<lparr>k_phase := ph\<rparr> else q_workers s ! l)"
    using assms(1,2) by simp
  with l assms(4) have "\<not> finished (q_workers s' ! l) \<and> j_slice (k_job (q_workers s' ! l)) = a \<and>
      j_index (k_job (q_workers s' ! l)) = n"
    by (auto simp: finished_def)
  moreover have "q_workers s' ! l \<in> set (q_workers s')" using l(1) assms(1) by simp
  ultimately show ?thesis by (auto simp: pending_def)
qed

lemma writeSlot_nth:
  "a < length H \<Longrightarrow> writeSlot a i d H ! b = (if b = a then (H ! a)[i := d] else H ! b)"
  by (simp add: writeSlot_def)

lemma writeSlot_length [simp]: "length (writeSlot a i d H) = length H"
  by (simp add: writeSlot_def)

lemma worker_set:
  assumes "ks' = ks[i := (ks ! i)\<lparr>k_phase := ph\<rparr>]" and "i < length ks" and "k' \<in> set ks'"
  shows "k' = (ks ! i)\<lparr>k_phase := ph\<rparr> \<or> k' \<in> set ks" and "\<exists>k \<in> set ks. k_job k' = k_job k"
proof -
  from assms(1,3) set_update_subset_insert show *: "k' = (ks ! i)\<lparr>k_phase := ph\<rparr> \<or> k' \<in> set ks" by fastforce
  then show "\<exists>k \<in> set ks. k_job k' = k_job k" using assms(2) by (metis nth_mem worker.select_convs(1) worker.surjective worker.update_convs(2))
qed

lemma worker_step_link:
  assumes w: "worker_step P i s s'" and i: "i < length (q_workers s)" and l: "link_inv P es0 G rec s"
  shows "link_inv P es0 G rec s'"
proof -
  from worker_step_shape(1) [OF w] obtain ph where
    ph: "q_workers s' = (q_workers s)[i := (q_workers s ! i)\<lparr>k_phase := ph\<rparr>]"
      "stored_ok P (q_workers s ! i) \<longrightarrow> stored_ok P ((q_workers s ! i)\<lparr>k_phase := ph\<rparr>)"
      "\<not> finished (q_workers s ! i)"
      "ph = PhDone \<longrightarrow> (\<exists>x. k_phase (q_workers s ! i) = PhFinish x None \<and>
        q_slices s' = writeSlot (j_slice (k_job (q_workers s ! i))) (j_index (k_job (q_workers s ! i)))
          (jobDesc (k_job (q_workers s ! i)) x) (q_slices s)) \<or>
        (q_slices s' = q_slices s \<and> ps_wait (q_st s') \<noteq> None)"
      "ph \<noteq> PhDone \<longrightarrow> q_slices s' = q_slices s"
    by blast
  note sh = worker_step_shape(2-7) [OF w]
  let ?k = "q_workers s ! i"
  let ?a = "j_slice (k_job ?k)" and ?n = "j_index (k_job ?k)"
  have k: "?k \<in> set (q_workers s)" using i by simp
  from l have f: "follows P es0 G rec s" and sl: "slices_ok P G s" and so: "\<forall>k \<in> set (q_workers s). stored_ok P k"
    by (simp_all add: link_inv_def)
  have jobs: "\<forall>k \<in> set (q_workers s). Q (k_job k) \<Longrightarrow> \<forall>k \<in> set (q_workers s'). Q (k_job k)" for Q
    using worker_set(2) [OF ph(1) i] by fastforce
  have "follows P es0 G rec s'"
    using f sh(4) unfolding follows_def Let_def sh(1-3)
    by (auto intro!: jobs)
  moreover have "\<forall>k \<in> set (q_workers s'). stored_ok P k"
    using worker_set(1) [OF ph(1) i] so ph(2) k by blast
  moreover have "slices_ok P G s'"
  proof -
    have jk: "?a < length G" "?n < length (G ! ?a)" "G ! ?a ! ?n = jobDesc (k_job ?k) (jobStored P (k_job ?k))"
      using sl k by (auto simp: slices_ok_def Let_def)
    have len: "length (q_slices s) = length G" "\<And>a. a < length G \<Longrightarrow> length (q_slices s ! a) = length (G ! a)"
      using sl by (auto simp: slices_ok_def)
    have old: "q_slices s ! a ! n = G ! a ! n \<or> pending s a n \<or> ps_wait (q_st s) \<noteq> None"
      if "a < length G" "n < length (G ! a)" for a n using sl that by (auto simp: slices_ok_def)
    have H: "q_slices s' = q_slices s \<or> q_slices s' = writeSlot ?a ?n (G ! ?a ! ?n) (q_slices s)"
      using ph(4,5) so k jk(3) by (auto simp: stored_ok_def)
    have cell: "q_slices s' ! a ! n = G ! a ! n \<or> pending s' a n \<or> ps_wait (q_st s') \<noteq> None"
      if an: "a < length G" "n < length (G ! a)" for a n
    proof (cases "ph = PhDone \<and> a = ?a \<and> n = ?n")
      case True
      with ph(4) so k jk len show ?thesis by (auto simp: stored_ok_def writeSlot_nth)
    next
      case False
      then have "pending s a n \<Longrightarrow> pending s' a n" using pending_update [OF ph(1) i] by blast
      moreover have "q_slices s ! a ! n = G ! a ! n \<Longrightarrow> q_slices s' ! a ! n = G ! a ! n"
        using H len jk an by (auto simp: writeSlot_nth nth_list_update)
      ultimately show ?thesis using old [OF an] sh(5) by blast
    qed
    have "length (q_slices s') = length G" "\<And>a. a < length G \<Longrightarrow> length (q_slices s' ! a) = length (G ! a)"
      using H len jk(1) by (auto simp: writeSlot_nth)
    with cell show ?thesis
      using sl worker_set(2) [OF ph(1) i] sh(2) by (fastforce simp: slices_ok_def Let_def)
  qed
  ultimately show ?thesis by (simp add: link_inv_def)
qed


text \<open>What the reference offers in a step of the reader: nothing, the blob of a new worker, or a whole file.\<close>

definition extends :: "'r pipeline \<Rightarrow> 'r pool \<Rightarrow> (string \<times> bytes) list \<Rightarrow> 'r pool \<Rightarrow> (string \<times> bytes) list \<Rightarrow> bool" where
  "extends P s rec s' rec' =
     ((rec' = rec \<and> q_workers s' = q_workers s) \<or>
      (\<exists>b t m es. rec' = rec @ offered b \<and> q_workers s' = q_workers s \<and> whole_of (q_reader s') = Some (t, m, b, es)) \<or>
      (\<exists>k b. rec' = rec @ offered (jobStored P (k_job k)) \<and> q_workers s' = q_workers s @ [k] \<and> k_phase k = PhStart b))"

lemma resolve_append: "\<forall>g \<in> set gs. snd g < length G \<Longrightarrow> resolve (G @ X) gs = resolve G gs"
  by (auto simp: resolve_def nth_append)

lemma slices_ok_groups: "slices_ok P G s \<Longrightarrow> \<forall>g \<in> set (q_groups s). snd g < length G"
  by (simp add: slices_ok_def)

lemma slices_ok_same:
  assumes "slices_ok P G s" and "q_slices s' = q_slices s" and "q_workers s' = q_workers s" and "q_groups s' = q_groups s"
    and "ps_wait (q_st s') = ps_wait (q_st s)"
  shows "slices_ok P G s'"
  using assms by (simp add: slices_ok_def pending_def)

lemma slices_ok_alloc:
  assumes "slices_ok P G s" and "q_slices s' = q_slices s @ [ds]" and "q_workers s' = q_workers s"
    and "set (q_groups s') \<subseteq> insert (t, length G) (set (q_groups s))" and "ps_wait (q_st s') = ps_wait (q_st s)"
  shows "slices_ok P (G @ [ds]) s'"
proof -
  have len: "length (q_slices s) = length G" using assms(1) by (simp add: slices_ok_def)
  have "(\<forall>g \<in> set (q_groups s'). snd g < length (G @ [ds]))"
    using assms(4) slices_ok_groups [OF assms(1)] by fastforce
  moreover have "pending s' = pending s" by (simp add: pending_def assms(3) fun_eq_iff)
  ultimately show ?thesis
    using assms(1) len unfolding slices_ok_def assms(2,3,5) by (auto simp: nth_append less_Suc_eq Let_def)
qed

lemma absState_append: "slices_ok P G s \<Longrightarrow> absState (G @ X) s = absState G s"
  by (simp add: absState_def resolve_append slices_ok_groups)

lemma absState_fields:
  "q_st s' = q_st s \<Longrightarrow> q_groups s' = q_groups s \<Longrightarrow> absState G s' = absState G s"
  by (simp add: absState_def)

lemma follows_failed:
  assumes "\<exists>e. q_reader s = AtWait (Some e) \<and> fst (seqLoop P es0 initState []) = Some e"
  shows "follows P es0 G rec s"
  using assms by (cases "seqLoop P es0 initState []") (auto simp: follows_def)

lemma follows_loop:
  assumes "seqLoop P es0 initState [] = seqLoop P es (absState G s) rec" and "q_reader s = AtLoop es"
  shows "follows P es0 G rec s"
  using assms by (simp add: follows_def)

lemma follows_whole:
  assumes "seqLoop P es0 initState [] = seqLoop P es (addGroup t [titled m t d] (absState G s)) rec"
    and "(digestOf d, d) \<in> set rec" and "whole_of (q_reader s) = Some (t, m, d, es)"
  shows "follows P es0 G rec s"
  using assms by (cases "q_reader s") (simp_all add: follows_def)

lemma offered_in [simp]: "(digestOf b, b) \<in> set (rec @ offered b)"
  by (simp add: offered_def)

lemma startChunks_link:
  assumes sl: "slices_ok P G s"
    and seq: "seqLoop P es0 initState [] =
      (case enqueueChunks (calm (pl_env P)) acceptAll (o_ZstdLevel (pl_opts P)) (o_Name (pl_opts P)) e (pl_chunkSize P)
         compress None rec of
        (err, ds, w, rec') \<Rightarrow>
          (case err of
             Some er \<Rightarrow> (Some er, (absState G s)\<lparr>ps_wait := w\<rparr>, rec')
           | None \<Rightarrow> seqLoop P es (addGroup (h_Name (e_hdr e)) ds ((absState G s)\<lparr>ps_wait := w\<rparr>)) rec'))"
  shows "\<exists>G'. follows P es0 G' rec (startChunks P e compress es s) \<and> slices_ok P G' (startChunks P e compress es s) \<and>
    extends P s rec (startChunks P e compress es s) rec"
proof -
  let ?hdr = "e_hdr e" and ?cs = "pl_chunkSize P"
  define count where "count = quot64 (wrap64 (wrap64 (h_Size ?hdr + ?cs) - 1)) ?cs"
  have ext: "extends P s rec (startChunks P e compress es s) rec"
    by (simp add: extends_def startChunks_def Let_def pool_defs)
  show ?thesis
  proof (cases "count > 2 ^ 20 \<or> count < 0")
    case True
    then have "follows P es0 G rec (startChunks P e compress es s)"
      using seq by (intro follows_failed) (auto simp: startChunks_def enqueueChunks_def Let_def pool_defs count_def [symmetric])
    moreover have "slices_ok P G (startChunks P e compress es s)"
      using True by (intro slices_ok_same [OF sl]) (auto simp: startChunks_def Let_def pool_defs count_def [symmetric])
    ultimately show ?thesis using ext by blast
  next
    case False
    let ?G = "G @ [replicate (nat count) zeroDescriptor]"
    let ?mt = "if compress then ZstdMediaType (MediaTypeForCocoonFile (h_Name ?hdr)) else MediaTypeForCocoonFile (h_Name ?hdr)"
    let ?c = "\<lparr>u_slice = length G, u_mediaType = ?mt, u_title = h_Name ?hdr, u_count = count, u_left = nat count,
      u_index = 0, u_remaining = h_Size ?hdr, u_body = e_body e\<rparr>"
    have len: "length (q_slices s) = length G" using sl by (simp add: slices_ok_def)
    have st: "startChunks P e compress es s = setAt (AtCheck ?c es)
        (s\<lparr>q_slices := q_slices s @ [replicate (nat count) zeroDescriptor]\<rparr>)"
      using False by (simp add: startChunks_def Let_def count_def [symmetric] len)
    have "slices_ok P ?G (startChunks P e compress es s)"
      unfolding st by (rule slices_ok_alloc [OF sl]) (auto simp: pool_defs)
    moreover have "follows P es0 ?G rec (startChunks P e compress es s)"
    proof -
      have a: "absState ?G (startChunks P e compress es s) = absState G s"
        using absState_append [OF sl] by (simp add: st pool_defs absState_def)
      have "seqLoop P es0 initState [] = seqCut P ?c es (absState G s) [] rec"
        using seq False
        by (simp add: enqueueChunks_def Let_def count_def [symmetric] seqCut_def split: prod.split option.split)
      moreover have "length G \<notin> snd ` set (q_groups s)" using slices_ok_groups [OF sl] by force
      moreover have "\<forall>k \<in> set (q_workers s). j_slice (k_job k) \<noteq> length G" using sl by (auto simp: slices_ok_def Let_def)
      ultimately show ?thesis unfolding follows_def a by (simp add: st pool_defs)
    qed
    ultimately show ?thesis using ext by blast
  qed
qed

lemma startFile_link:
  assumes sl: "slices_ok P G s"
    and seq: "seqLoop P es0 initState [] =
      (case pushFile (calm (pl_env P)) acceptAll (pl_opts P) (pl_chunkSize P) e (absState G s) rec of
        (Some er, st', rec') \<Rightarrow> (Some er, st', rec')
      | (None, st', rec') \<Rightarrow> seqLoop P es st' rec')"
  shows "\<exists>G' rec'. follows P es0 G' rec' (startFile P e es s) \<and> slices_ok P G' (startFile P e es s) \<and>
    extends P s rec (startFile P e es s) rec'"
proof -
  let ?hdr = "e_hdr e" and ?cs = "pl_chunkSize P" and ?l = "o_ZstdLevel (pl_opts P)"
  let ?compress = "?l > 0 \<and> h_Size ?hdr \<ge> compressMinBytes"
  let ?enc = "setSt ((q_st s)\<lparr>ps_encoded := True\<rparr>) s"
  have abs: "absState G ?enc = (absState G s)\<lparr>ps_encoded := True\<rparr>" by (simp add: absState_def pool_defs)
  have sle: "slices_ok P G ?enc" by (rule slices_ok_same [OF sl]) (simp_all add: pool_defs)
  show ?thesis
  proof (cases "?cs > 0 \<and> (?compress \<or> h_Size ?hdr > ?cs)")
    case True
    then have st: "startFile P e es s = startChunks P e ?compress es ?enc"
      by (simp add: startFile_def Let_def)
    have "\<exists>G'. follows P es0 G' rec (startChunks P e ?compress es ?enc) \<and> slices_ok P G' (startChunks P e ?compress es ?enc) \<and>
      extends P ?enc rec (startChunks P e ?compress es ?enc) rec"
      by (rule startChunks_link [OF sle]) (use seq True in \<open>simp add: pushFile_def Let_def abs split: prod.splits option.splits\<close>)
    then show ?thesis unfolding st by (simp add: extends_def pool_defs) blast
  next
    case False
    let ?mt = "MediaTypeForCocoonFile (h_Name ?hdr)"
    show ?thesis
    proof (cases "copyLimited e")
      case (Inl er)
      have "follows P es0 G rec (startFile P e es s)"
        using seq False Inl
        by (cases ?compress) (auto intro!: follows_failed simp: startFile_def pushFile_def Let_def uploadCompressedSpool_def uploadTarEntry_def
            acceptAll_spooled pool_defs)
      moreover have "slices_ok P G (startFile P e es s)" "extends P s rec (startFile P e es s) rec"
        using False Inl by (auto simp: startFile_def Let_def pool_defs extends_def intro!: slices_ok_same [OF sl])
      ultimately show ?thesis by blast
    next
      case (Inr b)
      define x where "x = (if ?compress then z_EncodeStream (ev_zstd (pl_env P)) ?l b else b)"
      define mt where "mt = (if ?compress then ZstdMediaType ?mt else ?mt)"
      let ?s = "if ?compress then ?enc else s"
      have st: "startFile P e es s = setAt (AtHas (h_Name ?hdr) mt x es) ?s"
        using False Inr by (auto simp: startFile_def Let_def x_def mt_def)
      have "seqLoop P es0 initState [] = seqLoop P es (addGroup (h_Name ?hdr) [titled mt (h_Name ?hdr) x] (absState G ?s))
          (rec @ offered x)"
        using seq False Inr
        by (auto simp: pushFile_def Let_def uploadCompressedSpool_def uploadTarEntry_def acceptAll_spooled abs x_def mt_def
            split: if_splits)
      moreover have "absState G (startFile P e es s) = absState G ?s" by (simp add: st pool_defs absState_def)
      ultimately have "follows P es0 G (rec @ offered x) (startFile P e es s)"
        by (intro follows_whole [where t = "h_Name ?hdr" and m = mt and d = x and es = es])
          (simp_all only: offered_in, simp add: st pool_defs)
      moreover have "slices_ok P G (startFile P e es s)" unfolding st
        by (rule slices_ok_same [OF sl]) (simp_all add: pool_defs)
      moreover have "extends P s rec (startFile P e es s) (rec @ offered x)"
        by (auto simp: extends_def st pool_defs)
      ultimately show ?thesis by blast
    qed
  qed
qed

lemma startEntry_link:
  assumes sl: "slices_ok P G s" and seq: "seqLoop P es0 initState [] = seqLoop P (e # es) (absState G s) rec"
  shows "\<exists>G' rec'. follows P es0 G' rec' (startEntry P e es s) \<and> slices_ok P G' (startEntry P e es s) \<and>
    extends P s rec (startEntry P e es s) rec'"
proof (cases "h_Name (e_hdr e) = snapshotJSONName \<or> h_Typeflag (e_hdr e) \<noteq> TypeReg \<or> h_Size (e_hdr e) < 0 \<or>
    (\<exists>er. sparseFileMeta (e_hdr e) = Inl er)")
  case True
  have "follows P es0 G rec (startEntry P e es s)"
  proof (cases "h_Name (e_hdr e) = snapshotJSONName")
    case json: True
    show ?thesis
    proof (cases "decodeExportEnvelope (rd_content (e_body e))")
      case (Inl er)
      with seq json show ?thesis
        by (intro follows_failed) (simp add: seqLoop_Cons startEntry_def pushEntry_def Let_def pool_defs)
    next
      case (Inr c)
      have "absState G (startEntry P e es s) = (absState G s)\<lparr>ps_cfg := Some c\<rparr>"
        using Inr json by (simp add: startEntry_def Let_def pool_defs absState_def)
      with seq json Inr show ?thesis
        by (intro follows_loop [where es = es])
          (simp_all add: seqLoop_Cons startEntry_def pushEntry_def Let_def pool_defs)
    qed
  next
    case other: False
    show ?thesis
    proof (cases "h_Typeflag (e_hdr e) \<noteq> TypeReg")
      case True
      then have "absState G (startEntry P e es s) = absState G s"
        using other by (simp add: startEntry_def Let_def pool_defs absState_def)
      with seq other True show ?thesis
        by (intro follows_loop [where es = es])
          (simp_all add: seqLoop_Cons startEntry_def pushEntry_def Let_def pool_defs)
    next
      case False
      with seq other \<open>h_Name (e_hdr e) = snapshotJSONName \<or> _\<close> show ?thesis
        by (intro follows_failed) (auto simp: seqLoop_Cons startEntry_def pushEntry_def Let_def pool_defs)
    qed
  qed
  moreover have "slices_ok P G (startEntry P e es s)" "extends P s rec (startEntry P e es s) rec"
    using True by (auto simp: startEntry_def Let_def pool_defs extends_def intro!: slices_ok_same [OF sl] split: sum.splits)
  ultimately show ?thesis by blast
next
  case False
  then obtain fm where fm: "sparseFileMeta (e_hdr e) = Inr fm" by (cases "sparseFileMeta (e_hdr e)") auto
  let ?s = "setSt ((q_st s)\<lparr>ps_files := fmupd (h_Name (e_hdr e)) (fm\<lparr>f_Size := h_Size (e_hdr e)\<rparr>) (ps_files (q_st s))\<rparr>) s"
  have st: "startEntry P e es s = startFile P e es ?s" using False fm by (simp add: startEntry_def Let_def)
  have abs: "absState G ?s = (absState G s)\<lparr>ps_files := fmupd (h_Name (e_hdr e)) (fm\<lparr>f_Size := h_Size (e_hdr e)\<rparr>)
      (ps_files (absState G s))\<rparr>" by (simp add: absState_def pool_defs)
  have "\<exists>G' rec'. follows P es0 G' rec' (startFile P e es ?s) \<and> slices_ok P G' (startFile P e es ?s) \<and>
    extends P ?s rec (startFile P e es ?s) rec'"
  proof (rule startFile_link)
    show "slices_ok P G ?s" by (rule slices_ok_same [OF sl]) (simp_all add: pool_defs)
    show "seqLoop P es0 initState [] =
      (case pushFile (calm (pl_env P)) acceptAll (pl_opts P) (pl_chunkSize P) e (absState G ?s) rec of
        (Some er, st', rec') \<Rightarrow> (Some er, st', rec')
      | (None, st', rec') \<Rightarrow> seqLoop P es st' rec')"
      unfolding abs using seq False fm by (simp add: seqLoop_Cons pushEntry_def Let_def)
  qed
  then show ?thesis unfolding st by (simp add: extends_def pool_defs)
qed


text \<open>Starting a worker: its descriptor is entered in \<open>G\<close> at once.\<close>

lemma cut_go_link:
  assumes q: "q_reader s = AtGo c b data body es" and f: "follows P es0 G rec s" and sl: "slices_ok P G s"
    and s': "s' = setAt (AtCheck (nextCut P c body) es)
      (s\<lparr>q_workers := q_workers s @ [\<lparr>k_job = jobOf c data, k_phase = PhStart b\<rparr>]\<rparr>)"
  shows "\<exists>G' rec'. follows P es0 G' rec' s' \<and> slices_ok P G' s' \<and> extends P s rec s' rec'"
proof -
  let ?j = "jobOf c data"
  let ?d = "jobDesc ?j (jobStored P ?j)" and ?a = "u_slice c" and ?i = "u_index c"
  let ?G = "writeSlot ?a ?i ?d G"
  have c: "seqLoop P es0 initState [] = seqCut P c es (absState G s) (take ?i (G ! ?a)) rec"
      "?a < length G" "?a \<notin> snd ` set (q_groups s)" "?i + u_left c = length (G ! ?a)" "0 < u_left c"
      "readChunk P c = Some (data, None, body)"
      "\<forall>k \<in> set (q_workers s). j_slice (k_job k) = ?a \<longrightarrow> j_index (k_job k) < ?i"
    using f q by (simp_all add: follows_def)
  have i: "?i < length (G ! ?a)" using c(4,5) by simp
  have j: "j_slice ?j = ?a" "j_index ?j = ?i" by (simp_all add: jobOf_def)
  have new: "u_slice (nextCut P c body) = ?a" "u_index (nextCut P c body) = Suc ?i"
      "u_left (nextCut P c body) = u_left c - 1" by (simp_all add: nextCut_def)
  have "resolve ?G (q_groups s) = resolve G (q_groups s)"
    using c(2,3) by (force simp: resolve_def writeSlot_nth split: prod.splits)
  then have abs: "absState ?G s' = absState G s" by (simp add: absState_def s' pool_defs)
  have "take (Suc ?i) (?G ! ?a) = take ?i (G ! ?a) @ [?d]"
    using c(2) i by (simp add: writeSlot_nth take_Suc_conv_app_nth)
  then have "seqLoop P es0 initState [] =
      seqCut P (nextCut P c body) es (absState G s) (take (Suc ?i) (?G ! ?a)) (rec @ offered (jobStored P ?j))"
    using c(1) seqCut_next [OF c(5,6)] by simp
  then have "follows P es0 ?G (rec @ offered (jobStored P ?j)) s'"
    unfolding follows_def abs using c new j by (auto simp: s' pool_defs writeSlot_nth)
  moreover have "slices_ok P ?G s'"
  proof -
    have p: "pending s' a n \<longleftrightarrow> pending s a n \<or> (a = ?a \<and> n = ?i)" for a n
      by (auto simp: pending_def s' pool_defs finished_def j)
    have old: "\<forall>k \<in> set (q_workers s). j_slice (k_job k) < length G \<and> j_index (k_job k) < length (G ! j_slice (k_job k)) \<and>
        G ! j_slice (k_job k) ! j_index (k_job k) = jobDesc (k_job k) (jobStored P (k_job k))"
      using sl by (simp add: slices_ok_def Let_def)
    have G: "length (?G ! a) = length (G ! a)" "(a = ?a \<and> n = ?i) \<or> ?G ! a ! n = G ! a ! n" for a n
      using c(2) by (auto simp: writeSlot_nth) (metis nth_list_update_neq)
    have neq: "\<not> (j_slice (k_job k) = ?a \<and> j_index (k_job k) = ?i)" if "k \<in> set (q_workers s)" for k
      using c(7) that by auto
    have jobs: "\<forall>k \<in> set (q_workers s'). let j = k_job k in j_slice j < length ?G \<and> j_index j < length (?G ! j_slice j) \<and>
        ?G ! j_slice j ! j_index j = jobDesc j (jobStored P j)"
    proof -
      have "?G ! ?a ! ?i = ?d" using c(2) i by (simp add: writeSlot_nth)
      moreover have "?G ! j_slice (k_job k) ! j_index (k_job k) = G ! j_slice (k_job k) ! j_index (k_job k)"
        if "k \<in> set (q_workers s)" for k using G(2) neq [OF that] by blast
      ultimately show ?thesis using old c(2) i j by (simp add: s' pool_defs Let_def G(1))
    qed
    have "length (q_slices s) = length G" "\<And>a. a < length G \<Longrightarrow> length (q_slices s ! a) = length (G ! a)"
        "\<And>a n. a < length G \<Longrightarrow> n < length (G ! a) \<Longrightarrow>
          q_slices s ! a ! n = G ! a ! n \<or> pending s a n \<or> ps_wait (q_st s) \<noteq> None"
      using sl by (simp_all add: slices_ok_def)
    moreover have "q_slices s' = q_slices s" "q_st s' = q_st s" "q_groups s' = q_groups s" by (simp_all add: s' pool_defs)
    ultimately show ?thesis
      unfolding slices_ok_def using jobs slices_ok_groups [OF sl] p G by (metis writeSlot_length)
  qed
  moreover have "extends P s rec s' (rec @ offered (jobStored P ?j))"
    by (auto simp: extends_def s' pool_defs)
  ultimately show ?thesis by blast
qed


lemma addWhole_link:
  assumes "whole_of (q_reader s) = Some (t, m, d, es)" and f: "follows P es0 G rec s" and sl: "slices_ok P G s"
    and s': "s' = addWhole t m d es (s\<lparr>q_reg := r\<rparr>)"
  shows "follows P es0 (G @ [[titled m t d]]) rec s' \<and> slices_ok P (G @ [[titled m t d]]) s' \<and> extends P s rec s' rec"
proof (intro conjI)
  have len: "length (q_slices s) = length G" using sl by (simp add: slices_ok_def)
  show "slices_ok P (G @ [[titled m t d]]) s'"
    by (rule slices_ok_alloc [OF sl, where t = t]) (auto simp: s' addWhole_def pool_defs len)
  have "absState (G @ [[titled m t d]]) s' = addGroup t [titled m t d] (absState G s)"
    using resolve_append [OF slices_ok_groups [OF sl]]
    by (simp add: absState_def s' addWhole_def pool_defs addGroup_def len) (simp add: resolve_def)
  with f assms(1) show "follows P es0 (G @ [[titled m t d]]) rec s'"
    by (intro follows_loop [where es = es]) (auto simp: follows_def s' addWhole_def pool_defs Let_def)
  show "extends P s rec s' rec" by (simp add: extends_def s' addWhole_def pool_defs)
qed

text \<open>Steps that only move the reader.\<close>

lemma moved_link:
  assumes "slices_ok P G s" and "q_workers s' = q_workers s" and "q_slices s' = q_slices s" and "q_groups s' = q_groups s"
    and "q_st s' = q_st s" and "follows P es0 G rec s'"
  shows "\<exists>G' rec'. follows P es0 G' rec' s' \<and> slices_ok P G' s' \<and> extends P s rec s' rec'"
proof -
  have "slices_ok P G s'" by (rule slices_ok_same [OF assms(1)]) (simp_all add: assms(2-5))
  moreover have "extends P s rec s' rec" using assms(2) by (simp add: extends_def)
  ultimately show ?thesis using assms(6) by blast
qed

lemma reader_step_follows:
  assumes r: "reader_step P s s'" and f: "follows P es0 G rec s" and sl: "slices_ok P G s"
  shows "\<exists>G' rec'. follows P es0 G' rec' s' \<and> slices_ok P G' s' \<and> extends P s rec s' rec'"
proof -
  have abs: "absState G (setAt a s) = absState G s" "absState G (setAt a (s\<lparr>q_raw := b\<rparr>)) = absState G s" for a b
    by (simp_all add: absState_def pool_defs)
  note mv = moved_link [OF sl]
  from r show ?thesis
  proof cases
    case (loop_cancelled es)
    then show ?thesis by (intro mv) (auto simp: pool_defs follows_def)
  next
    case loop_end
    with f have "seqLoop P es0 initState [] = seqLoop P [] (absState G s) rec" by (simp add: follows_def)
    with loop_end show ?thesis by (intro mv) (auto simp: pool_defs follows_def seqLoop_Nil absState_def)
  next
    case (loop_entry e es)
    with f have "seqLoop P es0 initState [] = seqLoop P (e # es) (absState G s) rec" by (simp add: follows_def)
    from startEntry_link [OF sl this] loop_entry show ?thesis by blast
  next
    case (cut_cancelled c es e)
    then show ?thesis by (intro mv) (auto simp: pool_defs follows_def)
  next
    case (cut_next c es)
    with f show ?thesis by (intro mv) (simp_all add: follows_def abs, simp_all add: pool_defs)
  next
    case (cut_end c es)
    have c: "seqLoop P es0 initState [] = seqLoop P es (addGroup (u_title c) (G ! u_slice c) (absState G s)) rec"
        "u_slice c < length G"
      using f cut_end by (simp_all add: follows_def seqCut_end)
    have "absState G s' = addGroup (u_title c) (G ! u_slice c) (absState G s)"
      by (simp add: cut_end absState_def addGroup_def pool_defs resolve_def)
    with c(1) have "follows P es0 G rec s'" by (intro follows_loop [where es = es]) (simp_all add: cut_end pool_defs)
    moreover have "slices_ok P G s'"
      using sl c(2) by (auto simp: slices_ok_def cut_end pool_defs pending_def)
    moreover have "extends P s rec s' rec" by (simp add: extends_def cut_end pool_defs)
    ultimately show ?thesis by blast
  next
    case (cut_take c es b raw)
    with f show ?thesis by (intro mv) (simp_all add: follows_def abs, simp_all add: pool_defs)
  next
    case (cut_read c b es data body)
    with f show ?thesis by (intro mv) (simp_all add: follows_def abs, simp_all add: pool_defs)
  next
    case (cut_failed c b es e raw)
    with f have "fst (seqLoop P es0 initState []) = Some e"
      by (auto simp: follows_def seqCut_failed)
    with cut_failed show ?thesis by (intro mv) (auto simp: pool_defs intro: follows_failed)
  next
    case (cut_go c b data body es)
    from cut_go_link [OF this(2) f sl this(1)] show ?thesis .
  next
    case (whole_has title mt data es found)
    then have w: "whole_of (q_reader s) = Some (title, mt, data, es)" by simp
    show ?thesis
    proof (cases found)
      case True
      with whole_has have "s' = addWhole title mt data es (s\<lparr>q_reg := q_reg s\<rparr>)" by simp
      from addWhole_link [OF w f sl this] show ?thesis by blast
    next
      case False
      with whole_has f show ?thesis by (intro mv) (simp_all add: follows_def abs, simp_all add: pool_defs)
    qed
  next
    case (whole_has_err title mt data es e)
    then have "reliable (pl_up P) (o_Name (pl_opts P)) \<Longrightarrow> q_eg s \<noteq> None"
      by (metis reliable_def sum.distinct(1))
    with whole_has_err show ?thesis by (intro mv) (auto simp: pool_defs follows_def uploadErr_def)
  next
    case (whole_put title mt data es r')
    then have w: "whole_of (q_reader s) = Some (title, mt, data, es)" by simp
    from addWhole_link [OF w f sl whole_put(1)] show ?thesis by blast
  next
    case (whole_put_err title mt data es err r' e)
    then have "reliable (pl_up P) (o_Name (pl_opts P)) \<Longrightarrow> q_eg s \<noteq> None"
      by (metis reliable_def fst_conv option.distinct(1))
    with whole_put_err show ?thesis by (intro mv) (auto simp: pool_defs follows_def uploadErr_def)
  next
    case (whole_put_lost title mt data es e)
    then show ?thesis by (intro mv) (auto simp: pool_defs follows_def uploadErr_def)
  next
    case (waited err)
    then show ?thesis by (intro mv) (auto simp: pool_defs follows_def)
  qed
qed


lemma stored_ok_start: "k_phase k = PhStart b \<Longrightarrow> stored_ok P k"
  by (simp add: stored_ok_def)

lemma reader_step_link:
  assumes r: "reader_step P s s'" and l: "link_inv P es0 G rec s"
  shows "\<exists>G' rec'. link_inv P es0 G' rec' s' \<and> extends P s rec s' rec'"
proof -
  from l have f: "follows P es0 G rec s" and sl: "slices_ok P G s" and so: "\<forall>k \<in> set (q_workers s). stored_ok P k"
    by (simp_all add: link_inv_def)
  from reader_step_follows [OF r f sl] obtain G' rec' where
    *: "follows P es0 G' rec' s'" "slices_ok P G' s'" "extends P s rec s' rec'" by blast
  from *(3) so have "\<forall>k \<in> set (q_workers s'). stored_ok P k"
    by (auto simp: extends_def stored_ok_start)
  with * show ?thesis by (auto simp: link_inv_def)
qed

lemma caller_step_link:
  assumes "link_inv P es0 G rec s" and "s' = s\<lparr>q_ctx := Some e, q_eg := (case q_eg s of Some x \<Rightarrow> Some x | None \<Rightarrow> Some e)\<rparr>"
  shows "link_inv P es0 G rec s'"
proof -
  have a: "absState G s' = absState G s" "q_eg s' = None \<Longrightarrow> q_eg s = None"
    by (auto simp: assms(2) absState_def split: option.splits)
  have sl: "slices_ok P G s" and f: "follows P es0 G rec s" using assms(1) by (simp_all add: link_inv_def)
  have same: "q_reader s' = q_reader s" "q_groups s' = q_groups s" "q_workers s' = q_workers s" by (simp_all add: assms(2))
  have "slices_ok P G s'" by (rule slices_ok_same [OF sl]) (simp_all add: assms(2))
  moreover have "follows P es0 G rec s'"
    using f a(2) unfolding follows_def Let_def a(1) same by blast
  ultimately show ?thesis using assms by (simp add: link_inv_def)
qed

section \<open>Errors\<close>

fun result_of :: "phase \<Rightarrow> goerr option" where
  "result_of (PhReturn x h res) = res" | "result_of (PhFinish x res) = res" | "result_of _ = None"

definition err_inv :: "'r pipeline \<Rightarrow> 'r pool \<Rightarrow> bool" where
  "err_inv P s =
     ((ps_wait (q_st s) \<noteq> None \<longrightarrow> q_eg s \<noteq> None) \<and>
      (q_eg s \<noteq> None \<longrightarrow> ps_wait (q_st s) \<noteq> None \<or> q_ctx s \<noteq> None) \<and>
      (reliable (pl_up P) (o_Name (pl_opts P)) \<longrightarrow> q_ctx s = None \<longrightarrow>
         ps_wait (q_st s) = None \<and> (\<forall>k \<in> set (q_workers s). result_of (k_phase k) = None)))"

lemma err_new: "err_inv P (newPool P es r)"
  by (simp add: err_inv_def newPool_def initState_def)

lemma start_frame:
  "q_eg (startEntry P e es s) = q_eg s" "q_ctx (startEntry P e es s) = q_ctx s"
  "ps_wait (q_st (startEntry P e es s)) = ps_wait (q_st s)" "q_workers (startEntry P e es s) = q_workers s"
  "q_raw (startEntry P e es s) = q_raw s" "q_out (startEntry P e es s) = q_out s" "q_reg (startEntry P e es s) = q_reg s"
proof -
  have c: "q_eg (startChunks P e x es s) = q_eg s" "q_ctx (startChunks P e x es s) = q_ctx s"
      "q_st (startChunks P e x es s) = q_st s" "q_workers (startChunks P e x es s) = q_workers s"
      "q_raw (startChunks P e x es s) = q_raw s" "q_out (startChunks P e x es s) = q_out s"
      "q_reg (startChunks P e x es s) = q_reg s" for e x es and s :: "'a pool"
    by (simp_all add: startChunks_def Let_def pool_defs)
  have f: "q_eg (startFile P e es s) = q_eg s" "q_ctx (startFile P e es s) = q_ctx s"
      "ps_wait (q_st (startFile P e es s)) = ps_wait (q_st s)" "q_workers (startFile P e es s) = q_workers s"
      "q_raw (startFile P e es s) = q_raw s" "q_out (startFile P e es s) = q_out s"
      "q_reg (startFile P e es s) = q_reg s" for e es and s :: "'a pool"
    by (simp_all add: startFile_def Let_def pool_defs c split: sum.split)
  show "q_eg (startEntry P e es s) = q_eg s" "q_ctx (startEntry P e es s) = q_ctx s"
    "ps_wait (q_st (startEntry P e es s)) = ps_wait (q_st s)" "q_workers (startEntry P e es s) = q_workers s"
    "q_raw (startEntry P e es s) = q_raw s" "q_out (startEntry P e es s) = q_out s" "q_reg (startEntry P e es s) = q_reg s"
    by (simp_all add: startEntry_def Let_def f split: sum.split) (simp_all add: pool_defs)
qed

lemma reader_step_err:
  assumes "reader_step P s s'"
  shows "q_eg s' = q_eg s" and "q_ctx s' = q_ctx s" and "ps_wait (q_st s') = ps_wait (q_st s)"
    and "q_workers s' = q_workers s \<or> (\<exists>k b. q_workers s' = q_workers s @ [k] \<and> k_phase k = PhStart b)"
  using assms by (cases; simp add: start_frame addWhole_def setAt_def)+

lemma worker_step_err:
  assumes w: "worker_step P i s s'" and i: "i < length (q_workers s)" and e: "err_inv P s"
  shows "err_inv P s'"
proof -
  have k: "q_workers s ! i \<in> set (q_workers s)" using i by simp
  have rel: "reliable (pl_up P) (o_Name (pl_opts P)) \<Longrightarrow> up_HasBlob (pl_up P) (o_Name (pl_opts P)) (digestOf b) r \<noteq> Inl er"
      "reliable (pl_up P) (o_Name (pl_opts P)) \<Longrightarrow>
        up_PutBlob (pl_up P) (o_Name (pl_opts P)) (digestOf b) b (int (length b)) r \<noteq> (Some er, r')" for b r er r'
    unfolding reliable_def by (metis sum.distinct(1)) (metis fst_conv option.distinct(1))
  have clean: "q_eg s = None \<and> ps_wait (q_st s) = None \<and> (\<forall>k \<in> set (q_workers s). result_of (k_phase k) = None)"
      if "reliable (pl_up P) (o_Name (pl_opts P))" "q_ctx s = None"
    using e that by (auto simp: err_inv_def)
  from worker_step_shape(1) [OF w] obtain ph where
    ph: "q_workers s' = (q_workers s)[i := (q_workers s ! i)\<lparr>k_phase := ph\<rparr>]" by blast
  have ph1: "result_of ph = None \<and> ps_wait (q_st s') = None"
    if rl: "reliable (pl_up P) (o_Name (pl_opts P))" "q_ctx s = None"
  proof -
    have "result_of (k_phase (q_workers s' ! i)) = None \<and> ps_wait (q_st s') = None"
      using w clean [OF rl] rel [OF rl(1)] k i by cases (auto simp: pool_defs)
    then show ?thesis using ph i by simp
  qed
  have "ps_wait (q_st s') \<noteq> None \<longrightarrow> q_eg s' \<noteq> None" "q_eg s' \<noteq> None \<longrightarrow> ps_wait (q_st s') \<noteq> None \<or> q_ctx s' \<noteq> None"
    using w e by (cases; auto simp: err_inv_def pool_defs groupError_def split: option.splits)+
  moreover have "result_of (k_phase k') = None"
    if "reliable (pl_up P) (o_Name (pl_opts P))" "q_ctx s = None" "k' \<in> set (q_workers s')" for k'
    using worker_set(1) [OF ph i that(3)] ph1 [OF that(1,2)] clean [OF that(1,2)] by auto
  ultimately show ?thesis using ph1 worker_step_shape(7) [OF w] by (simp add: err_inv_def)
qed

lemma pool_step_err:
  assumes "pool_step P s s'" and e: "err_inv P s"
  shows "err_inv P s'"
  using assms(1)
proof cases
  case by_reader
  note r = reader_step_err [OF by_reader]
  show ?thesis using e r(4) unfolding err_inv_def r(1-3) by auto
next
  case (by_worker i)
  with e show ?thesis by (blast intro: worker_step_err)
next
  case (by_caller x)
  with e show ?thesis by (auto simp: err_inv_def split: option.splits)
qed

end
