(* ===== verification/Push_Pool_Safety.thy ===== *)
theory Push_Pool_Safety
  imports Push_Pool_Inv
begin

text \<open>
  What every interleaving of the push workers guarantees. The registry is a \<open>pool_store\<close>: the blobs of
  \<open>B\<close> can be put, a put keeps what is known of the registry (\<open>I\<close>) and what it holds, and a request that
  reports a blob present or stored is right. It may fail at any time.

  The lemmas: when the pool returns entries, they are those of the sequential reference, and the registry holds
  every blob they name; and with a registry that does not fail the result is always that of the reference.
\<close>

section \<open>What the reference offers\<close>

definition offers :: "'r pipeline \<Rightarrow> tar_entry list \<Rightarrow> bytes set" where
  "offers P es = snd ` set (snd (snd (seqLoop P es initState [])))"

lemma follows_offers:
  assumes "follows P es0 G rec s" and "cut_of (q_reader s) \<noteq> None \<or> whole_of (q_reader s) \<noteq> None" and "(d, b) \<in> set rec"
  shows "b \<in> offers P es0"
proof -
  obtain err st L where q: "seqLoop P es0 initState [] = (err, st, L)" by (metis prod_cases3)
  have "\<exists>more. L = rec @ more"
    using assms(2)
  proof
    assume "cut_of (q_reader s) \<noteq> None"
    then obtain c es where "cut_of (q_reader s) = Some (c, es)" by auto
    with assms(1) q have "seqCut P c es (absState G s) (take (u_index c) (G ! u_slice c)) rec = (err, st, L)"
      by (auto simp: follows_def Let_def)
    from seqCut_offers [OF this] show ?thesis by simp
  next
    assume "whole_of (q_reader s) \<noteq> None"
    then obtain t m d es where "whole_of (q_reader s) = Some (t, m, d, es)" by (cases "whole_of (q_reader s)") auto
    with assms(1) q have "seqLoop P es (addGroup t [titled m t d] (absState G s)) rec = (err, st, L)"
      by (auto simp: follows_def Let_def)
    from seqLoop_offers [OF this] show ?thesis by (simp add: addGroup_def)
  qed
  with assms(3) q show ?thesis by (force simp: offers_def)
qed

lemma mergeErrors_None: "mergeErrors e w c = None \<longleftrightarrow> e = None \<and> w = None \<and> c = None"
  by (auto simp: mergeErrors_def Let_def split: option.splits if_splits)

lemma startEntry_not_done: "q_reader (startEntry P e es s) \<noteq> AtDone res"
proof -
  have c: "q_reader (startChunks P e x es s) \<noteq> AtDone res" for e x es and s :: "'a pool"
    by (simp add: startChunks_def Let_def pool_defs)
  have "q_reader (startFile P e es s) \<noteq> AtDone res" for e es and s :: "'a pool"
    by (simp add: startFile_def Let_def c split: sum.split) (simp add: pool_defs)
  then show ?thesis by (simp add: startEntry_def Let_def split: sum.split) (simp add: pool_defs)
qed

text \<open>When no worker runs and none has failed, the slices hold what the reference has.\<close>

lemma slices_settled:
  assumes "slices_ok P G s" and "running s = 0" and "ps_wait (q_st s) = None"
  shows "resolve (q_slices s) (q_groups s) = resolve G (q_groups s)"
proof -
  have "\<not> pending s a i" for a i using assms(2) by (auto simp: pending_def running_def count_of_0)
  then have "q_slices s ! a = G ! a" if "a < length G" for a
    using assms(1,3) that by (intro nth_equalityI) (auto simp: slices_ok_def)
  moreover have "\<forall>g \<in> set (q_groups s). snd g < length G" by (rule slices_ok_groups [OF assms(1)])
  ultimately show ?thesis by (auto simp: resolve_def)
qed

lemma finishEntries_wait [simp]: "finishEntries (st\<lparr>ps_wait := w\<rparr>) = finishEntries st"
  by (simp add: finishEntries_def)

section \<open>The registry under the workers\<close>

locale pool_store =
  fixes up :: "'r Uploader" and n :: string and I :: "'r \<Rightarrow> bool" and has :: "'r \<Rightarrow> bytes \<Rightarrow> bool" and B :: "bytes set"
  assumes head: "b \<in> B \<Longrightarrow> I r \<Longrightarrow> up_HasBlob up n (digestOf b) r = Inr True \<Longrightarrow> has r b"
    and put: "b \<in> B \<Longrightarrow> I r \<Longrightarrow> up_PutBlob up n (digestOf b) b (int (length b)) r = (e, r') \<Longrightarrow>
      I r' \<and> (\<forall>x. has r x \<longrightarrow> has r' x) \<and> (e = None \<longrightarrow> has r' b)"
begin

text \<open>A worker that reports success has its blob in the registry.\<close>

definition reported :: "'r \<Rightarrow> phase \<Rightarrow> bool" where
  "reported r ph =
     (case ph of PhReturn x h None \<Rightarrow> has r x | PhFinish x None \<Rightarrow> has r x | _ \<Rightarrow> True)"

text \<open>Where a blob that the reference has offered is: in the registry, under way, or lost with an error.\<close>

definition accounted :: "'r pipeline \<Rightarrow> 'r pool \<Rightarrow> bytes \<Rightarrow> bool" where
  "accounted P s b =
     (has (q_reg s) b \<or> (\<exists>k \<in> set (q_workers s). \<not> finished k \<and> jobStored P (k_job k) = b) \<or>
      ps_wait (q_st s) \<noteq> None \<or> (\<exists>t m es. whole_of (q_reader s) = Some (t, m, b, es)) \<or>
      (\<exists>e. q_reader s = AtWait (Some e)) \<or> (\<exists>e. q_reader s = AtDone (Inl e)))"

definition store_inv :: "'r pipeline \<Rightarrow> (string \<times> bytes) list \<Rightarrow> 'r pool \<Rightarrow> bool" where
  "store_inv P rec s =
     (I (q_reg s) \<and> (\<forall>(d, b) \<in> set rec. d = digestOf b \<and> b \<in> B \<and> accounted P s b) \<and>
      (\<forall>k \<in> set (q_workers s). jobStored P (k_job k) \<in> B \<and> reported (q_reg s) (k_phase k)))"

lemma reported_mono: "reported r ph \<Longrightarrow> \<forall>x. has r x \<longrightarrow> has r' x \<Longrightarrow> reported r' ph"
  by (auto simp: reported_def split: phase.splits option.splits)

text \<open>A step of a worker on the registry.\<close>

lemma worker_step_reg:
  assumes w: "worker_step P i s s'" and i: "i < length (q_workers s)" and P: "pl_up P = up" "o_Name (pl_opts P) = n"
    and so: "stored_ok P (q_workers s ! i)" and B: "jobStored P (k_job (q_workers s ! i)) \<in> B" and I: "I (q_reg s)"
    and rp: "reported (q_reg s) (k_phase (q_workers s ! i))"
  shows "I (q_reg s')" and "has (q_reg s) x \<Longrightarrow> has (q_reg s') x" and "reported (q_reg s') (k_phase (q_workers s' ! i))"
    and "finished (q_workers s' ! i) \<Longrightarrow>
      has (q_reg s') (jobStored P (k_job (q_workers s ! i))) \<or> ps_wait (q_st s') \<noteq> None"
proof -
  let ?b = "jobStored P (k_job (q_workers s ! i))"
  note hd = head [OF B I] and pt = put [OF B I]
  have "I (q_reg s') \<and> (has (q_reg s) x \<longrightarrow> has (q_reg s') x) \<and> reported (q_reg s') (k_phase (q_workers s' ! i)) \<and>
    (finished (q_workers s' ! i) \<longrightarrow> has (q_reg s') ?b \<or> ps_wait (q_st s') \<noteq> None)" for x
    using w
  proof cases
    case (has k y h found)
    with i so hd I P show ?thesis by (cases found) (auto simp: pool_defs reported_def finished_def stored_ok_def)
  next
    case (put k y h r')
    with i so pt P show ?thesis by (auto simp: pool_defs reported_def finished_def stored_ok_def)
  next
    case (put_err k y h err r' e)
    with i so pt P show ?thesis by (auto simp: pool_defs reported_def finished_def stored_ok_def)
  next
    case (finish k y)
    with i so I rp show ?thesis by (auto simp: pool_defs reported_def finished_def stored_ok_def)
  qed (use i I rp in \<open>auto simp: pool_defs reported_def finished_def groupError_def split: option.splits\<close>)
  then show "I (q_reg s')" and "has (q_reg s) x \<Longrightarrow> has (q_reg s') x" and "reported (q_reg s') (k_phase (q_workers s' ! i))"
    and "finished (q_workers s' ! i) \<Longrightarrow> has (q_reg s') ?b \<or> ps_wait (q_st s') \<noteq> None" by blast+
qed

lemma worker_step_store:
  assumes w: "worker_step P i s s'" and i: "i < length (q_workers s)" and P: "pl_up P = up" "o_Name (pl_opts P) = n"
    and l: "link_inv P es0 G rec s" and v: "store_inv P rec s"
  shows "store_inv P rec s'"
proof -
  let ?k = "q_workers s ! i"
  have k: "?k \<in> set (q_workers s)" using i by simp
  from l v k have pre: "stored_ok P ?k" "jobStored P (k_job ?k) \<in> B" "I (q_reg s)" "reported (q_reg s) (k_phase ?k)"
    by (auto simp: link_inv_def store_inv_def)
  note reg = worker_step_reg [OF w i P pre]
  note sh = worker_step_shape(2-7) [OF w]
  from worker_step_shape(1) [OF w] obtain ph where
    ph: "q_workers s' = (q_workers s)[i := ?k\<lparr>k_phase := ph\<rparr>]" by blast
  have "reported (q_reg s') (k_phase k') \<and> jobStored P (k_job k') \<in> B" if "k' \<in> set (q_workers s')" for k'
    using worker_set(1) [OF ph i that]
  proof
    assume "k' = ?k\<lparr>k_phase := ph\<rparr>"
    with reg(3) ph i pre(2) show ?thesis by simp
  next
    assume "k' \<in> set (q_workers s)"
    with v reg(2) show ?thesis by (auto simp: store_inv_def intro: reported_mono)
  qed
  moreover have "accounted P s' b" if a: "accounted P s b" for b
  proof (cases "\<exists>k' \<in> set (q_workers s). \<not> finished k' \<and> jobStored P (k_job k') = b")
    case False
    with a reg(2) sh show ?thesis by (auto simp: accounted_def)
  next
    case True
    then obtain l where l: "l < length (q_workers s)" "\<not> finished (q_workers s ! l)" "jobStored P (k_job (q_workers s ! l)) = b"
      by (auto simp: in_set_conv_nth)
    have nth: "q_workers s' ! l = (if l = i then ?k\<lparr>k_phase := ph\<rparr> else q_workers s ! l)" using ph i by simp
    have mem: "q_workers s' ! l \<in> set (q_workers s')" using l(1) ph by simp
    show ?thesis
    proof (cases "finished (q_workers s' ! l)")
      case True
      with nth l have "l = i" by (auto split: if_splits)
      with True l reg(4) show ?thesis by (auto simp: accounted_def)
    next
      case False
      moreover have "jobStored P (k_job (q_workers s' ! l)) = b" using nth l by (auto split: if_splits)
      ultimately show ?thesis using mem by (auto simp: accounted_def)
    qed
  qed
  ultimately show ?thesis using v reg(1) by (auto simp: store_inv_def)
qed


text \<open>A step of the reader on the registry: when a whole file is done, its blob is there.\<close>

lemma reader_step_reg:
  assumes r: "reader_step P s s'" and P: "pl_up P = up" "o_Name (pl_opts P) = n" and I: "I (q_reg s)"
    and B: "\<forall>t m b es. whole_of (q_reader s) = Some (t, m, b, es) \<longrightarrow> b \<in> B"
  shows "I (q_reg s')" and "has (q_reg s) x \<Longrightarrow> has (q_reg s') x"
    and "whole_of (q_reader s) = Some (t, m, b, es) \<Longrightarrow>
      whole_of (q_reader s') = Some (t, m, b, es) \<or> (\<exists>e. q_reader s' = AtWait (Some e)) \<or> has (q_reg s') b"
proof -
  have "I (q_reg s') \<and> (has (q_reg s) x \<longrightarrow> has (q_reg s') x) \<and> (whole_of (q_reader s) = Some (t, m, b, es) \<longrightarrow>
      whole_of (q_reader s') = Some (t, m, b, es) \<or> (\<exists>e. q_reader s' = AtWait (Some e)) \<or> has (q_reg s') b)" for x t m b es
    using r
  proof cases
    case (whole_has title mt data es found)
    with head [OF B [rule_format] I] I P show ?thesis by (cases found) (auto simp: pool_defs addWhole_def)
  next
    case (whole_put title mt data es r')
    with put [OF B [rule_format] I] P show ?thesis by (auto simp: pool_defs addWhole_def)
  next
    case (whole_put_err title mt data es err r' e)
    with put [OF B [rule_format] I] P show ?thesis by (auto simp: pool_defs uploadErr_def)
  next
    case (loop_entry e es)
    with I show ?thesis by (simp add: start_frame)
  qed (use I in \<open>auto simp: pool_defs uploadErr_def\<close>)
  then show "I (q_reg s')" and "has (q_reg s) x \<Longrightarrow> has (q_reg s') x"
    and "whole_of (q_reader s) = Some (t, m, b, es) \<Longrightarrow>
      whole_of (q_reader s') = Some (t, m, b, es) \<or> (\<exists>e. q_reader s' = AtWait (Some e)) \<or> has (q_reg s') b" by blast+
qed

lemma reader_step_failed:
  assumes "reader_step P s s'" and "q_reader s = AtWait (Some e)"
  shows "\<exists>e'. q_reader s' = AtDone (Inl e')"
  using assms by cases (auto simp: pool_defs outcome_def mergeErrors_None split: option.split)

lemma reader_step_not_done: "reader_step P s s' \<Longrightarrow> q_reader s \<noteq> AtDone res"
  by (cases rule: reader_step.cases) auto

lemma reader_step_store:
  assumes r: "reader_step P s s'" and P: "pl_up P = up" "o_Name (pl_opts P) = n" and off: "offers P es0 \<subseteq> B"
    and l: "link_inv P es0 G rec s" and v: "store_inv P rec s"
    and l': "link_inv P es0 G' rec' s'" and x: "extends P s rec s' rec'"
  shows "store_inv P rec' s'"
proof -
  have I: "I (q_reg s)" and recB: "\<And>d b. (d, b) \<in> set rec \<Longrightarrow> d = digestOf b \<and> b \<in> B \<and> accounted P s b"
    using v by (auto simp: store_inv_def)
  have B: "\<forall>t m b es. whole_of (q_reader s) = Some (t, m, b, es) \<longrightarrow> b \<in> B"
    using l recB by (auto simp: link_inv_def follows_def Let_def)
  note reg = reader_step_reg [OF r P I B]
  have sub: "set (q_workers s) \<subseteq> set (q_workers s')" using x by (auto simp: extends_def)
  have acc: "accounted P s' b" if a: "accounted P s b" for b
    using a [unfolded accounted_def]
  proof (elim disjE)
    assume "\<exists>t m es. whole_of (q_reader s) = Some (t, m, b, es)"
    with reg(3) show ?thesis unfolding accounted_def by blast
  qed (use reg(2) sub reader_step_err(3) [OF r] reader_step_failed [OF r] reader_step_not_done [OF r] in \<open>auto simp: accounted_def\<close>)
  have new: "d = digestOf b \<and> b \<in> B \<and> accounted P s' b" if "(d, b) \<in> set rec'" "(d, b) \<notin> set rec" for d b
  proof -
    from x that consider (whole) t m es where "whole_of (q_reader s') = Some (t, m, b, es)" "d = digestOf b"
      | (work) k ph where "d = digestOf b" "q_workers s' = q_workers s @ [k]" "k_phase k = PhStart ph" "b = jobStored P (k_job k)"
      by (auto simp: extends_def offered_def)
    then show ?thesis
    proof cases
      case whole
      with follows_offers [of P es0 G' rec' s'] l' that(1) off show ?thesis by (auto simp: link_inv_def accounted_def)
    next
      case work
      from r work(2) have "cut_of (q_reader s') \<noteq> None"
        by cases (auto simp: start_frame addWhole_def pool_defs split: if_splits)
      with follows_offers [of P es0 G' rec' s'] l' that(1) off work show ?thesis
        by (auto simp: link_inv_def accounted_def finished_def)
    qed
  qed
  have workers: "jobStored P (k_job k) \<in> B \<and> reported (q_reg s') (k_phase k)" if k: "k \<in> set (q_workers s')" for k
  proof (cases "k \<in> set (q_workers s)")
    case True
    with v reg(2) show ?thesis by (auto simp: store_inv_def intro: reported_mono)
  next
    case False
    with x k obtain b where b: "k_phase k = PhStart b" "(digestOf (jobStored P (k_job k)), jobStored P (k_job k)) \<in> set rec'"
      by (auto simp: extends_def offered_def)
    then have "jobStored P (k_job k) \<in> B" using new recB by blast
    with b(1) show ?thesis by (simp add: reported_def)
  qed
  have "d = digestOf b \<and> b \<in> B \<and> accounted P s' b" if "(d, b) \<in> set rec'" for d b
    using new [OF that] recB acc by blast
  with reg(1) workers show ?thesis by (auto simp: store_inv_def)
qed


definition done_inv :: "'r pipeline \<Rightarrow> tar_entry list \<Rightarrow> 'r pool \<Rightarrow> bool" where
  "done_inv P es0 s =
     (\<forall>res. q_reader s = AtDone res \<longrightarrow> running s = 0 \<and>
       (case res of
          Inr ue \<Rightarrow> \<exists>st L. seqLoop P es0 initState [] = (None, st, L) \<and> ue = finishEntries st \<and> (\<forall>(d, b) \<in> set L. d = digestOf b \<and> has (q_reg s) b)
        | Inl e \<Rightarrow> reliable up n \<longrightarrow> q_ctx s = None \<longrightarrow>
            (\<exists>er st L. seqLoop P es0 initState [] = (er, st, L) \<and> mergeErrors er None None = Some e)))"

definition pool_inv :: "'r pipeline \<Rightarrow> tar_entry list \<Rightarrow> 'r pool \<Rightarrow> bool" where
  "pool_inv P es0 s = (\<exists>G rec. link_inv P es0 G rec s \<and> store_inv P rec s \<and> err_inv P s \<and> done_inv P es0 s)"

lemma waited_done:
  assumes q: "q_reader s = AtWait err" and run: "running s = 0" and P: "pl_up P = up" "o_Name (pl_opts P) = n"
    and l: "link_inv P es0 G rec s" and v: "store_inv P rec s" and e: "err_inv P s"
  shows "done_inv P es0 (setAt (AtDone (outcome err s)) s)"
proof -
  let ?seq = "seqLoop P es0 initState []"
  from l have f: "follows P es0 G rec s" and sl: "slices_ok P G s" by (simp_all add: link_inv_def)
  have w: "\<exists>st L. ?seq = (err, st, L) \<and> (err = None \<longrightarrow> st = absState G s \<and> L = rec)"
    if "q_eg s = None" "err = None \<or> reliable up n"
    using f q that P by (auto simp: follows_def Let_def)
  show ?thesis
  proof (cases "outcome err s")
    case (Inl x)
    have "\<exists>er st L. ?seq = (er, st, L) \<and> mergeErrors er None None = Some x" if "reliable up n" "q_ctx s = None"
    proof -
      have "q_eg s = None" "ps_wait (q_st s) = None" using e that P by (auto simp: err_inv_def)
      with w that Inl show ?thesis by (auto simp: outcome_def split: option.splits)
    qed
    with Inl run show ?thesis by (simp add: done_inv_def pool_defs running_def)
  next
    case (Inr ue)
    then have m: "err = None" "ps_wait (q_st s) = None" "q_ctx s = None"
      by (auto simp: outcome_def mergeErrors_None split: option.splits)
    then have "q_eg s = None" using e by (auto simp: err_inv_def)
    with w m have seq: "?seq = (None, absState G s, rec)" by auto
    have "ue = finishEntries (absState G s)"
      using Inr slices_settled [OF sl run m(2)] by (auto simp: outcome_def absState_def split: option.splits)
    moreover have "d = digestOf b \<and> has (q_reg s) b" if "(d, b) \<in> set rec" for d b
    proof -
      have "d = digestOf b \<and> accounted P s b" using v that by (auto simp: store_inv_def)
      moreover have "\<forall>k \<in> set (q_workers s). finished k" using run by (auto simp: running_def count_of_0)
      ultimately show ?thesis using m q by (auto simp: accounted_def)
    qed
    ultimately show ?thesis using seq Inr run by (auto simp: done_inv_def pool_defs running_def)
  qed
qed

lemma pool_step_inv:
  assumes st: "pool_step P s s'" and P: "pl_up P = up" "o_Name (pl_opts P) = n" and off: "offers P es0 \<subseteq> B"
    and v: "pool_inv P es0 s"
  shows "pool_inv P es0 s'"
proof -
  from v obtain G rec where l: "link_inv P es0 G rec s" and sv: "store_inv P rec s" and e: "err_inv P s" and d: "done_inv P es0 s"
    by (auto simp: pool_inv_def)
  note e' = pool_step_err [OF st e]
  from st show ?thesis
  proof cases
    case by_reader
    from reader_step_link [OF this l] obtain G' rec' where l': "link_inv P es0 G' rec' s'" and x: "extends P s rec s' rec'" by blast
    have "done_inv P es0 s'"
    proof (cases "\<exists>err. q_reader s = AtWait err")
      case True
      with by_reader obtain err where "q_reader s = AtWait err" "running s = 0" "s' = setAt (AtDone (outcome err s)) s"
        by cases auto
      with waited_done [OF _ _ P l sv e] show ?thesis by blast
    next
      case False
      have "\<forall>res. q_reader s' \<noteq> AtDone res"
        using by_reader False by cases (auto simp: setAt_def addWhole_def startEntry_not_done)
      then show ?thesis by (simp add: done_inv_def)
    qed
    with reader_step_store [OF by_reader P off l sv l' x] l' e' show ?thesis by (auto simp: pool_inv_def)
  next
    case (by_worker i)
    have "done_inv P es0 s'"
    proof -
      have "\<not> finished (q_workers s ! i)" using worker_step_shape(1) [OF by_worker(2)] by blast
      then have "running s \<noteq> 0" using by_worker(1) by (auto simp: running_def count_of_0)
      then have "\<forall>res. q_reader s \<noteq> AtDone res" using d by (auto simp: done_inv_def)
      then show ?thesis using worker_step_shape(2) [OF by_worker(2)] by (simp add: done_inv_def)
    qed
    with worker_step_link [OF by_worker(2,1) l] worker_step_store [OF by_worker(2,1) P l sv] e' show ?thesis
      by (auto simp: pool_inv_def)
  next
    case (by_caller x)
    have "store_inv P rec s'" using sv by (simp add: by_caller store_inv_def accounted_def)
    moreover have "done_inv P es0 s'"
    proof -
      have "q_reader s' = q_reader s" "running s' = running s" "q_reg s' = q_reg s" "q_ctx s' \<noteq> None"
        by (simp_all add: by_caller running_def)
      with d show ?thesis unfolding done_inv_def
        by (intro allI impI, erule_tac x = res in allE, case_tac res) auto
    qed
    ultimately show ?thesis using caller_step_link [OF l by_caller(1)] e' by (auto simp: pool_inv_def)
  qed
qed

lemma pool_reach_inv:
  assumes "pool_reach P (newPool P es r) s" and P: "pl_up P = up" "o_Name (pl_opts P) = n" and off: "offers P es \<subseteq> B" and I: "I r"
  shows "pool_inv P es s"
  using assms(1)
proof induction
  case start
  have "store_inv P [] (newPool P es r)" using I by (simp add: store_inv_def newPool_def)
  moreover have "done_inv P es (newPool P es r)" by (simp add: done_inv_def newPool_def)
  ultimately have "link_inv P es [] [] (newPool P es r) \<and> store_inv P [] (newPool P es r) \<and>
      err_inv P (newPool P es r) \<and> done_inv P es (newPool P es r)" by (simp add: link_new err_new)
  then show ?case unfolding pool_inv_def by (intro exI)
next
  case (more s s')
  from pool_step_inv [OF more.hyps(2) P off more.IH] show ?case .
qed

end

end
