(* ===== verification/Push_Pool_Live.thy ===== *)
theory Push_Pool_Live
  imports Push_Pool_Inv
begin

text \<open>
  The push workers never block for ever and every run ends; all buffers come back, and never more than the two
  pools hold is allocated.
\<close>

section \<open>Buffers\<close>

fun holds_raw :: "phase \<Rightarrow> bool" where
  "holds_raw (PhStart b) = True" | "holds_raw (PhEncode b o') = True" | "holds_raw (PhHas x (RawBuf b)) = True"
| "holds_raw (PhPut x (RawBuf b)) = True" | "holds_raw (PhReturn x (RawBuf b) res) = True" | "holds_raw _ = False"

fun holds_outbuf :: "phase \<Rightarrow> bool" where
  "holds_outbuf (PhEncode b o') = True" | "holds_outbuf (PhHas x (OutBuf b)) = True"
| "holds_outbuf (PhPut x (OutBuf b)) = True" | "holds_outbuf (PhReturn x (OutBuf b) res) = True" | "holds_outbuf _ = False"

fun raw_bytes :: "phase \<Rightarrow> int" where
  "raw_bytes (PhStart b) = b" | "raw_bytes (PhEncode b o') = b" | "raw_bytes (PhHas x (RawBuf b)) = b"
| "raw_bytes (PhPut x (RawBuf b)) = b" | "raw_bytes (PhReturn x (RawBuf b) res) = b" | "raw_bytes _ = 0"

fun outbuf_bytes :: "phase \<Rightarrow> int" where
  "outbuf_bytes (PhEncode b o') = o'" | "outbuf_bytes (PhHas x (OutBuf b)) = b"
| "outbuf_bytes (PhPut x (OutBuf b)) = b" | "outbuf_bytes (PhReturn x (OutBuf b) res) = b" | "outbuf_bytes _ = 0"

definition reader_holds :: "'r pool \<Rightarrow> nat" where
  "reader_holds s = (if buf_at (q_reader s) = None then 0 else 1)"

definition reader_bytes :: "'r pool \<Rightarrow> int" where
  "reader_bytes s = (case buf_at (q_reader s) of None \<Rightarrow> 0 | Some b \<Rightarrow> b)"

text \<open>No encoding of a chunk makes an output buffer larger than \<open>M\<close>.\<close>

definition grow_ok :: "'r pipeline \<Rightarrow> int \<Rightarrow> bool" where
  "grow_ok P M =
     (0 \<le> pl_chunkSize P \<and> pl_chunkSize P \<le> M \<and> 1 \<le> pl_workers P \<and>
      (\<forall>o' j. 0 \<le> o' \<longrightarrow> o' \<le> M \<longrightarrow> int (length (j_data j)) \<le> pl_chunkSize P \<longrightarrow>
         0 \<le> pl_grow P o' (length (encodeJob P j)) \<and> pl_grow P o' (length (encodeJob P j)) \<le> M))"

definition raw_count :: "'r pool \<Rightarrow> nat" where
  "raw_count s = count_of (\<lambda>k. holds_raw (k_phase k)) (q_workers s)"

definition out_count :: "'r pool \<Rightarrow> nat" where
  "out_count s = count_of (\<lambda>k. holds_outbuf (k_phase k)) (q_workers s)"

definition phase_bytes_ok :: "'r pipeline \<Rightarrow> int \<Rightarrow> worker \<Rightarrow> bool" where
  "phase_bytes_ok P M k =
     (0 \<le> raw_bytes (k_phase k) \<and> raw_bytes (k_phase k) \<le> pl_chunkSize P \<and>
      0 \<le> outbuf_bytes (k_phase k) \<and> outbuf_bytes (k_phase k) \<le> M \<and> int (length (j_data (k_job k))) \<le> pl_chunkSize P)"

definition live_inv :: "'r pipeline \<Rightarrow> int \<Rightarrow> 'r pool \<Rightarrow> bool" where
  "live_inv P M s =
     (pool_ok (pl_chunkSize P) (pl_workers P + 1) (raw_count s + reader_holds s) (q_raw s) \<and>
      pool_ok M (pl_workers P + 1) (out_count s) (q_out s) \<and>
      (\<forall>k \<in> set (q_workers s). phase_bytes_ok P M k) \<and>
      0 \<le> reader_bytes s \<and> reader_bytes s \<le> pl_chunkSize P \<and> running s \<le> pl_workers P \<and>
      more_left (q_reader s) \<and> (\<forall>res. q_reader s = AtDone res \<longrightarrow> running s = 0) \<and>
      (\<forall>c b data body es. q_reader s = AtGo c b data body es \<longrightarrow> int (length data) \<le> pl_chunkSize P))"

lemma holds_imp:
  "holds_raw (k_phase k) \<Longrightarrow> \<not> finished k" "holds_outbuf (k_phase k) \<Longrightarrow> \<not> finished k"
  by (auto simp: finished_def)

lemma counts_running: "raw_count s \<le> running s" "out_count s \<le> running s"
  unfolding raw_count_def out_count_def running_def by (intro count_of_mono holds_imp; assumption)+

lemma live_new: "grow_ok P M \<Longrightarrow> live_inv P M (newPool P es r)"
  by (simp add: live_inv_def newPool_def raw_count_def out_count_def reader_holds_def reader_bytes_def running_def
      count_of_def grow_ok_def)

lemma readChunk_length:
  assumes "readChunk P c = Some (data, None, body)" and "0 \<le> pl_chunkSize P"
  shows "int (length data) \<le> pl_chunkSize P"
proof -
  let ?n = "nat (want P c)"
  have "length data \<le> ?n"
  proof (cases "?n \<le> length (rd_content (u_body c))")
    case True
    from rd.ReadFull_enough [OF TrueI True] assms(1) show ?thesis by (auto simp: readChunk_def)
  next
    case False
    then have "length (rd_content (u_body c)) < ?n" by simp
    from rd.ReadFull_short [OF TrueI this] assms(1) show ?thesis by (auto simp: readChunk_def)
  qed
  then show ?thesis using assms(2) by (auto simp: want_def)
qed


lemma worker_live:
  assumes v: "live_inv P M s" and i: "i < length (q_workers s)"
    and w: "q_workers s' = (q_workers s)[i := (q_workers s ! i)\<lparr>k_phase := ph\<rparr>]" and q: "q_reader s' = q_reader s"
    and nf: "\<not> finished (q_workers s ! i)" and ok: "phase_bytes_ok P M ((q_workers s ! i)\<lparr>k_phase := ph\<rparr>)"
    and raw: "pool_ok (pl_chunkSize P) (pl_workers P + 1)
      (count_of (\<lambda>k. holds_raw (k_phase k)) ((q_workers s)[i := (q_workers s ! i)\<lparr>k_phase := ph\<rparr>]) + reader_holds s) (q_raw s')"
    and out: "pool_ok M (pl_workers P + 1)
      (count_of (\<lambda>k. holds_outbuf (k_phase k)) ((q_workers s)[i := (q_workers s ! i)\<lparr>k_phase := ph\<rparr>]) + 0) (q_out s')"
  shows "live_inv P M s'"
proof -
  have "running s' \<le> running s"
    using count_of_update [OF i, of "\<lambda>k. \<not> finished k" "(q_workers s ! i)\<lparr>k_phase := ph\<rparr>"] nf
    by (auto simp: running_def w split: if_splits)
  moreover have "phase_bytes_ok P M k" if "k \<in> set (q_workers s')" for k
    using worker_set(1) [OF w i that] v ok by (auto simp: live_inv_def)
  moreover have "reader_holds s' = reader_holds s" "reader_bytes s' = reader_bytes s"
    by (simp_all add: reader_holds_def reader_bytes_def q)
  ultimately show ?thesis
    using v raw out unfolding live_inv_def raw_count_def out_count_def w q by auto
qed

lemma worker_step_live:
  assumes w: "worker_step P i s s'" and i: "i < length (q_workers s)" and v: "live_inv P M s" and g: "grow_ok P M"
  shows "live_inv P M s'"
proof -
  let ?k = "q_workers s ! i" and ?cs = "pl_chunkSize P"
  have k: "?k \<in> set (q_workers s)" using i by simp
  have pb: "phase_bytes_ok P M ?k" using v k by (simp add: live_inv_def)
  have raw: "pool_ok ?cs (pl_workers P + 1) (count_of (\<lambda>k. holds_raw (k_phase k)) (q_workers s) + reader_holds s) (q_raw s)"
    and out: "pool_ok M (pl_workers P + 1) (count_of (\<lambda>k. holds_outbuf (k_phase k)) (q_workers s) + 0) (q_out s)"
    using v by (simp_all add: live_inv_def raw_count_def out_count_def)
  have nf: "\<not> finished ?k" using worker_step_shape(1) [OF w] by blast
  note frame = worker_step_shape(2) [OF w]
  note held = pool_same_held [OF raw i] pool_same_held [OF out i]
  note same = held held [simplified]
  note put_raw = pool_put_held [OF raw _ _ _ i] and put_out = pool_put_held [OF out _ _ _ i]
  note live = worker_live [OF v i _ frame nf]
  have M: "0 \<le> ?cs" "?cs \<le> M" using g by (simp_all add: grow_ok_def)
  from w show ?thesis
  proof cases
    case (take_out k b o' bp)
    have d: "0 \<le> int (length (j_data (k_job k)))" "int (length (j_data (k_job k))) \<le> M"
      using pb M take_out by (auto simp: phase_bytes_ok_def)
    have o: "0 \<le> o'" "o' \<le> M" using bufTake_le(2,3) [OF out take_out(5) d] by simp_all
    have "pool_ok M (pl_workers P + 1) (count_of (\<lambda>k. holds_outbuf (k_phase k))
        ((q_workers s)[i := ?k\<lparr>k_phase := PhEncode b o'\<rparr>]) + 0) bp"
      by (rule pool_take_held [OF out take_out(5) d i]) (use take_out in simp_all)
    with take_out pb o show ?thesis
      by (intro live [where ph = "PhEncode b o'"]) (auto simp: pool_defs phase_bytes_ok_def intro!: same)
  next
    case (keep_raw k b)
    with pb show ?thesis
      by (intro live [where ph = "PhHas (j_data (k_job k)) (RawBuf b)"]) (auto simp: pool_defs phase_bytes_ok_def intro!: same)
  next
    case (encode k b o' bp)
    let ?ph = "PhHas (encodeJob P (k_job k)) (OutBuf (pl_grow P o' (length (encodeJob P (k_job k)))))"
    have "pool_ok ?cs (pl_workers P + 1) (count_of (\<lambda>k. holds_raw (k_phase k)) ((q_workers s)[i := ?k\<lparr>k_phase := ?ph\<rparr>]) +
        reader_holds s) bp"
      by (rule put_raw [OF encode(4)]) (use encode pb in \<open>auto simp: phase_bytes_ok_def\<close>)
    moreover have "0 \<le> pl_grow P o' (length (encodeJob P (k_job k)))" "pl_grow P o' (length (encodeJob P (k_job k))) \<le> M"
      using g pb encode by (auto simp: grow_ok_def phase_bytes_ok_def)
    ultimately show ?thesis using encode pb M
      by (intro live [where ph = ?ph]) (auto simp: pool_defs phase_bytes_ok_def intro!: same)
  next
    case (has k x h found)
    with pb show ?thesis
      by (intro live [where ph = "if found then PhReturn x h None else PhPut x h"])
        (cases h; auto simp: pool_defs phase_bytes_ok_def intro!: same)+
  next
    case (has_err k x h e)
    with pb show ?thesis
      by (intro live [where ph = "PhReturn x h (Some (Wrap (''check blob '' @ digestOf x) e))"])
        (cases h; auto simp: pool_defs phase_bytes_ok_def intro!: same)+
  next
    case (put k x h r')
    with pb show ?thesis
      by (intro live [where ph = "PhReturn x h None"]) (cases h; auto simp: pool_defs phase_bytes_ok_def intro!: same)+
  next
    case (put_err k x h err r' e)
    with pb show ?thesis
      by (intro live [where ph = "PhReturn x h (Some (Wrap (''put blob '' @ digestOf x) e))"])
        (cases h; auto simp: pool_defs phase_bytes_ok_def intro!: same)+
  next
    case (put_lost k x h e)
    with pb show ?thesis
      by (intro live [where ph = "PhReturn x h (Some (Wrap (''put blob '' @ digestOf x) e))"])
        (cases h; auto simp: pool_defs phase_bytes_ok_def intro!: same)+
  next
    case (release_raw k x b res bp)
    have "pool_ok ?cs (pl_workers P + 1) (count_of (\<lambda>k. holds_raw (k_phase k)) ((q_workers s)[i := ?k\<lparr>k_phase := PhFinish x res\<rparr>]) +
        reader_holds s) bp"
      by (rule put_raw [OF release_raw(4)]) (use release_raw pb in \<open>auto simp: phase_bytes_ok_def\<close>)
    with release_raw pb M show ?thesis
      by (intro live [where ph = "PhFinish x res"]) (auto simp: pool_defs phase_bytes_ok_def intro!: same)
  next
    case (release_out k x b res bp)
    have "pool_ok M (pl_workers P + 1) (count_of (\<lambda>k. holds_outbuf (k_phase k)) ((q_workers s)[i := ?k\<lparr>k_phase := PhFinish x res\<rparr>]) + 0) bp"
      by (rule put_out [OF release_out(4)]) (use release_out pb in \<open>auto simp: phase_bytes_ok_def\<close>)
    with release_out pb M show ?thesis
      by (intro live [where ph = "PhFinish x res"]) (auto simp: pool_defs phase_bytes_ok_def intro!: same)
  next
    case (finish k x)
    with pb M show ?thesis
      by (intro live [where ph = PhDone]) (auto simp: pool_defs phase_bytes_ok_def intro!: same)
  next
    case (fail k x e)
    with pb M show ?thesis
      by (intro live [where ph = PhDone]) (auto simp: pool_defs groupError_def phase_bytes_ok_def intro!: same)
  qed
qed


text \<open>Steps of the reader: where it is after an entry, and its one buffer.\<close>

lemma startEntry_at:
  "buf_at (q_reader (startEntry P e es s)) = None \<and> more_left (q_reader (startEntry P e es s)) \<and>
   (\<forall>c b d body es'. q_reader (startEntry P e es s) \<noteq> AtGo c b d body es') \<and> (\<forall>res. q_reader (startEntry P e es s) \<noteq> AtDone res)"
proof -
  have c: "buf_at (q_reader (startChunks P e x es s)) = None \<and> more_left (q_reader (startChunks P e x es s)) \<and>
      (\<forall>c b d body es'. q_reader (startChunks P e x es s) \<noteq> AtGo c b d body es') \<and>
      (\<forall>res. q_reader (startChunks P e x es s) \<noteq> AtDone res)" for e x es and s :: "'a pool"
    by (simp add: startChunks_def Let_def pool_defs)
  have "buf_at (q_reader (startFile P e es s)) = None \<and> more_left (q_reader (startFile P e es s)) \<and>
      (\<forall>c b d body es'. q_reader (startFile P e es s) \<noteq> AtGo c b d body es') \<and>
      (\<forall>res. q_reader (startFile P e es s) \<noteq> AtDone res)" for e es and s :: "'a pool"
    by (simp add: startFile_def Let_def c split: sum.split) (simp add: pool_defs)
  then show ?thesis by (simp add: startEntry_def Let_def split: sum.split) (simp add: pool_defs)
qed

text \<open>The reader moves between states in which it holds no buffer.\<close>

lemma reader_live:
  assumes v: "live_inv P M s" and "q_workers s' = q_workers s" and "q_raw s' = q_raw s" and "q_out s' = q_out s"
    and "buf_at (q_reader s) = None" and "buf_at (q_reader s') = None" and "more_left (q_reader s')"
    and "\<forall>c b d body es. q_reader s' \<noteq> AtGo c b d body es" and "\<forall>res. q_reader s' = AtDone res \<longrightarrow> running s = 0"
  shows "live_inv P M s'"
  using assms unfolding live_inv_def raw_count_def out_count_def running_def reader_holds_def reader_bytes_def by auto

lemma reader_step_live:
  assumes r: "reader_step P s s'" and v: "live_inv P M s" and g: "grow_ok P M"
  shows "live_inv P M s'"
proof -
  let ?cs = "pl_chunkSize P"
  have M: "0 \<le> ?cs" using g by (simp add: grow_ok_def)
  have raw: "pool_ok ?cs (pl_workers P + 1) (raw_count s + reader_holds s) (q_raw s)" using v by (simp add: live_inv_def)
  note rl = reader_live [OF v]
  from r show ?thesis
  proof cases
    case (loop_entry e es)
    with startEntry_at [of P e es s] show ?thesis by (intro rl) (simp_all add: start_frame)
  next
    case (cut_take c es b bp)
    then have h: "reader_holds s = 0" "0 < u_left c" using v by (auto simp: reader_holds_def live_inv_def)
    from bufTake_le [OF raw cut_take(3) M order.refl] have t: "pool_ok ?cs (pl_workers P + 1) (Suc (raw_count s)) bp" "0 \<le> b" "b \<le> ?cs"
      using h by simp_all
    have "raw_count s' = raw_count s" "out_count s' = out_count s" "running s' = running s" "reader_holds s' = 1" "reader_bytes s' = b"
      by (simp_all add: cut_take pool_defs raw_count_def out_count_def running_def reader_holds_def reader_bytes_def)
    with t h v show ?thesis unfolding live_inv_def by (auto simp: cut_take pool_defs)
  next
    case (cut_read c b es data body)
    then have "int (length data) \<le> ?cs" using readChunk_length M by blast
    with v cut_read show ?thesis
      unfolding live_inv_def raw_count_def out_count_def running_def reader_holds_def reader_bytes_def by (auto simp: pool_defs)
  next
    case (cut_failed c b es e bp)
    then have h: "reader_holds s = 1" "0 \<le> b" "b \<le> ?cs" using v by (simp_all add: reader_holds_def live_inv_def reader_bytes_def)
    with bufPut_ok [of ?cs "pl_workers P + 1" "raw_count s"] raw cut_failed
    have "pool_ok ?cs (pl_workers P + 1) (raw_count s) bp" by simp
    moreover have "raw_count s' = raw_count s" "out_count s' = out_count s" "running s' = running s" "reader_holds s' = 0" "reader_bytes s' = 0"
      by (simp_all add: cut_failed pool_defs raw_count_def out_count_def running_def reader_holds_def reader_bytes_def)
    ultimately show ?thesis using v M unfolding live_inv_def by (auto simp: cut_failed pool_defs)
  next
    case (cut_go c b data body es)
    let ?k = "\<lparr>k_job = jobOf c data, k_phase = PhStart b\<rparr>"
    have h: "reader_holds s = 1" "0 \<le> b" "b \<le> ?cs" "int (length data) \<le> ?cs"
      using v cut_go by (auto simp: reader_holds_def live_inv_def reader_bytes_def)
    have "raw_count s' = Suc (raw_count s)" "out_count s' = out_count s" "running s' = Suc (running s)" "reader_holds s' = 0"
        "reader_bytes s' = 0"
      by (simp_all add: cut_go pool_defs raw_count_def out_count_def running_def reader_holds_def reader_bytes_def
          count_of_def finished_def)
    moreover have "phase_bytes_ok P M ?k" using h g by (simp add: phase_bytes_ok_def jobOf_def grow_ok_def)
    moreover have "Suc (running s) \<le> pl_workers P" using cut_go by simp
    ultimately show ?thesis using v h M raw unfolding live_inv_def by (auto simp: cut_go pool_defs)
  next
    case (whole_has title mt data es found)
    then show ?thesis by (intro rl) (auto simp: pool_defs addWhole_def)
  next
    case (cut_next c es)
    then show ?thesis by (intro rl) (auto simp: pool_defs)
  qed (intro rl; simp add: pool_defs addWhole_def)+
qed

lemma pool_step_live:
  assumes "pool_step P s s'" and "live_inv P M s" and "grow_ok P M"
  shows "live_inv P M s'"
  using assms(1)
proof cases
  case by_reader
  with assms reader_step_live show ?thesis by blast
next
  case (by_worker i)
  with assms worker_step_live show ?thesis by blast
next
  case (by_caller e)
  with assms(2) show ?thesis
    by (simp add: live_inv_def raw_count_def out_count_def running_def reader_holds_def reader_bytes_def)
qed

lemma pool_reach_live:
  assumes "pool_reach P s0 s" and "live_inv P M s0" and "grow_ok P M"
  shows "live_inv P M s"
  using assms(1)
proof induction
  case (more s s')
  with pool_step_live assms(3) show ?case by blast
qed (rule assms(2))

section \<open>No deadlock\<close>

lemma worker_enabled:
  assumes v: "live_inv P M s" and i: "i < length (q_workers s)" and nf: "\<not> finished (q_workers s ! i)"
  shows "\<exists>s'. worker_step P i s s'"
proof -
  let ?k = "q_workers s ! i"
  have raw: "pool_ok (pl_chunkSize P) (pl_workers P + 1) (raw_count s + reader_holds s) (q_raw s)"
    and out: "pool_ok M (pl_workers P + 1) (out_count s) (q_out s)" and run: "running s \<le> pl_workers P"
    using v by (simp_all add: live_inv_def)
  have tout: "\<exists>y bp. bufTake d (q_out s) = Some (y, bp)" for d
    using bufTake_enabled [OF out] counts_running(2) [of s] run by simp
  have praw: "\<exists>bp. bufPut y (q_raw s) = Some bp" if "holds_raw (k_phase ?k)" for y
  proof -
    have "0 < raw_count s" unfolding raw_count_def by (rule count_of_pos [OF i]) (rule that)
    with raw bufPut_enabled [of "pl_chunkSize P" "pl_workers P + 1" "raw_count s + reader_holds s - 1"] show ?thesis by simp
  qed
  have pout: "\<exists>bp. bufPut y (q_out s) = Some bp" if "holds_outbuf (k_phase ?k)" for y
  proof -
    have "0 < out_count s" unfolding out_count_def by (rule count_of_pos [OF i]) (rule that)
    with out bufPut_enabled [of M "pl_workers P + 1" "out_count s - 1"] show ?thesis by simp
  qed
  show ?thesis
  proof (cases "k_phase ?k")
    case (PhStart b)
    with tout show ?thesis
      by (cases "IsZstdMediaType (j_mediaType (k_job ?k))") (blast intro: worker_step.take_out worker_step.keep_raw)+
  next
    case (PhEncode b o')
    with praw obtain bp where "bufPut b (q_raw s) = Some bp" by fastforce
    with PhEncode show ?thesis by (blast intro: worker_step.encode)
  next
    case (PhHas x h)
    then show ?thesis
      by (cases "up_HasBlob (pl_up P) (o_Name (pl_opts P)) (digestOf x) (q_reg s)")
        (blast intro: worker_step.has worker_step.has_err)+
  next
    case (PhPut x h)
    obtain err r' where p: "up_PutBlob (pl_up P) (o_Name (pl_opts P)) (digestOf x) x (int (length x)) (q_reg s) = (err, r')"
      by fastforce
    with PhPut show ?thesis by (cases err) (blast intro: worker_step.put worker_step.put_err)+
  next
    case (PhReturn x h res)
    with praw pout show ?thesis
      by (cases h) (fastforce intro: worker_step.release_raw worker_step.release_out)+
  next
    case (PhFinish x res)
    then show ?thesis by (cases res) (blast intro: worker_step.finish worker_step.fail)+
  next
    case PhDone
    with nf show ?thesis by (simp add: finished_def)
  qed
qed

lemma running_worker: "running s \<noteq> 0 \<Longrightarrow> \<exists>i < length (q_workers s). \<not> finished (q_workers s ! i)"
  by (auto simp: running_def count_of_0 in_set_conv_nth)

text \<open>As long as the pool has not returned, the reader or a worker can go on, whatever the caller does.\<close>

lemma pool_progress:
  assumes v: "live_inv P M s" and g: "grow_ok P M" and nd: "\<And>res. q_reader s \<noteq> AtDone res"
  shows "\<exists>s'. reader_step P s s' \<or> (\<exists>i < length (q_workers s). worker_step P i s s')"
proof -
  have raw: "pool_ok (pl_chunkSize P) (pl_workers P + 1) (raw_count s + reader_holds s) (q_raw s)" and run: "running s \<le> pl_workers P"
    using v by (simp_all add: live_inv_def)
  have w: ?thesis if "running s \<noteq> 0"
    using running_worker [OF that] worker_enabled [OF v] by blast
  show ?thesis
  proof (cases "q_reader s")
    case (AtLoop es)
    then show ?thesis
      by (cases "q_eg s"; cases es) (blast intro: reader_step.loop_cancelled reader_step.loop_end reader_step.loop_entry)+
  next
    case (AtCheck c es)
    show ?thesis
    proof (cases "u_left c = 0")
      case True
      with AtCheck show ?thesis by (blast intro: reader_step.cut_end)
    next
      case False
      with AtCheck show ?thesis by (cases "q_eg s") (blast intro: reader_step.cut_next reader_step.cut_cancelled)+
    qed
  next
    case (AtTake c es)
    then have "raw_count s + reader_holds s < pl_workers P + 1"
      using counts_running(1) [of s] run by (simp add: reader_holds_def)
    with bufTake_enabled [OF raw] AtTake show ?thesis by (blast intro: reader_step.cut_take)
  next
    case (AtRead c b es)
    have "\<exists>bp. bufPut b (q_raw s) = Some bp"
      using bufPut_enabled [of "pl_chunkSize P" "pl_workers P + 1" "raw_count s"] raw AtRead by (simp add: reader_holds_def)
    moreover have "(\<exists>data body. readChunk P c = Some (data, None, body)) \<or> (\<exists>e. readError c (readChunk P c) = Some e)"
      by (cases "readChunk P c") (auto simp: readError_def split: option.splits)
    ultimately show ?thesis using AtRead by (blast intro: reader_step.cut_read reader_step.cut_failed)
  next
    case (AtGo c b data body es)
    show ?thesis
    proof (cases "running s < pl_workers P")
      case True
      with AtGo show ?thesis by (blast intro: reader_step.cut_go)
    next
      case False
      with w g show ?thesis by (simp add: grow_ok_def)
    qed
  next
    case (AtHas t m d es)
    then show ?thesis
      by (cases "up_HasBlob (pl_up P) (o_Name (pl_opts P)) (digestOf d) (q_reg s)")
        (blast intro: reader_step.whole_has reader_step.whole_has_err)+
  next
    case (AtPut t m d es)
    obtain err r' where p: "up_PutBlob (pl_up P) (o_Name (pl_opts P)) (digestOf d) d (int (length d)) (q_reg s) = (err, r')"
      by fastforce
    with AtPut show ?thesis by (cases err) (blast intro: reader_step.whole_put reader_step.whole_put_err)+
  next
    case (AtWait err)
    with w show ?thesis by (cases "running s = 0") (blast intro: reader_step.waited)+
  next
    case (AtDone res)
    with nd show ?thesis by blast
  qed
qed


section \<open>Every run ends\<close>

fun phase_rank :: "phase \<Rightarrow> nat" where
  "phase_rank (PhStart b) = 6" | "phase_rank (PhEncode b o') = 5" | "phase_rank (PhHas x h) = 4" | "phase_rank (PhPut x h) = 3"
| "phase_rank (PhReturn x h res) = 2" | "phase_rank (PhFinish x res) = 1" | "phase_rank PhDone = 0"

text \<open>An entry has at most \<open>2 ^ 20\<close> chunks, and a chunk takes at most twelve steps of the reader and its worker.\<close>

definition entry_rank :: nat where
  "entry_rank = 12 * 2 ^ 20 + 4"

fun reader_rank :: "reader_at \<Rightarrow> nat" where
  "reader_rank (AtLoop es) = length es * entry_rank + 2"
| "reader_rank (AtCheck c es) = length es * entry_rank + 12 * u_left c + 5"
| "reader_rank (AtTake c es) = length es * entry_rank + 12 * u_left c + 4"
| "reader_rank (AtRead c b es) = length es * entry_rank + 12 * u_left c + 3"
| "reader_rank (AtGo c b d body es) = length es * entry_rank + 12 * u_left c + 2"
| "reader_rank (AtHas t m d es) = length es * entry_rank + 4"
| "reader_rank (AtPut t m d es) = length es * entry_rank + 3"
| "reader_rank (AtWait err) = 1"
| "reader_rank (AtDone res) = 0"

definition pool_rank :: "'r pool \<Rightarrow> nat" where
  "pool_rank s =
     reader_rank (q_reader s) + sum_list (map (\<lambda>k. phase_rank (k_phase k)) (q_workers s)) + (if q_ctx s = None then 1 else 0)"

lemma startEntry_rank: "reader_rank (q_reader (startEntry P e es s)) < length (e # es) * entry_rank + 2"
proof -
  have c: "reader_rank (q_reader (startChunks P e x es s)) \<le> length es * entry_rank + 12 * 2 ^ 20 + 5" for e x and s :: "'a pool"
    by (auto simp: startChunks_def Let_def pool_defs)
  have "reader_rank (q_reader (startFile P e es s)) \<le> length es * entry_rank + 12 * 2 ^ 20 + 5" for e and s :: "'a pool"
    using c by (simp add: startFile_def Let_def split: sum.split) (simp add: pool_defs)
  then have "reader_rank (q_reader (startEntry P e es s)) \<le> length es * entry_rank + 12 * 2 ^ 20 + 5"
    by (simp add: startEntry_def Let_def split: sum.split) (simp add: pool_defs)
  then show ?thesis by (simp add: entry_rank_def)
qed

lemma reader_step_rank:
  assumes "reader_step P s s'" and "live_inv P M s"
  shows "pool_rank s' < pool_rank s"
proof -
  have left: "more_left (q_reader s)" using assms(2) by (simp add: live_inv_def)
  from assms(1) show ?thesis
  proof cases
    case (loop_entry e es)
    with startEntry_rank [of P e es s] show ?thesis by (simp add: pool_rank_def start_frame)
  next
    case (cut_go c b data body es)
    with left show ?thesis by (simp add: pool_rank_def pool_defs nextCut_def)
  next
    case (whole_has t m d es found)
    then show ?thesis by (cases found) (simp_all add: pool_rank_def pool_defs addWhole_def)
  qed (simp_all add: pool_rank_def pool_defs addWhole_def)
qed

lemma worker_step_rank:
  assumes w: "worker_step P i s s'" and i: "i < length (q_workers s)"
  shows "pool_rank s' < pool_rank s"
proof -
  from worker_step_shape(1) [OF w] obtain ph where
    ph: "q_workers s' = (q_workers s)[i := (q_workers s ! i)\<lparr>k_phase := ph\<rparr>]" by blast
  have "phase_rank (k_phase (q_workers s' ! i)) < phase_rank (k_phase (q_workers s ! i))"
    using w i by cases (auto simp: pool_defs groupError_def)
  then have "phase_rank ph < phase_rank (k_phase (q_workers s ! i))" using ph i by simp
  with sum_update [OF i, of "\<lambda>k. phase_rank (k_phase k)" "(q_workers s ! i)\<lparr>k_phase := ph\<rparr>"]
  have "sum_list (map (\<lambda>k. phase_rank (k_phase k)) (q_workers s')) < sum_list (map (\<lambda>k. phase_rank (k_phase k)) (q_workers s))"
    unfolding ph by simp
  then show ?thesis unfolding pool_rank_def worker_step_shape(2,7) [OF w] by simp
qed

lemma pool_step_rank:
  assumes "pool_step P s s'" and "live_inv P M s"
  shows "pool_rank s' < pool_rank s"
  using assms(1)
proof cases
  case by_reader
  with assms(2) reader_step_rank show ?thesis by blast
next
  case (by_worker i)
  with worker_step_rank show ?thesis by blast
next
  case (by_caller e)
  then show ?thesis by (simp add: pool_rank_def)
qed

lemma pool_reach_trans: "pool_reach P s1 s2 \<Longrightarrow> pool_reach P s0 s1 \<Longrightarrow> pool_reach P s0 s2"
  by (induction rule: pool_reach.induct) (auto intro: pool_reach.more)

lemma pool_ends:
  assumes "live_inv P M s" and g: "grow_ok P M"
  shows "\<exists>s' res. pool_reach P s s' \<and> q_reader s' = AtDone res \<and> q_ctx s' = q_ctx s"
  using assms(1)
proof (induction "pool_rank s" arbitrary: s rule: less_induct)
  case less
  show ?case
  proof (cases "\<exists>res. q_reader s = AtDone res")
    case True
    then show ?thesis by (blast intro: pool_reach.start)
  next
    case False
    with pool_progress [OF less.prems g] obtain s1 where
      "reader_step P s s1 \<or> (\<exists>i < length (q_workers s). worker_step P i s s1)" by blast
    then have s1: "pool_step P s s1" "q_ctx s1 = q_ctx s"
      using reader_step_err(2) worker_step_shape(7) by (blast intro: by_reader by_worker)+
    from less.hyps [OF pool_step_rank [OF s1(1) less.prems] pool_step_live [OF s1(1) less.prems g]] obtain s' res where
      "pool_reach P s1 s'" "q_reader s' = AtDone res" "q_ctx s' = q_ctx s1" by blast
    moreover have "pool_reach P s s1" using s1(1) by (blast intro: pool_reach.intros)
    ultimately show ?thesis using s1(2) pool_reach_trans by metis
  qed
qed

lemma pool_no_infinite_run:
  assumes "live_inv P M (f 0)" and g: "grow_ok P M"
  shows "\<not> (\<forall>i. pool_step P (f i) (f (Suc i)))"
proof
  assume st: "\<forall>i. pool_step P (f i) (f (Suc i))"
  have inv: "live_inv P M (f i)" for i
  proof (induction i)
    case (Suc i)
    from pool_step_live [OF st [rule_format] Suc g] show ?case .
  qed (rule assms(1))
  have "pool_rank (f i) + i \<le> pool_rank (f 0)" for i
  proof (induction i)
    case (Suc i)
    have "pool_rank (f (Suc i)) < pool_rank (f i)" using pool_step_rank [OF st [rule_format] inv] .
    with Suc show ?case by simp
  qed simp
  from this [of "Suc (pool_rank (f 0))"] show False by simp
qed

section \<open>Memory\<close>

definition push_bytes :: "'r pool \<Rightarrow> int" where
  "push_bytes s =
     sum_list (map (\<lambda>k. raw_bytes (k_phase k)) (q_workers s)) + reader_bytes s + sum_list (bp_free (q_raw s)) +
     (sum_list (map (\<lambda>k. outbuf_bytes (k_phase k)) (q_workers s)) + sum_list (bp_free (q_out s)))"

lemma pool_memory:
  assumes v: "live_inv P M s"
  shows "push_bytes s \<le> int (pl_workers P + 1) * (pl_chunkSize P + M)"
proof -
  have b: "pool_ok (pl_chunkSize P) (pl_workers P + 1) (raw_count s + reader_holds s) (q_raw s)"
      "pool_ok M (pl_workers P + 1) (out_count s) (q_out s)" "\<forall>k \<in> set (q_workers s). phase_bytes_ok P M k"
      "reader_bytes s \<le> pl_chunkSize P"
    using v by (simp_all add: live_inv_def)
  have z: "\<not> holds_raw ph \<Longrightarrow> raw_bytes ph = 0" "\<not> holds_outbuf ph \<Longrightarrow> outbuf_bytes ph = 0" for ph
    by (cases ph rule: raw_bytes.cases; simp) (cases ph rule: outbuf_bytes.cases; simp)
  have "sum_list (map (\<lambda>k. raw_bytes (k_phase k)) (q_workers s)) \<le> int (raw_count s) * pl_chunkSize P"
    unfolding raw_count_def using b(3) z(1) by (intro sum_count_le) (auto simp: phase_bytes_ok_def)
  moreover have "sum_list (map (\<lambda>k. outbuf_bytes (k_phase k)) (q_workers s)) \<le> int (out_count s) * M"
    unfolding out_count_def using b(3) z(2) by (intro sum_count_le) (auto simp: phase_bytes_ok_def)
  moreover have "reader_bytes s \<le> int (reader_holds s) * pl_chunkSize P"
    using b(4) by (auto simp: reader_holds_def reader_bytes_def split: option.splits)
  moreover note pool_free_bytes [OF b(1)] pool_free_bytes [OF b(2)]
  ultimately show ?thesis by (simp add: push_bytes_def algebra_simps)
qed

lemma pool_returned:
  assumes v: "live_inv P M s" and "q_reader s = AtDone res"
  shows "pool_ok (pl_chunkSize P) (pl_workers P + 1) 0 (q_raw s)" and "pool_ok M (pl_workers P + 1) 0 (q_out s)"
proof -
  have "running s = 0" "reader_holds s = 0" using assms by (auto simp: live_inv_def reader_holds_def)
  with counts_running [of s] v show "pool_ok (pl_chunkSize P) (pl_workers P + 1) 0 (q_raw s)"
    and "pool_ok M (pl_workers P + 1) 0 (q_out s)" by (auto simp: live_inv_def)
qed

end
