(* ===== verification/Push_Concurrent.thy ===== *)
theory Push_Concurrent
  imports Push_Pool_Safety Push_Pool_Live
begin

text \<open>
  \<^verbatim>\<open>Push\<close> with its worker pool: the runs of the pool over an export stream, and what follows when the pool has
  returned, the config and the manifest. The sequential \<open>Push\<close> is the reference: over a registry that does not fail,
  every run reports what it reports, and leaves a snapshot that streams back.
\<close>

section \<open>A registry that does not fail\<close>

lemma reliable_put:
  assumes "reliable up n"
  shows "\<exists>r'. putBlobIfMissing up n (''sha256:'' @ SHA256Hex b) b (int (length b)) r = (None, r')"
proof -
  from assms obtain x where "up_HasBlob up n (digestOf b) r = Inr x" unfolding reliable_def by blast
  moreover have "fst (up_PutBlob up n (digestOf b) b (int (length b)) r) = None" using assms by (simp add: reliable_def)
  ultimately show ?thesis
    by (cases "up_PutBlob up n (digestOf b) b (int (length b)) r") (auto simp: putBlobIfMissing_def digestOf_def)
qed

lemma reliable_enqueueLoop:
  assumes "reliable up n"
  shows "enqueueLoop ev acceptAll level n mt title cs count k i rem body wait rec = (err, ds, w, rec') \<Longrightarrow>
    \<exists>r'. enqueueLoop ev up level n mt title cs count k i rem body wait r = (err, ds, w, r')"
proof (induction k arbitrary: i rem body r rec err ds)
  case (Suc k)
  show ?case
  proof (cases "wait \<noteq> None \<or> ev_ctx ev \<noteq> None")
    case True
    with Suc.prems show ?thesis by auto
  next
    case False
    show ?thesis
    proof (cases "\<exists>data body'. io_ReadFull rd_read (nat (min cs rem)) body = Some (data, None, body')")
      case nr: False
      with Suc.prems False show ?thesis by (auto simp: Let_def split: option.splits)
    next
      case True
      then obtain data body' where rf: "io_ReadFull rd_read (nat (min cs rem)) body = Some (data, None, body')" by blast
      let ?b = "if IsZstdMediaType mt then z_EncodeAll (ev_zstd ev) level data else data"
      from reliable_put [OF assms, of ?b r] obtain r1 where
        p: "putBlobIfMissing up n (''sha256:'' @ SHA256Hex ?b) ?b (int (length ?b)) r = (None, r1)" by blast
      obtain d x where u: "uploadChunk ev acceptAll level n mt title i count data rec = (Inr d, rec @ x)"
        by (auto simp: uploadChunk_def Let_def)
      with p have u': "uploadChunk ev up level n mt title i count data r = (Inr d, r1)"
        by (simp add: uploadChunk_def Let_def)
      from Suc.prems rf u False obtain ds1 where
        l: "enqueueLoop ev acceptAll level n mt title cs count k (i + 1) (rem - min cs rem) body' wait (rec @ x) =
          (err, ds1, w, rec')" and ds: "ds = d # ds1"
        by (auto simp: Let_def split: prod.splits)
      from Suc.IH [OF l, of r1] rf u' False ds show ?thesis by (auto simp: Let_def)
    qed
  qed
qed auto

lemma reliable_uploadSpooled:
  assumes "reliable up n" and "uploadSpooled acceptAll n title mt spool rec = (res, rec')"
  shows "\<exists>r'. uploadSpooled up n title mt spool r = (res, r')"
proof (cases spool)
  case (Inr b)
  from reliable_put [OF assms(1), of b r] obtain r' where
    "putBlobIfMissing up n (''sha256:'' @ SHA256Hex b) b (int (length b)) r = (None, r')" by blast
  with assms(2) Inr show ?thesis by (simp add: uploadSpooled_def)
qed (use assms(2) in \<open>simp add: uploadSpooled_def\<close>)

lemma reliable_pushFile:
  assumes rl: "reliable up (o_Name opts)" and p: "pushFile ev acceptAll opts cs e st rec = (err, st', rec')"
  shows "\<exists>r'. pushFile ev up opts cs e st r = (err, st', r')"
proof (cases "cs > 0 \<and> (o_ZstdLevel opts > 0 \<and> h_Size (e_hdr e) \<ge> compressMinBytes \<or> h_Size (e_hdr e) > cs)")
  case True
  let ?c = "o_ZstdLevel opts > 0 \<and> h_Size (e_hdr e) \<ge> compressMinBytes"
  obtain er ds w rec1 where q: "enqueueChunks ev acceptAll (o_ZstdLevel opts) (o_Name opts) e cs ?c (ps_wait st) rec = (er, ds, w, rec1)"
    by (metis prod_cases4)
  have "\<exists>r'. enqueueChunks ev up (o_ZstdLevel opts) (o_Name opts) e cs ?c (ps_wait st) r = (er, ds, w, r')"
    using q reliable_enqueueLoop [OF rl] by (auto simp: enqueueChunks_def Let_def split: if_splits)
  with True p q show ?thesis by (auto simp: pushFile_def Let_def split: option.splits)
next
  case False
  let ?c = "o_ZstdLevel opts > 0 \<and> h_Size (e_hdr e) \<ge> compressMinBytes"
  obtain res rec1 where u: "(if ?c then uploadCompressedSpool ev acceptAll (o_ZstdLevel opts) (o_Name opts) e rec
      else uploadTarEntry acceptAll (o_Name opts) e rec) = (res, rec1)" by fastforce
  have "\<exists>r'. (if ?c then uploadCompressedSpool ev up (o_ZstdLevel opts) (o_Name opts) e r
      else uploadTarEntry up (o_Name opts) e r) = (res, r')"
    using u reliable_uploadSpooled [OF rl]
    by (auto simp: uploadCompressedSpool_def uploadTarEntry_def split: if_splits)
  then obtain r' where "(if ?c then uploadCompressedSpool ev up (o_ZstdLevel opts) (o_Name opts) e r
      else uploadTarEntry up (o_Name opts) e r) = (res, r')" by blast
  with False p u show ?thesis by (auto simp: pushFile_def Let_def split: sum.splits if_splits)
qed

lemma reliable_pushEntry:
  assumes rl: "reliable up (o_Name opts)" and p: "pushEntry ev acceptAll opts cs e st rec = (err, st', rec')"
  shows "\<exists>r'. pushEntry ev up opts cs e st r = (err, st', r')"
  using p reliable_pushFile [OF rl, of ev cs e]
  by (auto simp: pushEntry_def Let_def split: if_splits sum.splits)

lemma reliable_readLoop:
  assumes rl: "reliable up (o_Name opts)"
  shows "readLoop ev acceptAll opts cs es fin st rec = (err, st', rec') \<Longrightarrow>
    \<exists>r'. readLoop ev up opts cs es fin st r = (err, st', r')"
proof (induction es arbitrary: st r rec)
  case Nil
  then show ?case by (auto simp: readLoop.simps split: if_splits)
next
  case (Cons e es)
  show ?case
  proof (cases "ps_wait st \<noteq> None \<or> ev_ctx ev \<noteq> None")
    case True
    with Cons.prems show ?thesis by (subst (asm) readLoop.simps, subst readLoop.simps) auto
  next
    case False
    obtain er st1 rec1 where p: "pushEntry ev acceptAll opts cs e st rec = (er, st1, rec1)" by (metis prod_cases3)
    from reliable_pushEntry [OF rl p, of r] obtain r1 where p': "pushEntry ev up opts cs e st r = (er, st1, r1)" by blast
    show ?thesis
    proof (cases er)
      case None
      with Cons.prems p False have "readLoop ev acceptAll opts cs es fin st1 rec1 = (err, st', rec')"
        by (subst (asm) readLoop.simps) auto
      from Cons.IH [OF this, of r1] None p' False show ?thesis by (subst readLoop.simps) auto
    next
      case (Some x)
      with Cons.prems p p' False show ?thesis by (subst (asm) readLoop.simps, subst readLoop.simps) auto
    qed
  qed
qed

section \<open>The pool of a push\<close>

definition pushPool ::
  "env \<Rightarrow> 'r Uploader \<Rightarrow> PushOptions \<Rightarrow> (int \<Rightarrow> nat \<Rightarrow> int) \<Rightarrow> int \<Rightarrow> int \<Rightarrow> tar_stream \<Rightarrow> 'r pipeline" where
  "pushPool ev up opts grow workers chunkSize s =
     \<lparr>pl_env = ev, pl_up = up, pl_opts = opts, pl_workers = nat workers, pl_chunkSize = chunkSize,
      pl_end = ts_end s, pl_grow = grow\<rparr>"

text \<open>The states that \<^verbatim>\<open>readAndUploadEntries\<close> reaches once its parameters are accepted.\<close>

definition pushStates ::
  "env \<Rightarrow> 'r Uploader \<Rightarrow> PushOptions \<Rightarrow> (int \<Rightarrow> nat \<Rightarrow> int) \<Rightarrow> tar_stream \<Rightarrow> 'r \<Rightarrow> 'r pool \<Rightarrow> bool" where
  "pushStates ev up opts grow s r q \<longleftrightarrow>
     (\<exists>workers chunkSize. pipelineParams opts = Inr (workers, chunkSize) \<and>
        pool_reach (pushPool ev up opts grow workers chunkSize s)
          (newPool (pushPool ev up opts grow workers chunkSize s) (ts_entries s) r) q)"

lemma pushPool_simps [simp]:
  "pl_env (pushPool ev up opts grow w cs s) = ev" "pl_up (pushPool ev up opts grow w cs s) = up"
  "pl_opts (pushPool ev up opts grow w cs s) = opts" "pl_workers (pushPool ev up opts grow w cs s) = nat w"
  "pl_chunkSize (pushPool ev up opts grow w cs s) = cs" "pl_end (pushPool ev up opts grow w cs s) = ts_end s"
  "pl_grow (pushPool ev up opts grow w cs s) = grow"
  by (simp_all add: pushPool_def)

lemma seqLoop_pool:
  "seqLoop (pushPool ev up opts grow w cs s) es st rec = readLoop (calm ev) acceptAll opts cs es (ts_end s) st rec"
  by (simp add: seqLoop_def)

lemma calm_id: "ev_ctx ev = None \<Longrightarrow> calm ev = ev"
  by (cases ev) (simp add: calm_def)

text \<open>The context the caller gave stays ended once it has.\<close>

lemma pool_reach_ctx: "pool_reach P s0 s \<Longrightarrow> q_ctx s = None \<Longrightarrow> q_ctx s0 = None"
proof (induction rule: pool_reach.induct)
  case (more s s')
  from more.hyps(2) have "q_ctx s' = None \<longrightarrow> q_ctx s = None"
    by cases (auto dest: reader_step_err(2) worker_step_shape(7))
  with more show ?case by simp
qed

interpretation anyStore: pool_store up n "\<lambda>_. True" "\<lambda>_ _. True" UNIV for up n
  by unfold_locales auto

text \<open>Over a registry that does not fail, and with a caller that does not cancel, the result is the sequential one.\<close>

lemma pushStates_reliable:
  assumes q: "pushStates ev up opts grow s r q" and d: "q_reader q = AtDone res" and c: "q_ctx q = None"
    and rl: "reliable up (o_Name opts)"
  shows "res = fst (readAndUploadEntries ev up opts s r)"
proof -
  from q obtain w cs where pp: "pipelineParams opts = Inr (w, cs)" and
    reach: "pool_reach (pushPool ev up opts grow w cs s) (newPool (pushPool ev up opts grow w cs s) (ts_entries s) r) q"
    by (auto simp: pushStates_def)
  let ?P = "pushPool ev up opts grow w cs s"
  have ev: "ev_ctx ev = None" using pool_reach_ctx [OF reach c] by (simp add: newPool_def)
  from anyStore.pool_reach_inv [OF reach] have "anyStore.pool_inv up (o_Name opts) ?P (ts_entries s) q" by simp
  then have dn: "anyStore.done_inv up (o_Name opts) ?P (ts_entries s) q" by (auto simp: anyStore.pool_inv_def)
  obtain err st L where seq: "readLoop ev acceptAll opts cs (ts_entries s) (ts_end s) initState [] = (err, st, L)"
    by (metis prod_cases3)
  from reliable_readLoop [OF rl seq, of r] obtain r' where
    up: "readLoop ev up opts cs (ts_entries s) (ts_end s) initState r = (err, st, r')" by blast
  have sq: "seqLoop ?P (ts_entries s) initState [] = (err, st, L)" using seq ev by (simp add: seqLoop_pool calm_id)
  have wait: "ps_wait st = None" using seqLoop_offers [OF sq] by (simp add: initState_def)
  show ?thesis
  proof (cases res)
    case (Inl e)
    with dn d c rl sq have "mergeErrors err None None = Some e" by (auto simp: anyStore.done_inv_def)
    with up wait ev pp Inl show ?thesis by (simp add: readAndUploadEntries_def)
  next
    case (Inr ue)
    with dn d sq have "err = None" "ue = finishEntries st" by (auto simp: anyStore.done_inv_def)
    with up wait ev pp Inr show ?thesis by (simp add: readAndUploadEntries_def mergeErrors_def)
  qed
qed


section \<open>Liveness and memory\<close>

lemma pushPool_grow:
  assumes "pipelineParams opts = Inr (w, cs)" and "\<And>o' n. 0 \<le> o' \<Longrightarrow> o' \<le> M \<Longrightarrow> int n \<le> M \<Longrightarrow> 0 \<le> grow o' n \<and> grow o' n \<le> M"
    and "\<And>b. int (length b) \<le> cs \<Longrightarrow> int (length (z_EncodeAll (ev_zstd ev) (o_ZstdLevel opts) b)) \<le> M" and "cs \<le> M"
  shows "grow_ok (pushPool ev up opts grow w cs s) M"
proof -
  have "1 \<le> w" "0 \<le> cs" using pipelineParams_budget(1) [OF assms(1)] pipelineParams_chunk [OF assms(1)] by simp_all
  then have "1 \<le> nat w" by simp
  with assms \<open>0 \<le> cs\<close> show ?thesis by (simp add: grow_ok_def encodeJob_def)
qed

lemma pushStates_live:
  assumes q: "pushStates ev up opts grow s r q" and pp: "pipelineParams opts = Inr (w, cs)"
    and g: "grow_ok (pushPool ev up opts grow w cs s) M"
  shows "live_inv (pushPool ev up opts grow w cs s) M q"
  using q pp pool_reach_live [OF _ live_new [OF g] g] by (auto simp: pushStates_def)

lemma pushStates_start:
  "pipelineParams opts = Inr (w, cs) \<Longrightarrow>
   pushStates ev up opts grow s r (newPool (pushPool ev up opts grow w cs s) (ts_entries s) r)"
  by (auto simp: pushStates_def intro: pool_reach.start)

lemma pushStates_more:
  "pushStates ev up opts grow s r q \<Longrightarrow> pipelineParams opts = Inr (w, cs) \<Longrightarrow>
   pool_reach (pushPool ev up opts grow w cs s) q q' \<Longrightarrow> pushStates ev up opts grow s r q'"
  by (auto simp: pushStates_def intro: pool_reach_trans)

lemma pushStates_ends:
  assumes q: "pushStates ev up opts grow s r q" and pp: "pipelineParams opts = Inr (w, cs)"
    and g: "grow_ok (pushPool ev up opts grow w cs s) M"
  shows "\<exists>q' res. pushStates ev up opts grow s r q' \<and> pool_reach (pushPool ev up opts grow w cs s) q q' \<and>
    q_reader q' = AtDone res \<and> q_ctx q' = q_ctx q"
  using pool_ends [OF pushStates_live [OF q pp g] g] pushStates_more [OF q pp] by blast

lemma pushStates_budget:
  assumes q: "pushStates ev up opts grow s r q" and pp: "pipelineParams opts = Inr (w, cs)" and "0 < cs"
    and g: "grow_ok (pushPool ev up opts grow w cs s) M"
  shows "push_bytes q \<le> pushBudget opts + (w + 1) * (M - cs)"
proof -
  have w: "1 \<le> w" using pipelineParams_budget(1) [OF pp] .
  have "push_bytes q \<le> int (nat w + 1) * (cs + M)"
    using pool_memory [OF pushStates_live [OF q pp g]] by simp
  also have "\<dots> = (w + 1) * (2 * cs) + (w + 1) * (M - cs)" using w by (simp add: algebra_simps)
  also have "\<dots> \<le> pushBudget opts + (w + 1) * (M - cs)" using pipelineParams_budget(3) [OF pp assms(3)] by simp
  finally show ?thesis .
qed

section \<open>Safety over a registry that may fail\<close>

text \<open>The reference's registry is one that keeps what it is given.\<close>

interpretation given: upload_store acceptAll "\<lambda>r n d. d \<in> fst ` set r" "\<lambda>_. ()"
  by unfold_locales (auto simp: acceptAll_def)

context upload_store
begin

lemma under_pool: "pool_store up n (\<lambda>r. tags r = T) (\<lambda>r b. has r n (digestOf b)) UNIV"
proof unfold_locales
  fix b r e r'
  assume "tags r = T" and p: "up_PutBlob up n (digestOf b) b (int (length b)) r = (e, r')"
  then show "tags r' = T \<and> (\<forall>x. has r n (digestOf x) \<longrightarrow> has r' n (digestOf x)) \<and> (e = None \<longrightarrow> has r' n (digestOf b))"
    using blob_tags [OF p] blob_keeps [OF p] blob_stored by blast
qed (use head_true in blast)

lemma pushStates_safe:
  assumes q: "pushStates ev up opts grow s r q"
  shows "tags (q_reg q) = tags r"
    and "q_reader q = AtDone (Inr ue) \<Longrightarrow> held (q_reg q) (o_Name opts) (ue_layers ue) \<and>
      fst (readAndUploadEntries (calm ev) acceptAll opts s []) = Inr ue"
proof -
  from q obtain w cs where pp: "pipelineParams opts = Inr (w, cs)" and
    reach: "pool_reach (pushPool ev up opts grow w cs s) (newPool (pushPool ev up opts grow w cs s) (ts_entries s) r) q"
    by (auto simp: pushStates_def)
  let ?P = "pushPool ev up opts grow w cs s"
  note ps = under_pool [of "o_Name opts" "tags r"]
  from pool_store.pool_reach_inv [OF ps reach] have inv: "pool_store.pool_inv up (o_Name opts) (\<lambda>x. tags x = tags r)
      (\<lambda>x b. has x (o_Name opts) (digestOf b)) UNIV ?P (ts_entries s) q" by simp
  then show "tags (q_reg q) = tags r"
    by (auto simp: pool_store.pool_inv_def [OF ps] pool_store.store_inv_def [OF ps])
  show "held (q_reg q) (o_Name opts) (ue_layers ue) \<and> fst (readAndUploadEntries (calm ev) acceptAll opts s []) = Inr ue"
    if "q_reader q = AtDone (Inr ue)"
  proof -
    from inv that obtain st L where seq: "seqLoop ?P (ts_entries s) initState [] = (None, st, L)" "ue = finishEntries st"
        "\<forall>(d, b) \<in> set L. d = digestOf b \<and> has (q_reg q) (o_Name opts) (digestOf b)"
      by (auto simp: pool_store.pool_inv_def [OF ps] pool_store.done_inv_def [OF ps])
    have "ps_wait st = None" using seqLoop_offers [OF seq(1)] by (simp add: initState_def)
    with seq(1,2) pp have ra: "readAndUploadEntries (calm ev) acceptAll opts s [] = (Inr ue, L)"
      by (simp add: readAndUploadEntries_def seqLoop_pool mergeErrors_def)
    from given.readAndUploadEntries_keeps(2) [OF ra refl] seq(3) show ?thesis
      using ra by (fastforce simp: held_def given.held_def)
  qed
qed

end

section \<open>The whole push\<close>

text \<open>
  A run of \<^verbatim>\<open>Push\<close>, with the state of the caller's context when the pool has returned, the result and the
  registry that is left.
\<close>

inductive push_run ::
  "env \<Rightarrow> 'r Pusher \<Rightarrow> PushOptions \<Rightarrow> (int \<Rightarrow> nat \<Rightarrow> int) \<Rightarrow> 'r \<Rightarrow> goerr option \<Rightarrow> goerr option \<Rightarrow> 'r \<Rightarrow> bool"
  for ev p opts0 grow r where
  no_name: "o_Name opts0 = [] \<Longrightarrow> push_run ev p opts0 grow r ctx (Some (Msg ''snapshot push: name is required'')) r"
| no_export: "o_Name opts0 \<noteq> [] \<Longrightarrow> localName = or_str (o_LocalName opts0) (o_Name opts0) \<Longrightarrow>
    pu_Export p localName = Inl e \<Longrightarrow> push_run ev p opts0 grow r ctx (Some (Wrap (''cocoon export '' @ localName) e)) r"
| no_params: "o_Name opts0 \<noteq> [] \<Longrightarrow> pu_Export p (or_str (o_LocalName opts0) (o_Name opts0)) = Inr (s, waitErr) \<Longrightarrow>
    pipelineParams opts0 = Inl e \<Longrightarrow> push_run ev p opts0 grow r ctx (Some e) r"
| uploaded: "o_Name opts0 \<noteq> [] \<Longrightarrow> pu_Export p (or_str (o_LocalName opts0) (o_Name opts0)) = Inr (s, waitErr) \<Longrightarrow>
    opts = opts0\<lparr>o_Tag := or_str (o_Tag opts0) ''latest''\<rparr> \<Longrightarrow>
    pushStates ev (pushUploader p) opts grow s r q \<Longrightarrow> q_reader q = AtDone res \<Longrightarrow>
    finishPush ev (pushUploader p) opts waitErr res (q_reg q) = (out, r') \<Longrightarrow>
    push_run ev p opts0 grow r (q_ctx q) out r'"

lemma push_run_atomic:
  assumes st: "upload_store (pushUploader p) has tags" and run: "push_run ev p opts grow r ctx res r'"
  shows "(res \<noteq> None \<and> tags r' = tags r) \<or>
    (\<exists>m r1 e. tags r1 = tags r \<and> (\<forall>d \<in> set (m_Config m # m_Layers m). has r1 (o_Name opts) (d_Digest d)) \<and>
      up_PutManifest (pushUploader p) (o_Name opts) (or_str (o_Tag opts) ''latest'') (json_marshal_indent (enc_manifest m))
        MediaTypeOCIManifest r1 = (e, r') \<and> (res = None \<longleftrightarrow> e = None))"
  using run
proof cases
  case (uploaded s we o' q ra)
  note safe = upload_store.pushStates_safe [OF st uploaded(5)]
  have h: "upload_store.held has (q_reg q) (o_Name o') (ue_layers ue)" if "ra = Inr ue" for ue
    using safe(2) uploaded(6) that by blast
  from upload_store.finishPush_atomic [OF st uploaded(7) h] safe(1) show ?thesis
    by (simp add: uploaded(4))
qed auto


lemma push_run_exists:
  assumes "o_Name opts \<noteq> []" and "pu_Export p (or_str (o_LocalName opts) (o_Name opts)) = Inr (s, we)"
    and pp: "pipelineParams opts = Inr (w, cs)"
    and g: "grow_ok (pushPool ev (pushUploader p) (opts\<lparr>o_Tag := or_str (o_Tag opts) ''latest''\<rparr>) grow w cs s) M"
  shows "\<exists>res r'. push_run ev p opts grow r (ev_ctx ev) res r'"
proof -
  let ?o = "opts\<lparr>o_Tag := or_str (o_Tag opts) ''latest''\<rparr>"
  have pp': "pipelineParams ?o = Inr (w, cs)" using pp by simp
  from pushStates_ends [OF pushStates_start [OF pp'] pp' g, of r] obtain q res where
    q: "pushStates ev (pushUploader p) ?o grow s r q" "q_reader q = AtDone res" "q_ctx q = ev_ctx ev"
    by (auto simp: newPool_def)
  obtain out r' where "finishPush ev (pushUploader p) ?o we res (q_reg q) = (out, r')" by fastforce
  from push_run.uploaded [OF assms(1,2) refl q(1,2) this] q(3) show ?thesis by auto
qed

section \<open>A push of a good stream\<close>

text \<open>The reference gets exactly the blobs of the files.\<close>

lemma acceptAll_accepting: "accepting acceptAll n B (\<lambda>r. snd ` set r \<subseteq> B) (\<lambda>r b. b \<in> snd ` set r)"
  by unfold_locales auto

lemma good_offers:
  assumes pp: "pipelineParams opts = Inr (w, cs)" and g: "good_stream opts cs s cfg"
    and B: "set (pushedBlobs ev opts cs (ts_entries s) cfg) \<subseteq> B"
  shows "offers (pushPool ev up opts grow w cs s) (ts_entries s) \<subseteq> B"
    and "e \<in> set (files_of (ts_entries s)) \<Longrightarrow> b \<in> set (fileBlobs ev opts cs e) \<Longrightarrow>
      b \<in> offers (pushPool ev up opts grow w cs s) (ts_entries s)"
proof -
  have cs: "cs \<le> 2 ^ 32" using pipelineParams_chunk [OF pp] by simp
  have same: "fileBlobs (calm ev) = fileBlobs ev" by (simp add: fileBlobs_def fun_eq_iff)
  let ?B0 = "set (concat (map (fileBlobs ev opts cs) (files_of (ts_entries s))))"
  from g have gs: "ts_end s = EOF" "list_all (good_entry opts cs) (ts_entries s)" by (simp_all add: good_stream_def)
  have "\<forall>e \<in> set (ts_entries s). is_file e \<longrightarrow> set (fileBlobs (calm ev) opts cs e) \<subseteq> ?B0"
    by (auto simp: same files_of_def)
  from accepting.readLoop_ok [OF acceptAll_accepting [where n = "o_Name opts"] refl _ cs gs(2) this, of "[]" initState] obtain L where
    L: "readLoop (calm ev) acceptAll opts cs (ts_entries s) EOF initState [] =
        (None, fold (entryState (calm ev) opts cs) (ts_entries s) initState, L)"
      "\<forall>e \<in> set (ts_entries s). is_file e \<longrightarrow> (\<forall>b \<in> set (fileBlobs ev opts cs e). b \<in> snd ` set L)" "snd ` set L \<subseteq> ?B0"
    by (auto simp: initState_def same accepting.gains_def [OF acceptAll_accepting])
  have off: "offers (pushPool ev up opts grow w cs s) (ts_entries s) = snd ` set L"
    using L(1) gs(1) by (simp add: offers_def seqLoop_pool)
  have "?B0 \<subseteq> B" using B by (auto simp: pushedBlobs_def)
  with L(3) show "offers (pushPool ev up opts grow w cs s) (ts_entries s) \<subseteq> B" unfolding off by blast
  show "b \<in> offers (pushPool ev up opts grow w cs s) (ts_entries s)"
    if "e \<in> set (files_of (ts_entries s))" "b \<in> set (fileBlobs ev opts cs e)"
    using L(2) that unfolding off by (auto simp: files_of_def)
qed

context blob_store
begin

lemma store_under_pool:
  assumes n: "repo_ok n"
  shows "pool_store up n (\<lambda>r. within B n r \<and> manif r = M) (\<lambda>r. holds r n) B"
proof unfold_locales
  fix b r
  assume b: "b \<in> B" and w: "within B n r \<and> manif r = M" and h: "up_HasBlob up n (digestOf b) r = Inr True"
  from h has_blob [OF n, of b r] obtain b' where b': "blobs r n (digestOf b) = Some b'" by auto
  with verified [OF n b'] w b have "b' = b" by (auto simp: within_def dest: inj_onD)
  with b' show "holds r n b" by (simp add: holds_def)
next
  fix b r e r'
  assume b: "b \<in> B" and w: "within B n r \<and> manif r = M"
    and p: "up_PutBlob up n (digestOf b) b (int (length b)) r = (e, r')"
  from put_blob [OF n, of b r] p have r': "e = None" "blobs r' n = (blobs r n)(digestOf b \<mapsto> b)" "manif r' = manif r" by auto
  have "within B n r'" using w b r'(2) by (auto simp: within_def split: if_splits)
  moreover have "holds r' n x" if "holds r n x" for x
  proof -
    have "x \<in> B" using that w by (auto simp: holds_def within_def)
    then show ?thesis using that r'(2) w b by (auto simp: holds_def within_def dest: inj_onD)
  qed
  ultimately show "(within B n r' \<and> manif r' = M) \<and> (\<forall>x. holds r n x \<longrightarrow> holds r' n x) \<and> (e = None \<longrightarrow> holds r' n b)"
    using w r' by (auto simp: holds_def)
qed

lemma store_reliable: "repo_ok n \<Longrightarrow> reliable up n"
  using has_blob [of n] put_blob [of n] unfolding reliable_def by (metis fst_conv)

lemma pushStates_ok:
  assumes n: "repo_ok (o_Name opts)" and pp: "pipelineParams opts = Inr (w, cs)" and g: "good_stream opts cs s cfg"
    and B: "set (pushedBlobs ev opts cs (ts_entries s) cfg) \<subseteq> B" and wi: "within B (o_Name opts) r"
    and q: "pushStates ev up opts grow s r q" and d: "q_reader q = AtDone res" and c: "q_ctx q = None"
  shows "res = Inr \<lparr>ue_cfg = Some cfg, ue_files = filesMap ev opts cs (ts_entries s),
            ue_layers = streamLayers ev opts cs (ts_entries s), ue_encoded = streamEncoded opts cs (ts_entries s)\<rparr>"
    and "e \<in> set (files_of (ts_entries s)) \<Longrightarrow> b \<in> set (fileBlobs ev opts cs e) \<Longrightarrow> holds (q_reg q) (o_Name opts) b"
    and "within B (o_Name opts) (q_reg q)"
proof -
  have cs: "cs \<le> 2 ^ 32" using pipelineParams_chunk [OF pp] by simp
  let ?P = "pushPool ev up opts grow w cs s" and ?n = "o_Name opts"
  from q pp have reach: "pool_reach ?P (newPool ?P (ts_entries s) r) q" by (auto simp: pushStates_def)
  have ctx: "ev_ctx ev = None" using pool_reach_ctx [OF reach c] by (simp add: newPool_def)
  from readAndUploadEntries_ok [OF n ctx pp cs g B wi] pushStates_reliable [OF q d c store_reliable [OF n]]
  show res: "res = Inr \<lparr>ue_cfg = Some cfg, ue_files = filesMap ev opts cs (ts_entries s),
            ue_layers = streamLayers ev opts cs (ts_entries s), ue_encoded = streamEncoded opts cs (ts_entries s)\<rparr>"
    by auto
  note ps = store_under_pool [OF n, of B "manif r"]
  have "pool_store.pool_inv up ?n (\<lambda>x. within B ?n x \<and> manif x = manif r) (\<lambda>x. holds x ?n) B ?P (ts_entries s) q"
    by (rule pool_store.pool_reach_inv [OF ps reach]) (use good_offers(1) [OF pp g B] wi in simp_all)
  then have sv: "within B ?n (q_reg q)" and dn: "pool_store.done_inv up ?n (\<lambda>x. holds x ?n) ?P (ts_entries s) q"
    by (auto simp: pool_store.pool_inv_def [OF ps] pool_store.store_inv_def [OF ps])
  show "within B ?n (q_reg q)" by (rule sv)
  show "holds (q_reg q) ?n b" if "e \<in> set (files_of (ts_entries s))" "b \<in> set (fileBlobs ev opts cs e)"
    using good_offers(2) [OF pp g B that, of up grow] dn d res
    by (auto simp: offers_def pool_store.done_inv_def [OF ps])
qed

lemma push_run_ok:
  assumes up: "pushUploader p = up" and name: "o_Name opts \<noteq> []" and n: "repo_ok (o_Name opts)"
    and t: "tag_ok (or_str (o_Tag opts) ''latest'')" and pp: "pipelineParams opts = Inr (w, cs)"
    and ex: "pu_Export p (or_str (o_LocalName opts) (o_Name opts)) = Inr (s, None)" and g: "good_stream opts cs s cfg"
    and B: "set (pushedBlobs ev opts cs (ts_entries s) cfg) \<subseteq> B" and wi: "within B (o_Name opts) r"
    and run: "push_run ev p opts grow r None res r'"
  shows "res = None"
    and "manif r' (o_Name opts) (or_str (o_Tag opts) ''latest'') =
      Some (json_marshal_indent (enc_manifest (pushedManifest ev opts cs (ts_entries s) cfg)))"
    and "b \<in> set (pushedBlobs ev opts cs (ts_entries s) cfg) \<Longrightarrow> holds r' (o_Name opts) b"
proof -
  let ?o = "opts\<lparr>o_Tag := or_str (o_Tag opts) ''latest''\<rparr>"
  from run name ex pp obtain q ra where
    q: "pushStates ev up ?o grow s r q" "q_reader q = AtDone ra" "q_ctx q = None" "finishPush ev up ?o None ra (q_reg q) = (res, r')"
    by cases (auto simp: up)
  have pre: "repo_ok (o_Name ?o)" "pipelineParams ?o = Inr (w, cs)" "good_stream ?o cs s cfg"
      "set (pushedBlobs ev ?o cs (ts_entries s) cfg) \<subseteq> B" "within B (o_Name ?o) r"
    using n pp g B wi by simp_all
  note ok = pushStates_ok [OF pre q(1-3)]
  have files: "\<forall>e \<in> set (files_of (ts_entries s)). \<forall>b \<in> set (fileBlobs ev opts cs e). holds (q_reg q) (o_Name opts) b"
    using ok(2) by simp
  have "within B (o_Name opts) (q_reg q)" using ok(3) by simp
  from finishPush_ok [OF n t refl refl B this files] q(4) ok(1)
  have fin: "res = None \<and> manif r' (o_Name opts) (or_str (o_Tag opts) ''latest'') =
      Some (json_marshal_indent (enc_manifest (pushedManifest ev opts cs (ts_entries s) cfg))) \<and>
    (\<forall>b \<in> set (pushedBlobs ev opts cs (ts_entries s) cfg). holds r' (o_Name opts) b)"
    by simp
  from fin show "res = None" by blast
  from fin show "manif r' (o_Name opts) (or_str (o_Tag opts) ''latest'') =
      Some (json_marshal_indent (enc_manifest (pushedManifest ev opts cs (ts_entries s) cfg)))" by blast
  from fin show "b \<in> set (pushedBlobs ev opts cs (ts_entries s) cfg) \<Longrightarrow> holds r' (o_Name opts) b" by blast
qed

end

end
