(* ===== verification/Snapshot_Transfer.thy ===== *)
theory Snapshot_Transfer
  imports Push_Concurrent Example_Snapshot
begin

text \<open>
  Push and pull together: over any client library that keeps its contract, what any run of \<^verbatim>\<open>Push\<close> stores is
  what \<^verbatim>\<open>Stream\<close> reads. The concrete snapshot of the examples is pushed and streamed back.
\<close>

text \<open>A registry that holds the manifest and the blobs of a push streams them back.\<close>

lemma streams_back:
  assumes lib: "distribution rem root repo_ok tag_ok stored tagged" and g: "g = \<lparr>base = root, remote = rem\<rparr>"
    and z: "zstd_laws (ev_zstd ev)" "ev_zstd ev' = ev_zstd ev"
    and opts: "o_Name opts \<noteq> []" "repo_ok (o_Name opts)" "tag_ok t" "good_meta ev opts" and s: "good_stream opts cs s cfg"
    and inj: "inj_on digestOf (set (pushedBlobs ev opts cs (ts_entries s) cfg) \<union> X)"
    and small: "\<forall>b \<in> set (pushedBlobs ev opts cs (ts_entries s) cfg). int (length b) < 2 ^ 63"
      "int (length (configData (pushedConfig ev opts cs (ts_entries s) cfg))) \<le> maxSnapshotConfigSize"
    and so: "so_Name so = o_Name opts" "so_Writer so = Some (\<lambda>_. None)"
      "valid_utf8 (or_str (so_LocalName so) (so_Name so))"
    and m: "map_option rm_data (tagged r' (root @ ''/'' @ o_Name opts) t) =
      Some (json_marshal_indent (enc_manifest (pushedManifest ev opts cs (ts_entries s) cfg)))"
    and h: "\<forall>b \<in> set (pushedBlobs ev opts cs (ts_entries s) cfg).
      blob_store.holds (\<lambda>r n. stored r (root @ ''/'' @ n)) r' (o_Name opts) b"
  shows "\<exists>raw mt data tw. GetManifest g (o_Name opts) t r' = Inr (raw, mt) \<and>
    MarshalEnvelope (pushedConfig ev opts cs (ts_entries s) cfg) (or_str (so_LocalName so) (so_Name so)) = Inr data \<and>
    Stream ev' raw (ociDownloader g) so r' = (None, tw) \<and>
    tw_entries tw = (envelopeHeader (ev_nowJSON ev') data, data) #
      map (outEntry (ev_nowJSON ev')) (files_of (ts_entries s))"
proof -
  let ?bs = "pushedBlobs ev opts cs (ts_entries s) cfg" and ?now = "ev_nowJSON ev'"
  let ?raw = "json_marshal_indent (enc_manifest (pushedManifest ev opts cs (ts_entries s) cfg))"
  note st = distribution.client_store [OF lib, folded g]
  from blob_store.get_manifest [OF st, OF opts(2,3) m] obtain mt where
    gm: "GetManifest g (o_Name opts) t r' = Inr (?raw, mt)" by (auto simp: ociDownloader_def)
  have sz: "in_int64 (int (length b))" if "b \<in> set ?bs" for b
    using small(1) that by (auto simp: in_int64_def)
  have ne: "so_Name so \<noteq> []" using so(1) opts(1) by simp
  from blob_store.Stream_ok [OF st, OF opts(2) z s opts(4) so(1) ne so(2,3) inj Un_upper1 sz small(2)] h obtain data tw where
    "MarshalEnvelope (pushedConfig ev opts cs (ts_entries s) cfg) (or_str (so_LocalName so) (so_Name so)) = Inr data"
    "Stream ev' ?raw (ociDownloader g) so r' = (None, tw)"
    "tw_done ((envelopeHeader ?now data, data) # map (outEntry ?now) (files_of (ts_entries s))) tw"
    by blast
  with gm show ?thesis by (auto simp: tw_done_def)
qed

lemma push_pull:
  assumes lib: "distribution rem root repo_ok tag_ok stored tagged" and g: "g = \<lparr>base = root, remote = rem\<rparr>"
    and p: "p = \<lparr>pu_Uploader = ociUploader g, pu_Session = Some (ociUploader (UploadSession g)), pu_Export = export\<rparr>"
    and z: "zstd_laws (ev_zstd ev)" "ev_zstd ev' = ev_zstd ev"
    and opts: "o_Name opts \<noteq> []" "repo_ok (o_Name opts)" "tag_ok (or_str (o_Tag opts) ''latest'')"
      "pipelineParams opts = Inr (workers, cs)" "good_meta ev opts"
    and s: "export (or_str (o_LocalName opts) (o_Name opts)) = Inr (s, None)" "good_stream opts cs s cfg"
    and inj: "inj_on digestOf (set (pushedBlobs ev opts cs (ts_entries s) cfg) \<union>
      {b. \<exists>d. stored r (root @ ''/'' @ o_Name opts) d = Some b})"
    and small: "\<forall>b \<in> set (pushedBlobs ev opts cs (ts_entries s) cfg). int (length b) < 2 ^ 63"
      "int (length (configData (pushedConfig ev opts cs (ts_entries s) cfg))) \<le> maxSnapshotConfigSize"
    and so: "so_Name so = o_Name opts" "so_Writer so = Some (\<lambda>_. None)"
      "valid_utf8 (or_str (so_LocalName so) (so_Name so))"
    and run: "push_run ev p opts grow r None res r'"
  shows "res = None \<and> (\<exists>raw mt data tw.
    GetManifest g (o_Name opts) (or_str (o_Tag opts) ''latest'') r' = Inr (raw, mt) \<and>
    MarshalEnvelope (pushedConfig ev opts cs (ts_entries s) cfg) (or_str (so_LocalName so) (so_Name so)) = Inr data \<and>
    Stream ev' raw (ociDownloader g) so r' = (None, tw) \<and>
    tw_entries tw = (envelopeHeader (ev_nowJSON ev') data, data) #
      map (outEntry (ev_nowJSON ev')) (files_of (ts_entries s)))"
proof -
  let ?B = "set (pushedBlobs ev opts cs (ts_entries s) cfg) \<union> {b. \<exists>d. stored r (root @ ''/'' @ o_Name opts) d = Some b}"
  note st = distribution.client_store [OF lib, folded g]
  have w: "blob_store.within (\<lambda>r n. stored r (root @ ''/'' @ n)) ?B (o_Name opts) r"
    unfolding blob_store.within_def [OF st] using inj by auto
  have up: "pushUploader p = ociUploader g" by (simp add: pushUploader_def p UploadSession_def g)
  have ex: "pu_Export p (or_str (o_LocalName opts) (o_Name opts)) = Inr (s, None)" using p s(1) by simp
  note ok = blob_store.push_run_ok [OF st, OF up opts(1-4) ex s(2) Un_upper1 w run]
  have m: "map_option rm_data (tagged r' (root @ ''/'' @ o_Name opts) (or_str (o_Tag opts) ''latest'')) =
      Some (json_marshal_indent (enc_manifest (pushedManifest ev opts cs (ts_entries s) cfg)))"
    using ok(2) by simp
  have h: "\<forall>b \<in> set (pushedBlobs ev opts cs (ts_entries s) cfg).
      blob_store.holds (\<lambda>r n. stored r (root @ ''/'' @ n)) r' (o_Name opts) b"
    using ok(3) by blast
  show ?thesis
    by (rule conjI [OF ok(1) streams_back [OF lib g z opts(1-3,5) s(2) inj small so]]) (rule m, rule h)
qed

section \<open>The example, pushed and pulled\<close>

text \<open>A buffer that is grown to just what is needed.\<close>

definition exGrow :: "int \<Rightarrow> nat \<Rightarrow> int" where
  "exGrow o' n = max o' (int n)"

lemma exGrow_ok:
  "grow_ok (pushPool exEnv up (exOpts\<lparr>o_Tag := t\<rparr>) exGrow 8 (256 * 2 ^ 20) s) (256 * 2 ^ 20)"
  by (rule pushPool_grow) (simp_all add: exParams exGrow_def exEnv_def exZstd_def)

lemma ex_push_run: "\<exists>res r'. push_run exEnv exPusher exOpts exGrow exMem None res r'"
proof -
  have "\<exists>res r'. push_run exEnv exPusher exOpts exGrow exMem (ev_ctx exEnv) res r'"
    by (rule push_run_exists [OF _ _ exParams exGrow_ok]) (simp_all add: exOpts_def exPusher_def)
  then show ?thesis by (simp add: exEnv_def)
qed

lemma ex_small:
  "\<forall>b \<in> set (pushedBlobs exEnv exOpts (256 * 2 ^ 20) (ts_entries exStream) exCfg). int (length b) < 2 ^ 63"
  "int (length (configData (pushedConfig exEnv exOpts (256 * 2 ^ 20) (ts_entries exStream) exCfg))) \<le> maxSnapshotConfigSize"
  "inj_on digestOf (set (pushedBlobs exEnv exOpts (256 * 2 ^ 20) (ts_entries exStream) exCfg) \<union>
     {b. \<exists>d. mem_blob exMem (mem_root @ ''/'' @ o_Name exOpts) d = Some b})"
  "valid_utf8 ''vm''"
proof -
  have none: "{b. \<exists>d. mem_blob exMem (mem_root @ ''/'' @ o_Name exOpts) d = Some b} = {}"
    by (simp add: mem_blob_def exMem_def)
  show "\<forall>b \<in> set (pushedBlobs exEnv exOpts (256 * 2 ^ 20) (ts_entries exStream) exCfg). int (length b) < 2 ^ 63"
    "int (length (configData (pushedConfig exEnv exOpts (256 * 2 ^ 20) (ts_entries exStream) exCfg))) \<le> maxSnapshotConfigSize"
    unfolding exPushed by (simp_all add: exConfig_length maxSnapshotConfigSize_def)
  show "inj_on digestOf (set (pushedBlobs exEnv exOpts (256 * 2 ^ 20) (ts_entries exStream) exCfg) \<union>
      {b. \<exists>d. mem_blob exMem (mem_root @ ''/'' @ o_Name exOpts) d = Some b})"
    unfolding none exPushed by simp
  show "valid_utf8 ''vm''" by (rule valid_utf8_ascii) (simp add: cp_def)
qed

lemma ex_out:
  "outEntry exNow \<lparr>e_hdr = exHeader ''disk.raw'' 141, e_body = rd_of_bytes (configData exConfig)\<rparr> =
   (exHeader ''disk.raw'' 141, configData exConfig)"
  by (simp add: outEntry_def outHeader_def exHeader_def sparseRecords_def)

lemma ex_push_pull:
  assumes "push_run exEnv exPusher exOpts exGrow exMem None res r'"
  shows "res = None \<and> (\<exists>raw mt data tw.
    GetManifest exRegistry ''vm'' ''latest'' r' = Inr (raw, mt) \<and>
    MarshalEnvelope exConfig ''vm'' = Inr data \<and>
    Stream exEnv raw (ociDownloader exRegistry) exStreamOpts r' = (None, tw) \<and>
    tw_entries tw = [(envelopeHeader exNow data, data), (exHeader ''disk.raw'' 141, configData exConfig)])"
  using push_pull [OF memory.distribution_axioms exRegistry_def exPusher_def, of exEnv exEnv exOpts 8 "256 * 2 ^ 20"
      exStream exCfg exMem exStreamOpts exGrow res r'] assms exZstd_laws exParams exMeta exGood ex_small ex_out
  unfolding exFiles exPushed
  by (simp add: exEnv_def exOpts_def exStreamOpts_def mem_repo_ok_def mem_tag_ok_def or_str_def)

text \<open>The streams that come back.\<close>

lemma ex_streams:
  "\<exists>raw r tw. Stream exEnv raw (ociDownloader exRegistry) exStreamOpts r = (None, tw) \<and> tw_entries tw \<noteq> []"
  using ex_push_run ex_push_pull by (metis list.distinct(1))

text \<open>A state of the pool that has returned, over a registry that does not fail.\<close>

lemma ex_pool_done:
  "\<exists>q res. pushStates exEnv (ociUploader exRegistry) exOpts exGrow exStream exMem q \<and> q_reader q = AtDone res \<and> q_ctx q = None"
proof -
  have g: "grow_ok (pushPool exEnv (ociUploader exRegistry) exOpts exGrow 8 (256 * 2 ^ 20) exStream) (256 * 2 ^ 20)"
    using exGrow_ok [of "ociUploader exRegistry" "o_Tag exOpts" exStream] by simp
  from pushStates_ends [OF pushStates_start [OF exParams] exParams g, of exMem] show ?thesis
    by (auto simp: newPool_def exEnv_def)
qed

lemma ex_reliable: "reliable (ociUploader exRegistry) ''vm''"
  using blob_store.store_reliable [OF distribution.client_store [OF memory.distribution_axioms], of "''vm''"]
  by (simp add: exRegistry_def mem_repo_ok_def)

end
