(* ===== verification/Go_Heap.thy ===== *)
theory Go_Heap
  imports Go_Prelude
begin

text \<open>
  A memory for values that are shared by reference: a heap of cells, an address being the position of a
  cell. A nil pointer or slice is \<open>None\<close>. Allocation adds a cell at the end; a write replaces one.

  The locale \<open>copier\<close> is the contract of a deep copy: it allocates all that it refers to, its value is the value of
  the original, and a value only depends on the cells of its footprint. Copiers are closed under
  pointers, slices, pairs and structs, and a copy is not changed by any write through the original.
\<close>

section \<open>Allocation and copies\<close>

type_synonym 'c heap = "'c list"

definition alloc :: "'c \<Rightarrow> 'c heap \<Rightarrow> nat \<times> 'c heap" where
  "alloc c h = (length h, h @ [c])"

fun copyList :: "('m \<Rightarrow> 'c heap \<Rightarrow> 'm \<times> 'c heap) \<Rightarrow> 'm list \<Rightarrow> 'c heap \<Rightarrow> 'm list \<times> 'c heap" where
  "copyList cp [] h = ([], h)"
| "copyList cp (x # xs) h =
     (case cp x h of (y, h1) \<Rightarrow> case copyList cp xs h1 of (ys, h2) \<Rightarrow> (y # ys, h2))"

text \<open>
  A slice is copied into a new array, element by element; \<open>emb\<close> and \<open>proj\<close> say how an array of its element type
  is a cell. A nil slice stays nil.
\<close>

definition copySlice ::
  "('m \<Rightarrow> 'c heap \<Rightarrow> 'm \<times> 'c heap) \<Rightarrow> ('m list \<Rightarrow> 'c) \<Rightarrow> ('c \<Rightarrow> 'm list option) \<Rightarrow> nat option \<Rightarrow> 'c heap \<Rightarrow>
   nat option \<times> 'c heap" where
  "copySlice cp emb proj p h =
     (case p of
        None \<Rightarrow> (None, h)
      | Some a \<Rightarrow>
          (case copyList cp (the (proj (h ! a))) h of
             (ys, h1) \<Rightarrow> (case alloc (emb ys) h1 of (b, h2) \<Rightarrow> (Some b, h2))))"

definition copyPtr ::
  "('m \<Rightarrow> 'c heap \<Rightarrow> 'm \<times> 'c heap) \<Rightarrow> ('m \<Rightarrow> 'c) \<Rightarrow> ('c \<Rightarrow> 'm option) \<Rightarrow> nat option \<Rightarrow> 'c heap \<Rightarrow>
   nat option \<times> 'c heap" where
  "copyPtr cp emb proj p h =
     (case p of
        None \<Rightarrow> (None, h)
      | Some a \<Rightarrow>
          (case cp (the (proj (h ! a))) h of
             (x, h1) \<Rightarrow> (case alloc (emb x) h1 of (b, h2) \<Rightarrow> (Some b, h2))))"

text \<open>A method on a pointer receiver that is nil gives nil.\<close>

definition copyNew :: "('m \<Rightarrow> 'c heap \<Rightarrow> 'm \<times> 'c heap) \<Rightarrow> 'm option \<Rightarrow> 'c heap \<Rightarrow> 'm option \<times> 'c heap" where
  "copyNew cp p h = (case p of None \<Rightarrow> (None, h) | Some x \<Rightarrow> (case cp x h of (y, h') \<Rightarrow> (Some y, h')))"

section \<open>What is read through a reference\<close>

definition deref :: "('c \<Rightarrow> 'x option) \<Rightarrow> 'c heap \<Rightarrow> nat \<Rightarrow> 'x option" where
  "deref proj h a = (if a < length h then proj (h ! a) else None)"

definition sliceOk :: "('c heap \<Rightarrow> 'm \<Rightarrow> bool) \<Rightarrow> ('c \<Rightarrow> 'm list option) \<Rightarrow> 'c heap \<Rightarrow> nat option \<Rightarrow> bool" where
  "sliceOk ok proj h p =
     (case p of None \<Rightarrow> True | Some a \<Rightarrow> (case deref proj h a of None \<Rightarrow> False | Some xs \<Rightarrow> list_all (ok h) xs))"

definition sliceVal :: "('c heap \<Rightarrow> 'm \<Rightarrow> 'v) \<Rightarrow> ('c \<Rightarrow> 'm list option) \<Rightarrow> 'c heap \<Rightarrow> nat option \<Rightarrow> 'v list option" where
  "sliceVal val proj h p = (case p of None \<Rightarrow> None | Some a \<Rightarrow> map_option (map (val h)) (deref proj h a))"

definition sliceFoot :: "('c heap \<Rightarrow> 'm \<Rightarrow> nat set) \<Rightarrow> ('c \<Rightarrow> 'm list option) \<Rightarrow> 'c heap \<Rightarrow> nat option \<Rightarrow> nat set" where
  "sliceFoot foot proj h p =
     (case p of None \<Rightarrow> {} | Some a \<Rightarrow> insert a (case deref proj h a of None \<Rightarrow> {} | Some xs \<Rightarrow> \<Union> (foot h ` set xs)))"

definition ptrOk :: "('c heap \<Rightarrow> 'm \<Rightarrow> bool) \<Rightarrow> ('c \<Rightarrow> 'm option) \<Rightarrow> 'c heap \<Rightarrow> nat option \<Rightarrow> bool" where
  "ptrOk ok proj h p = (case p of None \<Rightarrow> True | Some a \<Rightarrow> (case deref proj h a of None \<Rightarrow> False | Some x \<Rightarrow> ok h x))"

definition ptrVal :: "('c heap \<Rightarrow> 'm \<Rightarrow> 'v) \<Rightarrow> ('c \<Rightarrow> 'm option) \<Rightarrow> 'c heap \<Rightarrow> nat option \<Rightarrow> 'v option" where
  "ptrVal val proj h p = (case p of None \<Rightarrow> None | Some a \<Rightarrow> map_option (val h) (deref proj h a))"

definition ptrFoot :: "('c heap \<Rightarrow> 'm \<Rightarrow> nat set) \<Rightarrow> ('c \<Rightarrow> 'm option) \<Rightarrow> 'c heap \<Rightarrow> nat option \<Rightarrow> nat set" where
  "ptrFoot foot proj h p =
     (case p of None \<Rightarrow> {} | Some a \<Rightarrow> insert a (case deref proj h a of None \<Rightarrow> {} | Some x \<Rightarrow> foot h x))"

section \<open>The contract\<close>

definition same_on :: "nat set \<Rightarrow> 'c heap \<Rightarrow> 'c heap \<Rightarrow> bool" where
  "same_on A h h' = (\<forall>a \<in> A. a < length h' \<and> h' ! a = h ! a)"

lemma same_on_append: "A \<subseteq> {..<length h} \<Longrightarrow> same_on A h (h @ m)"
  by (auto simp: same_on_def nth_append)

lemma same_on_mono: "same_on A h h' \<Longrightarrow> A' \<subseteq> A \<Longrightarrow> same_on A' h h'"
  by (auto simp: same_on_def)

locale copier =
  fixes cp :: "'m \<Rightarrow> 'c heap \<Rightarrow> 'm \<times> 'c heap" and val :: "'c heap \<Rightarrow> 'm \<Rightarrow> 'v"
    and foot :: "'c heap \<Rightarrow> 'm \<Rightarrow> nat set" and ok :: "'c heap \<Rightarrow> 'm \<Rightarrow> bool"
  assumes bounded: "ok h x \<Longrightarrow> foot h x \<subseteq> {..<length h}"
    and depends: "ok h x \<Longrightarrow> same_on (foot h x) h h' \<Longrightarrow> ok h' x \<and> val h' x = val h x \<and> foot h' x = foot h x"
    and copied: "ok h x \<Longrightarrow> cp x h = (y, h') \<Longrightarrow>
      (\<exists>m. h' = h @ m) \<and> ok h' y \<and> val h' y = val h x \<and> foot h' y \<subseteq> {length h..<length h'}"
begin

lemma depends_append: "ok h x \<Longrightarrow> ok (h @ m) x \<and> val (h @ m) x = val h x \<and> foot (h @ m) x = foot h x"
  by (intro depends same_on_append bounded)

text \<open>The copy shares no cell with the original, and a write to any cell of the original leaves it.\<close>

lemma separated:
  assumes "ok h x" and "cp x h = (y, h')"
  shows "foot h' y \<inter> foot h' x = {}" and "val h' x = val h x" and "val h' y = val h x"
    and "same_on ({..<length h'} - foot h' x) h' h'' \<Longrightarrow> val h'' y = val h x"
proof -
  from copied [OF assms] obtain m where m: "h' = h @ m" "ok h' y" "val h' y = val h x" "foot h' y \<subseteq> {length h..<length h'}"
    by blast
  from depends_append [OF assms(1), of m] m(1) have x: "val h' x = val h x" "foot h' x = foot h x" by simp_all
  have d: "foot h' y \<inter> foot h' x = {}" using m(4) x(2) bounded [OF assms(1)] by force
  then show "foot h' y \<inter> foot h' x = {}" .
  show "val h' x = val h x" "val h' y = val h x" by (fact x, fact m)
  show "val h'' y = val h x" if w: "same_on ({..<length h'} - foot h' x) h' h''"
  proof -
    have "same_on (foot h' y) h' h''" by (rule same_on_mono [OF w]) (use d m(4) in auto)
    with depends [OF m(2)] m(3) show ?thesis by simp
  qed
qed

lemma copied_list:
  "list_all (ok h) xs \<Longrightarrow> copyList cp xs h = (ys, h') \<Longrightarrow>
   (\<exists>m. h' = h @ m) \<and> list_all (ok h') ys \<and> map (val h') ys = map (val h) xs \<and>
   \<Union> (foot h' ` set ys) \<subseteq> {length h..<length h'}"
proof (induction xs arbitrary: h ys h')
  case (Cons x xs)
  obtain y h1 where y: "cp x h = (y, h1)" by fastforce
  obtain zs h2 where zs: "copyList cp xs h1 = (zs, h2)" by fastforce
  from Cons.prems y zs have r: "ys = y # zs" "h' = h2" by simp_all
  from copied [OF _ y] Cons.prems(1) obtain m where
    m: "h1 = h @ m" "ok h1 y" "val h1 y = val h x" "foot h1 y \<subseteq> {length h..<length h1}" by auto
  have ok1: "list_all (ok h1) xs" "map (val h1) xs = map (val h) xs"
    using Cons.prems(1) depends_append [of h] m(1) by (auto simp: list_all_iff)
  from Cons.IH [OF ok1(1) zs] obtain m2 where
    m2: "h2 = h1 @ m2" "list_all (ok h2) zs" "map (val h2) zs = map (val h1) xs" "\<Union> (foot h2 ` set zs) \<subseteq> {length h1..<length h2}"
    by blast
  from depends_append [OF m(2), of m2] m2(1) have "ok h2 y" "val h2 y = val h1 y" "foot h2 y = foot h1 y" by simp_all
  with m m2 ok1 r show ?case by auto
qed simp

end

section \<open>Pointers, slices and structs\<close>

lemma copier_plain: "copier (\<lambda>x h. (x, h)) (\<lambda>h x. x) (\<lambda>h x. {}) (\<lambda>h x. True)"
  by unfold_locales auto

lemma deref_same: "a < length h' \<Longrightarrow> h' ! a = h ! a \<Longrightarrow> a < length h \<Longrightarrow> deref proj h' a = deref proj h a"
  by (simp add: deref_def)

lemma deref_bound: "deref proj h a = Some x \<Longrightarrow> a < length h \<and> proj (h ! a) = Some x"
  by (simp add: deref_def split: if_splits)

lemma copier_slice:
  assumes c: "copier cp val foot ok" and inv: "\<And>xs. proj (emb xs) = Some xs"
  shows "copier (copySlice cp emb proj) (sliceVal val proj) (sliceFoot foot proj) (sliceOk ok proj)"
proof unfold_locales
  fix h p
  assume o: "sliceOk ok proj h p"
  show "sliceFoot foot proj h p \<subseteq> {..<length h}"
    using o subsetD [OF copier.bounded [OF c]]
    by (auto simp: sliceOk_def sliceFoot_def list_all_iff split: option.splits dest!: deref_bound) blast
  fix h'
  assume s: "same_on (sliceFoot foot proj h p) h h'"
  show "sliceOk ok proj h' p \<and> sliceVal val proj h' p = sliceVal val proj h p \<and> sliceFoot foot proj h' p = sliceFoot foot proj h p"
  proof (cases p)
    case (Some a)
    with o obtain xs where xs: "deref proj h a = Some xs" "list_all (ok h) xs" by (auto simp: sliceOk_def split: option.splits)
    have f: "sliceFoot foot proj h p = insert a (\<Union> (foot h ` set xs))" using Some xs by (simp add: sliceFoot_def)
    have "deref proj h' a = Some xs" using s f xs(1) deref_bound [OF xs(1)] by (simp add: same_on_def deref_def)
    moreover have "ok h' x \<and> val h' x = val h x \<and> foot h' x = foot h x" if "x \<in> set xs" for x
    proof (rule copier.depends [OF c])
      show "ok h x" using xs(2) that by (auto simp: list_all_iff)
      show "same_on (foot h x) h h'" by (rule same_on_mono [OF s]) (use f that in auto)
    qed
    ultimately show ?thesis using Some xs by (auto simp: sliceOk_def sliceVal_def sliceFoot_def list_all_iff)
  qed (simp add: sliceOk_def sliceVal_def sliceFoot_def)
next
  fix h p q h'
  assume o: "sliceOk ok proj h p" and q: "copySlice cp emb proj p h = (q, h')"
  show "(\<exists>m. h' = h @ m) \<and> sliceOk ok proj h' q \<and> sliceVal val proj h' q = sliceVal val proj h p \<and>
    sliceFoot foot proj h' q \<subseteq> {length h..<length h'}"
  proof (cases p)
    case None
    with q show ?thesis by (simp add: copySlice_def sliceOk_def sliceVal_def sliceFoot_def)
  next
    case (Some a)
    with o obtain xs where xs: "deref proj h a = Some xs" "list_all (ok h) xs" by (auto simp: sliceOk_def split: option.splits)
    obtain ys h1 where ys: "copyList cp xs h = (ys, h1)" by fastforce
    from copier.copied_list [OF c xs(2) ys] obtain m where
      m: "h1 = h @ m" "list_all (ok h1) ys" "map (val h1) ys = map (val h) xs" "\<Union> (foot h1 ` set ys) \<subseteq> {length h..<length h1}"
      by blast
    have r: "q = Some (length h1)" "h' = h1 @ [emb ys]"
      using q Some ys deref_bound [OF xs(1)] by (simp_all add: copySlice_def alloc_def)
    have el: "ok h' y \<and> val h' y = val h1 y \<and> foot h' y = foot h1 y" if "y \<in> set ys" for y
      using copier.depends_append [OF c, of h1 y "[emb ys]"] m(2) that r(2) by (auto simp: list_all_iff)
    have d: "deref proj h' (length h1) = Some ys" using r inv by (simp add: deref_def)
    have v: "map (val h') ys = map (val h) xs" using el m(3) by (metis map_eq_conv)
    have "\<Union> (foot h' ` set ys) \<subseteq> {length h..<length h1}" using el m(4) by auto
    with r m(1) d v el Some xs(1) show ?thesis by (auto simp: sliceOk_def sliceVal_def sliceFoot_def list_all_iff)
  qed
qed

text \<open>A pointer is an array of one element.\<close>

lemma copier_ptr:
  assumes c: "copier cp val foot ok" and inv: "\<And>x. proj (emb x) = Some x"
  shows "copier (copyPtr cp emb proj) (ptrVal val proj) (ptrFoot foot proj) (ptrOk ok proj)"
proof unfold_locales
  fix h p
  assume o: "ptrOk ok proj h p"
  show "ptrFoot foot proj h p \<subseteq> {..<length h}"
    using o subsetD [OF copier.bounded [OF c]] by (auto simp: ptrOk_def ptrFoot_def split: option.splits dest!: deref_bound)
  fix h'
  assume s: "same_on (ptrFoot foot proj h p) h h'"
  show "ptrOk ok proj h' p \<and> ptrVal val proj h' p = ptrVal val proj h p \<and> ptrFoot foot proj h' p = ptrFoot foot proj h p"
  proof (cases p)
    case (Some a)
    with o obtain x where x: "deref proj h a = Some x" "ok h x" by (auto simp: ptrOk_def split: option.splits)
    have f: "ptrFoot foot proj h p = insert a (foot h x)" using Some x by (simp add: ptrFoot_def)
    have "deref proj h' a = Some x" using s f x(1) deref_bound [OF x(1)] by (simp add: same_on_def deref_def)
    moreover have "ok h' x \<and> val h' x = val h x \<and> foot h' x = foot h x"
      by (rule copier.depends [OF c x(2) same_on_mono [OF s]]) (use f in auto)
    ultimately show ?thesis using Some x by (auto simp: ptrOk_def ptrVal_def ptrFoot_def)
  qed (simp add: ptrOk_def ptrVal_def ptrFoot_def)
next
  fix h p q h'
  assume o: "ptrOk ok proj h p" and q: "copyPtr cp emb proj p h = (q, h')"
  show "(\<exists>m. h' = h @ m) \<and> ptrOk ok proj h' q \<and> ptrVal val proj h' q = ptrVal val proj h p \<and>
    ptrFoot foot proj h' q \<subseteq> {length h..<length h'}"
  proof (cases p)
    case None
    with q show ?thesis by (simp add: copyPtr_def ptrOk_def ptrVal_def ptrFoot_def)
  next
    case (Some a)
    with o obtain x where x: "deref proj h a = Some x" "ok h x" by (auto simp: ptrOk_def split: option.splits)
    obtain y h1 where y: "cp x h = (y, h1)" by fastforce
    from copier.copied [OF c x(2) y] obtain m where
      m: "h1 = h @ m" "ok h1 y" "val h1 y = val h x" "foot h1 y \<subseteq> {length h..<length h1}" by blast
    have r: "q = Some (length h1)" "h' = h1 @ [emb y]"
      using q Some y deref_bound [OF x(1)] by (simp_all add: copyPtr_def alloc_def)
    have el: "ok h' y \<and> val h' y = val h1 y \<and> foot h' y = foot h1 y"
      using copier.depends_append [OF c m(2), of "[emb y]"] r(2) by simp
    have d: "deref proj h' (length h1) = Some y" using r inv by (simp add: deref_def)
    show ?thesis using r m d el Some x(1) by (auto simp: ptrOk_def ptrVal_def ptrFoot_def)
  qed
qed

lemma copier_pair:
  assumes c: "copier cp val foot ok" and c': "copier cp' val' foot' ok'"
  shows "copier (\<lambda>(x, y) h. case cp x h of (x', h1) \<Rightarrow> case cp' y h1 of (y', h2) \<Rightarrow> ((x', y'), h2))
    (\<lambda>h (x, y). (val h x, val' h y)) (\<lambda>h (x, y). foot h x \<union> foot' h y) (\<lambda>h (x, y). ok h x \<and> ok' h y)"
proof unfold_locales
  fix h p
  assume o: "case p of (x, y) \<Rightarrow> ok h x \<and> ok' h y"
  obtain x y where p: "p = (x, y)" by fastforce
  from o show "(case p of (x, y) \<Rightarrow> foot h x \<union> foot' h y) \<subseteq> {..<length h}"
    using copier.bounded [OF c, of h x] copier.bounded [OF c', of h y] p by auto
  fix h'
  assume "same_on (case p of (x, y) \<Rightarrow> foot h x \<union> foot' h y) h h'"
  then have "same_on (foot h x) h h'" "same_on (foot' h y) h h'" using p by (auto simp: same_on_def)
  with copier.depends [OF c, of h x h'] copier.depends [OF c', of h y h'] o p
  show "(case p of (x, y) \<Rightarrow> ok h' x \<and> ok' h' y) \<and>
      (case p of (x, y) \<Rightarrow> (val h' x, val' h' y)) = (case p of (x, y) \<Rightarrow> (val h x, val' h y)) \<and>
      (case p of (x, y) \<Rightarrow> foot h' x \<union> foot' h' y) = (case p of (x, y) \<Rightarrow> foot h x \<union> foot' h y)" by simp
next
  fix h p q h'
  assume o: "case p of (x, y) \<Rightarrow> ok h x \<and> ok' h y"
    and e: "(case p of (x, y) \<Rightarrow> \<lambda>h. case cp x h of (x', h1) \<Rightarrow> case cp' y h1 of (y', h2) \<Rightarrow> ((x', y'), h2)) h = (q, h')"
  obtain x y where p: "p = (x, y)" by fastforce
  obtain x' y' where q: "q = (x', y')" by fastforce
  from e p q obtain h1 where h1: "cp x h = (x', h1)" "cp' y h1 = (y', h')" by (auto split: prod.splits)
  from copier.copied [OF c _ h1(1)] o p obtain m where
    m: "h1 = h @ m" "ok h1 x'" "val h1 x' = val h x" "foot h1 x' \<subseteq> {length h..<length h1}" by auto
  have y: "ok' h1 y" "val' h1 y = val' h y" using copier.depends_append [OF c', of h y m] o p m(1) by auto
  from copier.copied [OF c' y(1) h1(2)] obtain m2 where
    m2: "h' = h1 @ m2" "ok' h' y'" "val' h' y' = val' h1 y" "foot' h' y' \<subseteq> {length h1..<length h'}" by auto
  have "ok h' x'" "val h' x' = val h1 x'" "foot h' x' = foot h1 x'"
    using copier.depends_append [OF c m(2), of m2] m2(1) by simp_all
  with m m2 y p q show "(\<exists>m. h' = h @ m) \<and> (case q of (x, y) \<Rightarrow> ok h' x \<and> ok' h' y) \<and>
      (case q of (x, y) \<Rightarrow> (val h' x, val' h' y)) = (case p of (x, y) \<Rightarrow> (val h x, val' h y)) \<and>
      (case q of (x, y) \<Rightarrow> foot h' x \<union> foot' h' y) \<subseteq> {length h..<length h'}" by auto
qed

text \<open>
  A struct is copied by \<^verbatim>\<open>*out = *in\<close>, with the parts that refer to other memory copied one after the other: \<open>get\<close>
  gives those parts, \<open>put\<close> sets them, and \<open>mk\<close> makes the value from the plain fields and the values of the parts.
\<close>

lemma copier_struct:
  assumes c: "copier cp val foot ok" and "\<And>m p. get (put p m) = p" and "\<And>m p v. mk (put p m) v = mk m v"
  shows "copier (\<lambda>m h. case cp (get m) h of (p, h') \<Rightarrow> (put p m, h'))
    (\<lambda>h m. mk m (val h (get m))) (\<lambda>h m. foot h (get m)) (\<lambda>h m. ok h (get m))"
proof unfold_locales
  fix h x
  assume o: "ok h (get x)"
  show "foot h (get x) \<subseteq> {..<length h}" by (rule copier.bounded [OF c o])
  fix h'
  assume "same_on (foot h (get x)) h h'"
  from copier.depends [OF c o this]
  show "ok h' (get x) \<and> mk x (val h' (get x)) = mk x (val h (get x)) \<and> foot h' (get x) = foot h (get x)" by simp
next
  fix h x y h'
  assume o: "ok h (get x)" and e: "(case cp (get x) h of (p, h') \<Rightarrow> (put p x, h')) = (y, h')"
  obtain p h1 where p: "cp (get x) h = (p, h1)" by fastforce
  from copier.copied [OF c o p] p e assms(2,3)
  show "(\<exists>m. h' = h @ m) \<and> ok h' (get y) \<and> mk y (val h' (get y)) = mk x (val h (get x)) \<and>
    foot h' (get y) \<subseteq> {length h..<length h'}" by auto
qed

end
