(* ===== verification/Oci_Options.thy ===== *)
theory Oci_Options
  imports Go_Prelude Go_Heap
begin

text \<open>
  The options of the registry client (\<^verbatim>\<open>oci/oci.go\<close>): \<^verbatim>\<open>NewOCIRegistry\<close>, \<^verbatim>\<open>UploadSession\<close>, \<^verbatim>\<open>callOpts\<close>,
  \<^verbatim>\<open>withPusher\<close> and \<^verbatim>\<open>bulkTransport\<close>. An option list is a Go slice: an array in memory, a length and a capacity, and an
  \<^verbatim>\<open>append\<close> below the capacity writes to the array that other slices see. All clients of a registry share the array of
  \<^verbatim>\<open>pull\<close>; \<^verbatim>\<open>slices.Clip\<close> is what keeps a call from writing its context there.

  The pullers, pushers and contexts of the packages are type parameters, what \<^verbatim>\<open>remote.NewPuller\<close> and \<^verbatim>\<open>remote.NewPusher\<close> return and the capacity a
  grown array gets are arguments. The lemmas: memory is only ever added to, so that the clients, with any
  sequence of sessions and calls, behave as if each had option lists of its own.
\<close>

section \<open>Slices\<close>

text \<open>A slot beyond the length of a slice is a nil option, \<open>None\<close>. The slices of the client start at the start of their array.\<close>

record goslice =
  gs_array :: nat
  gs_len :: nat
  gs_cap :: nat

type_synonym 'o arrays = "'o option list heap"

definition sliceLit :: "'o list \<Rightarrow> 'o arrays \<Rightarrow> goslice \<times> 'o arrays" where
  "sliceLit xs h = (case alloc (map Some xs) h of (a, h') \<Rightarrow> (\<lparr>gs_array = a, gs_len = length xs, gs_cap = length xs\<rparr>, h'))"

definition Clip :: "goslice \<Rightarrow> goslice" where
  "Clip s = s\<lparr>gs_cap := gs_len s\<rparr>"

definition goAppend :: "(nat \<Rightarrow> nat) \<Rightarrow> goslice \<Rightarrow> 'o \<Rightarrow> 'o arrays \<Rightarrow> goslice \<times> 'o arrays" where
  "goAppend grow s x h =
     (if gs_len s < gs_cap s
      then (s\<lparr>gs_len := gs_len s + 1\<rparr>, h[gs_array s := (h ! gs_array s)[gs_len s := Some x]])
      else let c = max (grow (gs_len s + 1)) (gs_len s + 1) in
           (case alloc (take (gs_len s) (h ! gs_array s) @ Some x # replicate (c - (gs_len s + 1)) None) h of
              (a, h') \<Rightarrow> (\<lparr>gs_array = a, gs_len = gs_len s + 1, gs_cap = c\<rparr>, h')))"

definition elems :: "'o arrays \<Rightarrow> goslice \<Rightarrow> 'o option list" where
  "elems h s = take (gs_len s) (h ! gs_array s)"

section \<open>Transport\<close>

record tls_config =
  tc_NextProtos :: "string list"
  tc_MinVersion :: int

definition VersionTLS12 :: int where
  "VersionTLS12 = 0x0303"

text \<open>\<^verbatim>\<open>http.Transport\<close>: the fields that are set here, the others being \<open>'t\<close>; a clone has the same fields.\<close>

record ('f, 't) Transport =
  tr_Proxy :: "'f option"
  tr_ForceAttemptHTTP2 :: bool
  tr_TLSClientConfig :: "tls_config option"
  tr_MaxIdleConnsPerHost :: int
  tr_rest :: 't

definition maxRegistryConnsPerHost :: int where
  "maxRegistryConnsPerHost = 32"

text \<open>The default transport of the process, if it is an \<^verbatim>\<open>http.Transport\<close>.\<close>

definition bulkTransport :: "'f \<Rightarrow> 't \<Rightarrow> ('f, 't) Transport option \<Rightarrow> ('f, 't) Transport" where
  "bulkTransport ProxyFromEnvironment zero DefaultTransport =
     (let base = (case DefaultTransport of
            Some t \<Rightarrow> t
          | None \<Rightarrow> \<lparr>tr_Proxy = Some ProxyFromEnvironment, tr_ForceAttemptHTTP2 = False, tr_TLSClientConfig = None,
                     tr_MaxIdleConnsPerHost = 0, tr_rest = zero\<rparr>);
          t = base
      in t\<lparr>tr_ForceAttemptHTTP2 := False,
           tr_TLSClientConfig := Some \<lparr>tc_NextProtos = [''http/1.1''], tc_MinVersion = VersionTLS12\<rparr>,
           tr_MaxIdleConnsPerHost := maxRegistryConnsPerHost\<rparr>)"

section \<open>The client\<close>

datatype ('k, 't, 'p, 'q, 'x) option' =
    WithAuthFromKeychain 'k
  | WithTransport 't
  | ReusePuller 'p
  | ReusePusher 'q
  | WithContext 'x

record registry_options =
  ro_base :: string
  ro_pull :: goslice
  ro_opts :: goslice

definition NewOCIRegistry ::
  "(nat \<Rightarrow> nat) \<Rightarrow> (('k, 't, 'p, 'q, 'x) option' option list \<Rightarrow> 'p res) \<Rightarrow> 't \<Rightarrow> string \<Rightarrow> 'k \<Rightarrow>
   ('k, 't, 'p, 'q, 'x) option' arrays \<Rightarrow> registry_options \<times> ('k, 't, 'p, 'q, 'x) option' arrays" where
  "NewOCIRegistry grow NewPuller transport base keychain h =
     (case sliceLit [WithAuthFromKeychain keychain, WithTransport transport] h of (pull, h1) \<Rightarrow>
      case (case NewPuller (elems h1 pull) of
              Inr puller \<Rightarrow> goAppend grow pull (ReusePuller puller) h1
            | Inl _ \<Rightarrow> (pull, h1)) of (pull', h2) \<Rightarrow>
        (\<lparr>ro_base = base, ro_pull = pull', ro_opts = pull'\<rparr>, h2))"

definition withPusher ::
  "(nat \<Rightarrow> nat) \<Rightarrow> (('k, 't, 'p, 'q, 'x) option' option list \<Rightarrow> 'q res) \<Rightarrow> goslice \<Rightarrow>
   ('k, 't, 'p, 'q, 'x) option' arrays \<Rightarrow> goslice \<times> ('k, 't, 'p, 'q, 'x) option' arrays" where
  "withPusher grow NewPusher pull h =
     (case NewPusher (elems h pull) of
        Inl _ \<Rightarrow> (pull, h)
      | Inr pusher \<Rightarrow> goAppend grow (Clip pull) (ReusePusher pusher) h)"

definition registry_UploadSession ::
  "(nat \<Rightarrow> nat) \<Rightarrow> (('k, 't, 'p, 'q, 'x) option' option list \<Rightarrow> 'q res) \<Rightarrow> registry_options \<Rightarrow>
   ('k, 't, 'p, 'q, 'x) option' arrays \<Rightarrow> registry_options \<times> ('k, 't, 'p, 'q, 'x) option' arrays" where
  "registry_UploadSession grow NewPusher r h =
     (case withPusher grow NewPusher (ro_pull r) h of (opts, h') \<Rightarrow>
        (\<lparr>ro_base = ro_base r, ro_pull = ro_pull r, ro_opts = opts\<rparr>, h'))"

definition callOpts ::
  "(nat \<Rightarrow> nat) \<Rightarrow> registry_options \<Rightarrow> 'x \<Rightarrow> ('k, 't, 'p, 'q, 'x) option' arrays \<Rightarrow>
   goslice \<times> ('k, 't, 'p, 'q, 'x) option' arrays" where
  "callOpts grow r ctx h = goAppend grow (Clip (ro_opts r)) (WithContext ctx) h"

section \<open>Sessions and calls\<close>

text \<open>
  A client, its sessions, theirs, and the calls on each, in any order: the clients so far, the option
  lists the calls were given, and the memory. A session comes with what \<^verbatim>\<open>remote.NewPusher\<close> returns then.
\<close>

datatype ('q, 'x, 'o) client_op =
    OpSession nat "'o option list \<Rightarrow> 'q res"
  | OpCall nat 'x

record 'o clients =
  cl_clients :: "registry_options list"
  cl_calls :: "goslice list"
  cl_heap :: "'o arrays"

fun client_step ::
  "(nat \<Rightarrow> nat) \<Rightarrow> ('q, 'x, ('k, 't, 'p, 'q, 'x) option') client_op \<Rightarrow> ('k, 't, 'p, 'q, 'x) option' clients \<Rightarrow>
   ('k, 't, 'p, 'q, 'x) option' clients" where
  "client_step grow (OpSession i NewPusher) c =
     (if i < length (cl_clients c) then
        (case registry_UploadSession grow NewPusher (cl_clients c ! i) (cl_heap c) of (r, h) \<Rightarrow>
           c\<lparr>cl_clients := cl_clients c @ [r], cl_heap := h\<rparr>)
      else c)"
| "client_step grow (OpCall i ctx) c =
     (if i < length (cl_clients c) then
        (case callOpts grow (cl_clients c ! i) ctx (cl_heap c) of (s, h) \<Rightarrow>
           c\<lparr>cl_calls := cl_calls c @ [s], cl_heap := h\<rparr>)
      else c)"

text \<open>The same with lists instead of slices: for a client what it pulls with and what it calls with.\<close>

record 'o client_lists =
  li_clients :: "('o option list \<times> 'o option list) list"
  li_calls :: "'o option list list"

fun list_step ::
  "('q, 'x, ('k, 't, 'p, 'q, 'x) option') client_op \<Rightarrow> ('k, 't, 'p, 'q, 'x) option' client_lists \<Rightarrow>
   ('k, 't, 'p, 'q, 'x) option' client_lists" where
  "list_step (OpSession i NewPusher) c =
     (if i < length (li_clients c) then
        let pull = fst (li_clients c ! i);
            opts = (case NewPusher pull of Inl _ \<Rightarrow> pull | Inr pusher \<Rightarrow> pull @ [Some (ReusePusher pusher)])
        in c\<lparr>li_clients := li_clients c @ [(pull, opts)]\<rparr>
      else c)"
| "list_step (OpCall i ctx) c =
     (if i < length (li_clients c) then c\<lparr>li_calls := li_calls c @ [snd (li_clients c ! i) @ [Some (WithContext ctx)]]\<rparr>
      else c)"

definition abs_clients :: "'o clients \<Rightarrow> 'o client_lists" where
  "abs_clients c =
     \<lparr>li_clients = map (\<lambda>r. (elems (cl_heap c) (ro_pull r), elems (cl_heap c) (ro_opts r))) (cl_clients c),
      li_calls = map (elems (cl_heap c)) (cl_calls c)\<rparr>"

section \<open>Nothing is overwritten\<close>

definition slice_wf :: "'o arrays \<Rightarrow> goslice \<Rightarrow> bool" where
  "slice_wf h s = (gs_array s < length h \<and> gs_len s \<le> gs_cap s \<and> gs_cap s \<le> length (h ! gs_array s))"

lemma slice_wf_append [simp]: "slice_wf h s \<Longrightarrow> slice_wf (h @ m) s \<and> elems (h @ m) s = elems h s"
  by (simp add: slice_wf_def elems_def nth_append)

lemma sliceLit_wf:
  assumes "sliceLit xs h = (s, h')"
  shows "slice_wf h' s" and "elems h' s = map Some xs" and "\<exists>m. h' = h @ m"
  using assms by (auto simp: sliceLit_def alloc_def slice_wf_def elems_def)

lemma Clip_append:
  assumes "slice_wf h s" and "goAppend grow (Clip s) x h = (s', h')"
  shows "slice_wf h' s'" and "elems h' s' = elems h s @ [Some x]" and "\<exists>m. h' = h @ m"
  using assms by (auto simp: goAppend_def Clip_def alloc_def slice_wf_def elems_def Let_def)

definition clients_wf :: "'o clients \<Rightarrow> bool" where
  "clients_wf c = (list_all (\<lambda>r. slice_wf (cl_heap c) (ro_pull r) \<and> slice_wf (cl_heap c) (ro_opts r)) (cl_clients c) \<and>
     list_all (slice_wf (cl_heap c)) (cl_calls c))"

lemma clients_wf_nth:
  "clients_wf c \<Longrightarrow> i < length (cl_clients c) \<Longrightarrow>
   slice_wf (cl_heap c) (ro_pull (cl_clients c ! i)) \<and> slice_wf (cl_heap c) (ro_opts (cl_clients c ! i))"
  by (simp add: clients_wf_def list_all_length)

text \<open>A longer memory changes no client and no call.\<close>

lemma clients_append:
  assumes "clients_wf c"
  shows "clients_wf (c\<lparr>cl_heap := cl_heap c @ m\<rparr>)" and "abs_clients (c\<lparr>cl_heap := cl_heap c @ m\<rparr>) = abs_clients c"
  using assms by (auto simp: clients_wf_def abs_clients_def list_all_iff)

lemma withPusher_elems:
  assumes "slice_wf h pull" and "withPusher grow NewPusher pull h = (s, h')"
  shows "slice_wf h' s" and "\<exists>m. h' = h @ m"
    and "elems h' s = (case NewPusher (elems h pull) of Inl _ \<Rightarrow> elems h pull | Inr q \<Rightarrow> elems h pull @ [Some (ReusePusher q)])"
  using assms Clip_append [OF assms(1)] by (auto simp: withPusher_def split: sum.splits)

lemma client_step_refines:
  assumes "clients_wf c"
  shows "clients_wf (client_step grow a c) \<and> abs_clients (client_step grow a c) = list_step a (abs_clients c)"
proof (cases a)
  case (OpSession i NewPusher)
  show ?thesis
  proof (cases "i < length (cl_clients c)")
    case True
    let ?r = "cl_clients c ! i"
    obtain s h where s: "withPusher grow NewPusher (ro_pull ?r) (cl_heap c) = (s, h)" by fastforce
    note w = clients_wf_nth [OF assms True]
    from withPusher_elems [OF conjunct1 [OF w] s] obtain m where m: "h = cl_heap c @ m" "slice_wf h s" by blast
    from withPusher_elems(3) [OF conjunct1 [OF w] s] w m clients_append [OF assms, of m] OpSession True s show ?thesis
      by (auto simp: registry_UploadSession_def clients_wf_def abs_clients_def Let_def)
  qed (use OpSession assms in \<open>simp add: abs_clients_def\<close>)
next
  case (OpCall i ctx)
  show ?thesis
  proof (cases "i < length (cl_clients c)")
    case True
    let ?r = "cl_clients c ! i"
    obtain s h where s: "goAppend grow (Clip (ro_opts ?r)) (WithContext ctx) (cl_heap c) = (s, h)" by fastforce
    note w = clients_wf_nth [OF assms True]
    from Clip_append [OF conjunct2 [OF w] s] obtain m where m: "h = cl_heap c @ m" "slice_wf h s"
      "elems h s = elems (cl_heap c) (ro_opts ?r) @ [Some (WithContext ctx)]" by blast
    from w m clients_append [OF assms, of m] OpCall True s show ?thesis
      by (auto simp: callOpts_def clients_wf_def abs_clients_def)
  qed (use OpCall assms in \<open>simp add: abs_clients_def\<close>)
qed

lemma client_run_refines:
  "clients_wf c \<Longrightarrow> abs_clients (fold (client_step grow) as c) = fold list_step as (abs_clients c)"
  by (induction as arbitrary: c) (simp_all add: client_step_refines)

text \<open>A new client, whose array may have room for one more option.\<close>

lemma NewOCIRegistry_new:
  assumes "NewOCIRegistry grow NewPuller transport base keychain h = (r, h')"
  shows "clients_wf \<lparr>cl_clients = [r], cl_calls = [], cl_heap = h'\<rparr>"
    and "ro_opts r = ro_pull r" and "ro_base r = base"
    and "elems h' (ro_pull r) = (let pull = [Some (WithAuthFromKeychain keychain), Some (WithTransport transport)] in
      case NewPuller pull of Inr puller \<Rightarrow> pull @ [Some (ReusePuller puller)] | Inl _ \<Rightarrow> pull)"
  using assms by (auto simp: NewOCIRegistry_def sliceLit_def goAppend_def alloc_def elems_def clients_wf_def slice_wf_def
      Let_def nth_append split: sum.splits)

end
