(* ===== verification/Cloudimg.thy ===== *)
theory Cloudimg
  imports Oci_Manifest Ociutil "HOL-Library.Multiset"
begin

text \<open>
  The package \<^verbatim>\<open>cloudimg\<close>: the disk layers of a cloud image, sorted by title, copied one after the
  other. \<^verbatim>\<open>BlobReader\<close> is a function from digests to bodies; the destination is any writer.

  The lemmas: sorting keeps the disk layers, in title order and stably; a stream that returns no
  error has written exactly the bodies of the disk layers in that order, each of its manifest size,
  and a stream whose blobs are all there succeeds.
\<close>

section \<open>Definitions\<close>

definition copyBlob ::
  "(string \<Rightarrow> reader res) \<Rightarrow> 'w write_fn \<Rightarrow> Descriptor \<Rightarrow> 'w \<Rightarrow> goerr option \<times> 'w" where
  "copyBlob get wr layer w =
     (case get (d_Digest layer) of
        Inl e \<Rightarrow> (Some (Wrap (''get blob '' @ d_Digest layer) e), w)
      | Inr body \<Rightarrow>
          (case CopyBlobSized wr w body (d_Digest layer) (d_Size layer) of
             None \<Rightarrow> (Some NoReturn, w)
           | Some x \<Rightarrow> x))"

definition diskLayers :: "Descriptor list \<Rightarrow> Descriptor list" where
  "diskLayers layers = sort_key Title (filter (\<lambda>l. IsDiskMediaType (d_MediaType l)) layers)"

fun copyBlobs ::
  "(string \<Rightarrow> reader res) \<Rightarrow> 'w write_fn \<Rightarrow> Descriptor list \<Rightarrow> 'w \<Rightarrow> goerr option \<times> 'w" where
  "copyBlobs get wr [] w = (None, w)"
| "copyBlobs get wr (l # ls) w =
     (case copyBlob get wr l w of
        (Some e, w') \<Rightarrow> (Some e, w')
      | (None, w') \<Rightarrow> copyBlobs get wr ls w')"

definition CloudStreamParsed ::
  "OCIManifest \<Rightarrow> (string \<Rightarrow> reader res) \<Rightarrow> 'w write_fn \<Rightarrow> 'w \<Rightarrow> goerr option \<times> 'w" where
  "CloudStreamParsed m get wr w =
     (let disks = diskLayers (m_Layers m) in
      if disks = [] then (Some (Msg ''cloud image manifest has no disk layers''), w)
      else copyBlobs get wr disks w)"

definition CloudStream ::
  "bytes \<Rightarrow> (string \<Rightarrow> reader res) \<Rightarrow> 'w write_fn \<Rightarrow> 'w \<Rightarrow> goerr option \<times> 'w" where
  "CloudStream raw get wr w =
     (case Parse raw of
        Inl e \<Rightarrow> (Some (Wrap ''parse manifest'' e), w)
      | Inr m \<Rightarrow>
          if ClassifyParsed m \<noteq> KindCloudImage then
            (Some (Msg (''manifest is '' @ KindString (ClassifyParsed m) @ '', not a cloud image'')), w)
          else CloudStreamParsed m get wr w)"

section \<open>The order of the layers\<close>

text \<open>The disk layers, each as often as before, by title; layers of one title keep their order.\<close>

lemma diskLayers_spec:
  "mset (diskLayers ls) = {#l \<in># mset ls. IsDiskMediaType (d_MediaType l)#}"
  "sorted (map Title (diskLayers ls))"
  "filter (\<lambda>l. Title l = t) (diskLayers ls) =
     filter (\<lambda>l. IsDiskMediaType (d_MediaType l) \<and> Title l = t) ls"
proof -
  show "mset (diskLayers ls) = {#l \<in># mset ls. IsDiskMediaType (d_MediaType l)#}"
    by (simp add: diskLayers_def mset_filter)
  show "sorted (map Title (diskLayers ls))" by (simp add: diskLayers_def)
  show "filter (\<lambda>l. Title l = t) (diskLayers ls) =
      filter (\<lambda>l. IsDiskMediaType (d_MediaType l) \<and> Title l = t) ls"
    unfolding diskLayers_def sort_key_stable by (simp add: filter_filter conj_commute)
qed

section \<open>What is written\<close>

definition layerBody :: "(string \<Rightarrow> reader res) \<Rightarrow> Descriptor \<Rightarrow> bytes" where
  "layerBody get l = (case get (d_Digest l) of Inl _ \<Rightarrow> [] | Inr body \<Rightarrow> rd_content body)"

definition layerComplete :: "(string \<Rightarrow> reader res) \<Rightarrow> Descriptor \<Rightarrow> bool" where
  "layerComplete get l = (case get (d_Digest l) of Inl _ \<Rightarrow> False | Inr body \<Rightarrow> blob_complete body (d_Size l))"

text \<open>Bodies may be broken or of any length, but a read gives data or an error.\<close>

definition bodies_progress :: "(string \<Rightarrow> reader res) \<Rightarrow> bool" where
  "bodies_progress get = (\<forall>d body. get d = Inr body \<longrightarrow> rd_progress body)"

context io_writer
begin

lemma copyBlob_written:
  assumes p: "bodies_progress get" and i: "winv w" and c: "copyBlob get put_out l w = (None, w')"
  shows "layerComplete get l" and "wrote w' = wrote w @ layerBody get l" and "winv w'"
proof -
  from c obtain body where b: "get (d_Digest l) = Inr body"
      "CopyBlobSized put_out w body (d_Digest l) (d_Size l) = Some (None, w')"
    by (auto simp: copyBlob_def split: sum.splits option.splits)
  have "rd_progress body" using p b(1) by (simp add: bodies_progress_def)
  from CopyBlobSized_ok [OF io_writer_axioms this i b(2)] b(1)
  show "layerComplete get l" and "wrote w' = wrote w @ layerBody get l" and "winv w'"
    by (simp_all add: layerComplete_def layerBody_def)
qed

lemma copyBlobs_written:
  assumes "bodies_progress get" and "winv w" and "copyBlobs get put_out ls w = (None, w')"
  shows "list_all (layerComplete get) ls \<and> wrote w' = wrote w @ concat (map (layerBody get) ls) \<and> winv w'"
  using assms(2,3)
proof (induction ls arbitrary: w)
  case (Cons l ls)
  then obtain w1 where w1: "copyBlob get put_out l w = (None, w1)" "copyBlobs get put_out ls w1 = (None, w')"
    by (auto split: prod.splits option.splits)
  note c = copyBlob_written [OF assms(1) Cons.prems(1) w1(1)]
  from Cons.IH [OF c(3) w1(2)] c show ?case by simp
qed simp

text \<open>A stream that reports success, over any writer.\<close>

lemma CloudStream_written:
  assumes "bodies_progress get" and "winv w" and "CloudStream raw get put_out w = (None, w')"
  shows "\<exists>m. Parse raw = Inr m \<and> ClassifyParsed m = KindCloudImage \<and> diskLayers (m_Layers m) \<noteq> [] \<and>
    list_all (layerComplete get) (diskLayers (m_Layers m)) \<and>
    wrote w' = wrote w @ concat (map (layerBody get) (diskLayers (m_Layers m)))"
  using assms copyBlobs_written [OF assms(1,2)]
  by (auto simp: CloudStream_def CloudStreamParsed_def Let_def split: sum.splits if_splits)

end

text \<open>Into a buffer a copy fails only because of the blob.\<close>

lemma copyBlob_buffer:
  assumes "bodies_progress get" and "layerComplete get l"
  shows "copyBlob get buf_write l w = (None, w @ layerBody get l)"
proof -
  from assms obtain body where b: "get (d_Digest l) = Inr body" "rd_progress body" "blob_complete body (d_Size l)"
    by (auto simp: layerComplete_def bodies_progress_def split: sum.splits)
  from CopyBlobSized_total [OF buf.io_writer_axioms b(2), of w "d_Digest l" "d_Size l"] b(1,3) show ?thesis
    by (auto simp: copyBlob_def layerBody_def)
qed

lemma copyBlobs_buffer:
  "bodies_progress get \<Longrightarrow> list_all (layerComplete get) ls \<Longrightarrow>
     copyBlobs get buf_write ls w = (None, w @ concat (map (layerBody get) ls))"
  by (induction ls arbitrary: w) (simp_all add: copyBlob_buffer)

lemma CloudStream_buffer:
  assumes "bodies_progress get"
  shows "CloudStream raw get buf_write w = (None, w') \<longleftrightarrow>
    (\<exists>m. Parse raw = Inr m \<and> ClassifyParsed m = KindCloudImage \<and> diskLayers (m_Layers m) \<noteq> [] \<and>
       list_all (layerComplete get) (diskLayers (m_Layers m)) \<and>
       w' = w @ concat (map (layerBody get) (diskLayers (m_Layers m))))"
  (is "?L \<longleftrightarrow> ?R")
proof
  assume ?L
  from buf.CloudStream_written [OF assms TrueI this] show ?R .
next
  assume ?R
  then show ?L by (auto simp: CloudStream_def CloudStreamParsed_def Let_def copyBlobs_buffer [OF assms])
qed

end
