(* ===== verification/Meta_Keys.thy ===== *)
theory Meta_Keys
  imports Go_Strconv
begin

text \<open>
  The keys of \<^verbatim>\<open>meta/keys.go\<close>, and a pod as the package \<^verbatim>\<open>meta\<close> sees it: the fields of \<^verbatim>\<open>corev1.Pod\<close> that
  it reads or writes. A nil annotation map is \<open>None\<close>; reading a nil map gives the empty text, and
  \<^verbatim>\<open>ensurePodAnnotations\<close> is what makes writing possible. The helpers of \<^verbatim>\<open>meta/utils.go\<close> follow.
\<close>

section \<open>Keys\<close>

definition KindCocoonSet :: string where
  "KindCocoonSet = ''CocoonSet''"

definition TolerationKey :: string where
  "TolerationKey = ''virtual-kubelet.io/provider''"

definition LabelCocoonSet :: string where
  "LabelCocoonSet = ''cocoonset.cocoonstack.io/name''"

definition LabelRole :: string where
  "LabelRole = ''cocoonset.cocoonstack.io/role''"

definition LabelSlot :: string where
  "LabelSlot = ''cocoonset.cocoonstack.io/slot''"

definition LabelNodePool :: string where
  "LabelNodePool = ''cocoonstack.io/pool''"

definition DefaultNodePool :: string where
  "DefaultNodePool = ''default''"

definition LabelSnapshotCompatibilityClass :: string where
  "LabelSnapshotCompatibilityClass = ''cocoonstack.io/snapshot-cpu-class''"

definition AnnotationMode :: string where
  "AnnotationMode = ''cocoonset.cocoonstack.io/mode''"

definition AnnotationImage :: string where
  "AnnotationImage = ''cocoonset.cocoonstack.io/image''"

definition AnnotationStorage :: string where
  "AnnotationStorage = ''cocoonset.cocoonstack.io/storage''"

definition AnnotationManaged :: string where
  "AnnotationManaged = ''cocoonset.cocoonstack.io/managed''"

definition AnnotationOS :: string where
  "AnnotationOS = ''cocoonset.cocoonstack.io/os''"

definition AnnotationSnapshotPolicy :: string where
  "AnnotationSnapshotPolicy = ''cocoonset.cocoonstack.io/snapshot-policy''"

definition AnnotationNetwork :: string where
  "AnnotationNetwork = ''cocoonset.cocoonstack.io/network''"

definition AnnotationForcePull :: string where
  "AnnotationForcePull = ''cocoonset.cocoonstack.io/force-pull''"

definition AnnotationCocoonSetGeneration :: string where
  "AnnotationCocoonSetGeneration = ''cocoonset.cocoonstack.io/generation''"

definition AnnotationHibernatedOnNode :: string where
  "AnnotationHibernatedOnNode = ''cocoonset.cocoonstack.io/hibernated-on-node''"

definition AnnotationVMID :: string where
  "AnnotationVMID = ''vm.cocoonstack.io/id''"

definition AnnotationVMName :: string where
  "AnnotationVMName = ''vm.cocoonstack.io/name''"

definition AnnotationIP :: string where
  "AnnotationIP = ''vm.cocoonstack.io/ip''"

definition AnnotationVNCPort :: string where
  "AnnotationVNCPort = ''vm.cocoonstack.io/vnc-port''"

definition AnnotationHibernate :: string where
  "AnnotationHibernate = ''vm.cocoonstack.io/hibernate''"

definition AnnotationRestoreFromHibernate :: string where
  "AnnotationRestoreFromHibernate = ''vm.cocoonstack.io/restore-from-hibernate''"

definition AnnotationKeepSnapshotOnDelete :: string where
  "AnnotationKeepSnapshotOnDelete = ''vm.cocoonstack.io/keep-snapshot-on-delete''"

definition AnnotationForkFrom :: string where
  "AnnotationForkFrom = ''vm.cocoonstack.io/fork-from''"

definition AnnotationCloneFromDir :: string where
  "AnnotationCloneFromDir = ''vm.cocoonstack.io/clone-from-dir''"

definition AnnotationConnType :: string where
  "AnnotationConnType = ''vm.cocoonstack.io/conn-type''"

definition AnnotationBackend :: string where
  "AnnotationBackend = ''vm.cocoonstack.io/backend''"

definition AnnotationNoDirectIO :: string where
  "AnnotationNoDirectIO = ''vm.cocoonstack.io/no-direct-io''"

definition AnnotationProbePort :: string where
  "AnnotationProbePort = ''vm.cocoonstack.io/probe-port''"

definition AnnotationLifecycleState :: string where
  "AnnotationLifecycleState = ''vm.cocoonstack.io/lifecycle-state''"

definition AnnotationLifecycleObservedGeneration :: string where
  "AnnotationLifecycleObservedGeneration = ''vm.cocoonstack.io/lifecycle-observed-generation''"

definition AnnotationLifecycleStateMessage :: string where
  "AnnotationLifecycleStateMessage = ''vm.cocoonstack.io/lifecycle-state-message''"

definition AnnotationSnapshotAnnotations :: string where
  "AnnotationSnapshotAnnotations = ''vm.cocoonstack.io/snapshot-annotations''"

definition AnnotationSnapshotRequest :: string where
  "AnnotationSnapshotRequest = ''vm.cocoonstack.io/snapshot''"

definition AnnotationSnapshotStatus :: string where
  "AnnotationSnapshotStatus = ''vm.cocoonstack.io/snapshot-status''"

definition RoleMain :: string where
  "RoleMain = ''main''"

definition RoleSubAgent :: string where
  "RoleSubAgent = ''sub-agent''"

definition RoleToolbox :: string where
  "RoleToolbox = ''toolbox''"

definition HibernateSnapshotTag :: string where
  "HibernateSnapshotTag = ''hibernate''"

definition DefaultSnapshotTag :: string where
  "DefaultSnapshotTag = ''latest''"

definition annotationTrue :: string where
  "annotationTrue = ''true''"

named_theorems meta_keys \<open>the keys, unfolded\<close>

lemmas meta_keys_all [meta_keys] =
  KindCocoonSet_def
  TolerationKey_def
  LabelCocoonSet_def
  LabelRole_def
  LabelSlot_def
  LabelNodePool_def
  DefaultNodePool_def
  LabelSnapshotCompatibilityClass_def
  AnnotationMode_def
  AnnotationImage_def
  AnnotationStorage_def
  AnnotationManaged_def
  AnnotationOS_def
  AnnotationSnapshotPolicy_def
  AnnotationNetwork_def
  AnnotationForcePull_def
  AnnotationCocoonSetGeneration_def
  AnnotationHibernatedOnNode_def
  AnnotationVMID_def
  AnnotationVMName_def
  AnnotationIP_def
  AnnotationVNCPort_def
  AnnotationHibernate_def
  AnnotationRestoreFromHibernate_def
  AnnotationKeepSnapshotOnDelete_def
  AnnotationForkFrom_def
  AnnotationCloneFromDir_def
  AnnotationConnType_def
  AnnotationBackend_def
  AnnotationNoDirectIO_def
  AnnotationProbePort_def
  AnnotationLifecycleState_def
  AnnotationLifecycleObservedGeneration_def
  AnnotationLifecycleStateMessage_def
  AnnotationSnapshotAnnotations_def
  AnnotationSnapshotRequest_def
  AnnotationSnapshotStatus_def
  RoleMain_def
  RoleSubAgent_def
  RoleToolbox_def
  HibernateSnapshotTag_def
  DefaultSnapshotTag_def
  annotationTrue_def

text \<open>The annotation keys are pairwise different, so that writing one leaves the others alone.\<close>

definition annotationKeys :: "string list" where
  "annotationKeys = [AnnotationMode,
     AnnotationImage,
     AnnotationStorage,
     AnnotationManaged,
     AnnotationOS,
     AnnotationSnapshotPolicy,
     AnnotationNetwork,
     AnnotationForcePull,
     AnnotationCocoonSetGeneration,
     AnnotationHibernatedOnNode,
     AnnotationVMID,
     AnnotationVMName,
     AnnotationIP,
     AnnotationVNCPort,
     AnnotationHibernate,
     AnnotationRestoreFromHibernate,
     AnnotationKeepSnapshotOnDelete,
     AnnotationForkFrom,
     AnnotationCloneFromDir,
     AnnotationConnType,
     AnnotationBackend,
     AnnotationNoDirectIO,
     AnnotationProbePort,
     AnnotationLifecycleState,
     AnnotationLifecycleObservedGeneration,
     AnnotationLifecycleStateMessage,
     AnnotationSnapshotAnnotations,
     AnnotationSnapshotRequest,
     AnnotationSnapshotStatus]"

lemma annotationKeys_distinct: "distinct annotationKeys" "distinct (rev annotationKeys)"
  by code_simp+

lemmas annotation_keys_ne [simp] = annotationKeys_distinct [unfolded annotationKeys_def, simplified]

section \<open>Pods\<close>

record owner_ref =
  owner_Kind :: string
  owner_Name :: string

record toleration =
  tol_Key :: string

record pod_condition =
  pc_Type :: string
  pc_Status :: string

record pod =
  pod_Namespace :: string
  pod_Annotations :: "gomap option"
  pod_Labels :: "gomap option"
  pod_OwnerReferences :: "owner_ref list"
  pod_NodeSelector :: "gomap option"
  pod_Phase :: string
  pod_Conditions :: "pod_condition list"
  pod_Running :: "bool list"

definition nil_get :: "gomap option \<Rightarrow> string \<Rightarrow> string" where
  "nil_get m k = (case m of None \<Rightarrow> [] | Some f \<Rightarrow> mget f k)"

definition anno :: "pod \<Rightarrow> string \<Rightarrow> string" where
  "anno pod k = nil_get (pod_Annotations pod) k"

section \<open>Helpers\<close>

definition QuantityString :: "string option \<Rightarrow> string" where
  "QuantityString q = (case q of None \<Rightarrow> [] | Some s \<Rightarrow> s)"

definition ensurePodAnnotations :: "pod \<Rightarrow> gomap" where
  "ensurePodAnnotations pod = (case pod_Annotations pod of None \<Rightarrow> fmempty | Some m \<Rightarrow> m)"

definition setIfNotEmpty :: "gomap \<Rightarrow> string \<Rightarrow> string \<Rightarrow> gomap" where
  "setIfNotEmpty m key value = (if value \<noteq> [] then fmupd key value m else m)"

definition formatPort :: "int \<Rightarrow> string" where
  "formatPort port = (if port \<le> 0 then [] else FormatInt port)"

text \<open>Writing through the map that \<^verbatim>\<open>ensurePodAnnotations\<close> returns writes the pod.\<close>

definition with_annotations :: "pod \<Rightarrow> gomap \<Rightarrow> pod" where
  "with_annotations pod m = pod\<lparr>pod_Annotations := Some m\<rparr>"

lemma anno_ensure: "anno pod k = mget (ensurePodAnnotations pod) k"
  by (simp add: anno_def nil_get_def ensurePodAnnotations_def mget_def split: option.split)

lemma anno_with [simp]: "anno (with_annotations pod m) k = mget m k"
  by (simp add: anno_def nil_get_def with_annotations_def)

lemma ensure_with [simp]: "ensurePodAnnotations (with_annotations pod m) = m"
  by (simp add: ensurePodAnnotations_def with_annotations_def)

lemma mget_setIfNotEmpty [simp]:
  "mget (setIfNotEmpty m k v) k' = (if k' = k \<and> v \<noteq> [] then v else mget m k')"
  by (simp add: setIfNotEmpty_def mget_def)

lemma mget_if_fmupd [simp]:
  "mget (if c then fmupd k v m else m) k' = (if c \<and> k' = k then v else mget m k')"
  by simp

lemma mget_fmdrop [simp]: "mget (fmdrop k m) k' = (if k' = k then [] else mget m k')"
  by (simp add: mget_def)

lemma with_annotations_other [simp]:
  "pod_Namespace (with_annotations pod m) = pod_Namespace pod"
  "pod_Labels (with_annotations pod m) = pod_Labels pod"
  "pod_OwnerReferences (with_annotations pod m) = pod_OwnerReferences pod"
  "pod_NodeSelector (with_annotations pod m) = pod_NodeSelector pod"
  "pod_Phase (with_annotations pod m) = pod_Phase pod"
  "pod_Conditions (with_annotations pod m) = pod_Conditions pod"
  "pod_Running (with_annotations pod m) = pod_Running pod"
  by (simp_all add: with_annotations_def)

end
