(* ===== verification/Apis_V1.thy ===== *)
theory Apis_V1
  imports Ociutil
begin

text \<open>
  The API types of \<^verbatim>\<open>apis/v1\<close>: the string enums with \<^verbatim>\<open>IsValid\<close> and \<^verbatim>\<open>Default\<close>, the specs and statuses
  of \<^verbatim>\<open>CocoonSet\<close> and \<^verbatim>\<open>CocoonHibernation\<close>, and the validation rules written at the fields, which the
  API server checks. What a field refers to, a quantity by pointer, a list, is a type
  parameter, as are the types of other packages: the same structs hold values here and addresses in the model of memory.

  The lemmas: a default is a valid value and changes no value that is set; the rules
  that bind several fields; which names a toolbox can have.
\<close>

section \<open>Enums\<close>

type_synonym AgentMode = string
type_synonym ToolboxMode = string
type_synonym OSType = string
type_synonym SnapshotPolicy = string
type_synonym HibernatePolicy = string
type_synonym CocoonSetPhase = string
type_synonym ConnType = string
type_synonym Backend = string
type_synonym HibernationDesire = string
type_synonym CocoonHibernationPhase = string

definition AgentModeClone :: string where
  "AgentModeClone = ''clone''"

definition AgentModeRun :: string where
  "AgentModeRun = ''run''"

definition ToolboxModeRun :: string where
  "ToolboxModeRun = ''run''"

definition ToolboxModeClone :: string where
  "ToolboxModeClone = ''clone''"

definition ToolboxModeStatic :: string where
  "ToolboxModeStatic = ''static''"

definition OSLinux :: string where
  "OSLinux = ''linux''"

definition OSWindows :: string where
  "OSWindows = ''windows''"

definition OSAndroid :: string where
  "OSAndroid = ''android''"

definition OSMacos :: string where
  "OSMacos = ''macos''"

definition SnapshotPolicyAlways :: string where
  "SnapshotPolicyAlways = ''always''"

definition SnapshotPolicyMainOnly :: string where
  "SnapshotPolicyMainOnly = ''main-only''"

definition SnapshotPolicyNever :: string where
  "SnapshotPolicyNever = ''never''"

definition HibernatePolicyRetain :: string where
  "HibernatePolicyRetain = ''retain''"

definition HibernatePolicyRelease :: string where
  "HibernatePolicyRelease = ''release''"

definition CocoonSetPhasePending :: string where
  "CocoonSetPhasePending = ''Pending''"

definition CocoonSetPhaseRunning :: string where
  "CocoonSetPhaseRunning = ''Running''"

definition CocoonSetPhaseScaling :: string where
  "CocoonSetPhaseScaling = ''Scaling''"

definition CocoonSetPhaseSuspending :: string where
  "CocoonSetPhaseSuspending = ''Suspending''"

definition CocoonSetPhaseSuspended :: string where
  "CocoonSetPhaseSuspended = ''Suspended''"

definition CocoonSetPhaseWaking :: string where
  "CocoonSetPhaseWaking = ''Waking''"

definition CocoonSetPhaseMigrating :: string where
  "CocoonSetPhaseMigrating = ''Migrating''"

definition CocoonSetPhaseFailed :: string where
  "CocoonSetPhaseFailed = ''Failed''"

definition ConnTypeSSH :: string where
  "ConnTypeSSH = ''ssh''"

definition ConnTypeRDP :: string where
  "ConnTypeRDP = ''rdp''"

definition ConnTypeVNC :: string where
  "ConnTypeVNC = ''vnc''"

definition ConnTypeADB :: string where
  "ConnTypeADB = ''adb''"

definition BackendCloudHypervisor :: string where
  "BackendCloudHypervisor = ''cloud-hypervisor''"

definition BackendFirecracker :: string where
  "BackendFirecracker = ''firecracker''"

definition HibernationDesireHibernate :: string where
  "HibernationDesireHibernate = ''Hibernate''"

definition HibernationDesireWake :: string where
  "HibernationDesireWake = ''Wake''"

definition CocoonHibernationPhasePending :: string where
  "CocoonHibernationPhasePending = ''Pending''"

definition CocoonHibernationPhaseHibernating :: string where
  "CocoonHibernationPhaseHibernating = ''Hibernating''"

definition CocoonHibernationPhaseHibernated :: string where
  "CocoonHibernationPhaseHibernated = ''Hibernated''"

definition CocoonHibernationPhaseWaking :: string where
  "CocoonHibernationPhaseWaking = ''Waking''"

definition CocoonHibernationPhaseActive :: string where
  "CocoonHibernationPhaseActive = ''Active''"

definition CocoonHibernationPhaseFailed :: string where
  "CocoonHibernationPhaseFailed = ''Failed''"

text \<open>The recognized values.\<close>

definition agentModeValid :: "AgentMode list" where
  "agentModeValid = [AgentModeClone, AgentModeRun]"

definition toolboxModeValid :: "ToolboxMode list" where
  "toolboxModeValid = [ToolboxModeRun, ToolboxModeClone, ToolboxModeStatic]"

definition osTypeValid :: "OSType list" where
  "osTypeValid = [OSLinux, OSWindows, OSAndroid, OSMacos]"

definition snapshotPolicyValid :: "SnapshotPolicy list" where
  "snapshotPolicyValid = [SnapshotPolicyAlways, SnapshotPolicyMainOnly, SnapshotPolicyNever]"

definition hibernatePolicyValid :: "HibernatePolicy list" where
  "hibernatePolicyValid = [HibernatePolicyRetain, HibernatePolicyRelease]"

definition connTypeValid :: "ConnType list" where
  "connTypeValid = [ConnTypeSSH, ConnTypeRDP, ConnTypeVNC, ConnTypeADB]"

definition backendValid :: "Backend list" where
  "backendValid = [BackendCloudHypervisor, BackendFirecracker]"

definition hibernationDesireValid :: "HibernationDesire list" where
  "hibernationDesireValid = [HibernationDesireHibernate, HibernationDesireWake]"

text \<open>\<^verbatim>\<open>IsValid\<close> and \<^verbatim>\<open>Default\<close>.\<close>

definition AgentMode_IsValid :: "AgentMode \<Rightarrow> bool" where
  "AgentMode_IsValid x = (x \<in> set agentModeValid)"

definition ToolboxMode_IsValid :: "ToolboxMode \<Rightarrow> bool" where
  "ToolboxMode_IsValid x = (x \<in> set toolboxModeValid)"

definition OSType_IsValid :: "OSType \<Rightarrow> bool" where
  "OSType_IsValid x = (x \<in> set osTypeValid)"

definition SnapshotPolicy_IsValid :: "SnapshotPolicy \<Rightarrow> bool" where
  "SnapshotPolicy_IsValid x = (x \<in> set snapshotPolicyValid)"

definition HibernatePolicy_IsValid :: "HibernatePolicy \<Rightarrow> bool" where
  "HibernatePolicy_IsValid x = (x \<in> set hibernatePolicyValid)"

definition ConnType_IsValid :: "ConnType \<Rightarrow> bool" where
  "ConnType_IsValid x = (x \<in> set connTypeValid)"

definition Backend_IsValid :: "Backend \<Rightarrow> bool" where
  "Backend_IsValid x = (x \<in> set backendValid)"

definition HibernationDesire_IsValid :: "HibernationDesire \<Rightarrow> bool" where
  "HibernationDesire_IsValid x = (x \<in> set hibernationDesireValid)"

definition AgentMode_Default :: "AgentMode \<Rightarrow> AgentMode" where
  "AgentMode_Default x = or_str x AgentModeClone"

definition ToolboxMode_Default :: "ToolboxMode \<Rightarrow> ToolboxMode" where
  "ToolboxMode_Default x = or_str x ToolboxModeRun"

definition OSType_Default :: "OSType \<Rightarrow> OSType" where
  "OSType_Default x = or_str x OSLinux"

definition SnapshotPolicy_Default :: "SnapshotPolicy \<Rightarrow> SnapshotPolicy" where
  "SnapshotPolicy_Default x = or_str x SnapshotPolicyAlways"

definition HibernatePolicy_Default :: "HibernatePolicy \<Rightarrow> HibernatePolicy" where
  "HibernatePolicy_Default x = or_str x HibernatePolicyRetain"

definition Backend_Default :: "Backend \<Rightarrow> Backend" where
  "Backend_Default x = or_str x BackendCloudHypervisor"

section \<open>CocoonSet\<close>

record ('sto, 'res) VMOptions =
  vo_OS :: OSType
  vo_Backend :: Backend
  vo_ConnType :: ConnType
  vo_Network :: string
  vo_ForcePull :: bool
  vo_NoDirectIO :: bool
  vo_ProbePort :: int
  vo_Storage :: 'sto
  vo_Resources :: 'res

record ('sto, 'res, 'envs) AgentSpec =
  as_Replicas :: int
  as_Image :: string
  as_Mode :: AgentMode
  as_VMOptions :: "('sto, 'res) VMOptions"
  as_EnvFrom :: 'envs
  as_ServiceAccountName :: string

record ('sto, 'res) ToolboxSpec =
  tb_Name :: string
  tb_Image :: string
  tb_Mode :: ToolboxMode
  tb_StaticIP :: string
  tb_StaticVMID :: string
  tb_VNCPort :: int
  tb_VMOptions :: "('sto, 'res) VMOptions"

record ('sto, 'res, 'envs, 'tbs) CocoonSetSpec =
  cs_Suspend :: bool
  cs_SnapshotPolicy :: SnapshotPolicy
  cs_HibernatePolicy :: HibernatePolicy
  cs_NodePool :: string
  cs_SnapshotCompatibilityClass :: string
  cs_NodeName :: string
  cs_Agent :: "('sto, 'res, 'envs) AgentSpec"
  cs_Toolboxes :: 'tbs

record AgentStatus =
  ast_Slot :: int
  ast_Role :: string
  ast_PodName :: string
  ast_VMName :: string
  ast_VMID :: string
  ast_IP :: string
  ast_Phase :: string
  ast_ForkedFrom :: string

record ToolboxStatus =
  tst_Name :: string
  tst_PodName :: string
  tst_VMName :: string
  tst_VMID :: string
  tst_IP :: string
  tst_Phase :: string
  tst_ConnType :: ConnType
  tst_VNCPort :: int

record ('ags, 'tbs, 'conds) CocoonSetStatus =
  css_ObservedGeneration :: int
  css_Phase :: CocoonSetPhase
  css_ReadyAgents :: int
  css_DesiredAgents :: int
  css_ReadyToolboxes :: int
  css_DesiredToolboxes :: int
  css_Agents :: 'ags
  css_Toolboxes :: 'tbs
  css_Conditions :: 'conds

record ('tm, 'om, 'spec, 'status) CocoonSet =
  cst_TypeMeta :: 'tm
  cst_ObjectMeta :: 'om
  cst_Spec :: 'spec
  cst_Status :: 'status

record ('tm, 'lm, 'items) CocoonSetList =
  csl_TypeMeta :: 'tm
  csl_ListMeta :: 'lm
  csl_Items :: 'items

section \<open>CocoonHibernation\<close>

record HibernationPodRef =
  pr_Name :: string

record CocoonHibernationSpec =
  ch_PodRef :: HibernationPodRef
  ch_Desire :: HibernationDesire

record 'conds CocoonHibernationStatus =
  chs_ObservedGeneration :: int
  chs_Phase :: CocoonHibernationPhase
  chs_VMName :: string
  chs_Conditions :: 'conds

record ('tm, 'om, 'spec, 'status) CocoonHibernation =
  chn_TypeMeta :: 'tm
  chn_ObjectMeta :: 'om
  chn_Spec :: 'spec
  chn_Status :: 'status

record ('tm, 'lm, 'items) CocoonHibernationList =
  chl_TypeMeta :: 'tm
  chl_ListMeta :: 'lm
  chl_Items :: 'items

section \<open>Validation rules\<close>

text \<open>
  A field marked \<^verbatim>\<open>omitempty\<close> is present in the object exactly when it is not the zero value, which is
  what \<^verbatim>\<open>has\<close> asks of it.
\<close>

definition releaseRule :: "('sto, 'res, 'envs, 'tb list) CocoonSetSpec \<Rightarrow> bool" where
  "releaseRule self =
     (cs_HibernatePolicy self = [] \<or> cs_HibernatePolicy self \<noteq> ''release'' \<or>
      ((as_Replicas (cs_Agent self) = 0) \<and> (cs_Toolboxes self = [] \<or> length (cs_Toolboxes self) = 0)))"

definition classRule :: "('sto, 'res, 'envs, 'tbs) CocoonSetSpec \<Rightarrow> ('sto, 'res, 'envs, 'tbs) CocoonSetSpec \<Rightarrow> bool" where
  "classRule oldSelf self =
     (cs_SnapshotCompatibilityClass oldSelf = [] \<or>
      (cs_SnapshotCompatibilityClass self \<noteq> [] \<and>
       cs_SnapshotCompatibilityClass self = cs_SnapshotCompatibilityClass oldSelf))"

definition podRefRule :: "CocoonHibernationSpec \<Rightarrow> CocoonHibernationSpec \<Rightarrow> bool" where
  "podRefRule oldSelf self = (ch_PodRef self = ch_PodRef oldSelf)"

text \<open>\<^verbatim>\<open>[A-Za-z0-9]\<close>, and the patterns of \<^verbatim>\<open>SnapshotCompatibilityClass\<close> and of a toolbox name.\<close>

definition alnum :: "char \<Rightarrow> bool" where
  "alnum c = (lower_digit c \<or> char_in 65 90 c)"

definition re_opt :: "re \<Rightarrow> re" where
  "re_opt r = RAlt r REps"

definition classPattern :: re where
  "classPattern =
     re_opt (RSeq
       (re_opt (RSeq (RCls alnum) (RStar (RCls (\<lambda>c. alnum c \<or> c = CHR ''-'' \<or> c = CHR ''_'' \<or> c = CHR ''.'')))))
       (RCls alnum))"

definition toolboxNamePattern :: re where
  "toolboxNamePattern =
     RSeq (RCls lower_digit)
       (re_opt (RSeq (RStar (RCls (\<lambda>c. lower_digit c \<or> c = CHR ''-''))) (RCls lower_digit)))"

definition validClass :: "string \<Rightarrow> bool" where
  "validClass s = (length s \<le> 63 \<and> re_match classPattern s)"

definition validToolboxName :: "string \<Rightarrow> bool" where
  "validToolboxName s = (1 \<le> length s \<and> length s \<le> 63 \<and> re_match toolboxNamePattern s)"

definition validPort :: "int \<Rightarrow> bool" where
  "validPort p = (0 \<le> p \<and> p \<le> 65535)"

text \<open>Everything the API server checks of one object.\<close>

definition validVMOptions :: "('sto, 'res) VMOptions \<Rightarrow> bool" where
  "validVMOptions o' =
     ((vo_OS o' = [] \<or> OSType_IsValid (vo_OS o')) \<and> (vo_Backend o' = [] \<or> Backend_IsValid (vo_Backend o')) \<and>
      (vo_ConnType o' = [] \<or> ConnType_IsValid (vo_ConnType o')) \<and> validPort (vo_ProbePort o'))"

definition validAgentSpec :: "('sto, 'res, 'envs) AgentSpec \<Rightarrow> bool" where
  "validAgentSpec a =
     (0 \<le> as_Replicas a \<and> as_Image a \<noteq> [] \<and> (as_Mode a = [] \<or> AgentMode_IsValid (as_Mode a)) \<and>
      validVMOptions (as_VMOptions a))"

definition validToolboxSpec :: "('sto, 'res) ToolboxSpec \<Rightarrow> bool" where
  "validToolboxSpec t =
     (validToolboxName (tb_Name t) \<and> (tb_Mode t = [] \<or> ToolboxMode_IsValid (tb_Mode t)) \<and> validPort (tb_VNCPort t) \<and>
      validVMOptions (tb_VMOptions t))"

definition validCocoonSetSpec :: "('sto, 'res, 'envs, ('sto, 'res) ToolboxSpec list) CocoonSetSpec \<Rightarrow> bool" where
  "validCocoonSetSpec s =
     ((cs_SnapshotPolicy s = [] \<or> SnapshotPolicy_IsValid (cs_SnapshotPolicy s)) \<and>
      (cs_HibernatePolicy s = [] \<or> HibernatePolicy_IsValid (cs_HibernatePolicy s)) \<and>
      validClass (cs_SnapshotCompatibilityClass s) \<and> validAgentSpec (cs_Agent s) \<and>
      list_all validToolboxSpec (cs_Toolboxes s) \<and> releaseRule s)"

section \<open>Lemmas\<close>

named_theorems api_consts \<open>the enum constants and their lists, unfolded\<close>

lemmas api_consts_all [api_consts] =
  AgentModeClone_def
  AgentModeRun_def
  ToolboxModeRun_def
  ToolboxModeClone_def
  ToolboxModeStatic_def
  OSLinux_def
  OSWindows_def
  OSAndroid_def
  OSMacos_def
  SnapshotPolicyAlways_def
  SnapshotPolicyMainOnly_def
  SnapshotPolicyNever_def
  HibernatePolicyRetain_def
  HibernatePolicyRelease_def
  CocoonSetPhasePending_def
  CocoonSetPhaseRunning_def
  CocoonSetPhaseScaling_def
  CocoonSetPhaseSuspending_def
  CocoonSetPhaseSuspended_def
  CocoonSetPhaseWaking_def
  CocoonSetPhaseMigrating_def
  CocoonSetPhaseFailed_def
  ConnTypeSSH_def
  ConnTypeRDP_def
  ConnTypeVNC_def
  ConnTypeADB_def
  BackendCloudHypervisor_def
  BackendFirecracker_def
  HibernationDesireHibernate_def
  HibernationDesireWake_def
  CocoonHibernationPhasePending_def
  CocoonHibernationPhaseHibernating_def
  CocoonHibernationPhaseHibernated_def
  CocoonHibernationPhaseWaking_def
  CocoonHibernationPhaseActive_def
  CocoonHibernationPhaseFailed_def
  agentModeValid_def
  toolboxModeValid_def
  osTypeValid_def
  snapshotPolicyValid_def
  hibernatePolicyValid_def
  connTypeValid_def
  backendValid_def
  hibernationDesireValid_def

text \<open>A default is valid, keeps what is set, and is only taken for the empty value.\<close>

lemma defaults_valid:
  "AgentMode_IsValid (AgentMode_Default x) \<longleftrightarrow> x = [] \<or> AgentMode_IsValid x"
  "ToolboxMode_IsValid (ToolboxMode_Default x) \<longleftrightarrow> x = [] \<or> ToolboxMode_IsValid x"
  "OSType_IsValid (OSType_Default x) \<longleftrightarrow> x = [] \<or> OSType_IsValid x"
  "SnapshotPolicy_IsValid (SnapshotPolicy_Default x) \<longleftrightarrow> x = [] \<or> SnapshotPolicy_IsValid x"
  "HibernatePolicy_IsValid (HibernatePolicy_Default x) \<longleftrightarrow> x = [] \<or> HibernatePolicy_IsValid x"
  "Backend_IsValid (Backend_Default x) \<longleftrightarrow> x = [] \<or> Backend_IsValid x"
  by (auto simp: AgentMode_IsValid_def AgentMode_Default_def ToolboxMode_IsValid_def ToolboxMode_Default_def OSType_IsValid_def OSType_Default_def SnapshotPolicy_IsValid_def SnapshotPolicy_Default_def HibernatePolicy_IsValid_def HibernatePolicy_Default_def Backend_IsValid_def Backend_Default_def
    or_str_def api_consts)

lemma defaults_idem [simp]:
  "AgentMode_Default (AgentMode_Default x) = AgentMode_Default x"
  "ToolboxMode_Default (ToolboxMode_Default x) = ToolboxMode_Default x"
  "OSType_Default (OSType_Default x) = OSType_Default x"
  "SnapshotPolicy_Default (SnapshotPolicy_Default x) = SnapshotPolicy_Default x"
  "HibernatePolicy_Default (HibernatePolicy_Default x) = HibernatePolicy_Default x"
  "Backend_Default (Backend_Default x) = Backend_Default x"
  by (auto simp: AgentMode_Default_def ToolboxMode_Default_def OSType_Default_def SnapshotPolicy_Default_def HibernatePolicy_Default_def Backend_Default_def or_str_def)

text \<open>A name a toolbox can have: lower-case letters, digits and dashes, no dot.\<close>

lemma toolboxName_chars:
  assumes "validToolboxName s" and "c \<in> set s"
  shows "lower_digit c \<or> c = CHR ''-''"
proof -
  have "re_in toolboxNamePattern s" using assms(1) by (simp add: validToolboxName_def re_match_iff)
  from re_in_chars [OF this assms(2)] show ?thesis
    by (auto simp: toolboxNamePattern_def re_opt_def)
qed

lemma re_in_star_cls: "list_all P s \<Longrightarrow> re_in (RStar (RCls P)) s"
proof (induction s)
  case (Cons c s)
  then have "re_in (RStar (RCls P)) ([c] @ s)" by (intro in_more in_cls) simp_all
  then show ?case by simp
qed (rule in_stop)

lemma toolboxName_digits:
  assumes "s \<noteq> []" and "length s \<le> 63" and "list_all is_digit s"
  shows "validToolboxName s"
proof -
  have int_nat: "(of_char c :: int) = int (of_char c)" for c by (rule of_nat_of_char [symmetric])
  have d: "is_digit c \<Longrightarrow> lower_digit c" for c
    unfolding is_digit_def lower_digit_def char_in_def int_nat by simp
  from assms(1) obtain x t where s: "s = x # t" by (cases s) auto
  have x: "re_in (RCls lower_digit) [x]" using assms(3) s d by (intro in_cls) simp
  have "re_in (re_opt (RSeq (RStar (RCls (\<lambda>c. lower_digit c \<or> c = CHR ''-''))) (RCls lower_digit))) t"
  proof (cases t rule: rev_cases)
    case Nil
    then show ?thesis by (simp add: re_opt_def in_eps)
  next
    case (snoc u y)
    have "re_in (RSeq (RStar (RCls (\<lambda>c. lower_digit c \<or> c = CHR ''-''))) (RCls lower_digit)) (u @ [y])"
      using assms(3) s snoc d by (intro in_seq re_in_star_cls in_cls) (auto simp: list_all_iff)
    with snoc show ?thesis by (simp add: re_opt_def)
  qed
  from in_seq [OF x this] s assms(2) show ?thesis
    by (simp add: validToolboxName_def re_match_iff toolboxNamePattern_def)
qed

end
