(* ===== verification/Meta_Annotations.thy ===== *)
theory Meta_Annotations
  imports Meta_Keys Apis_V1 Push_Wire
begin

text \<open>
  The typed contracts over pod annotations: \<^verbatim>\<open>VMSpec\<close>, \<^verbatim>\<open>VMRuntime\<close>, \<^verbatim>\<open>LifecycleStatus\<close>, \<^verbatim>\<open>HibernateState\<close>,
  \<^verbatim>\<open>SnapshotStatus\<close>, and what is derived from them.

  The lemmas: reading after writing gives the written value merged over what was there (a field
  left empty keeps the old annotation), nothing else changes, a merge patch has the same effect
  as writing directly, and the comparison key of a status identifies it.
\<close>

section \<open>VMSpec\<close>

record VMSpec =
  vs_VMName :: string
  vs_Image :: string
  vs_Mode :: string
  vs_OS :: string
  vs_Storage :: string
  vs_Network :: string
  vs_SnapshotPolicy :: string
  vs_ForkFrom :: string
  vs_Managed :: bool
  vs_ForcePull :: bool
  vs_NoDirectIO :: bool
  vs_ConnType :: string
  vs_Backend :: string
  vs_ProbePort :: string

definition VMSpec_Apply :: "VMSpec \<Rightarrow> pod \<Rightarrow> pod" where
  "VMSpec_Apply s pod =
     (let a = ensurePodAnnotations pod;
          a = setIfNotEmpty a AnnotationVMName (vs_VMName s);
          a = setIfNotEmpty a AnnotationImage (vs_Image s);
          a = setIfNotEmpty a AnnotationMode (vs_Mode s);
          a = setIfNotEmpty a AnnotationOS (vs_OS s);
          a = setIfNotEmpty a AnnotationStorage (vs_Storage s);
          a = setIfNotEmpty a AnnotationNetwork (vs_Network s);
          a = setIfNotEmpty a AnnotationSnapshotPolicy (vs_SnapshotPolicy s);
          a = setIfNotEmpty a AnnotationForkFrom (vs_ForkFrom s);
          a = setIfNotEmpty a AnnotationConnType (vs_ConnType s);
          a = setIfNotEmpty a AnnotationBackend (vs_Backend s);
          a = (if vs_Managed s then fmupd AnnotationManaged annotationTrue a else a);
          a = (if vs_ForcePull s then fmupd AnnotationForcePull annotationTrue a else a);
          a = (if vs_NoDirectIO s then fmupd AnnotationNoDirectIO annotationTrue a else a);
          a = setIfNotEmpty a AnnotationProbePort (vs_ProbePort s)
      in with_annotations pod a)"

definition ParseVMSpec :: "pod \<Rightarrow> VMSpec" where
  "ParseVMSpec pod =
     \<lparr>vs_VMName = anno pod AnnotationVMName, vs_Image = anno pod AnnotationImage, vs_Mode = anno pod AnnotationMode, vs_OS = anno pod AnnotationOS, vs_Storage = anno pod AnnotationStorage, vs_Network = anno pod AnnotationNetwork, vs_SnapshotPolicy = anno pod AnnotationSnapshotPolicy, vs_ForkFrom = anno pod AnnotationForkFrom,
      vs_Managed = (anno pod AnnotationManaged = annotationTrue),
      vs_ForcePull = (anno pod AnnotationForcePull = annotationTrue),
      vs_NoDirectIO = (anno pod AnnotationNoDirectIO = annotationTrue),
      vs_ConnType = anno pod AnnotationConnType, vs_Backend = anno pod AnnotationBackend,
      vs_ProbePort = anno pod AnnotationProbePort\<rparr>"

definition fromVMOptions :: "(string option, 'res) VMOptions \<Rightarrow> string \<Rightarrow> string \<Rightarrow> string \<Rightarrow> SnapshotPolicy \<Rightarrow> VMSpec" where
  "fromVMOptions opts vmName img mode snapshotPolicy =
     \<lparr>vs_VMName = vmName, vs_Image = img, vs_Mode = mode, vs_OS = OSType_Default (vo_OS opts),
      vs_Storage = QuantityString (vo_Storage opts), vs_Network = vo_Network opts,
      vs_SnapshotPolicy = SnapshotPolicy_Default snapshotPolicy, vs_ForkFrom = [], vs_Managed = False,
      vs_ForcePull = vo_ForcePull opts, vs_NoDirectIO = vo_NoDirectIO opts, vs_ConnType = vo_ConnType opts,
      vs_Backend = Backend_Default (vo_Backend opts), vs_ProbePort = formatPort (vo_ProbePort opts)\<rparr>"

definition FromAgentSpec :: "(string option, 'res, 'envs) AgentSpec \<Rightarrow> string \<Rightarrow> SnapshotPolicy \<Rightarrow> string \<Rightarrow> VMSpec" where
  "FromAgentSpec spec vmName snapshotPolicy forkFrom =
     (fromVMOptions (as_VMOptions spec) vmName (as_Image spec) (AgentMode_Default (as_Mode spec)) snapshotPolicy)
       \<lparr>vs_ForkFrom := forkFrom, vs_Managed := True\<rparr>"

definition FromToolboxSpec :: "(string option, 'res) ToolboxSpec \<Rightarrow> string \<Rightarrow> SnapshotPolicy \<Rightarrow> VMSpec" where
  "FromToolboxSpec spec vmName snapshotPolicy =
     (fromVMOptions (tb_VMOptions spec) vmName (tb_Image spec) (ToolboxMode_Default (tb_Mode spec)) snapshotPolicy)
       \<lparr>vs_Managed := (tb_Mode spec \<noteq> ToolboxModeStatic)\<rparr>"

definition ShouldSnapshotVM :: "VMSpec \<Rightarrow> string \<Rightarrow> bool" where
  "ShouldSnapshotVM spec role =
     (let p = SnapshotPolicy_Default (vs_SnapshotPolicy spec) in
      if p = SnapshotPolicyNever then False
      else if p = SnapshotPolicyMainOnly then role = RoleMain
      else True)"

section \<open>VMRuntime\<close>

record VMRuntime =
  vr_VMID :: string
  vr_IP :: string
  vr_VNCPort :: int

definition VMRuntime_Apply :: "VMRuntime \<Rightarrow> pod \<Rightarrow> pod" where
  "VMRuntime_Apply r pod =
     (let a = ensurePodAnnotations pod;
          a = setIfNotEmpty a AnnotationVMID (vr_VMID r);
          a = setIfNotEmpty a AnnotationIP (vr_IP r);
          a = setIfNotEmpty a AnnotationVNCPort (formatPort (vr_VNCPort r))
      in with_annotations pod a)"

definition ParseVMRuntime :: "pod \<Rightarrow> VMRuntime" where
  "ParseVMRuntime pod =
     (let v = anno pod AnnotationVNCPort in
      \<lparr>vr_VMID = anno pod AnnotationVMID, vr_IP = anno pod AnnotationIP,
       vr_VNCPort = (if v \<noteq> [] then (case ParseInt 32 v of None \<Rightarrow> 0 | Some n \<Rightarrow> n) else 0)\<rparr>)"

section \<open>Lifecycle\<close>

type_synonym LifecycleState = string

definition LifecycleStateCreating :: string where
  "LifecycleStateCreating = ''creating''"

definition LifecycleStateReady :: string where
  "LifecycleStateReady = ''ready''"

definition LifecycleStateHibernating :: string where
  "LifecycleStateHibernating = ''hibernating''"

definition LifecycleStateHibernated :: string where
  "LifecycleStateHibernated = ''hibernated''"

definition LifecycleStateFailed :: string where
  "LifecycleStateFailed = ''failed''"

record LifecycleStatus =
  ls_State :: LifecycleState
  ls_ObservedGeneration :: int
  ls_Message :: string

text \<open>A merge patch of annotations, a \<^verbatim>\<open>map[string]any\<close>: \<open>JNull\<close>, the nil value, deletes the key.\<close>

type_synonym annotation_patch = "(string, json) fmap"

definition LifecycleStatus_Annotations :: "LifecycleStatus \<Rightarrow> annotation_patch" where
  "LifecycleStatus_Annotations s =
     (let annos = fmupd AnnotationLifecycleObservedGeneration (JStr (FormatInt (ls_ObservedGeneration s)))
            (fmupd AnnotationLifecycleState (JStr (ls_State s)) fmempty)
      in if ls_Message s = [] then fmupd AnnotationLifecycleStateMessage JNull annos
         else fmupd AnnotationLifecycleStateMessage (JStr (ls_Message s)) annos)"

definition LifecycleStatus_Apply :: "LifecycleStatus \<Rightarrow> pod \<Rightarrow> pod" where
  "LifecycleStatus_Apply s pod =
     (let a = ensurePodAnnotations pod;
          a = fmupd AnnotationLifecycleState (ls_State s) a;
          a = fmupd AnnotationLifecycleObservedGeneration (FormatInt (ls_ObservedGeneration s)) a;
          a = (if ls_Message s = [] then fmdrop AnnotationLifecycleStateMessage a
               else fmupd AnnotationLifecycleStateMessage (ls_Message s) a)
      in with_annotations pod a)"

definition LifecycleStatus_Snapshot :: "LifecycleStatus \<Rightarrow> string" where
  "LifecycleStatus_Snapshot s =
     ls_State s @ [CHR 0x00] @ FormatInt (ls_ObservedGeneration s) @ [CHR 0x00] @ ls_Message s"

definition readInt64Annotation :: "pod \<Rightarrow> string \<Rightarrow> int" where
  "readInt64Annotation pod key =
     (let raw = anno pod key in
      if raw = [] then 0 else (case ParseInt 64 raw of None \<Rightarrow> 0 | Some n \<Rightarrow> n))"

definition ReadLifecycleObservedGeneration :: "pod \<Rightarrow> int" where
  "ReadLifecycleObservedGeneration pod = readInt64Annotation pod AnnotationLifecycleObservedGeneration"

definition ReadLifecycleStatus :: "pod \<Rightarrow> LifecycleStatus" where
  "ReadLifecycleStatus pod =
     \<lparr>ls_State = anno pod AnnotationLifecycleState,
      ls_ObservedGeneration = ReadLifecycleObservedGeneration pod,
      ls_Message = anno pod AnnotationLifecycleStateMessage\<rparr>"

definition ReadLifecycleState :: "pod \<Rightarrow> LifecycleState" where
  "ReadLifecycleState pod = anno pod AnnotationLifecycleState"

definition ReadCocoonSetGeneration :: "pod \<Rightarrow> int" where
  "ReadCocoonSetGeneration pod = readInt64Annotation pod AnnotationCocoonSetGeneration"

definition StampCocoonSetGeneration :: "pod \<Rightarrow> int \<Rightarrow> pod" where
  "StampCocoonSetGeneration pod generation =
     with_annotations pod (fmupd AnnotationCocoonSetGeneration (FormatInt generation) (ensurePodAnnotations pod))"

section \<open>Hibernation flags\<close>

definition HibernateState_Apply :: "bool \<Rightarrow> pod \<Rightarrow> pod" where
  "HibernateState_Apply s pod =
     (if \<not> s then pod\<lparr>pod_Annotations := map_option (fmdrop AnnotationHibernate) (pod_Annotations pod)\<rparr>
      else with_annotations pod (fmupd AnnotationHibernate annotationTrue (ensurePodAnnotations pod)))"

definition ReadHibernateState :: "pod \<Rightarrow> bool" where
  "ReadHibernateState pod = (anno pod AnnotationHibernate = annotationTrue)"

definition ReadRestoreFromHibernate :: "pod \<Rightarrow> bool" where
  "ReadRestoreFromHibernate pod = (anno pod AnnotationRestoreFromHibernate = annotationTrue)"

definition MarkRestoreFromHibernate :: "pod \<Rightarrow> pod" where
  "MarkRestoreFromHibernate pod =
     with_annotations pod (fmupd AnnotationRestoreFromHibernate annotationTrue (ensurePodAnnotations pod))"

definition ReadKeepSnapshotOnDelete :: "pod \<Rightarrow> bool" where
  "ReadKeepSnapshotOnDelete pod = (anno pod AnnotationKeepSnapshotOnDelete = annotationTrue)"

definition MarkKeepSnapshotOnDelete :: "pod \<Rightarrow> pod" where
  "MarkKeepSnapshotOnDelete pod =
     with_annotations pod (fmupd AnnotationKeepSnapshotOnDelete annotationTrue (ensurePodAnnotations pod))"

section \<open>Snapshots\<close>

type_synonym SnapshotState = string

definition SnapshotStatePushed :: string where
  "SnapshotStatePushed = ''pushed''"

definition SnapshotStateFailed :: string where
  "SnapshotStateFailed = ''failed''"

definition reservedSnapshotAnnotationPrefix :: string where
  "reservedSnapshotAnnotationPrefix = ''cocoonstack.''"

record SnapshotStatus =
  ss_Ref :: string
  ss_State :: SnapshotState
  ss_Message :: string

definition zeroSnapshotStatus :: SnapshotStatus where
  "zeroSnapshotStatus = \<lparr>ss_Ref = [], ss_State = [], ss_Message = []\<rparr>"

definition enc_status :: "SnapshotStatus \<Rightarrow> json" where
  "enc_status s = JObj
     ([(''ref'', JStr (ss_Ref s)), (''state'', JStr (ss_State s))]
      @ opt_field (ss_Message s = []) ''message'' (JStr (ss_Message s)))"

definition store_status :: "string \<Rightarrow> json \<Rightarrow> SnapshotStatus \<Rightarrow> SnapshotStatus option" where
  "store_status k v s =
     (if k = ''ref'' then map_option (\<lambda>x. s\<lparr>ss_Ref := x\<rparr>) (dec_string (ss_Ref s) v)
      else if k = ''state'' then map_option (\<lambda>x. s\<lparr>ss_State := x\<rparr>) (dec_string (ss_State s) v)
      else if k = ''message'' then map_option (\<lambda>x. s\<lparr>ss_Message := x\<rparr>) (dec_string (ss_Message s) v)
      else Some s)"

definition dec_status :: "SnapshotStatus \<Rightarrow> json \<Rightarrow> SnapshotStatus option" where
  "dec_status = dec_struct [''ref'', ''state'', ''message''] store_status"

definition SnapshotStatus_Annotations :: "SnapshotStatus \<Rightarrow> annotation_patch" where
  "SnapshotStatus_Annotations s = fmupd AnnotationSnapshotStatus (JStr (json_marshal (enc_status s))) fmempty"

definition ReadSnapshotStatus :: "pod \<Rightarrow> SnapshotStatus" where
  "ReadSnapshotStatus pod =
     (let raw = anno pod AnnotationSnapshotStatus in
      if raw \<noteq> [] then
        (case Option.bind (json_unmarshal raw) (dec_status zeroSnapshotStatus) of
           None \<Rightarrow> zeroSnapshotStatus
         | Some s \<Rightarrow> s)
      else zeroSnapshotStatus)"

text \<open>
  Which reserved key the error names depends on the map order; here it is the first by name,
  written without the quotes that \<^verbatim>\<open>%q\<close> adds. A nil map reads as the empty one.
\<close>

definition ReadSnapshotAnnotations :: "pod \<Rightarrow> gomap res" where
  "ReadSnapshotAnnotations pod =
     (let raw = anno pod AnnotationSnapshotAnnotations in
      if raw = [] then Inr fmempty
      else
        (case Option.bind (json_unmarshal raw) (dec_map dec_string [] fmempty) of
           None \<Rightarrow> Inl (Wrap (''parse '' @ AnnotationSnapshotAnnotations) (Msg ''json''))
         | Some annotations \<Rightarrow>
             (case filter (\<lambda>k. HasPrefix k reservedSnapshotAnnotationPrefix) (sorted_keys annotations) of
                [] \<Rightarrow> Inr annotations
              | k # _ \<Rightarrow> Inl (Msg (AnnotationSnapshotAnnotations @ '': key '' @ k @ '' is reserved'')))))"

section \<open>Connections\<close>

definition ConnectionType :: "string \<Rightarrow> bool \<Rightarrow> string \<Rightarrow> string" where
  "ConnectionType osType hasVNCPort override =
     (if override \<noteq> [] then override
      else if hasVNCPort then ConnTypeVNC
      else if osType = OSAndroid then ConnTypeADB
      else if osType = OSWindows then ConnTypeRDP
      else ConnTypeSSH)"

end
