(* ===== verification/Meta_Laws.thy ===== *)
theory Meta_Laws
  imports Meta_Annotations
begin

text \<open>
  The laws of the annotation contracts. Reading a contract after writing it gives the written
  value, merged over the old one where the writer skips empty fields; the merged values are
  defined here, as the specification of \<^verbatim>\<open>Apply\<close>. Every writer leaves the keys of the other contracts alone, so
  the contracts of one pod do not interfere. A merge patch, sent as JSON and merged the way
  RFC 7386 says, has the effect of writing directly.
\<close>

section \<open>VMSpec\<close>

definition VMSpec_merge :: "VMSpec \<Rightarrow> VMSpec \<Rightarrow> VMSpec" where
  "VMSpec_merge new old =
     \<lparr>vs_VMName = or_str (vs_VMName new) (vs_VMName old), vs_Image = or_str (vs_Image new) (vs_Image old),
      vs_Mode = or_str (vs_Mode new) (vs_Mode old), vs_OS = or_str (vs_OS new) (vs_OS old),
      vs_Storage = or_str (vs_Storage new) (vs_Storage old), vs_Network = or_str (vs_Network new) (vs_Network old),
      vs_SnapshotPolicy = or_str (vs_SnapshotPolicy new) (vs_SnapshotPolicy old),
      vs_ForkFrom = or_str (vs_ForkFrom new) (vs_ForkFrom old), vs_Managed = (vs_Managed new \<or> vs_Managed old),
      vs_ForcePull = (vs_ForcePull new \<or> vs_ForcePull old), vs_NoDirectIO = (vs_NoDirectIO new \<or> vs_NoDirectIO old),
      vs_ConnType = or_str (vs_ConnType new) (vs_ConnType old), vs_Backend = or_str (vs_Backend new) (vs_Backend old),
      vs_ProbePort = or_str (vs_ProbePort new) (vs_ProbePort old)\<rparr>"

definition vmSpecKeys :: "string list" where
  "vmSpecKeys = [AnnotationVMName, AnnotationImage, AnnotationMode, AnnotationOS, AnnotationStorage,
     AnnotationNetwork, AnnotationSnapshotPolicy, AnnotationForkFrom, AnnotationManaged, AnnotationForcePull,
     AnnotationNoDirectIO, AnnotationConnType, AnnotationBackend, AnnotationProbePort]"

lemma ParseVMSpec_Apply: "ParseVMSpec (VMSpec_Apply s pod) = VMSpec_merge s (ParseVMSpec pod)"
  unfolding ParseVMSpec_def VMSpec_Apply_def VMSpec_merge_def Let_def
  by (rule VMSpec.equality) (simp_all add: anno_ensure [of pod] or_str_def)

lemma VMSpec_Apply_frame: "k \<notin> set vmSpecKeys \<Longrightarrow> anno (VMSpec_Apply s pod) k = anno pod k"
  unfolding VMSpec_Apply_def Let_def by (simp add: vmSpecKeys_def anno_ensure [of pod])

lemma VMSpec_merge_fresh:
  "VMSpec_merge s (ParseVMSpec (pod\<lparr>pod_Annotations := None\<rparr>)) = s"
  by (rule VMSpec.equality) (simp_all add: VMSpec_merge_def ParseVMSpec_def anno_def nil_get_def or_str_def annotationTrue_def)

section \<open>VMRuntime\<close>

definition VMRuntime_merge :: "VMRuntime \<Rightarrow> VMRuntime \<Rightarrow> VMRuntime" where
  "VMRuntime_merge new old =
     \<lparr>vr_VMID = or_str (vr_VMID new) (vr_VMID old), vr_IP = or_str (vr_IP new) (vr_IP old),
      vr_VNCPort = (if 0 < vr_VNCPort new then vr_VNCPort new else vr_VNCPort old)\<rparr>"

definition vmRuntimeKeys :: "string list" where
  "vmRuntimeKeys = [AnnotationVMID, AnnotationIP, AnnotationVNCPort]"

lemma ParseVMRuntime_Apply:
  "in_int32 (vr_VNCPort r) \<Longrightarrow> ParseVMRuntime (VMRuntime_Apply r pod) = VMRuntime_merge r (ParseVMRuntime pod)"
  by (simp add: ParseVMRuntime_def VMRuntime_Apply_def VMRuntime_merge_def anno_ensure [of pod] Let_def or_str_def formatPort_def)

lemma VMRuntime_Apply_frame: "k \<notin> set vmRuntimeKeys \<Longrightarrow> anno (VMRuntime_Apply r pod) k = anno pod k"
  by (simp add: VMRuntime_Apply_def vmRuntimeKeys_def anno_ensure [of pod] Let_def)

lemma ParseVMRuntime_range: "in_int32 (vr_VNCPort (ParseVMRuntime pod))"
  using ParseInt_range [of 32 "anno pod AnnotationVNCPort"]
  by (auto simp: ParseVMRuntime_def Let_def in_int32_def split: option.splits)

section \<open>Lifecycle\<close>

definition lifecycleKeys :: "string list" where
  "lifecycleKeys = [AnnotationLifecycleState, AnnotationLifecycleObservedGeneration, AnnotationLifecycleStateMessage]"

lemma ReadLifecycleStatus_Apply:
  "in_int64 (ls_ObservedGeneration s) \<Longrightarrow> ReadLifecycleStatus (LifecycleStatus_Apply s pod) = s"
  by (cases s) (simp add: ReadLifecycleStatus_def ReadLifecycleObservedGeneration_def readInt64Annotation_def
      LifecycleStatus_Apply_def Let_def)

lemma LifecycleStatus_Apply_frame: "k \<notin> set lifecycleKeys \<Longrightarrow> anno (LifecycleStatus_Apply s pod) k = anno pod k"
  by (auto simp: LifecycleStatus_Apply_def lifecycleKeys_def anno_ensure [of pod] Let_def)

text \<open>The comparison key: two statuses whose states hold no NUL have the same key only if they are equal.\<close>

lemma append_sep_eq:
  fixes c :: char
  assumes "c \<notin> set a" "c \<notin> set a'"
  shows "a @ c # b = a' @ c # b' \<longleftrightarrow> a = a' \<and> b = b'"
proof
  assume "a @ c # b = a' @ c # b'"
  with assms show "a = a' \<and> b = b'" by (metis Cut_append Pair_inject)
qed simp

lemma FormatInt_no_NUL: "CHR 0x00 \<notin> set (FormatInt n)"
  using FormatInt_chars [of "CHR 0x00" n] by (auto simp: is_digit_def)

lemma LifecycleStatus_Snapshot_eq:
  assumes "CHR 0x00 \<notin> set (ls_State s)" "CHR 0x00 \<notin> set (ls_State t)"
    "in_int64 (ls_ObservedGeneration s)" "in_int64 (ls_ObservedGeneration t)"
  shows "LifecycleStatus_Snapshot s = LifecycleStatus_Snapshot t \<longleftrightarrow> s = t"
  using assms
  by (cases s; cases t) (simp add: LifecycleStatus_Snapshot_def append_sep_eq FormatInt_no_NUL FormatInt_inj)

lemma StampCocoonSetGeneration_read:
  "in_int64 g \<Longrightarrow> ReadCocoonSetGeneration (StampCocoonSetGeneration pod g) = g"
  by (simp add: ReadCocoonSetGeneration_def StampCocoonSetGeneration_def readInt64Annotation_def)

section \<open>Hibernation flags\<close>

lemma ReadHibernateState_Apply: "ReadHibernateState (HibernateState_Apply b pod) = b"
  by (simp add: ReadHibernateState_def HibernateState_Apply_def anno_def nil_get_def with_annotations_def
      annotationTrue_def split: option.split)

lemma HibernateState_Apply_frame: "k \<noteq> AnnotationHibernate \<Longrightarrow> anno (HibernateState_Apply b pod) k = anno pod k"
  by (auto simp: HibernateState_Apply_def anno_def nil_get_def with_annotations_def ensurePodAnnotations_def
      split: option.split)

section \<open>Snapshot status\<close>

definition wf_status :: "SnapshotStatus \<Rightarrow> bool" where
  "wf_status s = (valid_utf8 (ss_Ref s) \<and> valid_utf8 (ss_State s) \<and> valid_utf8 (ss_Message s))"

lemma status_key_utf8 [simp]: "valid_utf8 ''ref''" "valid_utf8 ''state''" "valid_utf8 ''message''"
  by (rule valid_utf8_ascii, simp add: cp_def)+

interpretation snapst: json_codec enc_status dec_status zeroSnapshotStatus wf_status
proof unfold_locales
  fix s :: SnapshotStatus
  assume w: "wf_status s"
  then show "dec_status zeroSnapshotStatus (enc_status s) = Some s"
    by (cases s) (simp add: dec_status_def enc_status_def opt_field_def store_status_def zeroSnapshotStatus_def)
  from w show "wf_json (enc_status s)"
    by (simp add: wf_status_def enc_status_def)
qed (simp add: enc_status_def)

lemma ReadSnapshotStatus_written:
  "wf_status s \<Longrightarrow> anno pod AnnotationSnapshotStatus = json_marshal (enc_status s) \<Longrightarrow> ReadSnapshotStatus pod = s"
  using snapst.unmarshal_enc [of s]
  by (auto simp: ReadSnapshotStatus_def Let_def enc_status_def json_marshal_def split: option.splits)

section \<open>Caller annotations\<close>

text \<open>What is accepted has no reserved key, and everything well formed without one is accepted.\<close>

lemma ReadSnapshotAnnotations_Inr:
  "ReadSnapshotAnnotations pod = Inr m \<longleftrightarrow>
     (if anno pod AnnotationSnapshotAnnotations = [] then m = fmempty
      else Option.bind (json_unmarshal (anno pod AnnotationSnapshotAnnotations)) (dec_map dec_string [] fmempty) = Some m \<and>
        fmpred (\<lambda>k _. \<not> HasPrefix k reservedSnapshotAnnotationPrefix) m)"
proof -
  have "fmpred (\<lambda>k _. \<not> HasPrefix k reservedSnapshotAnnotationPrefix) m \<longleftrightarrow>
      filter (\<lambda>k. HasPrefix k reservedSnapshotAnnotationPrefix) (sorted_keys m) = []" for m :: gomap
    by (auto simp: filter_empty_conv fmpred_iff fmlookup_dom_iff)
  then show ?thesis
    by (auto simp: ReadSnapshotAnnotations_def Let_def split: option.splits list.splits if_splits)
qed

section \<open>Policies\<close>

lemma ShouldSnapshotVM_cases:
  "ShouldSnapshotVM spec role \<longleftrightarrow>
     vs_SnapshotPolicy spec \<noteq> SnapshotPolicyNever \<and> (vs_SnapshotPolicy spec = SnapshotPolicyMainOnly \<longrightarrow> role = RoleMain)"
  by (auto simp: ShouldSnapshotVM_def SnapshotPolicy_Default_def or_str_def Let_def api_consts)

end
