(* ===== verification/Go_Json_Utf8.thy ===== *)
theory Go_Json_Utf8
  imports Push_Wire
begin

text \<open>
  What \<^verbatim>\<open>json.Marshal\<close> writes is UTF-8 again, so that a JSON text can be a string inside another JSON
  text: the status of a snapshot is such a text in an annotation.
\<close>

lemma utf8_len_unit: "utf8_len s \<noteq> 0 \<Longrightarrow> utf8_len (take (utf8_len s) s) = utf8_len s"
  using utf8_len_take [of s "[]"] by simp

lemma valid_utf8_append: "valid_utf8 a \<Longrightarrow> valid_utf8 b \<Longrightarrow> valid_utf8 (a @ b)"
proof (induction a rule: valid_utf8.induct)
  case (1 a)
  show ?case
  proof (cases "a = []")
    case False
    let ?n = "utf8_len a"
    from False "1.prems"(1) have n: "?n \<noteq> 0" and v: "valid_utf8 (drop ?n a)"
      by (subst (asm) valid_utf8.simps, simp split: if_splits)+
    from "1.IH" [OF False n v "1.prems"(2)] have "valid_utf8 (drop ?n a @ b)" .
    then have "valid_utf8 (take ?n a @ drop ?n a @ b)"
      using n False utf8_len_le [of a] by (intro valid_utf8_unit [of "take ?n a"]) (simp_all add: utf8_len_unit)
    then show ?thesis by (metis append_assoc append_take_drop_id)
  qed (simp add: "1.prems")
qed

lemma ascii_hexc: "0 \<le> d \<Longrightarrow> d < 16 \<Longrightarrow> cp (hexc d) < 128"
  by (simp add: hexc_def cp_char_of)

lemma valid_esc_ascii: "cp c < 128 \<Longrightarrow> valid_utf8 (esc_ascii c)"
proof (rule valid_utf8_ascii)
  assume c: "cp c < 128"
  have "0 \<le> cp c" by (simp add: cp_def)
  with c have "0 \<le> cp c div 16" "cp c div 16 < 16" by (simp_all add: pos_imp_zdiv_nonneg_iff)
  then have "cp (hexc (cp c div 16)) < 128" "cp (hexc (cp c mod 16)) < 128" by (simp_all add: ascii_hexc)
  with c show "list_all (\<lambda>c. cp c < 128) (esc_ascii c)"
    by (simp add: esc_ascii_def) (simp add: cp_def bslash_def)
qed

lemma valid_esc: "valid_utf8 (esc s)"
proof (induction s rule: esc.induct)
  case (1 s)
  have u: "valid_utf8 (bslash # ''ufffd'')" "valid_utf8 (bslash # ''u2028'')" "valid_utf8 (bslash # ''u2029'')"
    by (rule valid_utf8_ascii, simp add: cp_def bslash_def)+
  consider "s = []" | "s \<noteq> []" "utf8_len s = 0" | "s \<noteq> []" "utf8_len s = 1" | "s \<noteq> []" "utf8_len s \<noteq> 0" "utf8_len s \<noteq> 1"
    by blast
  then show ?case
  proof cases
    case 1
    then show ?thesis by (simp add: esc.simps)
  next
    case 2
    from valid_utf8_append [OF u(1) "1.IH"(1) [OF 2]] 2 show ?thesis by (subst esc.simps) simp
  next
    case 3
    then have "cp (hd s) < 128" by (cases s) (auto simp: utf8_len_def utf8_need_def split: if_splits)
    from valid_utf8_append [OF valid_esc_ascii [OF this] "1.IH"(2)] 3 show ?thesis by (subst esc.simps) simp
  next
    case 4
    have "valid_utf8 (take (utf8_len s) s)"
      using valid_utf8_unit [of "take (utf8_len s) s" "[]"] 4 utf8_len_le [of s] by (simp add: utf8_len_unit)
    with u have "valid_utf8 (esc_multi (take (utf8_len s) s))" by (simp add: esc_multi_def)
    from valid_utf8_append [OF this "1.IH"(3)] 4 show ?thesis by (subst esc.simps) simp
  qed
qed

lemma valid_quote: "valid_utf8 (quote s)"
proof -
  have "valid_utf8 [dquote]" by (rule valid_utf8_ascii) (simp add: cp_def dquote_def)
  from valid_utf8_append [OF this valid_utf8_append [OF valid_esc this]] show ?thesis by (simp add: quote_def)
qed

end
