(* ===== verification/K8s_Patch.thy ===== *)
theory K8s_Patch
  imports Meta_Laws Go_Json_Utf8
begin

text \<open>
  Merge patches: \<^verbatim>\<open>k8s/patch.go\<close> and the annotation patches of \<^verbatim>\<open>meta\<close>.

  The other side of a patch is the API server. Its part is RFC 7386, written down here as
  \<open>merge_patch\<close>, the reference the client relies on. The lemmas: the patch text decodes, and merging
  it into an object changes the annotations exactly as the patch says, so that sending the
  patch of a status and applying the status to the pod are the same.
\<close>

section \<open>Building a patch\<close>

text \<open>A nil map is written as \<^verbatim>\<open>null\<close>.\<close>

definition AnnotationsMergePatch :: "annotation_patch option \<Rightarrow> bytes" where
  "AnnotationsMergePatch annotations =
     json_marshal (JObj [(''metadata'', JObj [(''annotations'', enc_ptr (enc_map id) annotations)])])"

section \<open>RFC 7386\<close>

definition obj_members :: "json \<Rightarrow> (string \<times> json) list" where
  "obj_members v = (case v of JObj ms \<Rightarrow> ms | _ \<Rightarrow> [])"

definition obj_get :: "string \<Rightarrow> (string \<times> json) list \<Rightarrow> json" where
  "obj_get k ms = (case map_of ms k of None \<Rightarrow> JNull | Some v \<Rightarrow> v)"

definition obj_delete :: "string \<Rightarrow> (string \<times> json) list \<Rightarrow> (string \<times> json) list" where
  "obj_delete k ms = filter (\<lambda>(k', _). k' \<noteq> k) ms"

definition obj_set :: "string \<Rightarrow> json \<Rightarrow> (string \<times> json) list \<Rightarrow> (string \<times> json) list" where
  "obj_set k v ms = (k, v) # obj_delete k ms"

function merge_patch :: "json \<Rightarrow> json \<Rightarrow> json"
  and merge_members :: "(string \<times> json) list \<Rightarrow> (string \<times> json) list \<Rightarrow> (string \<times> json) list" where
  "merge_patch t p = (case p of JObj ps \<Rightarrow> JObj (merge_members (obj_members t) ps) | _ \<Rightarrow> p)"
| "merge_members ts [] = ts"
| "merge_members ts ((k, v) # ps) =
     merge_members (if v = JNull then obj_delete k ts else obj_set k (merge_patch (obj_get k ts) v) ts) ps"
  by pat_completeness auto
termination
  by (relation "measure (case_sum (\<lambda>(_, p). size p) (\<lambda>(_, ps). size_list (size_prod (\<lambda>_. 0) size) ps))") auto

declare merge_patch.simps [simp del]

lemma merge_patch_JObj [simp]: "merge_patch t (JObj ps) = JObj (merge_members (obj_members t) ps)"
  by (simp add: merge_patch.simps)

lemma merge_patch_JStr [simp]: "merge_patch t (JStr s) = JStr s"
  by (simp add: merge_patch.simps)

section \<open>What an annotation patch does\<close>

definition patch_value :: "json \<Rightarrow> string option" where
  "patch_value v = (case v of JStr s \<Rightarrow> Some s | _ \<Rightarrow> None)"

definition patch_annotations :: "annotation_patch \<Rightarrow> gomap \<Rightarrow> gomap" where
  "patch_annotations p a =
     fold (\<lambda>k a. case patch_value (the (fmlookup p k)) of Some s \<Rightarrow> fmupd k s a | None \<Rightarrow> fmdrop k a) (sorted_keys p) a"

text \<open>A patch as the program builds it: text sets a key, nil removes it.\<close>

definition text_patch :: "annotation_patch \<Rightarrow> bool" where
  "text_patch p = fmpred (\<lambda>k v. valid_utf8 k \<and> (v = JNull \<or> (\<exists>s. v = JStr s \<and> valid_utf8 s))) p"

text \<open>The members of a JSON object stand for a map of strings.\<close>

definition obj_rel :: "(string \<times> json) list \<Rightarrow> gomap \<Rightarrow> bool" where
  "obj_rel ms a \<longleftrightarrow> distinct (map fst ms) \<and> (\<forall>k. map_of ms k = map_option JStr (fmlookup a k))"

lemma map_of_obj_delete [simp]: "map_of (obj_delete k ms) k' = (if k' = k then None else map_of ms k')"
  by (induction ms) (auto simp: obj_delete_def)

lemma distinct_obj_delete: "distinct (map fst ms) \<Longrightarrow> distinct (map fst (obj_delete k ms))"
  by (simp add: obj_delete_def distinct_map_filter)

lemma not_in_obj_delete: "k \<notin> fst ` set (obj_delete k ms)"
  by (auto simp: obj_delete_def)

lemma obj_rel_delete: "obj_rel ms a \<Longrightarrow> obj_rel (obj_delete k ms) (fmdrop k a)"
  by (auto simp: obj_rel_def distinct_obj_delete)

lemma obj_rel_set: "obj_rel ms a \<Longrightarrow> obj_rel (obj_set k (JStr s) ms) (fmupd k s a)"
  using not_in_obj_delete by (auto simp: obj_rel_def obj_set_def distinct_obj_delete)

lemma obj_rel_enc: "obj_rel (obj_members (enc_map JStr a)) a"
proof -
  have "map_of (map (\<lambda>k. (k, JStr (the (fmlookup a k)))) (sorted_keys a)) k = map_option JStr (fmlookup a k)" for k
    by (cases "fmlookup a k") (auto simp: map_of_map_restrict restrict_map_def fmlookup_dom_iff)
  then show ?thesis
    by (simp add: obj_rel_def obj_members_def enc_map_def comp_def)
qed

lemma merge_members_rel:
  assumes "\<And>k. k \<in> set ks \<Longrightarrow> f k = JNull \<or> (\<exists>s. f k = JStr s)" and "obj_rel ms a"
  shows "obj_rel (merge_members ms (map (\<lambda>k. (k, f k)) ks))
    (fold (\<lambda>k a. case patch_value (f k) of Some s \<Rightarrow> fmupd k s a | None \<Rightarrow> fmdrop k a) ks a)"
  using assms
proof (induction ks arbitrary: ms a)
  case (Cons k ks)
  from Cons.prems(1) [of k] consider "f k = JNull" | s where "f k = JStr s" by auto
  then show ?case
  proof cases
    case 1
    with Cons show ?thesis by (simp add: patch_value_def obj_rel_delete)
  next
    case 2
    with Cons show ?thesis by (simp add: patch_value_def obj_rel_set)
  qed
qed simp

text \<open>Reading the annotations out of an object.\<close>

lemma dec_entries_rel:
  assumes "distinct (map fst ms)" and "\<And>k v. map_of ms k = Some v \<Longrightarrow> \<exists>s. v = JStr s"
  shows "\<exists>m. dec_entries dec_string [] ms acc = Some m \<and>
    (\<forall>k. fmlookup m k = (case map_of ms k of Some v \<Rightarrow> patch_value v | None \<Rightarrow> fmlookup acc k))"
  using assms
proof (induction ms arbitrary: acc)
  case (Cons kv ms)
  obtain k v where kv: "kv = (k, v)" by (cases kv)
  with Cons.prems(2) [of k v] obtain s where s: "v = JStr s" by auto
  have "map_of ms k' = Some v' \<Longrightarrow> \<exists>s. v' = JStr s" for k' v'
    using Cons.prems kv by (metis (no_types) distinct.simps(2) list.simps(9) map_of_Cons_code(2) map_of_eq_None_iff option.distinct(1) fst_conv image_set)
  with Cons.IH [of "fmupd k s acc"] Cons.prems(1) obtain m where
    "dec_entries dec_string [] ms (fmupd k s acc) = Some m"
    "\<forall>k'. fmlookup m k' = (case map_of ms k' of Some v \<Rightarrow> patch_value v | None \<Rightarrow> fmlookup (fmupd k s acc) k')"
    by auto
  moreover have "map_of ms k = None"
    using Cons.prems(1) kv by (simp add: map_of_eq_None_iff)
  ultimately show ?case
    by (auto simp: kv s patch_value_def split: option.splits)
qed simp

lemma dec_map_rel: "obj_rel ms a \<Longrightarrow> dec_map dec_string [] fmempty (JObj ms) = Some a"
proof -
  assume r: "obj_rel ms a"
  then have "\<exists>s. v = JStr s" if "map_of ms k = Some v" for k v
    using that by (auto simp: obj_rel_def)
  with dec_entries_rel [of ms fmempty] r obtain m where
    m: "dec_entries dec_string [] ms fmempty = Some m"
      "\<forall>k. fmlookup m k = (case map_of ms k of Some v \<Rightarrow> patch_value v | None \<Rightarrow> None)"
    unfolding obj_rel_def by (metis (no_types, lifting) fmempty_lookup)
  have "m = a"
    by (rule fmap_ext) (use m(2) r in \<open>auto simp: obj_rel_def patch_value_def split: option.splits\<close>)
  with m(1) show ?thesis by (simp add: dec_map_def)
qed

section \<open>Sending a patch\<close>

text \<open>The object as the patch sees it, its metadata with the annotations.\<close>

definition annotated :: "gomap \<Rightarrow> json" where
  "annotated a = JObj [(''metadata'', JObj [(''annotations'', enc_map JStr a)])]"

definition annotations_of :: "json \<Rightarrow> gomap option" where
  "annotations_of v =
     dec_map dec_string [] fmempty (obj_get ''annotations'' (obj_members (obj_get ''metadata'' (obj_members v))))"

lemma patch_key_utf8 [simp]: "valid_utf8 ''metadata''"
  by (rule valid_utf8_ascii) (simp add: cp_def)

lemma text_patch_wf: "text_patch p \<Longrightarrow> wf_json (enc_map id p)"
  by (rule wf_enc_map) (auto simp: text_patch_def dest: fmpredD)

lemma AnnotationsMergePatch_reads:
  "text_patch p \<Longrightarrow> json_unmarshal (AnnotationsMergePatch (Some p)) =
     Some (JObj [(''metadata'', JObj [(''annotations'', enc_map id p)])])"
  by (simp add: AnnotationsMergePatch_def enc_ptr_def text_patch_wf)

lemma merge_annotations:
  assumes "text_patch p"
  shows "annotations_of (merge_patch (annotated a) (JObj [(''metadata'', JObj [(''annotations'', enc_map id p)])])) =
    Some (patch_annotations p a)"
proof -
  have "fmlookup p k = Some v \<Longrightarrow> v = JNull \<or> (\<exists>s. v = JStr s)" for k v
    using assms by (auto simp: text_patch_def dest: fmpredD)
  then have "obj_rel (merge_members (obj_members (enc_map JStr a)) (map (\<lambda>k. (k, id (the (fmlookup p k)))) (sorted_keys p)))
      (patch_annotations p a)"
    unfolding patch_annotations_def id_apply by (intro merge_members_rel obj_rel_enc) (auto simp: fmlookup_dom_iff)
  from dec_map_rel [OF this] show ?thesis
    by (simp add: annotations_of_def annotated_def enc_map_def obj_members_def obj_get_def obj_set_def)
qed

lemma merge_patch_sent:
  assumes "text_patch p"
  shows "Option.bind (json_unmarshal (AnnotationsMergePatch (Some p))) (\<lambda>v. annotations_of (merge_patch (annotated a) v)) =
    Some (patch_annotations p a)"
  using assms by (simp add: AnnotationsMergePatch_reads merge_annotations del: merge_patch_JObj)

text \<open>What the patch means, key by key.\<close>

lemma patch_annotations_lookup:
  "fmlookup (patch_annotations p a) k =
     (case fmlookup p k of None \<Rightarrow> fmlookup a k | Some v \<Rightarrow> patch_value v)"
proof -
  have *: "fmlookup (fold (\<lambda>k a. case f k of Some s \<Rightarrow> fmupd k s a | None \<Rightarrow> fmdrop k a) ks a) k =
      (if k \<in> set ks then f k else fmlookup a k)" for f :: "string \<Rightarrow> string option" and ks
    by (induction ks arbitrary: a) (auto split: option.split)
  show ?thesis
    unfolding patch_annotations_def * by (auto simp: fmlookup_dom_iff split: option.split)
qed

section \<open>The patches of the statuses\<close>

lemma annotationKeys_utf8: "list_all valid_utf8 annotationKeys"
  by (simp add: annotationKeys_def) (intro conjI; rule valid_utf8_ascii; simp add: meta_keys cp_def)

lemma LifecycleStatus_Annotations_text:
  assumes "valid_utf8 (ls_State s)" "valid_utf8 (ls_Message s)"
  shows "text_patch (LifecycleStatus_Annotations s)"
proof -
  have "valid_utf8 (FormatInt n)" for n
    using valid_utf8_Itoa [of n] by (simp add: Itoa_def)
  with assms annotationKeys_utf8 show ?thesis
    unfolding annotationKeys_def text_patch_def LifecycleStatus_Annotations_def Let_def
    by (auto intro!: fmpred_upd)
qed

lemma SnapshotStatus_Annotations_text: "text_patch (SnapshotStatus_Annotations s)"
proof -
  have colon: "valid_utf8 (k # s)" if "k \<in> set ''{},:''" "valid_utf8 s" for k s
  proof -
    have "valid_utf8 [k]" by (rule valid_utf8_ascii) (use that(1) in \<open>auto simp: cp_def\<close>)
    from valid_utf8_append [OF this that(2)] show ?thesis by simp
  qed
  have "valid_utf8 (json_marshal (enc_status s))"
    by (simp add: json_marshal_def enc_status_def opt_field_def nl_def colon_def colon valid_utf8_append valid_quote)
  moreover have "valid_utf8 AnnotationSnapshotStatus"
    using annotationKeys_utf8 by (simp add: annotationKeys_def)
  ultimately show ?thesis
    by (auto simp: text_patch_def SnapshotStatus_Annotations_def intro!: fmpred_upd)
qed

lemma LifecycleStatus_patch:
  "patch_annotations (LifecycleStatus_Annotations s) (ensurePodAnnotations pod) =
     ensurePodAnnotations (LifecycleStatus_Apply s pod)"
  by (rule fmap_ext)
    (auto simp: patch_annotations_lookup LifecycleStatus_Annotations_def LifecycleStatus_Apply_def Let_def patch_value_def)

end
