(* ===== verification/Meta_Names.thy ===== *)
theory Meta_Names
  imports Meta_Annotations
begin

text \<open>
  VM names and roles, \<^verbatim>\<open>meta/vmname.go\<close> and \<^verbatim>\<open>meta/owner.go\<close>, and the pod predicates of \<^verbatim>\<open>meta/pod.go\<close>.

  The lemmas characterise \<^verbatim>\<open>ExtractAgentSlot\<close>: it is the inverse of \<^verbatim>\<open>VMNameForDeployment\<close> on the slots
  from 0, and -1 on every other name. The VM of a toolbox therefore has a slot exactly when the toolbox
  is named by a decimal number.
\<close>

section \<open>Names\<close>

definition HibernateImportSuffix :: string where
  "HibernateImportSuffix = ''-hibernate-import''"

definition VMNameForPod :: "string \<Rightarrow> string \<Rightarrow> string" where
  "VMNameForPod namespace podName =
     (let sum = sha256 (namespace @ ''/'' @ podName) in
      ''vk-'' @ namespace @ ''-'' @ ReplaceChar podName (CHR ''.'') (CHR ''-'') @ ''-'' @ hex_encode (take 3 sum))"

definition VMNameForDeployment :: "string \<Rightarrow> string \<Rightarrow> int \<Rightarrow> string" where
  "VMNameForDeployment namespace deployment slot = VMNameForPod namespace (deployment @ ''-'' @ Itoa slot)"

definition ToolboxPodName :: "string \<Rightarrow> string \<Rightarrow> string" where
  "ToolboxPodName cocoonSet toolbox = cocoonSet @ ''-'' @ toolbox"

definition AgentVMNamePrefix :: "string \<Rightarrow> string \<Rightarrow> string" where
  "AgentVMNamePrefix namespace cocoonSet =
     ''vk-'' @ namespace @ ''-'' @ ReplaceChar cocoonSet (CHR ''.'') (CHR ''-'') @ ''-''"

definition ExtractAgentSlot :: "string \<Rightarrow> string \<Rightarrow> string \<Rightarrow> int" where
  "ExtractAgentSlot namespace cocoonSet vmName =
     (let (rest, ok) = CutPrefix vmName (AgentVMNamePrefix namespace cocoonSet) in
      if \<not> ok then - 1
      else
        let (slot, _, _) = Cut rest (CHR ''-'') in
        (case Atoi slot of
           None \<Rightarrow> - 1
         | Some n \<Rightarrow> if VMNameForDeployment namespace cocoonSet n \<noteq> vmName then - 1 else n))"

definition InferRoleFromAgentSlot :: "int \<Rightarrow> string" where
  "InferRoleFromAgentSlot slot = (if slot < 0 then RoleToolbox else if slot = 0 then RoleMain else RoleSubAgent)"

section \<open>Owners\<close>

definition HasCocoonTolerationKey :: "toleration list \<Rightarrow> bool" where
  "HasCocoonTolerationKey tolerations = list_ex (\<lambda>t. tol_Key t = TolerationKey) tolerations"

fun CocoonSetOwnerName :: "owner_ref list \<Rightarrow> string" where
  "CocoonSetOwnerName [] = []"
| "CocoonSetOwnerName (ref # ownerRefs) =
     (if owner_Kind ref = KindCocoonSet then owner_Name ref else CocoonSetOwnerName ownerRefs)"

definition IsOwnedByCocoonSet :: "owner_ref list \<Rightarrow> bool" where
  "IsOwnedByCocoonSet ownerRefs = (CocoonSetOwnerName ownerRefs \<noteq> [])"

definition RoleForPod :: "pod \<Rightarrow> string \<Rightarrow> string" where
  "RoleForPod pod vmName =
     (let cocoonSet = CocoonSetOwnerName (pod_OwnerReferences pod) in
      InferRoleFromAgentSlot (ExtractAgentSlot (pod_Namespace pod) cocoonSet vmName))"

section \<open>Pods\<close>

definition IsPodReady :: "pod \<Rightarrow> bool" where
  "IsPodReady pod = list_ex (\<lambda>c. pc_Type c = ''Ready'' \<and> pc_Status c = ''True'') (pod_Conditions pod)"

definition IsPodTerminal :: "pod \<Rightarrow> bool" where
  "IsPodTerminal pod = (pod_Phase pod = ''Failed'')"

definition IsContainerRunning :: "pod \<Rightarrow> bool" where
  "IsContainerRunning pod = list_ex (\<lambda>running. running) (pod_Running pod)"

definition VMLive :: "pod \<Rightarrow> bool" where
  "VMLive pod = (IsContainerRunning pod \<and> vr_VMID (ParseVMRuntime pod) \<noteq> [])"

definition PodKey :: "string \<Rightarrow> string \<Rightarrow> string" where
  "PodKey namespace name = namespace @ ''/'' @ name"

definition PodNodePool :: "pod \<Rightarrow> string" where
  "PodNodePool pod =
     or_str (nil_get (pod_NodeSelector pod) LabelNodePool)
      (or_str (nil_get (pod_Labels pod) LabelNodePool)
        (or_str (nil_get (pod_Annotations pod) LabelNodePool) DefaultNodePool))"

section \<open>The shape of a name\<close>

lemma ReplaceChar_append: "ReplaceChar (s @ t) a b = ReplaceChar s a b @ ReplaceChar t a b"
  by (simp add: ReplaceChar_def)

lemma ReplaceChar_id: "a \<notin> set s \<Longrightarrow> ReplaceChar s a b = s"
  by (induction s) (auto simp: ReplaceChar_def)

lemma ReplaceChar_back: "b \<notin> set t \<Longrightarrow> ReplaceChar s a b = t \<Longrightarrow> s = t"
  by (induction s arbitrary: t) (auto simp: ReplaceChar_def)

lemma Itoa_chars: "0 \<le> n \<Longrightarrow> CHR ''-'' \<notin> set (Itoa n)" "CHR ''.'' \<notin> set (Itoa n)"
  using FormatInt_nonneg_digits [of n] FormatInt_chars [of "CHR ''.''" n]
  by (auto simp: Itoa_def list_all_iff is_digit_def)

text \<open>The name of the pod COCOONSET-T, split after the prefix all agents of the set share.\<close>

lemma VMName_toolbox:
  "VMNameForPod ns (ToolboxPodName cs t) =
     AgentVMNamePrefix ns cs @ ReplaceChar t (CHR ''.'') (CHR ''-'') @ CHR ''-'' #
       hex_encode (take 3 (sha256 (ns @ ''/'' @ cs @ ''-'' @ t)))"
  by (simp add: VMNameForPod_def ToolboxPodName_def AgentVMNamePrefix_def Let_def ReplaceChar_append)
    (simp add: ReplaceChar_def)

lemma VMName_agent_toolbox: "VMNameForDeployment ns cs n = VMNameForPod ns (ToolboxPodName cs (Itoa n))"
  by (simp add: VMNameForDeployment_def ToolboxPodName_def)

lemma VMName_agent:
  "VMNameForDeployment ns cs n =
     AgentVMNamePrefix ns cs @ Itoa n @ CHR ''-'' # hex_encode (take 3 (sha256 (ns @ ''/'' @ cs @ ''-'' @ Itoa n)))"
  by (simp add: VMName_agent_toolbox VMName_toolbox ReplaceChar_id Itoa_chars)

text \<open>Two names of one set agree only if the parts between the dashes do.\<close>

lemma VMName_toolbox_inj:
  assumes "VMNameForPod ns (ToolboxPodName cs t) = VMNameForPod ns (ToolboxPodName cs u)"
  shows "ReplaceChar t (CHR ''.'') (CHR ''-'') = ReplaceChar u (CHR ''.'') (CHR ''-'')"
  using assms by (simp add: VMName_toolbox append_eq_append_conv)

lemma VMName_toolbox_agent:
  "0 \<le> n \<Longrightarrow> VMNameForPod ns (ToolboxPodName cs t) = VMNameForDeployment ns cs n \<longleftrightarrow> t = Itoa n"
  using VMName_toolbox_inj [of ns cs t "Itoa n"] ReplaceChar_back [of "CHR ''-''" "Itoa n" t "CHR ''.''"]
  by (auto simp: VMName_agent_toolbox ReplaceChar_id Itoa_chars)

section \<open>Slots\<close>

lemma parse_digits_nonneg: "parse_digits acc s = Some n \<Longrightarrow> 0 \<le> acc \<Longrightarrow> 0 \<le> n"
proof (induction s arbitrary: acc)
  case (Cons c s)
  then have "0 \<le> digit_val c" by (auto simp: is_digit_def digit_val_def split: if_splits)
  with Cons show ?case by (auto split: if_splits)
qed simp

lemma Atoi_no_dash:
  assumes "Atoi s = Some n" and "CHR ''-'' \<notin> set s"
  shows "0 \<le> n"
proof -
  have "fst (split_sign s) = False" using assms(2) by (auto simp: split_sign_def split: list.split)
  with assms(1) obtain ds where "parse_digits 0 ds = Some n"
    by (auto simp: Atoi_def ParseInt_def Let_def split: prod.splits if_splits option.splits)
  then show ?thesis by (rule parse_digits_nonneg) simp
qed

lemma Cut_no_sep: "Cut s c = (b, a, f) \<Longrightarrow> c \<notin> set b"
  by (induction s arbitrary: b) (auto split: if_splits prod.splits)

lemma ExtractAgentSlot_deployment:
  assumes "0 \<le> n" "in_int64 n"
  shows "ExtractAgentSlot ns cs (VMNameForDeployment ns cs n) = n"
  using assms Itoa_chars [of n]
  by (simp add: ExtractAgentSlot_def VMName_agent [of ns cs n] Cut_append Atoi_def)
    (simp add: Itoa_def VMName_agent)

lemma ExtractAgentSlot_Some:
  assumes "ExtractAgentSlot ns cs v \<noteq> - 1"
  shows "0 \<le> ExtractAgentSlot ns cs v \<and> in_int64 (ExtractAgentSlot ns cs v) \<and>
    v = VMNameForDeployment ns cs (ExtractAgentSlot ns cs v)"
  using assms
  by (auto simp: ExtractAgentSlot_def Let_def in_int64_def split: prod.splits if_splits option.splits
      dest: Cut_no_sep intro: Atoi_no_dash dest: ParseInt_range [of 64, folded Atoi_def, simplified])

lemma ExtractAgentSlot_iff:
  "0 \<le> n \<Longrightarrow> in_int64 n \<Longrightarrow> ExtractAgentSlot ns cs v = n \<longleftrightarrow> v = VMNameForDeployment ns cs n"
  using ExtractAgentSlot_deployment ExtractAgentSlot_Some [of ns cs v] by fastforce

lemma ExtractAgentSlot_toolbox:
  "ExtractAgentSlot ns cs (VMNameForPod ns (ToolboxPodName cs t)) = - 1 \<longleftrightarrow>
     \<not> (\<exists>n. 0 \<le> n \<and> in_int64 n \<and> t = Itoa n)"
proof
  assume *: "ExtractAgentSlot ns cs (VMNameForPod ns (ToolboxPodName cs t)) = - 1"
  show "\<not> (\<exists>n. 0 \<le> n \<and> in_int64 n \<and> t = Itoa n)"
  proof
    assume "\<exists>n. 0 \<le> n \<and> in_int64 n \<and> t = Itoa n"
    then obtain n where "0 \<le> n" "in_int64 n" "t = Itoa n" by blast
    with * ExtractAgentSlot_deployment [of n ns cs] show False by (simp add: VMName_agent_toolbox)
  qed
next
  assume *: "\<not> (\<exists>n. 0 \<le> n \<and> in_int64 n \<and> t = Itoa n)"
  show "ExtractAgentSlot ns cs (VMNameForPod ns (ToolboxPodName cs t)) = - 1"
  proof (rule ccontr)
    assume "ExtractAgentSlot ns cs (VMNameForPod ns (ToolboxPodName cs t)) \<noteq> - 1"
    from ExtractAgentSlot_Some [OF this] * show False using VMName_toolbox_agent by blast
  qed
qed

end
