(* ===== verification/Example_Pod.thy ===== *)
theory Example_Pod
  imports K8s_Patch Meta_Names
begin

text \<open>
  The frame rules of the annotation writers, key by key, and a pod and an agent for the concrete
  instances of the theorems about annotations.
\<close>

text \<open>Every key of one contract lies outside the keys of the other writers.\<close>

lemma contract_frames:
  "k \<notin> set vmSpecKeys \<Longrightarrow> anno (VMSpec_Apply spec pod) k = anno pod k"
  "k \<notin> set vmRuntimeKeys \<Longrightarrow> anno (VMRuntime_Apply rt pod) k = anno pod k"
  "k \<notin> set lifecycleKeys \<Longrightarrow> anno (LifecycleStatus_Apply ls pod) k = anno pod k"
  "k \<noteq> AnnotationHibernate \<Longrightarrow> anno (HibernateState_Apply b pod) k = anno pod k"
  by (simp_all add: VMSpec_Apply_frame VMRuntime_Apply_frame LifecycleStatus_Apply_frame HibernateState_Apply_frame)

lemmas contract_keys = vmSpecKeys_def vmRuntimeKeys_def lifecycleKeys_def

definition exPod :: pod where
  "exPod =
     \<lparr>pod_Namespace = ''default'', pod_Annotations = Some (fmap_of_list [(AnnotationIP, ''10.0.0.7'')]), pod_Labels = None,
      pod_OwnerReferences = [], pod_NodeSelector = None, pod_Phase = ''Running'', pod_Conditions = [], pod_Running = [True]\<rparr>"

definition exAgent :: "(string option, unit, unit list) AgentSpec" where
  "exAgent =
     \<lparr>as_Replicas = 1, as_Image = ''ubuntu'', as_Mode = [],
      as_VMOptions = \<lparr>vo_OS = [], vo_Backend = [], vo_ConnType = [], vo_Network = [], vo_ForcePull = False, vo_NoDirectIO = False,
        vo_ProbePort = 0, vo_Storage = None, vo_Resources = ()\<rparr>,
      as_EnvFrom = [], as_ServiceAccountName = []\<rparr>"

end
