(* ===== verification/Deep_Copy.thy ===== *)
theory Deep_Copy
  imports Apis_V1 Go_Heap
begin

text \<open>
  The deep copies of \<^verbatim>\<open>apis/v1/zz_generated.deepcopy.go\<close> on a memory in which slices and pointers are addresses,
  and the registration of the types (\<^verbatim>\<open>groupversion_info.go\<close>). The copies that other packages provide for their
  types are the record \<open>k8s_lib\<close>; \<open>'l\<close> is such a value, \<open>'tm\<close> a \<^verbatim>\<open>TypeMeta\<close>, which is plain. The locale
  \<open>k8s_copies\<close> says that each of them is a deep copy; then so is each one here.
\<close>

section \<open>Memory\<close>

type_synonym 'l mVMOptions = "(nat option, 'l) VMOptions"
type_synonym 'l mAgentSpec = "(nat option, 'l, nat option) AgentSpec"
type_synonym 'l mToolboxSpec = "(nat option, 'l) ToolboxSpec"
type_synonym 'l mCocoonSetSpec = "(nat option, 'l, nat option, nat option) CocoonSetSpec"
type_synonym mCocoonSetStatus = "(nat option, nat option, nat option) CocoonSetStatus"
type_synonym mHibernationStatus = "nat option CocoonHibernationStatus"
type_synonym ('l, 'tm) mCocoonSet = "('tm, 'l, 'l mCocoonSetSpec, mCocoonSetStatus) CocoonSet"
type_synonym ('l, 'tm) mCocoonSetList = "('tm, 'l, nat option) CocoonSetList"
type_synonym ('l, 'tm) mCocoonHibernation = "('tm, 'l, CocoonHibernationSpec, mHibernationStatus) CocoonHibernation"
type_synonym ('l, 'tm) mCocoonHibernationList = "('tm, 'l, nat option) CocoonHibernationList"

text \<open>What a cell holds: a quantity behind a pointer, or the array of a slice; \<open>LibraryCell\<close> is memory of other packages.\<close>

datatype ('l, 'tm) cell =
    QuantityCell 'l
  | EnvFromCell "'l list"
  | ToolboxSpecCell "'l mToolboxSpec list"
  | AgentStatusCell "AgentStatus list"
  | ToolboxStatusCell "ToolboxStatus list"
  | ConditionCell "'l list"
  | CocoonSetCell "('l, 'tm) mCocoonSet list"
  | CocoonHibernationCell "('l, 'tm) mCocoonHibernation list"
  | LibraryCell "'l list"

definition quantityOf :: "('l, 'tm) cell \<Rightarrow> 'l option" where
  "quantityOf c = (case c of QuantityCell x \<Rightarrow> Some x | _ \<Rightarrow> None)"

definition envFromOf :: "('l, 'tm) cell \<Rightarrow> 'l list option" where
  "envFromOf c = (case c of EnvFromCell x \<Rightarrow> Some x | _ \<Rightarrow> None)"

definition toolboxSpecsOf :: "('l, 'tm) cell \<Rightarrow> 'l mToolboxSpec list option" where
  "toolboxSpecsOf c = (case c of ToolboxSpecCell x \<Rightarrow> Some x | _ \<Rightarrow> None)"

definition agentStatusesOf :: "('l, 'tm) cell \<Rightarrow> AgentStatus list option" where
  "agentStatusesOf c = (case c of AgentStatusCell x \<Rightarrow> Some x | _ \<Rightarrow> None)"

definition toolboxStatusesOf :: "('l, 'tm) cell \<Rightarrow> ToolboxStatus list option" where
  "toolboxStatusesOf c = (case c of ToolboxStatusCell x \<Rightarrow> Some x | _ \<Rightarrow> None)"

definition conditionsOf :: "('l, 'tm) cell \<Rightarrow> 'l list option" where
  "conditionsOf c = (case c of ConditionCell x \<Rightarrow> Some x | _ \<Rightarrow> None)"

definition cocoonSetsOf :: "('l, 'tm) cell \<Rightarrow> ('l, 'tm) mCocoonSet list option" where
  "cocoonSetsOf c = (case c of CocoonSetCell x \<Rightarrow> Some x | _ \<Rightarrow> None)"

definition cocoonHibernationsOf :: "('l, 'tm) cell \<Rightarrow> ('l, 'tm) mCocoonHibernation list option" where
  "cocoonHibernationsOf c = (case c of CocoonHibernationCell x \<Rightarrow> Some x | _ \<Rightarrow> None)"

lemmas cell_of_defs = quantityOf_def envFromOf_def toolboxSpecsOf_def agentStatusesOf_def toolboxStatusesOf_def
  conditionsOf_def cocoonSetsOf_def cocoonHibernationsOf_def

type_synonym ('l, 'tm) copy = "'l \<Rightarrow> ('l, 'tm) cell heap \<Rightarrow> 'l \<times> ('l, 'tm) cell heap"

record ('l, 'tm) k8s_lib =
  Quantity_DeepCopy :: "('l, 'tm) copy"
  ResourceRequirements_DeepCopyInto :: "('l, 'tm) copy"
  EnvFromSource_DeepCopyInto :: "('l, 'tm) copy"
  Condition_DeepCopyInto :: "('l, 'tm) copy"
  ObjectMeta_DeepCopyInto :: "('l, 'tm) copy"
  ListMeta_DeepCopyInto :: "('l, 'tm) copy"

section \<open>DeepCopyInto\<close>

text \<open>Each gives what it writes to \<^verbatim>\<open>out\<close> and the memory with what it has allocated.\<close>

definition VMOptions_DeepCopyInto ::
  "('l, 'tm) k8s_lib \<Rightarrow> 'l mVMOptions \<Rightarrow> ('l, 'tm) cell heap \<Rightarrow> 'l mVMOptions \<times> ('l, 'tm) cell heap" where
  "VMOptions_DeepCopyInto lib x h =
     (case copyPtr (Quantity_DeepCopy lib) QuantityCell quantityOf (vo_Storage x) h of (sto, h1) \<Rightarrow>
      case ResourceRequirements_DeepCopyInto lib (vo_Resources x) h1 of (res, h2) \<Rightarrow>
        (x\<lparr>vo_Storage := sto, vo_Resources := res\<rparr>, h2))"

definition AgentSpec_DeepCopyInto ::
  "('l, 'tm) k8s_lib \<Rightarrow> 'l mAgentSpec \<Rightarrow> ('l, 'tm) cell heap \<Rightarrow> 'l mAgentSpec \<times> ('l, 'tm) cell heap" where
  "AgentSpec_DeepCopyInto lib x h =
     (case VMOptions_DeepCopyInto lib (as_VMOptions x) h of (vo, h1) \<Rightarrow>
      case copySlice (EnvFromSource_DeepCopyInto lib) EnvFromCell envFromOf (as_EnvFrom x) h1 of (env, h2) \<Rightarrow>
        (x\<lparr>as_VMOptions := vo, as_EnvFrom := env\<rparr>, h2))"

definition ToolboxSpec_DeepCopyInto ::
  "('l, 'tm) k8s_lib \<Rightarrow> 'l mToolboxSpec \<Rightarrow> ('l, 'tm) cell heap \<Rightarrow> 'l mToolboxSpec \<times> ('l, 'tm) cell heap" where
  "ToolboxSpec_DeepCopyInto lib x h =
     (case VMOptions_DeepCopyInto lib (tb_VMOptions x) h of (vo, h1) \<Rightarrow> (x\<lparr>tb_VMOptions := vo\<rparr>, h1))"

definition CocoonSetSpec_DeepCopyInto ::
  "('l, 'tm) k8s_lib \<Rightarrow> 'l mCocoonSetSpec \<Rightarrow> ('l, 'tm) cell heap \<Rightarrow> 'l mCocoonSetSpec \<times> ('l, 'tm) cell heap" where
  "CocoonSetSpec_DeepCopyInto lib x h =
     (case AgentSpec_DeepCopyInto lib (cs_Agent x) h of (ag, h1) \<Rightarrow>
      case copySlice (ToolboxSpec_DeepCopyInto lib) ToolboxSpecCell toolboxSpecsOf (cs_Toolboxes x) h1 of (tbs, h2) \<Rightarrow>
        (x\<lparr>cs_Agent := ag, cs_Toolboxes := tbs\<rparr>, h2))"

definition AgentStatus_DeepCopyInto :: "AgentStatus \<Rightarrow> 'c heap \<Rightarrow> AgentStatus \<times> 'c heap" where
  "AgentStatus_DeepCopyInto x h = (x, h)"

definition ToolboxStatus_DeepCopyInto :: "ToolboxStatus \<Rightarrow> 'c heap \<Rightarrow> ToolboxStatus \<times> 'c heap" where
  "ToolboxStatus_DeepCopyInto x h = (x, h)"

definition CocoonSetStatus_DeepCopyInto ::
  "('l, 'tm) k8s_lib \<Rightarrow> mCocoonSetStatus \<Rightarrow> ('l, 'tm) cell heap \<Rightarrow> mCocoonSetStatus \<times> ('l, 'tm) cell heap" where
  "CocoonSetStatus_DeepCopyInto lib x h =
     (case copySlice AgentStatus_DeepCopyInto AgentStatusCell agentStatusesOf (css_Agents x) h of (ags, h1) \<Rightarrow>
      case copySlice ToolboxStatus_DeepCopyInto ToolboxStatusCell toolboxStatusesOf (css_Toolboxes x) h1 of (tbs, h2) \<Rightarrow>
      case copySlice (Condition_DeepCopyInto lib) ConditionCell conditionsOf (css_Conditions x) h2 of (conds, h3) \<Rightarrow>
        (x\<lparr>css_Agents := ags, css_Toolboxes := tbs, css_Conditions := conds\<rparr>, h3))"

definition CocoonSet_DeepCopyInto ::
  "('l, 'tm) k8s_lib \<Rightarrow> ('l, 'tm) mCocoonSet \<Rightarrow> ('l, 'tm) cell heap \<Rightarrow> ('l, 'tm) mCocoonSet \<times> ('l, 'tm) cell heap" where
  "CocoonSet_DeepCopyInto lib x h =
     (case ObjectMeta_DeepCopyInto lib (cst_ObjectMeta x) h of (om, h1) \<Rightarrow>
      case CocoonSetSpec_DeepCopyInto lib (cst_Spec x) h1 of (sp, h2) \<Rightarrow>
      case CocoonSetStatus_DeepCopyInto lib (cst_Status x) h2 of (st, h3) \<Rightarrow>
        (x\<lparr>cst_TypeMeta := cst_TypeMeta x, cst_ObjectMeta := om, cst_Spec := sp, cst_Status := st\<rparr>, h3))"

definition CocoonSetList_DeepCopyInto ::
  "('l, 'tm) k8s_lib \<Rightarrow> ('l, 'tm) mCocoonSetList \<Rightarrow> ('l, 'tm) cell heap \<Rightarrow> ('l, 'tm) mCocoonSetList \<times> ('l, 'tm) cell heap" where
  "CocoonSetList_DeepCopyInto lib x h =
     (case ListMeta_DeepCopyInto lib (csl_ListMeta x) h of (lm, h1) \<Rightarrow>
      case copySlice (CocoonSet_DeepCopyInto lib) CocoonSetCell cocoonSetsOf (csl_Items x) h1 of (its, h2) \<Rightarrow>
        (x\<lparr>csl_TypeMeta := csl_TypeMeta x, csl_ListMeta := lm, csl_Items := its\<rparr>, h2))"

definition HibernationPodRef_DeepCopyInto :: "HibernationPodRef \<Rightarrow> 'c heap \<Rightarrow> HibernationPodRef \<times> 'c heap" where
  "HibernationPodRef_DeepCopyInto x h = (x, h)"

definition CocoonHibernationSpec_DeepCopyInto :: "CocoonHibernationSpec \<Rightarrow> 'c heap \<Rightarrow> CocoonHibernationSpec \<times> 'c heap" where
  "CocoonHibernationSpec_DeepCopyInto x h = (x\<lparr>ch_PodRef := ch_PodRef x\<rparr>, h)"

definition CocoonHibernationStatus_DeepCopyInto ::
  "('l, 'tm) k8s_lib \<Rightarrow> mHibernationStatus \<Rightarrow> ('l, 'tm) cell heap \<Rightarrow> mHibernationStatus \<times> ('l, 'tm) cell heap" where
  "CocoonHibernationStatus_DeepCopyInto lib x h =
     (case copySlice (Condition_DeepCopyInto lib) ConditionCell conditionsOf (chs_Conditions x) h of (conds, h1) \<Rightarrow>
        (x\<lparr>chs_Conditions := conds\<rparr>, h1))"

definition CocoonHibernation_DeepCopyInto ::
  "('l, 'tm) k8s_lib \<Rightarrow> ('l, 'tm) mCocoonHibernation \<Rightarrow> ('l, 'tm) cell heap \<Rightarrow>
   ('l, 'tm) mCocoonHibernation \<times> ('l, 'tm) cell heap" where
  "CocoonHibernation_DeepCopyInto lib x h =
     (case ObjectMeta_DeepCopyInto lib (chn_ObjectMeta x) h of (om, h1) \<Rightarrow>
      case CocoonHibernationStatus_DeepCopyInto lib (chn_Status x) h1 of (st, h2) \<Rightarrow>
        (x\<lparr>chn_TypeMeta := chn_TypeMeta x, chn_ObjectMeta := om, chn_Spec := chn_Spec x, chn_Status := st\<rparr>, h2))"

definition CocoonHibernationList_DeepCopyInto ::
  "('l, 'tm) k8s_lib \<Rightarrow> ('l, 'tm) mCocoonHibernationList \<Rightarrow> ('l, 'tm) cell heap \<Rightarrow>
   ('l, 'tm) mCocoonHibernationList \<times> ('l, 'tm) cell heap" where
  "CocoonHibernationList_DeepCopyInto lib x h =
     (case ListMeta_DeepCopyInto lib (chl_ListMeta x) h of (lm, h1) \<Rightarrow>
      case copySlice (CocoonHibernation_DeepCopyInto lib) CocoonHibernationCell cocoonHibernationsOf (chl_Items x) h1 of (its, h2) \<Rightarrow>
        (x\<lparr>chl_TypeMeta := chl_TypeMeta x, chl_ListMeta := lm, chl_Items := its\<rparr>, h2))"

section \<open>DeepCopy\<close>

text \<open>On a pointer: nil stays nil, and the struct that is copied into is new.\<close>

definition VMOptions_DeepCopy where
  "VMOptions_DeepCopy lib = copyNew (VMOptions_DeepCopyInto lib)"

definition AgentSpec_DeepCopy where
  "AgentSpec_DeepCopy lib = copyNew (AgentSpec_DeepCopyInto lib)"

definition ToolboxSpec_DeepCopy where
  "ToolboxSpec_DeepCopy lib = copyNew (ToolboxSpec_DeepCopyInto lib)"

definition CocoonSetSpec_DeepCopy where
  "CocoonSetSpec_DeepCopy lib = copyNew (CocoonSetSpec_DeepCopyInto lib)"

definition AgentStatus_DeepCopy where
  "AgentStatus_DeepCopy = copyNew AgentStatus_DeepCopyInto"

definition ToolboxStatus_DeepCopy where
  "ToolboxStatus_DeepCopy = copyNew ToolboxStatus_DeepCopyInto"

definition CocoonSetStatus_DeepCopy where
  "CocoonSetStatus_DeepCopy lib = copyNew (CocoonSetStatus_DeepCopyInto lib)"

definition CocoonSet_DeepCopy where
  "CocoonSet_DeepCopy lib = copyNew (CocoonSet_DeepCopyInto lib)"

definition CocoonSetList_DeepCopy where
  "CocoonSetList_DeepCopy lib = copyNew (CocoonSetList_DeepCopyInto lib)"

definition HibernationPodRef_DeepCopy where
  "HibernationPodRef_DeepCopy = copyNew HibernationPodRef_DeepCopyInto"

definition CocoonHibernationSpec_DeepCopy where
  "CocoonHibernationSpec_DeepCopy = copyNew CocoonHibernationSpec_DeepCopyInto"

definition CocoonHibernationStatus_DeepCopy where
  "CocoonHibernationStatus_DeepCopy lib = copyNew (CocoonHibernationStatus_DeepCopyInto lib)"

definition CocoonHibernation_DeepCopy where
  "CocoonHibernation_DeepCopy lib = copyNew (CocoonHibernation_DeepCopyInto lib)"

definition CocoonHibernationList_DeepCopy where
  "CocoonHibernationList_DeepCopy lib = copyNew (CocoonHibernationList_DeepCopyInto lib)"

text \<open>\<^verbatim>\<open>runtime.Object\<close>: the types that are registered, and \<^verbatim>\<open>DeepCopyObject\<close> of each.\<close>

datatype ('l, 'tm) Object =
    ObjCocoonSet "('l, 'tm) mCocoonSet"
  | ObjCocoonSetList "('l, 'tm) mCocoonSetList"
  | ObjCocoonHibernation "('l, 'tm) mCocoonHibernation"
  | ObjCocoonHibernationList "('l, 'tm) mCocoonHibernationList"

definition CocoonSet_DeepCopyObject where
  "CocoonSet_DeepCopyObject lib p h =
     (case CocoonSet_DeepCopy lib p h of (Some c, h') \<Rightarrow> (Some (ObjCocoonSet c), h') | (None, h') \<Rightarrow> (None, h'))"

definition CocoonSetList_DeepCopyObject where
  "CocoonSetList_DeepCopyObject lib p h =
     (case CocoonSetList_DeepCopy lib p h of (Some c, h') \<Rightarrow> (Some (ObjCocoonSetList c), h') | (None, h') \<Rightarrow> (None, h'))"

definition CocoonHibernation_DeepCopyObject where
  "CocoonHibernation_DeepCopyObject lib p h =
     (case CocoonHibernation_DeepCopy lib p h of
        (Some c, h') \<Rightarrow> (Some (ObjCocoonHibernation c), h') | (None, h') \<Rightarrow> (None, h'))"

definition CocoonHibernationList_DeepCopyObject where
  "CocoonHibernationList_DeepCopyObject lib p h =
     (case CocoonHibernationList_DeepCopy lib p h of
        (Some c, h') \<Rightarrow> (Some (ObjCocoonHibernationList c), h') | (None, h') \<Rightarrow> (None, h'))"

text \<open>The call through the interface, on an object that is not nil.\<close>

definition DeepCopyObject ::
  "('l, 'tm) k8s_lib \<Rightarrow> ('l, 'tm) Object \<Rightarrow> ('l, 'tm) cell heap \<Rightarrow> ('l, 'tm) Object option \<times> ('l, 'tm) cell heap" where
  "DeepCopyObject lib x h =
     (case x of
        ObjCocoonSet c \<Rightarrow> CocoonSet_DeepCopyObject lib (Some c) h
      | ObjCocoonSetList c \<Rightarrow> CocoonSetList_DeepCopyObject lib (Some c) h
      | ObjCocoonHibernation c \<Rightarrow> CocoonHibernation_DeepCopyObject lib (Some c) h
      | ObjCocoonHibernationList c \<Rightarrow> CocoonHibernationList_DeepCopyObject lib (Some c) h)"

section \<open>What an object in memory is\<close>

text \<open>
  The value of a struct has its plain fields and the values of what it refers to; the footprint is every cell it
  refers to; it is well formed when all of its references lead to cells of their type.
\<close>

definition vmWith :: "'l mVMOptions \<Rightarrow> 's \<times> 'r \<Rightarrow> ('s, 'r) VMOptions" where
  "vmWith x p = \<lparr>vo_OS = vo_OS x, vo_Backend = vo_Backend x, vo_ConnType = vo_ConnType x, vo_Network = vo_Network x,
     vo_ForcePull = vo_ForcePull x, vo_NoDirectIO = vo_NoDirectIO x, vo_ProbePort = vo_ProbePort x,
     vo_Storage = fst p, vo_Resources = snd p\<rparr>"

definition agentWith :: "'l mAgentSpec \<Rightarrow> ('s, 'r) VMOptions \<times> 'e \<Rightarrow> ('s, 'r, 'e) AgentSpec" where
  "agentWith x p = \<lparr>as_Replicas = as_Replicas x, as_Image = as_Image x, as_Mode = as_Mode x, as_VMOptions = fst p,
     as_EnvFrom = snd p, as_ServiceAccountName = as_ServiceAccountName x\<rparr>"

definition toolboxWith :: "'l mToolboxSpec \<Rightarrow> ('s, 'r) VMOptions \<Rightarrow> ('s, 'r) ToolboxSpec" where
  "toolboxWith x v = \<lparr>tb_Name = tb_Name x, tb_Image = tb_Image x, tb_Mode = tb_Mode x, tb_StaticIP = tb_StaticIP x,
     tb_StaticVMID = tb_StaticVMID x, tb_VNCPort = tb_VNCPort x, tb_VMOptions = v\<rparr>"

definition specWith :: "'l mCocoonSetSpec \<Rightarrow> ('s, 'r, 'e) AgentSpec \<times> 't \<Rightarrow> ('s, 'r, 'e, 't) CocoonSetSpec" where
  "specWith x p = \<lparr>cs_Suspend = cs_Suspend x, cs_SnapshotPolicy = cs_SnapshotPolicy x, cs_HibernatePolicy = cs_HibernatePolicy x,
     cs_NodePool = cs_NodePool x, cs_SnapshotCompatibilityClass = cs_SnapshotCompatibilityClass x,
     cs_NodeName = cs_NodeName x, cs_Agent = fst p, cs_Toolboxes = snd p\<rparr>"

definition statusWith :: "mCocoonSetStatus \<Rightarrow> 'a \<times> 't \<times> 'c \<Rightarrow> ('a, 't, 'c) CocoonSetStatus" where
  "statusWith x p = \<lparr>css_ObservedGeneration = css_ObservedGeneration x, css_Phase = css_Phase x,
     css_ReadyAgents = css_ReadyAgents x, css_DesiredAgents = css_DesiredAgents x, css_ReadyToolboxes = css_ReadyToolboxes x,
     css_DesiredToolboxes = css_DesiredToolboxes x, css_Agents = fst p, css_Toolboxes = fst (snd p),
     css_Conditions = snd (snd p)\<rparr>"

definition setWith :: "('l, 'tm) mCocoonSet \<Rightarrow> 'o \<times> 's \<times> 't \<Rightarrow> ('tm, 'o, 's, 't) CocoonSet" where
  "setWith x p = \<lparr>cst_TypeMeta = cst_TypeMeta x, cst_ObjectMeta = fst p, cst_Spec = fst (snd p), cst_Status = snd (snd p)\<rparr>"

definition setListWith :: "('l, 'tm) mCocoonSetList \<Rightarrow> 'o \<times> 'i \<Rightarrow> ('tm, 'o, 'i) CocoonSetList" where
  "setListWith x p = \<lparr>csl_TypeMeta = csl_TypeMeta x, csl_ListMeta = fst p, csl_Items = snd p\<rparr>"

definition hibernationStatusWith :: "mHibernationStatus \<Rightarrow> 'c \<Rightarrow> 'c CocoonHibernationStatus" where
  "hibernationStatusWith x c = \<lparr>chs_ObservedGeneration = chs_ObservedGeneration x, chs_Phase = chs_Phase x,
     chs_VMName = chs_VMName x, chs_Conditions = c\<rparr>"

definition hibernationWith ::
  "('l, 'tm) mCocoonHibernation \<Rightarrow> 'o \<times> 't \<Rightarrow> ('tm, 'o, CocoonHibernationSpec, 't) CocoonHibernation" where
  "hibernationWith x p = \<lparr>chn_TypeMeta = chn_TypeMeta x, chn_ObjectMeta = fst p, chn_Spec = chn_Spec x, chn_Status = snd p\<rparr>"

definition hibernationListWith :: "('l, 'tm) mCocoonHibernationList \<Rightarrow> 'o \<times> 'i \<Rightarrow> ('tm, 'o, 'i) CocoonHibernationList" where
  "hibernationListWith x p = \<lparr>chl_TypeMeta = chl_TypeMeta x, chl_ListMeta = fst p, chl_Items = snd p\<rparr>"

lemmas with_defs = vmWith_def agentWith_def toolboxWith_def specWith_def statusWith_def setWith_def setListWith_def
  hibernationStatusWith_def hibernationWith_def hibernationListWith_def

text \<open>Values.\<close>

definition vmVal where
  "vmVal lval h x = vmWith x (ptrVal lval quantityOf h (vo_Storage x), lval h (vo_Resources x))"

definition agentVal where
  "agentVal lval h x = agentWith x (vmVal lval h (as_VMOptions x), sliceVal lval envFromOf h (as_EnvFrom x))"

definition toolboxVal where
  "toolboxVal lval h x = toolboxWith x (vmVal lval h (tb_VMOptions x))"

definition specVal where
  "specVal lval h x = specWith x (agentVal lval h (cs_Agent x), sliceVal (toolboxVal lval) toolboxSpecsOf h (cs_Toolboxes x))"

definition statusVal where
  "statusVal lval h x = statusWith x (sliceVal (\<lambda>h y. y) agentStatusesOf h (css_Agents x),
     sliceVal (\<lambda>h y. y) toolboxStatusesOf h (css_Toolboxes x), sliceVal lval conditionsOf h (css_Conditions x))"

definition setVal where
  "setVal lval h x = setWith x (lval h (cst_ObjectMeta x), specVal lval h (cst_Spec x), statusVal lval h (cst_Status x))"

definition setListVal where
  "setListVal lval h x = setListWith x (lval h (csl_ListMeta x), sliceVal (setVal lval) cocoonSetsOf h (csl_Items x))"

definition hibernationStatusVal where
  "hibernationStatusVal lval h x = hibernationStatusWith x (sliceVal lval conditionsOf h (chs_Conditions x))"

definition hibernationVal where
  "hibernationVal lval h x = hibernationWith x (lval h (chn_ObjectMeta x), hibernationStatusVal lval h (chn_Status x))"

definition hibernationListVal where
  "hibernationListVal lval h x =
     hibernationListWith x (lval h (chl_ListMeta x), sliceVal (hibernationVal lval) cocoonHibernationsOf h (chl_Items x))"

text \<open>Footprints.\<close>

definition vmFoot where
  "vmFoot lfoot h x = ptrFoot lfoot quantityOf h (vo_Storage x) \<union> lfoot h (vo_Resources x)"

definition agentFoot where
  "agentFoot lfoot h x = vmFoot lfoot h (as_VMOptions x) \<union> sliceFoot lfoot envFromOf h (as_EnvFrom x)"

definition toolboxFoot where
  "toolboxFoot lfoot h x = vmFoot lfoot h (tb_VMOptions x)"

definition specFoot where
  "specFoot lfoot h x = agentFoot lfoot h (cs_Agent x) \<union> sliceFoot (toolboxFoot lfoot) toolboxSpecsOf h (cs_Toolboxes x)"

definition statusFoot where
  "statusFoot lfoot h x = sliceFoot (\<lambda>h y. {}) agentStatusesOf h (css_Agents x) \<union>
     (sliceFoot (\<lambda>h y. {}) toolboxStatusesOf h (css_Toolboxes x) \<union> sliceFoot lfoot conditionsOf h (css_Conditions x))"

definition setFoot where
  "setFoot lfoot h x = lfoot h (cst_ObjectMeta x) \<union> (specFoot lfoot h (cst_Spec x) \<union> statusFoot lfoot h (cst_Status x))"

definition setListFoot where
  "setListFoot lfoot h x = lfoot h (csl_ListMeta x) \<union> sliceFoot (setFoot lfoot) cocoonSetsOf h (csl_Items x)"

definition hibernationStatusFoot where
  "hibernationStatusFoot lfoot h x = sliceFoot lfoot conditionsOf h (chs_Conditions x)"

definition hibernationFoot where
  "hibernationFoot lfoot h x = lfoot h (chn_ObjectMeta x) \<union> hibernationStatusFoot lfoot h (chn_Status x)"

definition hibernationListFoot where
  "hibernationListFoot lfoot h x = lfoot h (chl_ListMeta x) \<union> sliceFoot (hibernationFoot lfoot) cocoonHibernationsOf h (chl_Items x)"

text \<open>Well-formed references.\<close>

definition vmOk where
  "vmOk lok h x = (ptrOk lok quantityOf h (vo_Storage x) \<and> lok h (vo_Resources x))"

definition agentOk where
  "agentOk lok h x = (vmOk lok h (as_VMOptions x) \<and> sliceOk lok envFromOf h (as_EnvFrom x))"

definition toolboxOk where
  "toolboxOk lok h x = vmOk lok h (tb_VMOptions x)"

definition specOk where
  "specOk lok h x = (agentOk lok h (cs_Agent x) \<and> sliceOk (toolboxOk lok) toolboxSpecsOf h (cs_Toolboxes x))"

definition statusOk where
  "statusOk lok h x = (sliceOk (\<lambda>h y. True) agentStatusesOf h (css_Agents x) \<and>
     (sliceOk (\<lambda>h y. True) toolboxStatusesOf h (css_Toolboxes x) \<and> sliceOk lok conditionsOf h (css_Conditions x)))"

definition setOk where
  "setOk lok h x = (lok h (cst_ObjectMeta x) \<and> (specOk lok h (cst_Spec x) \<and> statusOk lok h (cst_Status x)))"

definition setListOk where
  "setListOk lok h x = (lok h (csl_ListMeta x) \<and> sliceOk (setOk lok) cocoonSetsOf h (csl_Items x))"

definition hibernationStatusOk where
  "hibernationStatusOk lok h x = sliceOk lok conditionsOf h (chs_Conditions x)"

definition hibernationOk where
  "hibernationOk lok h x = (lok h (chn_ObjectMeta x) \<and> hibernationStatusOk lok h (chn_Status x))"

definition hibernationListOk where
  "hibernationListOk lok h x = (lok h (chl_ListMeta x) \<and> sliceOk (hibernationOk lok) cocoonHibernationsOf h (chl_Items x))"

section \<open>Every copy is deep\<close>

text \<open>What is relied on of the other packages: their copies are deep copies.\<close>

locale k8s_copies =
  fixes lib :: "('l, 'tm) k8s_lib" and lval :: "('l, 'tm) cell heap \<Rightarrow> 'l \<Rightarrow> 'v"
    and lfoot :: "('l, 'tm) cell heap \<Rightarrow> 'l \<Rightarrow> nat set" and lok :: "('l, 'tm) cell heap \<Rightarrow> 'l \<Rightarrow> bool"
  assumes quantity: "copier (Quantity_DeepCopy lib) lval lfoot lok"
    and resources: "copier (ResourceRequirements_DeepCopyInto lib) lval lfoot lok"
    and envFrom: "copier (EnvFromSource_DeepCopyInto lib) lval lfoot lok"
    and condition: "copier (Condition_DeepCopyInto lib) lval lfoot lok"
    and objectMeta: "copier (ObjectMeta_DeepCopyInto lib) lval lfoot lok"
    and listMeta: "copier (ListMeta_DeepCopyInto lib) lval lfoot lok"

text \<open>A struct whose copy is that of its parts is copied deeply when they are.\<close>

lemma copier_by:
  assumes "copier cp val foot ok" and "\<And>m p. get (put p m) = p" and "\<And>m p v. mk (put p m) v = mk m v"
    and "\<And>x h. c x h = (case cp (get x) h of (p, h') \<Rightarrow> (put p x, h'))"
    and "\<And>h x. w h x = mk x (val h (get x))" and "\<And>h x. f h x = foot h (get x)" and "\<And>h x. k h x = ok h (get x)"
  shows "copier c w f k"
proof -
  have "c = (\<lambda>m h. case cp (get m) h of (p, h') \<Rightarrow> (put p m, h'))" "w = (\<lambda>h m. mk m (val h (get m)))"
      "f = (\<lambda>h m. foot h (get m))" "k = (\<lambda>h m. ok h (get m))"
    using assms(4-7) by (simp_all add: fun_eq_iff)
  with copier_struct [of cp val foot ok get put mk, OF assms(1-3)] show ?thesis by simp
qed

lemma cell_inv [simp]:
  "quantityOf (QuantityCell x) = Some x" "envFromOf (EnvFromCell xs) = Some xs" "toolboxSpecsOf (ToolboxSpecCell ts) = Some ts"
  "agentStatusesOf (AgentStatusCell as) = Some as" "toolboxStatusesOf (ToolboxStatusCell us) = Some us"
  "conditionsOf (ConditionCell xs) = Some xs" "cocoonSetsOf (CocoonSetCell cs) = Some cs"
  "cocoonHibernationsOf (CocoonHibernationCell hs) = Some hs"
  by (simp_all add: cell_of_defs)

sublocale k8s_copies \<subseteq> vmOptions: copier "VMOptions_DeepCopyInto lib" "vmVal lval" "vmFoot lfoot" "vmOk lok"
  by (rule copier_by [OF copier_pair [OF copier_ptr [OF quantity cell_inv(1)] resources],
        where get = "\<lambda>x. (vo_Storage x, vo_Resources x)" and put = "\<lambda>p x. x\<lparr>vo_Storage := fst p, vo_Resources := snd p\<rparr>"
          and mk = vmWith])
    (simp_all add: VMOptions_DeepCopyInto_def vmVal_def vmFoot_def vmOk_def vmWith_def split: prod.split)

sublocale k8s_copies \<subseteq> agentSpec: copier "AgentSpec_DeepCopyInto lib" "agentVal lval" "agentFoot lfoot" "agentOk lok"
  by (rule copier_by [OF copier_pair [OF vmOptions.copier_axioms copier_slice [OF envFrom cell_inv(2)]],
        where get = "\<lambda>x. (as_VMOptions x, as_EnvFrom x)" and put = "\<lambda>p x. x\<lparr>as_VMOptions := fst p, as_EnvFrom := snd p\<rparr>"
          and mk = agentWith])
    (simp_all add: AgentSpec_DeepCopyInto_def agentVal_def agentFoot_def agentOk_def agentWith_def split: prod.split)

sublocale k8s_copies \<subseteq> toolboxSpec: copier "ToolboxSpec_DeepCopyInto lib" "toolboxVal lval" "toolboxFoot lfoot" "toolboxOk lok"
  by (rule copier_by [OF vmOptions.copier_axioms, where get = tb_VMOptions and put = "\<lambda>p x. x\<lparr>tb_VMOptions := p\<rparr>"
          and mk = toolboxWith])
    (simp_all add: ToolboxSpec_DeepCopyInto_def toolboxVal_def toolboxFoot_def toolboxOk_def toolboxWith_def split: prod.split)

sublocale k8s_copies \<subseteq> setSpec: copier "CocoonSetSpec_DeepCopyInto lib" "specVal lval" "specFoot lfoot" "specOk lok"
  by (rule copier_by [OF copier_pair [OF agentSpec.copier_axioms copier_slice [OF toolboxSpec.copier_axioms cell_inv(3)]],
        where get = "\<lambda>x. (cs_Agent x, cs_Toolboxes x)" and put = "\<lambda>p x. x\<lparr>cs_Agent := fst p, cs_Toolboxes := snd p\<rparr>"
          and mk = specWith])
    (simp_all add: CocoonSetSpec_DeepCopyInto_def specVal_def specFoot_def specOk_def specWith_def split: prod.split)

lemma plain_copies:
  "copier AgentStatus_DeepCopyInto (\<lambda>h x. x) (\<lambda>h x. {}) (\<lambda>h x. True)"
  "copier ToolboxStatus_DeepCopyInto (\<lambda>h x. x) (\<lambda>h x. {}) (\<lambda>h x. True)"
  using copier_plain by (simp_all add: AgentStatus_DeepCopyInto_def ToolboxStatus_DeepCopyInto_def copier_def)

lemma status_slices:
  "copier (copySlice AgentStatus_DeepCopyInto AgentStatusCell agentStatusesOf) (sliceVal (\<lambda>h x. x) agentStatusesOf)
     (sliceFoot (\<lambda>h x. {}) agentStatusesOf) (sliceOk (\<lambda>h x. True) agentStatusesOf)"
  "copier (copySlice ToolboxStatus_DeepCopyInto ToolboxStatusCell toolboxStatusesOf) (sliceVal (\<lambda>h x. x) toolboxStatusesOf)
     (sliceFoot (\<lambda>h x. {}) toolboxStatusesOf) (sliceOk (\<lambda>h x. True) toolboxStatusesOf)"
  by (rule copier_slice, rule plain_copies, simp)+

sublocale k8s_copies \<subseteq> setStatus: copier "CocoonSetStatus_DeepCopyInto lib" "statusVal lval" "statusFoot lfoot" "statusOk lok"
  by (rule copier_by [OF copier_pair [OF status_slices(1) copier_pair [OF status_slices(2)
          copier_slice [OF condition cell_inv(6)]]],
        where get = "\<lambda>x. (css_Agents x, css_Toolboxes x, css_Conditions x)"
          and put = "\<lambda>p x. x\<lparr>css_Agents := fst p, css_Toolboxes := fst (snd p), css_Conditions := snd (snd p)\<rparr>"
          and mk = statusWith])
    (simp_all add: CocoonSetStatus_DeepCopyInto_def statusVal_def statusFoot_def statusOk_def statusWith_def split: prod.split)

sublocale k8s_copies \<subseteq> cocoonSet: copier "CocoonSet_DeepCopyInto lib" "setVal lval" "setFoot lfoot" "setOk lok"
  by (rule copier_by [OF copier_pair [OF objectMeta copier_pair [OF setSpec.copier_axioms setStatus.copier_axioms]],
        where get = "\<lambda>x. (cst_ObjectMeta x, cst_Spec x, cst_Status x)"
          and put = "\<lambda>p x. x\<lparr>cst_ObjectMeta := fst p, cst_Spec := fst (snd p), cst_Status := snd (snd p)\<rparr>" and mk = setWith])
    (simp_all add: CocoonSet_DeepCopyInto_def setVal_def setFoot_def setOk_def setWith_def split: prod.split)

sublocale k8s_copies \<subseteq> cocoonSetList: copier "CocoonSetList_DeepCopyInto lib" "setListVal lval" "setListFoot lfoot" "setListOk lok"
  by (rule copier_by [OF copier_pair [OF listMeta copier_slice [OF cocoonSet.copier_axioms cell_inv(7)]],
        where get = "\<lambda>x. (csl_ListMeta x, csl_Items x)" and put = "\<lambda>p x. x\<lparr>csl_ListMeta := fst p, csl_Items := snd p\<rparr>"
          and mk = setListWith])
    (simp_all add: CocoonSetList_DeepCopyInto_def setListVal_def setListFoot_def setListOk_def setListWith_def split: prod.split)

sublocale k8s_copies \<subseteq> hibernationStatus: copier "CocoonHibernationStatus_DeepCopyInto lib" "hibernationStatusVal lval"
    "hibernationStatusFoot lfoot" "hibernationStatusOk lok"
  by (rule copier_by [OF copier_slice [OF condition cell_inv(6)], where get = chs_Conditions and put = "\<lambda>p x. x\<lparr>chs_Conditions := p\<rparr>"
          and mk = hibernationStatusWith])
    (simp_all add: CocoonHibernationStatus_DeepCopyInto_def hibernationStatusVal_def hibernationStatusFoot_def hibernationStatusOk_def
      hibernationStatusWith_def split: prod.split)

sublocale k8s_copies \<subseteq> hibernation: copier "CocoonHibernation_DeepCopyInto lib" "hibernationVal lval" "hibernationFoot lfoot" "hibernationOk lok"
  by (rule copier_by [OF copier_pair [OF objectMeta hibernationStatus.copier_axioms],
        where get = "\<lambda>x. (chn_ObjectMeta x, chn_Status x)" and put = "\<lambda>p x. x\<lparr>chn_ObjectMeta := fst p, chn_Status := snd p\<rparr>"
          and mk = hibernationWith])
    (simp_all add: CocoonHibernation_DeepCopyInto_def hibernationVal_def hibernationFoot_def hibernationOk_def hibernationWith_def split: prod.split)

sublocale k8s_copies \<subseteq> hibernationList: copier "CocoonHibernationList_DeepCopyInto lib" "hibernationListVal lval"
    "hibernationListFoot lfoot" "hibernationListOk lok"
  by (rule copier_by [OF copier_pair [OF listMeta copier_slice [OF hibernation.copier_axioms cell_inv(8)]],
        where get = "\<lambda>x. (chl_ListMeta x, chl_Items x)" and put = "\<lambda>p x. x\<lparr>chl_ListMeta := fst p, chl_Items := snd p\<rparr>"
          and mk = hibernationListWith])
    (simp_all add: CocoonHibernationList_DeepCopyInto_def hibernationListVal_def hibernationListFoot_def hibernationListOk_def
      hibernationListWith_def split: prod.split)

section \<open>Registered objects\<close>

type_synonym 'v vToolboxSpec = "('v option, 'v) ToolboxSpec"
type_synonym 'v vCocoonSetSpec = "('v option, 'v, 'v list option, 'v vToolboxSpec list option) CocoonSetSpec"
type_synonym 'v vCocoonSetStatus = "(AgentStatus list option, ToolboxStatus list option, 'v list option) CocoonSetStatus"
type_synonym ('v, 'tm) vCocoonSet = "('tm, 'v, 'v vCocoonSetSpec, 'v vCocoonSetStatus) CocoonSet"
type_synonym ('v, 'tm) vCocoonHibernation =
  "('tm, 'v, CocoonHibernationSpec, 'v list option CocoonHibernationStatus) CocoonHibernation"

datatype ('v, 'tm) ObjectValue =
    ValCocoonSet "('v, 'tm) vCocoonSet"
  | ValCocoonSetList "('tm, 'v, ('v, 'tm) vCocoonSet list option) CocoonSetList"
  | ValCocoonHibernation "('v, 'tm) vCocoonHibernation"
  | ValCocoonHibernationList "('tm, 'v, ('v, 'tm) vCocoonHibernation list option) CocoonHibernationList"

definition objectVal :: "(('l, 'tm) cell heap \<Rightarrow> 'l \<Rightarrow> 'v) \<Rightarrow> ('l, 'tm) cell heap \<Rightarrow> ('l, 'tm) Object \<Rightarrow> ('v, 'tm) ObjectValue" where
  "objectVal lval h x =
     (case x of
        ObjCocoonSet c \<Rightarrow> ValCocoonSet (setVal lval h c)
      | ObjCocoonSetList c \<Rightarrow> ValCocoonSetList (setListVal lval h c)
      | ObjCocoonHibernation c \<Rightarrow> ValCocoonHibernation (hibernationVal lval h c)
      | ObjCocoonHibernationList c \<Rightarrow> ValCocoonHibernationList (hibernationListVal lval h c))"

definition objectFoot :: "(('l, 'tm) cell heap \<Rightarrow> 'l \<Rightarrow> nat set) \<Rightarrow> ('l, 'tm) cell heap \<Rightarrow> ('l, 'tm) Object \<Rightarrow> nat set" where
  "objectFoot lfoot h x =
     (case x of
        ObjCocoonSet c \<Rightarrow> setFoot lfoot h c
      | ObjCocoonSetList c \<Rightarrow> setListFoot lfoot h c
      | ObjCocoonHibernation c \<Rightarrow> hibernationFoot lfoot h c
      | ObjCocoonHibernationList c \<Rightarrow> hibernationListFoot lfoot h c)"

definition objectOk :: "(('l, 'tm) cell heap \<Rightarrow> 'l \<Rightarrow> bool) \<Rightarrow> ('l, 'tm) cell heap \<Rightarrow> ('l, 'tm) Object \<Rightarrow> bool" where
  "objectOk lok h x =
     (case x of
        ObjCocoonSet c \<Rightarrow> setOk lok h c
      | ObjCocoonSetList c \<Rightarrow> setListOk lok h c
      | ObjCocoonHibernation c \<Rightarrow> hibernationOk lok h c
      | ObjCocoonHibernationList c \<Rightarrow> hibernationListOk lok h c)"

lemmas deep_copy_defs = DeepCopyObject_def CocoonSet_DeepCopyObject_def CocoonSetList_DeepCopyObject_def
  CocoonHibernation_DeepCopyObject_def CocoonHibernationList_DeepCopyObject_def CocoonSet_DeepCopy_def
  CocoonSetList_DeepCopy_def CocoonHibernation_DeepCopy_def CocoonHibernationList_DeepCopy_def copyNew_def

lemmas object_defs = objectVal_def objectFoot_def objectOk_def

sublocale k8s_copies \<subseteq> object: copier "\<lambda>x h. case DeepCopyObject lib x h of (y, h') \<Rightarrow> (the y, h')"
    "objectVal lval" "objectFoot lfoot" "objectOk lok"
proof unfold_locales
  fix h x
  assume o: "objectOk lok h x"
  show "objectFoot lfoot h x \<subseteq> {..<length h}"
    using o cocoonSet.bounded cocoonSetList.bounded hibernation.bounded hibernationList.bounded
    by (cases x) (simp_all add: object_defs)
  fix h'
  assume "same_on (objectFoot lfoot h x) h h'"
  with o cocoonSet.depends [of h _ h'] cocoonSetList.depends [of h _ h'] hibernation.depends [of h _ h']
    hibernationList.depends [of h _ h']
  show "objectOk lok h' x \<and> objectVal lval h' x = objectVal lval h x \<and> objectFoot lfoot h' x = objectFoot lfoot h x"
    by (cases x) (simp_all add: object_defs)
next
  fix h x y h'
  assume o: "objectOk lok h x" and e: "(case DeepCopyObject lib x h of (y, h') \<Rightarrow> (the y, h')) = (y, h')"
  show "(\<exists>m. h' = h @ m) \<and> objectOk lok h' y \<and> objectVal lval h' y = objectVal lval h x \<and> objectFoot lfoot h' y \<subseteq> {length h..<length h'}"
  proof (cases x)
    case (ObjCocoonSet c)
    obtain d g where "CocoonSet_DeepCopyInto lib c h = (d, g)" by fastforce
    with cocoonSet.copied [OF _ this] o e ObjCocoonSet show ?thesis by (auto simp: object_defs deep_copy_defs)
  next
    case (ObjCocoonSetList c)
    obtain d g where "CocoonSetList_DeepCopyInto lib c h = (d, g)" by fastforce
    with cocoonSetList.copied [OF _ this] o e ObjCocoonSetList show ?thesis by (auto simp: object_defs deep_copy_defs)
  next
    case (ObjCocoonHibernation c)
    obtain d g where "CocoonHibernation_DeepCopyInto lib c h = (d, g)" by fastforce
    with hibernation.copied [OF _ this] o e ObjCocoonHibernation show ?thesis by (auto simp: object_defs deep_copy_defs)
  next
    case (ObjCocoonHibernationList c)
    obtain d g where "CocoonHibernationList_DeepCopyInto lib c h = (d, g)" by fastforce
    with hibernationList.copied [OF _ this] o e ObjCocoonHibernationList show ?thesis by (auto simp: object_defs deep_copy_defs)
  qed
qed

lemma DeepCopyObject_some: "\<exists>y h'. DeepCopyObject lib x h = (Some y, h')"
  by (cases x) (simp_all add: deep_copy_defs split: prod.split)

context k8s_copies
begin

lemma set_copier: "copier (CocoonSet_DeepCopyInto lib) (setVal lval) (setFoot lfoot) (setOk lok)"
  by (rule cocoonSet.copier_axioms)

lemma hibernation_copier: "copier (CocoonHibernation_DeepCopyInto lib) (hibernationVal lval) (hibernationFoot lfoot) (hibernationOk lok)"
  by (rule hibernation.copier_axioms)

lemma object_separated:
  assumes "objectOk lok h x"
  shows "\<exists>y h'. DeepCopyObject lib x h = (Some y, h') \<and> objectVal lval h' y = objectVal lval h x \<and>
    objectVal lval h' x = objectVal lval h x \<and> objectFoot lfoot h' y \<inter> objectFoot lfoot h' x = {} \<and>
    (\<forall>h''. same_on ({..<length h'} - objectFoot lfoot h' x) h' h'' \<longrightarrow> objectVal lval h'' y = objectVal lval h x)"
proof -
  from DeepCopyObject_some [of lib x h] obtain y h' where c: "DeepCopyObject lib x h = (Some y, h')" by blast
  then have "(case DeepCopyObject lib x h of (y, h') \<Rightarrow> (the y, h')) = (y, h')" by simp
  from object.separated [OF assms this] c show ?thesis by blast
qed

end

section \<open>Registration\<close>

text \<open>
  \<^verbatim>\<open>runtime.Scheme\<close> is \<open>'s\<close>, and the calls on it are the record \<open>scheme_lib\<close>: \<^verbatim>\<open>Scheme.AddKnownTypes\<close>, where a kind is the name of the Go
  type, \<^verbatim>\<open>metav1.AddToGroupVersion\<close>, and \<^verbatim>\<open>SchemeBuilder.AddToScheme\<close> of a builder with the given functions.
\<close>

record GroupVersion' =
  gv_Group :: string
  gv_Version :: string

definition GroupVersion :: GroupVersion' where
  "GroupVersion = \<lparr>gv_Group = ''cocoonset.cocoonstack.io'', gv_Version = ''v1''\<rparr>"

record 's scheme_lib =
  sch_AddKnownTypes :: "GroupVersion' \<Rightarrow> string list \<Rightarrow> 's \<Rightarrow> 's"
  sch_AddToGroupVersion :: "GroupVersion' \<Rightarrow> 's \<Rightarrow> 's"
  sch_AddToScheme :: "('s \<Rightarrow> goerr option \<times> 's) list \<Rightarrow> 's \<Rightarrow> goerr option \<times> 's"

definition addKnownTypes :: "'s scheme_lib \<Rightarrow> 's \<Rightarrow> goerr option \<times> 's" where
  "addKnownTypes lib s =
     (let s1 = sch_AddKnownTypes lib GroupVersion
            [''CocoonSet'', ''CocoonSetList'', ''CocoonHibernation'', ''CocoonHibernationList''] s
      in (None, sch_AddToGroupVersion lib GroupVersion s1))"

definition SchemeBuilder :: "'s scheme_lib \<Rightarrow> ('s \<Rightarrow> goerr option \<times> 's) list" where
  "SchemeBuilder lib = [addKnownTypes lib]"

definition AddToScheme :: "'s scheme_lib \<Rightarrow> 's \<Rightarrow> goerr option \<times> 's" where
  "AddToScheme lib = sch_AddToScheme lib (SchemeBuilder lib)"

fun kindOf :: "('l, 'tm) Object \<Rightarrow> string" where
  "kindOf (ObjCocoonSet _) = ''CocoonSet''"
| "kindOf (ObjCocoonSetList _) = ''CocoonSetList''"
| "kindOf (ObjCocoonHibernation _) = ''CocoonHibernation''"
| "kindOf (ObjCocoonHibernationList _) = ''CocoonHibernationList''"

text \<open>What is relied on of a scheme: it knows what was added to it, and a builder runs its functions.\<close>

locale scheme_laws =
  fixes lib :: "'s scheme_lib" and known :: "'s \<Rightarrow> GroupVersion' \<Rightarrow> string \<Rightarrow> bool"
  assumes known_types: "known (sch_AddKnownTypes lib gv ks s) g k \<longleftrightarrow> known s g k \<or> g = gv \<and> k \<in> set ks"
    and known_meta: "known s g k \<Longrightarrow> known (sch_AddToGroupVersion lib gv s) g k"
    and built: "sch_AddToScheme lib [f] s = f s"
begin

text \<open>Every type with a \<^verbatim>\<open>DeepCopyObject\<close> is registered, and nothing that was registered is lost.\<close>

lemma registered:
  "\<exists>s'. AddToScheme lib s = (None, s') \<and> known s' GroupVersion (kindOf x) \<and> (\<forall>g k. known s g k \<longrightarrow> known s' g k)"
  by (cases x) (auto simp: AddToScheme_def SchemeBuilder_def addKnownTypes_def built known_types intro!: known_meta)

end

text \<open>A scheme that is the list of what it knows.\<close>

fun runAll :: "('s \<Rightarrow> goerr option \<times> 's) list \<Rightarrow> 's \<Rightarrow> goerr option \<times> 's" where
  "runAll [] s = (None, s)"
| "runAll (f # fs) s = (case f s of (Some e, s') \<Rightarrow> (Some e, s') | (None, s') \<Rightarrow> runAll fs s')"

definition exScheme :: "(GroupVersion' \<times> string) list scheme_lib" where
  "exScheme = \<lparr>sch_AddKnownTypes = \<lambda>gv ks s. s @ map (Pair gv) ks,
     sch_AddToGroupVersion = \<lambda>gv s. s @ [(gv, ''ListOptions'')], sch_AddToScheme = runAll\<rparr>"

interpretation exSchemes: scheme_laws exScheme "\<lambda>s g k. (g, k) \<in> set s"
  by unfold_locales (auto simp: exScheme_def split: prod.split option.split)

section \<open>A concrete library\<close>

text \<open>A value of the library that has a name and a list of names behind a reference.\<close>

definition libraryOf :: "('l, 'tm) cell \<Rightarrow> 'l list option" where
  "libraryOf c = (case c of LibraryCell x \<Rightarrow> Some x | _ \<Rightarrow> None)"

type_synonym exLibVal = "string \<times> nat option"

definition exCopy :: "(exLibVal, unit) copy" where
  "exCopy x h = (case copySlice (\<lambda>y h. (y, h)) LibraryCell libraryOf (snd x) h of (p, h') \<Rightarrow> ((fst x, p), h'))"

definition exVal :: "(exLibVal, unit) cell heap \<Rightarrow> exLibVal \<Rightarrow> string \<times> string list option" where
  "exVal h x = (fst x, sliceVal (\<lambda>h y. fst y) libraryOf h (snd x))"

definition exFoot :: "(exLibVal, unit) cell heap \<Rightarrow> exLibVal \<Rightarrow> nat set" where
  "exFoot h x = sliceFoot (\<lambda>h y. {}) libraryOf h (snd x)"

definition exOk :: "(exLibVal, unit) cell heap \<Rightarrow> exLibVal \<Rightarrow> bool" where
  "exOk h x = sliceOk (\<lambda>h y. True) libraryOf h (snd x)"

definition exLib :: "(exLibVal, unit) k8s_lib" where
  "exLib = \<lparr>Quantity_DeepCopy = exCopy, ResourceRequirements_DeepCopyInto = exCopy, EnvFromSource_DeepCopyInto = exCopy,
     Condition_DeepCopyInto = exCopy, ObjectMeta_DeepCopyInto = exCopy, ListMeta_DeepCopyInto = exCopy\<rparr>"

lemma exCopy_copier: "copier exCopy exVal exFoot exOk"
proof -
  have "copier (\<lambda>x h. (x, h)) (\<lambda>h x. fst x) (\<lambda>h x. {}) (\<lambda>h (x :: exLibVal). True)" by unfold_locales auto
  moreover have "\<And>xs. libraryOf (LibraryCell xs :: (exLibVal, unit) cell) = Some xs" by (simp add: libraryOf_def)
  ultimately have "copier (copySlice (\<lambda>y h. (y, h)) LibraryCell libraryOf) (sliceVal (\<lambda>h y. fst y) libraryOf)
      (sliceFoot (\<lambda>h y. {}) libraryOf) (sliceOk (\<lambda>h y. True) (libraryOf :: (exLibVal, unit) cell \<Rightarrow> exLibVal list option))"
    by (rule copier_slice)
  then show ?thesis
    by (rule copier_by [where get = snd and put = "\<lambda>p x. (fst x, p)" and mk = "\<lambda>x v. (fst x, v)"])
      (simp_all add: exCopy_def exVal_def exFoot_def exOk_def)
qed

interpretation exK8s: k8s_copies exLib exVal exFoot exOk
  by (rule k8s_copies.intro) (simp_all add: exLib_def exCopy_copier)

end
