(* ===== verification/K8s_Client_Patch.thy ===== *)
theory K8s_Client_Patch
  imports Deep_Copy
begin

text \<open>
  Merge patches of typed objects (\<^verbatim>\<open>k8s/clientpatch.go\<close>), in the memory of \<open>Go_Heap\<close>: the mutator writes through the
  object, so that the base of the patch is what the object was only because the copy shares nothing with it.
  \<open>dc\<close> is the typed \<^verbatim>\<open>DeepCopy\<close> of the object, on a pointer; the calls of the controller-runtime client are the record \<open>client\<close>.
\<close>

section \<open>The model\<close>

record 'm merge_from =
  mf_base :: "'m option"

record ('x, 'm, 'c, 'r) client =
  cl_Patch :: "'x \<Rightarrow> 'm \<Rightarrow> 'm merge_from \<Rightarrow> 'c heap \<Rightarrow> 'r \<times> 'c heap"
  cl_Status_Patch :: "'x \<Rightarrow> 'm \<Rightarrow> 'm merge_from \<Rightarrow> 'c heap \<Rightarrow> 'r \<times> 'c heap"

type_synonym ('m, 'c) mutator = "'m \<Rightarrow> 'c heap \<Rightarrow> 'm \<times> 'c heap"

text \<open>The patch, the object as the mutator left it, and the memory.\<close>

definition buildMergePatch ::
  "('m option \<Rightarrow> 'c heap \<Rightarrow> 'm option \<times> 'c heap) \<Rightarrow> 'm \<Rightarrow> ('m, 'c) mutator \<Rightarrow> 'c heap \<Rightarrow> 'm merge_from \<times> 'm \<times> 'c heap" where
  "buildMergePatch dc obj mutate h =
     (case dc (Some obj) h of (base, h1) \<Rightarrow>
      case mutate obj h1 of (obj', h2) \<Rightarrow> (\<lparr>mf_base = base\<rparr>, obj', h2))"

definition PatchStatus ::
  "('m option \<Rightarrow> 'c heap \<Rightarrow> 'm option \<times> 'c heap) \<Rightarrow> 'x \<Rightarrow> ('x, 'm, 'c, 'r) client \<Rightarrow> 'm \<Rightarrow> ('m, 'c) mutator \<Rightarrow>
   'c heap \<Rightarrow> 'r \<times> 'c heap" where
  "PatchStatus dc ctx cli obj mutate h =
     (case buildMergePatch dc obj mutate h of (patch, obj', h') \<Rightarrow> cl_Status_Patch cli ctx obj' patch h')"

definition Patch ::
  "('m option \<Rightarrow> 'c heap \<Rightarrow> 'm option \<times> 'c heap) \<Rightarrow> 'x \<Rightarrow> ('x, 'm, 'c, 'r) client \<Rightarrow> 'm \<Rightarrow> ('m, 'c) mutator \<Rightarrow>
   'c heap \<Rightarrow> 'r \<times> 'c heap" where
  "Patch dc ctx cli obj mutate h =
     (case buildMergePatch dc obj mutate h of (patch, obj', h') \<Rightarrow> cl_Patch cli ctx obj' patch h')"

section \<open>What the client is given\<close>

text \<open>A mutator that writes to nothing but the object: its fields, the cells it refers to, and memory it allocates.\<close>

definition in_place :: "('c heap \<Rightarrow> 'm \<Rightarrow> nat set) \<Rightarrow> ('m, 'c) mutator \<Rightarrow> bool" where
  "in_place foot mutate = (\<forall>x h. same_on ({..<length h} - foot h x) h (snd (mutate x h)))"

context copier
begin

text \<open>The mutator sees the object as it was, and afterwards the base still has that value.\<close>

lemma base_kept:
  assumes "ok h obj" and "in_place foot mutate"
  shows "\<exists>b h1 obj' h2. buildMergePatch (copyNew cp) obj mutate h = (\<lparr>mf_base = Some b\<rparr>, obj', h2) \<and>
    mutate obj h1 = (obj', h2) \<and> val h1 obj = val h obj \<and> val h2 b = val h obj"
proof -
  obtain b h1 where b: "cp obj h = (b, h1)" by fastforce
  obtain obj' h2 where m: "mutate obj h1 = (obj', h2)" by fastforce
  have "same_on ({..<length h1} - foot h1 obj) h1 h2" using assms(2) m unfolding in_place_def by (metis snd_conv)
  with separated [OF assms(1) b] b m show ?thesis
    by (intro exI [of _ b] exI [of _ h1] exI [of _ obj'] exI [of _ h2]) (simp add: buildMergePatch_def copyNew_def)
qed

lemma patched:
  assumes "ok h obj" and "in_place foot mutate"
  shows "\<exists>b h1 obj' h2. mutate obj h1 = (obj', h2) \<and> val h1 obj = val h obj \<and> val h2 b = val h obj \<and>
    Patch (copyNew cp) ctx cli obj mutate h = cl_Patch cli ctx obj' \<lparr>mf_base = Some b\<rparr> h2 \<and>
    PatchStatus (copyNew cp) ctx cli obj mutate h = cl_Status_Patch cli ctx obj' \<lparr>mf_base = Some b\<rparr> h2"
proof -
  from base_kept [OF assms] obtain b h1 obj' h2 where
    "buildMergePatch (copyNew cp) obj mutate h = (\<lparr>mf_base = Some b\<rparr>, obj', h2)" "mutate obj h1 = (obj', h2)"
    "val h1 obj = val h obj" "val h2 b = val h obj" by blast
  then show ?thesis by (intro exI [of _ b] exI [of _ h1] exI [of _ obj'] exI [of _ h2]) (simp add: Patch_def PatchStatus_def)
qed

end

lemma set_patched:
  assumes "k8s_copies lib lval lfoot lok" and "setOk lok h obj" and "in_place (setFoot lfoot) mutate"
  shows "\<exists>b h1 obj' h2. mutate obj h1 = (obj', h2) \<and> setVal lval h1 obj = setVal lval h obj \<and> setVal lval h2 b = setVal lval h obj \<and>
    Patch (CocoonSet_DeepCopy lib) ctx cli obj mutate h = cl_Patch cli ctx obj' \<lparr>mf_base = Some b\<rparr> h2 \<and>
    PatchStatus (CocoonSet_DeepCopy lib) ctx cli obj mutate h = cl_Status_Patch cli ctx obj' \<lparr>mf_base = Some b\<rparr> h2"
  unfolding CocoonSet_DeepCopy_def by (rule copier.patched [OF k8s_copies.set_copier [OF assms(1)] assms(2,3)])

lemma hibernation_patched:
  assumes "k8s_copies lib lval lfoot lok" and "hibernationOk lok h obj" and "in_place (hibernationFoot lfoot) mutate"
  shows "\<exists>b h1 obj' h2. mutate obj h1 = (obj', h2) \<and> hibernationVal lval h1 obj = hibernationVal lval h obj \<and>
    hibernationVal lval h2 b = hibernationVal lval h obj \<and>
    Patch (CocoonHibernation_DeepCopy lib) ctx cli obj mutate h = cl_Patch cli ctx obj' \<lparr>mf_base = Some b\<rparr> h2 \<and>
    PatchStatus (CocoonHibernation_DeepCopy lib) ctx cli obj mutate h = cl_Status_Patch cli ctx obj' \<lparr>mf_base = Some b\<rparr> h2"
  unfolding CocoonHibernation_DeepCopy_def by (rule copier.patched [OF k8s_copies.hibernation_copier [OF assms(1)] assms(2,3)])

section \<open>A concrete object\<close>

text \<open>A set with a storage size and one condition; the mutator overwrites the array of conditions and the phase.\<close>

definition exSet :: "(exLibVal, unit) mCocoonSet" where
  "exSet = \<lparr>cst_TypeMeta = (), cst_ObjectMeta = (''demo'', None),
     cst_Spec = \<lparr>cs_Suspend = False, cs_SnapshotPolicy = [], cs_HibernatePolicy = [], cs_NodePool = [],
       cs_SnapshotCompatibilityClass = [], cs_NodeName = [],
       cs_Agent = \<lparr>as_Replicas = 1, as_Image = ''img'', as_Mode = [],
         as_VMOptions = \<lparr>vo_OS = [], vo_Backend = [], vo_ConnType = [], vo_Network = [], vo_ForcePull = False,
           vo_NoDirectIO = False, vo_ProbePort = 0, vo_Storage = Some 0, vo_Resources = ([], None)\<rparr>,
         as_EnvFrom = None, as_ServiceAccountName = []\<rparr>,
       cs_Toolboxes = None\<rparr>,
     cst_Status = \<lparr>css_ObservedGeneration = 1, css_Phase = ''Pending'', css_ReadyAgents = 0, css_DesiredAgents = 1,
       css_ReadyToolboxes = 0, css_DesiredToolboxes = 0, css_Agents = None, css_Toolboxes = None, css_Conditions = Some 1\<rparr>\<rparr>"

definition exHeap :: "(exLibVal, unit) cell heap" where
  "exHeap = [QuantityCell (''10Gi'', None), ConditionCell [(''Ready=False'', Some 2)], LibraryCell [(''reason'', None)]]"

definition exMutate :: "((exLibVal, unit) mCocoonSet, (exLibVal, unit) cell) mutator" where
  "exMutate x h =
     (x\<lparr>cst_Status := (cst_Status x)\<lparr>css_Phase := ''Running''\<rparr>\<rparr>,
      case css_Conditions (cst_Status x) of None \<Rightarrow> h | Some a \<Rightarrow> h[a := ConditionCell [(''Ready=True'', None)]])"

lemma exSet_ok: "setOk exOk exHeap exSet"
  by (simp add: exSet_def exHeap_def setOk_def specOk_def statusOk_def agentOk_def vmOk_def exOk_def sliceOk_def ptrOk_def deref_def
      cell_of_defs libraryOf_def)

lemma exMutate_in_place: "in_place (setFoot exFoot) exMutate"
  by (auto simp: in_place_def same_on_def exMutate_def setFoot_def statusFoot_def sliceFoot_def nth_list_update split: option.splits)

lemma exMutate_changes: "setVal exVal (snd (exMutate exSet exHeap)) exSet \<noteq> setVal exVal exHeap exSet"
  by (simp add: exMutate_def exSet_def exHeap_def setVal_def setWith_def statusVal_def statusWith_def specVal_def specWith_def
      agentVal_def agentWith_def vmVal_def vmWith_def exVal_def sliceVal_def ptrVal_def deref_def cell_of_defs libraryOf_def)

end
