(* ===== verification/Httpx.thy ===== *)
theory Httpx
  imports Go_Prelude
begin

text \<open>
  The server lifecycle, \<^verbatim>\<open>httpx/httpx.go\<close>. \<^verbatim>\<open>Run\<close> is a step relation over the goroutines it starts: one per
  server that runs \<^verbatim>\<open>Start\<close>, one per server that runs \<^verbatim>\<open>Shutdown\<close>, and the caller, which waits for the
  cancellation, then for the shutdowns, then for the servers. The \<^verbatim>\<open>http.Server\<close> behind a spec is a parameter:
  what \<^verbatim>\<open>Start\<close> may return, before and after \<^verbatim>\<open>Shutdown\<close> was called, and what \<^verbatim>\<open>Shutdown\<close> may return.

  The lemmas: when \<^verbatim>\<open>Run\<close> returns, every goroutine is done and the result joins exactly the errors
  they left; a failing \<^verbatim>\<open>Start\<close> alone brings every server down; and once the context is canceled or a
  \<^verbatim>\<open>Start\<close> has failed, \<^verbatim>\<open>Run\<close> is never stuck and returns after finitely many steps.
\<close>

section \<open>Servers\<close>

definition DefaultReadHeaderTimeout :: int where
  "DefaultReadHeaderTimeout = 10 * 1000000000"

record 'h http_server =
  srv_Addr :: string
  srv_Handler :: 'h
  srv_ReadHeaderTimeout :: int

definition NewServer :: "string \<Rightarrow> 'h \<Rightarrow> 'h http_server" where
  "NewServer addr handler = \<lparr>srv_Addr = addr, srv_Handler = handler, srv_ReadHeaderTimeout = DefaultReadHeaderTimeout\<rparr>"

text \<open>A spec: the server, and how it starts (plain, or with TLS and empty file names).\<close>

datatype start_call = ListenAndServe | ListenAndServeTLS string string

record 'h ServerSpec =
  sp_Server :: "'h http_server"
  sp_Start :: start_call

definition HTTPServerSpec :: "'h http_server \<Rightarrow> 'h ServerSpec" where
  "HTTPServerSpec srv = \<lparr>sp_Server = srv, sp_Start = ListenAndServe\<rparr>"

definition HTTPSServerSpec :: "'h http_server \<Rightarrow> 'h ServerSpec" where
  "HTTPSServerSpec srv = \<lparr>sp_Server = srv, sp_Start = ListenAndServeTLS [] []\<rparr>"

definition ErrServerClosed :: goerr where
  "ErrServerClosed = Msg ''http: Server closed''"

section \<open>Run\<close>

text \<open>
  The goroutine of a server: \<open>Failing\<close> has stored its error and not yet called \<^verbatim>\<open>cancelRun\<close>. The
  goroutine of a shutdown holds what \<^verbatim>\<open>Shutdown\<close> returned.
\<close>

datatype serve_state = Serving | Failing | Served
datatype shut_state = ShutIdle | ShutClosing | ShutClosed "goerr option"

record goroutines =
  g_serve :: serve_state
  g_serveErr :: "goerr option"
  g_shut :: shut_state

datatype run_phase = RunWaiting | RunShutting | RunDraining | RunReturned "goerr list"

record run =
  ru_ctx :: bool
  ru_cancel :: bool
  ru_servers :: "goroutines list"
  ru_phase :: run_phase

text \<open>\<^verbatim>\<open>errors.Join\<close>: the errors that are not nil, in order; none of them is the nil error.\<close>

definition errors_Join :: "goerr option list \<Rightarrow> goerr list" where
  "errors_Join es = List.map_filter id es"

definition shutErr :: "goroutines \<Rightarrow> goerr option" where
  "shutErr g = (case g_shut g of ShutClosed e \<Rightarrow> e | _ \<Rightarrow> None)"

definition joined :: "goroutines list \<Rightarrow> goerr list" where
  "joined gs = errors_Join (map g_serveErr gs @ map shutErr gs)"

definition Run_init :: "bool \<Rightarrow> nat \<Rightarrow> run" where
  "Run_init canceled n =
     \<lparr>ru_ctx = canceled, ru_cancel = False,
      ru_servers = replicate n \<lparr>g_serve = Serving, g_serveErr = None, g_shut = ShutIdle\<rparr>,
      ru_phase = (if n = 0 then RunReturned [] else RunWaiting)\<rparr>"

text \<open>A \<^verbatim>\<open>Start\<close> error that counts.\<close>

definition serveFailure :: "goerr option \<Rightarrow> bool" where
  "serveFailure r = (case r of None \<Rightarrow> False | Some e \<Rightarrow> \<not> errors_is e ErrServerClosed)"

text \<open>
  \<open>starts i c r\<close>: \<^verbatim>\<open>Start\<close> of server \<open>i\<close> may return \<open>r\<close>, with \<open>c\<close> whether \<^verbatim>\<open>Shutdown\<close> was called on it;
  \<open>shuts i r\<close>: \<^verbatim>\<open>Shutdown\<close> may return \<open>r\<close>.
\<close>

inductive Run_step ::
    "(nat \<Rightarrow> bool \<Rightarrow> goerr option \<Rightarrow> bool) \<Rightarrow> (nat \<Rightarrow> goerr option \<Rightarrow> bool) \<Rightarrow> run \<Rightarrow> run \<Rightarrow> bool"
  for starts shuts where
  ctx_canceled: "\<not> ru_ctx s \<Longrightarrow> Run_step starts shuts s (s\<lparr>ru_ctx := True\<rparr>)"
| start_closed:
    "i < length (ru_servers s) \<Longrightarrow> g = ru_servers s ! i \<Longrightarrow> g_serve g = Serving \<Longrightarrow>
     starts i (g_shut g \<noteq> ShutIdle) r \<Longrightarrow> \<not> serveFailure r \<Longrightarrow>
     Run_step starts shuts s (s\<lparr>ru_servers := (ru_servers s)[i := g\<lparr>g_serve := Served\<rparr>]\<rparr>)"
| start_failed:
    "i < length (ru_servers s) \<Longrightarrow> g = ru_servers s ! i \<Longrightarrow> g_serve g = Serving \<Longrightarrow>
     starts i (g_shut g \<noteq> ShutIdle) (Some e) \<Longrightarrow> serveFailure (Some e) \<Longrightarrow>
     Run_step starts shuts s (s\<lparr>ru_servers := (ru_servers s)[i := g\<lparr>g_serve := Failing, g_serveErr := Some e\<rparr>]\<rparr>)"
| cancel_run:
    "i < length (ru_servers s) \<Longrightarrow> g = ru_servers s ! i \<Longrightarrow> g_serve g = Failing \<Longrightarrow>
     Run_step starts shuts s (s\<lparr>ru_cancel := True, ru_servers := (ru_servers s)[i := g\<lparr>g_serve := Served\<rparr>]\<rparr>)"
| run_done:
    "ru_phase s = RunWaiting \<Longrightarrow> ru_ctx s \<or> ru_cancel s \<Longrightarrow> Run_step starts shuts s (s\<lparr>ru_phase := RunShutting\<rparr>)"
| shutdown_call:
    "ru_phase s = RunShutting \<Longrightarrow> i < length (ru_servers s) \<Longrightarrow> g = ru_servers s ! i \<Longrightarrow> g_shut g = ShutIdle \<Longrightarrow>
     Run_step starts shuts s (s\<lparr>ru_servers := (ru_servers s)[i := g\<lparr>g_shut := ShutClosing\<rparr>]\<rparr>)"
| shutdown_return:
    "ru_phase s = RunShutting \<Longrightarrow> i < length (ru_servers s) \<Longrightarrow> g = ru_servers s ! i \<Longrightarrow> g_shut g = ShutClosing \<Longrightarrow> shuts i r \<Longrightarrow>
     Run_step starts shuts s (s\<lparr>ru_servers := (ru_servers s)[i := g\<lparr>g_shut := ShutClosed r\<rparr>]\<rparr>)"
| shutdown_wait:
    "ru_phase s = RunShutting \<Longrightarrow> \<forall>g \<in> set (ru_servers s). \<exists>r. g_shut g = ShutClosed r \<Longrightarrow>
     Run_step starts shuts s (s\<lparr>ru_phase := RunDraining\<rparr>)"
| serve_wait:
    "ru_phase s = RunDraining \<Longrightarrow> \<forall>g \<in> set (ru_servers s). g_serve g = Served \<Longrightarrow>
     Run_step starts shuts s (s\<lparr>ru_phase := RunReturned (joined (ru_servers s))\<rparr>)"


section \<open>Invariant\<close>

definition goroutine_ok :: "bool \<Rightarrow> goroutines \<Rightarrow> bool" where
  "goroutine_ok canceled g =
     ((g_serve g = Serving \<longrightarrow> g_serveErr g = None) \<and> (g_serve g = Failing \<longrightarrow> g_serveErr g \<noteq> None) \<and>
      (g_serve g = Served \<and> g_serveErr g \<noteq> None \<longrightarrow> canceled) \<and>
      (\<forall>e. g_serveErr g = Some e \<longrightarrow> serveFailure (Some e)))"

definition all_closed :: "goroutines list \<Rightarrow> bool" where
  "all_closed gs = (\<forall>g \<in> set gs. \<exists>r. g_shut g = ShutClosed r)"

definition all_served :: "goroutines list \<Rightarrow> bool" where
  "all_served gs = (\<forall>g \<in> set gs. g_serve g = Served)"

definition Run_inv :: "run \<Rightarrow> bool" where
  "Run_inv s =
     ((\<forall>g \<in> set (ru_servers s). goroutine_ok (ru_cancel s) g) \<and>
      (case ru_phase s of
         RunWaiting \<Rightarrow> \<forall>g \<in> set (ru_servers s). g_shut g = ShutIdle
       | RunShutting \<Rightarrow> ru_ctx s \<or> ru_cancel s
       | RunDraining \<Rightarrow> all_closed (ru_servers s)
       | RunReturned es \<Rightarrow> all_closed (ru_servers s) \<and> all_served (ru_servers s) \<and> es = joined (ru_servers s)))"

lemma set_updateD: "x \<in> set (xs[i := y]) \<Longrightarrow> x = y \<or> x \<in> set xs"
  using set_update_subset_insert [of xs i y] by blast

lemma goroutine_ok_mono: "goroutine_ok c g \<Longrightarrow> (c \<Longrightarrow> c') \<Longrightarrow> goroutine_ok c' g"
  by (auto simp: goroutine_ok_def)

lemma Run_inv_init: "Run_inv (Run_init canceled n)"
  by (simp add: Run_inv_def Run_init_def goroutine_ok_def all_closed_def all_served_def joined_def errors_Join_def
      map_filter_def)

text \<open>One goroutine moves: it is not done yet, and its shutdown moves only while the caller waits for it.\<close>

lemma Run_inv_move:
  assumes "Run_inv s" and "i < length (ru_servers s)" and "g = ru_servers s ! i" and "goroutine_ok (ru_cancel s) g'"
    and "g_serve g \<noteq> Served \<or> ru_phase s = RunShutting" and "g_shut g' = g_shut g \<or> ru_phase s = RunShutting"
  shows "Run_inv (s\<lparr>ru_servers := (ru_servers s)[i := g']\<rparr>)"
proof -
  have g: "g \<in> set (ru_servers s)" using assms(2,3) by simp
  have ok: "\<forall>x \<in> set ((ru_servers s)[i := g']). goroutine_ok (ru_cancel s) x"
    using assms(1,4) by (auto simp: Run_inv_def dest!: set_updateD)
  show ?thesis
  proof (cases "ru_phase s")
    case RunWaiting
    with assms(1,6) g ok show ?thesis by (auto simp: Run_inv_def dest!: set_updateD)
  next
    case RunShutting
    with assms(1) ok show ?thesis by (auto simp: Run_inv_def)
  next
    case RunDraining
    with assms(1,6) g ok show ?thesis by (fastforce simp: Run_inv_def all_closed_def dest!: set_updateD)
  next
    case (RunReturned es)
    with assms(1,5) g show ?thesis by (auto simp: Run_inv_def all_served_def)
  qed
qed

lemma Run_inv_serverD: "Run_inv s \<Longrightarrow> i < length (ru_servers s) \<Longrightarrow> goroutine_ok (ru_cancel s) (ru_servers s ! i)"
  by (simp add: Run_inv_def)

lemma Run_step_inv: "Run_step starts shuts s s' \<Longrightarrow> Run_inv s \<Longrightarrow> Run_inv s'"
proof (induction rule: Run_step.induct)
  case (ctx_canceled s)
  then show ?case by (auto simp: Run_inv_def split: run_phase.splits)
next
  case (start_closed i s g r)
  with Run_inv_serverD [of s i] show ?case by (intro Run_inv_move) (auto simp: goroutine_ok_def)
next
  case (start_failed i s g e)
  with Run_inv_serverD [of s i] show ?case by (intro Run_inv_move) (auto simp: goroutine_ok_def)
next
  case (cancel_run i s g)
  then have "Run_inv (s\<lparr>ru_cancel := True\<rparr>)"
    by (auto simp: Run_inv_def split: run_phase.splits intro: goroutine_ok_mono)
  from Run_inv_move [OF this, of i g "g\<lparr>g_serve := Served\<rparr>"] cancel_run Run_inv_serverD [of s i] show ?case
    by (simp add: goroutine_ok_def)
next
  case (run_done s)
  then show ?case by (auto simp: Run_inv_def)
next
  case (shutdown_call s i g)
  with Run_inv_serverD [of s i] show ?case by (intro Run_inv_move) (auto simp: goroutine_ok_def)
next
  case (shutdown_return s i g r)
  with Run_inv_serverD [of s i] show ?case by (intro Run_inv_move) (auto simp: goroutine_ok_def)
next
  case (shutdown_wait s)
  then show ?case by (auto simp: Run_inv_def all_closed_def)
next
  case (serve_wait s)
  then show ?case by (auto simp: Run_inv_def all_served_def)
qed

definition Run_reach ::
    "(nat \<Rightarrow> bool \<Rightarrow> goerr option \<Rightarrow> bool) \<Rightarrow> (nat \<Rightarrow> goerr option \<Rightarrow> bool) \<Rightarrow> bool \<Rightarrow> nat \<Rightarrow> run \<Rightarrow> bool" where
  "Run_reach starts shuts canceled n s = (Run_step starts shuts)\<^sup>*\<^sup>* (Run_init canceled n) s"

lemma Run_steps_inv: "(Run_step starts shuts)\<^sup>*\<^sup>* s s' \<Longrightarrow> Run_inv s \<Longrightarrow> Run_inv s'"
  by (induction rule: rtranclp_induct) (auto dest: Run_step_inv)

lemma Run_reach_inv: "Run_reach starts shuts canceled n s \<Longrightarrow> Run_inv s"
  unfolding Run_reach_def by (rule Run_steps_inv [OF _ Run_inv_init])

section \<open>Termination and progress\<close>

definition goroutine_rank :: "goroutines \<Rightarrow> nat" where
  "goroutine_rank g =
     (case g_serve g of Serving \<Rightarrow> 2 | Failing \<Rightarrow> 1 | Served \<Rightarrow> 0) + (case g_shut g of ShutIdle \<Rightarrow> 2 | ShutClosing \<Rightarrow> 1 | ShutClosed _ \<Rightarrow> 0)"

definition Run_rank :: "run \<Rightarrow> nat" where
  "Run_rank s =
     (if ru_ctx s then 0 else 1) + sum_list (map goroutine_rank (ru_servers s)) +
     (case ru_phase s of RunWaiting \<Rightarrow> 3 | RunShutting \<Rightarrow> 2 | RunDraining \<Rightarrow> 1 | RunReturned _ \<Rightarrow> 0)"

lemma sum_list_update_less:
  fixes f :: "'a \<Rightarrow> nat"
  assumes "i < length xs" and "f y < f (xs ! i)"
  shows "sum_list (map f (xs[i := y])) < sum_list (map f xs)"
proof -
  have "sum_list (map f xs) = sum_list (map f (take i xs)) + f (xs ! i) + sum_list (map f (drop (Suc i) xs))"
    by (subst id_take_nth_drop [OF assms(1)]) simp
  with assms show ?thesis by (simp add: upd_conv_take_nth_drop)
qed

lemma Run_step_rank: "Run_step starts shuts s s' \<Longrightarrow> Run_rank s' < Run_rank s"
  by (induction rule: Run_step.induct)
    (auto simp: Run_rank_def goroutine_rank_def intro!: sum_list_update_less)

lemma Run_no_infinite_run: "\<nexists>f. \<forall>i :: nat. Run_step starts shuts (f i) (f (Suc i))"
proof
  assume "\<exists>f. \<forall>i :: nat. Run_step starts shuts (f i) (f (Suc i))"
  then obtain f where "\<forall>i :: nat. Run_step starts shuts (f i) (f (Suc i))" ..
  then have "\<forall>i. (f (Suc i), f i) \<in> measure Run_rank" by (auto dest: Run_step_rank)
  then show False using wf_measure wf_iff_no_infinite_down_chain by blast
qed

text \<open>Canceled: by the caller, or because a \<^verbatim>\<open>Start\<close> has failed.\<close>

definition canceled :: "run \<Rightarrow> bool" where
  "canceled s = (ru_ctx s \<or> (\<exists>g \<in> set (ru_servers s). g_serveErr g \<noteq> None))"

lemma Run_progress:
  assumes inv: "Run_inv s" and c: "canceled s" and run: "\<forall>es. ru_phase s \<noteq> RunReturned es"
    and closed: "\<And>i. \<exists>r. starts i True r" and returns: "\<And>i. \<exists>r. shuts i r"
  shows "\<exists>s'. Run_step starts shuts s s' \<and> ru_ctx s' = ru_ctx s"
proof (cases "\<exists>i < length (ru_servers s). g_serve (ru_servers s ! i) = Failing")
  case True
  then show ?thesis by (fastforce intro: Run_step.cancel_run)
next
  case quiet: False
  show ?thesis
  proof (cases "ru_phase s")
    case RunWaiting
    have "ru_ctx s \<or> ru_cancel s"
    proof (cases "ru_ctx s")
      case False
      with c obtain i where i: "i < length (ru_servers s)" "g_serveErr (ru_servers s ! i) \<noteq> None"
        by (auto simp: canceled_def in_set_conv_nth)
      with Run_inv_serverD [OF inv i(1)] quiet show ?thesis
        by (cases "g_serve (ru_servers s ! i)") (auto simp: goroutine_ok_def)
    qed simp
    with RunWaiting show ?thesis by (fastforce intro: Run_step.run_done)
  next
    case RunShutting
    show ?thesis
    proof (cases "all_closed (ru_servers s)")
      case True
      with RunShutting show ?thesis by (fastforce simp: all_closed_def intro: Run_step.shutdown_wait)
    next
      case False
      then obtain i where i: "i < length (ru_servers s)" "\<nexists>r. g_shut (ru_servers s ! i) = ShutClosed r"
        by (auto simp: all_closed_def in_set_conv_nth)
      from returns obtain r where "shuts i r" ..
      with i RunShutting show ?thesis
        by (cases "g_shut (ru_servers s ! i)") (fastforce intro: Run_step.shutdown_call Run_step.shutdown_return)+
    qed
  next
    case RunDraining
    show ?thesis
    proof (cases "all_served (ru_servers s)")
      case True
      with RunDraining show ?thesis by (fastforce simp: all_served_def intro: Run_step.serve_wait)
    next
      case False
      then obtain i where i: "i < length (ru_servers s)" "g_serve (ru_servers s ! i) = Serving"
        using quiet serve_state.exhaust by (metis all_served_def in_set_conv_nth)
      have "g_shut (ru_servers s ! i) \<noteq> ShutIdle"
        using inv RunDraining nth_mem [OF i(1)] by (fastforce simp: Run_inv_def all_closed_def)
      moreover from closed obtain r where "starts i True r" ..
      ultimately show ?thesis
        using i by (cases "serveFailure r"; cases r)
          (fastforce simp: serveFailure_def intro: Run_step.start_closed Run_step.start_failed)+
    qed
  qed (use run in simp)
qed


lemma failed_update:
  assumes "\<exists>x \<in> set xs. g_serveErr x \<noteq> None" and "i < length xs" and "g_serveErr (xs ! i) \<noteq> None \<Longrightarrow> g_serveErr g' \<noteq> None"
  shows "\<exists>x \<in> set (xs[i := g']). g_serveErr x \<noteq> None"
proof -
  from assms(1) obtain j where j: "j < length xs" "g_serveErr (xs ! j) \<noteq> None" by (auto simp: in_set_conv_nth)
  show ?thesis
  proof (cases "j = i")
    case True
    with assms(2,3) j show ?thesis by (intro bexI [of _ g'] set_update_memI) auto
  next
    case False
    with j have "xs[i := g'] ! j = xs ! j" by simp
    with j show ?thesis by (metis length_list_update nth_mem)
  qed
qed

lemma Run_step_canceled: "Run_step starts shuts s s' \<Longrightarrow> canceled s \<Longrightarrow> canceled s'"
  by (induction rule: Run_step.induct) (auto simp: canceled_def simp del: not_None_eq intro!: failed_update)

theorem Run_ends:
  assumes closed: "\<And>i. \<exists>r. starts i True r" and returns: "\<And>i. \<exists>r. shuts i r"
  shows "Run_inv s \<Longrightarrow> canceled s \<Longrightarrow> \<exists>s' es. (Run_step starts shuts)\<^sup>*\<^sup>* s s' \<and> ru_phase s' = RunReturned es"
proof (induction "Run_rank s" arbitrary: s rule: less_induct)
  case less
  show ?case
  proof (cases "\<exists>es. ru_phase s = RunReturned es")
    case False
    with Run_progress [of s starts shuts] less.prems closed returns obtain s1 where s1: "Run_step starts shuts s s1" by blast
    from less.hyps [OF Run_step_rank [OF s1] Run_step_inv [OF s1 less.prems(1)] Run_step_canceled [OF s1 less.prems(2)]] s1
    show ?thesis by (meson converse_rtranclp_into_rtranclp)
  qed blast
qed

text \<open>A failing \<^verbatim>\<open>Start\<close> stays recorded until the result.\<close>

lemma Run_returned:
  assumes "Run_reach starts shuts c n s" and "ru_phase s = RunReturned es"
  shows "all_served (ru_servers s) \<and> all_closed (ru_servers s) \<and> es = joined (ru_servers s)"
  using Run_reach_inv [OF assms(1)] assms(2) by (simp add: Run_inv_def)

lemma set_joined:
  "set (joined gs) = {e. \<exists>g \<in> set gs. g_serveErr g = Some e \<or> g_shut g = ShutClosed (Some e)}"
proof -
  have Join: "set (errors_Join es) = {e. Some e \<in> set es}" for es
    unfolding errors_Join_def by (induction es) (auto simp: map_filter_simps split: option.splits)
  have "shutErr g = Some e \<longleftrightarrow> g_shut g = ShutClosed (Some e)" for g e
    by (simp add: shutErr_def split: shut_state.split)
  then show ?thesis
    unfolding joined_def Join by (auto simp: image_iff) metis+
qed

end
