(* ===== verification/Admission.thy ===== *)
theory Admission
  imports Go_Json
begin

text \<open>
  The admission webhook helpers, \<^verbatim>\<open>k8s/admission/admission.go\<close>. The Kubernetes types appear with the
  fields the code touches and a type parameter for the rest; how they are read from JSON and
  written to it is the business of their package and a parameter of the model.

  The lemmas: what \<^verbatim>\<open>Serve\<close> answers in each case, that the answer carries the UID of the request and
  drops the request, and that a body is only read up to the limit.
\<close>

definition DefaultMaxBody :: int where
  "DefaultMaxBody = 10 * 2 ^ 20"

record meta_status =
  mst_Message :: string
  mst_Reason :: string

record 'x AdmissionResponse =
  ar_UID :: string
  ar_Allowed :: bool
  ar_Result :: "meta_status option"
  ar_rest :: 'x

record 'q AdmissionRequest =
  aq_UID :: string
  aq_rest :: 'q

record ('q, 'x) AdmissionReview =
  rv_TypeMeta :: "string \<times> string"
  rv_Request :: "'q AdmissionRequest option"
  rv_Response :: "'x AdmissionResponse option"

text \<open>\<open>zero\<close> is the value of the fields of a response that are not named here.\<close>

definition Allow :: "'x \<Rightarrow> 'x AdmissionResponse" where
  "Allow zero = \<lparr>ar_UID = [], ar_Allowed = True, ar_Result = None, ar_rest = zero\<rparr>"

definition Deny :: "'x \<Rightarrow> string \<Rightarrow> 'x AdmissionResponse" where
  "Deny zero msg =
     \<lparr>ar_UID = [], ar_Allowed = False, ar_Result = Some \<lparr>mst_Message = msg, mst_Reason = ''Forbidden''\<rparr>, ar_rest = zero\<rparr>"

definition Decode :: "(json \<Rightarrow> ('q, 'x) AdmissionReview option) \<Rightarrow> bytes \<Rightarrow> int \<Rightarrow> ('q, 'x) AdmissionReview res" where
  "Decode unjson body maxBytes =
     (let maxBytes = (if maxBytes \<le> 0 then DefaultMaxBody else maxBytes) in
      case Option.bind (json_decode (take (nat maxBytes) body)) unjson of
        None \<Rightarrow> Inl (Wrap ''decode admission review'' (Msg ''json''))
      | Some review \<Rightarrow> Inr review)"

record http_response =
  hr_Status :: int
  hr_ContentType :: string
  hr_Body :: bytes

definition http_Error :: "string \<Rightarrow> int \<Rightarrow> http_response" where
  "http_Error text code =
     \<lparr>hr_Status = code, hr_ContentType = ''text/plain; charset=utf-8'', hr_Body = text @ [CHR 0x0A]\<rparr>"

definition Serve ::
  "'x \<Rightarrow> (json \<Rightarrow> ('q, 'x) AdmissionReview option) \<Rightarrow> (('q, 'x) AdmissionReview \<Rightarrow> json option) \<Rightarrow>
   bytes \<Rightarrow> int \<Rightarrow> (('q, 'x) AdmissionReview \<Rightarrow> 'x AdmissionResponse option) \<Rightarrow> http_response" where
  "Serve zero unjson tojson body maxBytes handler =
     (case Decode unjson body maxBytes of
        Inl _ \<Rightarrow> http_Error ''decode admission review'' 400
      | Inr review \<Rightarrow>
          (case rv_Request review of
             None \<Rightarrow> http_Error ''admission review missing request'' 400
           | Some request \<Rightarrow>
               (let resp = (case handler review of None \<Rightarrow> Allow zero | Some r \<Rightarrow> r);
                    review = review\<lparr>rv_Response := Some (resp\<lparr>ar_UID := aq_UID request\<rparr>), rv_Request := None\<rparr> in
                case tojson review of
                  None \<Rightarrow> http_Error ''encode response'' 500
                | Some v \<Rightarrow> \<lparr>hr_Status = 200, hr_ContentType = ''application/json'', hr_Body = json_marshal v\<rparr>)))"

section \<open>Lemmas\<close>

lemma Serve_status: "hr_Status (Serve zero unjson tojson body maxBytes handler) \<in> {200, 400, 500}"
  by (auto simp: Serve_def http_Error_def Let_def split: sum.split option.split)

text \<open>
  A 200 answer: the request was read, and the text decodes to the review with the handler's response (or
  \<^verbatim>\<open>Allow\<close>), the UID of the request and no request.
\<close>

lemma Serve_answer:
  fixes review :: "('q, 'x) AdmissionReview"
  assumes "Decode unjson body maxBytes = Inr review" and "rv_Request review = Some request"
    and "answer = review\<lparr>rv_Response := Some ((case handler review of None \<Rightarrow> Allow zero | Some r \<Rightarrow> r)\<lparr>ar_UID := aq_UID request\<rparr>),
      rv_Request := None\<rparr>"
    and "tojson answer = Some v" and "wf_json v" and "unjson v = Some answer"
  shows "hr_Status (Serve zero unjson tojson body maxBytes handler) = 200 \<and>
    Option.bind (json_unmarshal (hr_Body (Serve zero unjson tojson body maxBytes handler))) unjson = Some answer"
  using assms by (simp add: Serve_def json_marshal_def unmarshal_print)

text \<open>The handler is asked only about a review that carries a request.\<close>

lemma Serve_rejected:
  assumes "case Decode unjson body maxBytes of Inl _ \<Rightarrow> True | Inr review \<Rightarrow> rv_Request review = None"
  shows "Serve zero unjson tojson body maxBytes handler = Serve zero unjson tojson body maxBytes handler'"
    and "hr_Status (Serve zero unjson tojson body maxBytes handler) = 400"
  using assms by (auto simp: Serve_def http_Error_def split: sum.splits)

text \<open>Nothing beyond the limit is read.\<close>

lemma Decode_limit: "0 < maxBytes \<Longrightarrow> Decode unjson (take (nat maxBytes) body) maxBytes = Decode unjson body maxBytes"
  by (simp add: Decode_def)

lemma Decode_default: "maxBytes \<le> 0 \<Longrightarrow> Decode unjson body maxBytes = Decode unjson body DefaultMaxBody"
  by (simp add: Decode_def DefaultMaxBody_def)

end
