(* ===== verification/K8s_Util.thy ===== *)
theory K8s_Util
  imports Go_Strconv
begin

text \<open>
  The helpers of \<^verbatim>\<open>k8s\<close>: environment variables, the client config, contexts and timers, the address of a node,
  conditions, events, certificates, clients, and \<^verbatim>\<open>log.Setup\<close>. The process environment,
  the clock, the network interfaces, the file system and the libraries of Kubernetes and of
  \<^verbatim>\<open>crypto\<close> are parameters.

  The lemmas: which variables are read and what an unset or malformed one gives, which address is chosen, when the
  certificate on disk is used, and what a timer returns.
\<close>

section \<open>Environment\<close>

definition EnvOrDefault :: "(string \<Rightarrow> string) \<Rightarrow> string \<Rightarrow> string \<Rightarrow> string" where
  "EnvOrDefault getenv key fallback = or_str (getenv key) fallback"

definition EnvBool :: "(string \<Rightarrow> string) \<Rightarrow> string \<Rightarrow> bool \<Rightarrow> bool" where
  "EnvBool getenv key fallback = (case ParseBool (getenv key) of None \<Rightarrow> fallback | Some b \<Rightarrow> b)"

definition EnvInt :: "(string \<Rightarrow> string) \<Rightarrow> string \<Rightarrow> int \<Rightarrow> int" where
  "EnvInt getenv key fallback = (case Atoi (getenv key) of None \<Rightarrow> fallback | Some n \<Rightarrow> n)"

section \<open>Client config\<close>

definition defaultClientQPS :: int where
  "defaultClientQPS = 50"

definition defaultClientBurst :: int where
  "defaultClientBurst = 100"

text \<open>\<^verbatim>\<open>float32(n)\<close> of an integer: 24 significant bits, to the nearest, ties to even. The value is an integer.\<close>

function f32_shift :: "int \<Rightarrow> nat" where
  "f32_shift a = (if a < 2 ^ 24 then 0 else Suc (f32_shift (a div 2)))"
  by pat_completeness auto
termination
  by (relation "measure nat") auto

declare f32_shift.simps [simp del]

definition float32_of_int :: "int \<Rightarrow> int" where
  "float32_of_int n =
     (let a = \<bar>n\<bar>; u = 2 ^ f32_shift a; q = a div u; r = a mod u;
          q' = (if u < 2 * r \<or> (2 * r = u \<and> odd q) then q + 1 else q)
      in sgn n * q' * u)"

record 'c rest_config =
  rc_QPS :: int
  rc_Burst :: int
  rc_rest :: 'c

definition LoadConfig :: "(string \<Rightarrow> string) \<Rightarrow> 'c rest_config res \<Rightarrow> 'c rest_config res" where
  "LoadConfig getenv ClientConfig =
     (case ClientConfig of
        Inl e \<Rightarrow> Inl e
      | Inr cfg \<Rightarrow>
          Inr (cfg\<lparr>rc_QPS := float32_of_int (EnvInt getenv ''COCOON_K8S_QPS'' defaultClientQPS),
                   rc_Burst := EnvInt getenv ''COCOON_K8S_BURST'' defaultClientBurst\<rparr>))"

definition buildClientset :: "('c rest_config \<Rightarrow> 'k res) \<Rightarrow> 'c rest_config \<Rightarrow> 'k res" where
  "buildClientset NewForConfig cfg = wrapR ''build clientset'' (NewForConfig cfg)"

definition NewClientset :: "(string \<Rightarrow> string) \<Rightarrow> 'c rest_config res \<Rightarrow> ('c rest_config \<Rightarrow> 'k res) \<Rightarrow> 'k res" where
  "NewClientset getenv ClientConfig NewForConfig =
     bindR (wrapR ''load kubeconfig'' (LoadConfig getenv ClientConfig)) (buildClientset NewForConfig)"

definition NewClientsetAndDynamic ::
  "(string \<Rightarrow> string) \<Rightarrow> 'c rest_config res \<Rightarrow> ('c rest_config \<Rightarrow> 'k res) \<Rightarrow> ('c rest_config \<Rightarrow> 'd res) \<Rightarrow> ('k \<times> 'd) res" where
  "NewClientsetAndDynamic getenv ClientConfig NewForConfig NewDynamic =
     bindR (wrapR ''load kubeconfig'' (LoadConfig getenv ClientConfig)) (\<lambda>cfg.
       bindR (buildClientset NewForConfig cfg) (\<lambda>cs.
         bindR (wrapR ''build dynamic client'' (NewDynamic cfg)) (\<lambda>dyn. Inr (cs, dyn))))"

section \<open>Log\<close>

text \<open>\<open>stderr_mode\<close>: the mode bits of standard error, or the error of \<^verbatim>\<open>Stat\<close>; only the device bit matters.\<close>

definition stderrIsTerminal :: "bool res \<Rightarrow> bool" where
  "stderrIsTerminal stderr_chardev = (case stderr_chardev of Inl _ \<Rightarrow> False | Inr b \<Rightarrow> b)"

record log_config =
  lc_Level :: string
  lc_UseJSON :: bool

definition Setup :: "(string \<Rightarrow> string) \<Rightarrow> bool res \<Rightarrow> (log_config \<Rightarrow> goerr option) \<Rightarrow> string \<Rightarrow> goerr option" where
  "Setup getenv stderr_chardev SetupLog envVar =
     (let level = or_str (getenv envVar) ''info'' in
      case SetupLog \<lparr>lc_Level = level, lc_UseJSON = (\<not> stderrIsTerminal stderr_chardev)\<rparr> of
        Some e \<Rightarrow> Some (Wrap ''setup log'' e)
      | None \<Rightarrow> None)"

section \<open>Contexts and timers\<close>

text \<open>
  What the select of the loop receives, in order. \<open>RunTicker\<close> gives how often \<^verbatim>\<open>fn\<close> was called and whether the
  function has returned; \<^verbatim>\<open>time.NewTicker\<close> panics on an interval that is not positive.
\<close>

datatype tick_event = Tick | Done

fun ticker_loop :: "tick_event list \<Rightarrow> nat \<times> bool" where
  "ticker_loop [] = (0, False)"
| "ticker_loop (Done # es) = (0, True)"
| "ticker_loop (Tick # es) = (case ticker_loop es of (n, r) \<Rightarrow> (Suc n, r))"

definition RunTicker :: "int \<Rightarrow> tick_event list \<Rightarrow> (nat \<times> bool) res" where
  "RunTicker interval es =
     (if interval \<le> 0 then Inl (GoPanic ''non-positive interval for NewTicker'') else Inr (ticker_loop es))"

text \<open>
  \<open>cancel\<close>: when the context is canceled, measured from the call (0 or less: it already is). When both
  are ready at the same moment, \<^verbatim>\<open>select\<close> may take either: the possible results.
\<close>

definition SleepCtx :: "int option \<Rightarrow> int \<Rightarrow> bool list" where
  "SleepCtx cancel d =
     (if d \<le> 0 then [case cancel of None \<Rightarrow> True | Some t \<Rightarrow> \<not> t \<le> 0]
      else case cancel of
        None \<Rightarrow> [True]
      | Some t \<Rightarrow> if t < d then [False] else if d < t then [True] else [False, True])"

section \<open>Node address\<close>

definition cocoonBridge :: string where
  "cocoonBridge = ''cni0''"

text \<open>An address of an interface: an \<^verbatim>\<open>*net.IPNet\<close> with its bytes (\<open>None\<close>: a nil IP), or another type.\<close>

datatype net_addr = IPNet "bytes option" | OtherAddr

record net_iface =
  if_Name :: string
  if_Loopback :: bool
  if_Addrs :: "net_addr list res"

definition To4 :: "bytes \<Rightarrow> bytes option" where
  "To4 ip =
     (if length ip = 4 then Some ip
      else if length ip = 16 \<and> take 10 ip = replicate 10 (CHR 0x00) \<and> ip ! 10 = CHR 0xFF \<and> ip ! 11 = CHR 0xFF
        then Some (drop 12 ip)
      else None)"

definition ip4_String :: "bytes \<Rightarrow> string" where
  "ip4_String ip =
     (case map (\<lambda>b. FormatInt (of_char b)) ip of
        [a, b, c, d] \<Rightarrow> a @ ''.'' @ b @ ''.'' @ c @ ''.'' @ d
      | _ \<Rightarrow> [])"

fun firstIPv4 :: "net_addr list \<Rightarrow> string option" where
  "firstIPv4 [] = None"
| "firstIPv4 (addr # addrs) =
     (case addr of
        IPNet (Some ip) \<Rightarrow> (case To4 ip of Some ip4 \<Rightarrow> Some (ip4_String ip4) | None \<Rightarrow> firstIPv4 addrs)
      | _ \<Rightarrow> firstIPv4 addrs)"

fun detect_loop :: "net_iface list \<Rightarrow> string res" where
  "detect_loop [] = Inl (Msg ''no non-loopback IPv4 address found'')"
| "detect_loop (iface # ifaces) =
     (if if_Loopback iface \<or> if_Name iface = cocoonBridge then detect_loop ifaces
      else
        (case if_Addrs iface of
           Inl e \<Rightarrow> Inl (Wrap (''list '' @ if_Name iface @ '' addresses'') e)
         | Inr addrs \<Rightarrow> (case firstIPv4 addrs of Some ip \<Rightarrow> Inr ip | None \<Rightarrow> detect_loop ifaces)))"

definition DetectNodeIP :: "net_iface list res \<Rightarrow> string res" where
  "DetectNodeIP Interfaces = bindR (wrapR ''list interfaces'' Interfaces) detect_loop"

section \<open>Conditions, events and patches\<close>

definition ConditionTypeReady :: string where
  "ConditionTypeReady = ''Ready''"

record meta_condition =
  mc_Type :: string
  mc_Status :: string
  mc_ObservedGeneration :: int
  mc_LastTransitionTime :: "int option"
  mc_Reason :: string
  mc_Message :: string

definition NewReadyCondition :: "int \<Rightarrow> string \<Rightarrow> string \<Rightarrow> string \<Rightarrow> meta_condition" where
  "NewReadyCondition generation status reason message =
     \<lparr>mc_Type = ConditionTypeReady, mc_Status = status, mc_ObservedGeneration = generation,
      mc_LastTransitionTime = None, mc_Reason = reason, mc_Message = message\<rparr>"

definition Eventf :: "('ev \<Rightarrow> 's \<Rightarrow> 's) option \<Rightarrow> 'ev \<Rightarrow> 's \<Rightarrow> 's" where
  "Eventf rec event s = (case rec of None \<Rightarrow> s | Some Eventf' \<Rightarrow> Eventf' event s)"

section \<open>Certificates\<close>

definition localhost :: string where
  "localhost = ''127.0.0.1''"

text \<open>
  The file system and the packages \<^verbatim>\<open>tls\<close> and \<^verbatim>\<open>x509\<close>: \<open>Stat\<close> tells a missing file from another error,
  \<open>ParseNotAfter\<close> is \<^verbatim>\<open>x509.ParseCertificate\<close> with the field that is used, times are in nanoseconds.
\<close>

record ('c, 'k) tls_env =
  te_Stat :: "string \<Rightarrow> goerr option"
  te_NotExist :: "goerr \<Rightarrow> bool"
  te_LoadX509KeyPair :: "string \<Rightarrow> string \<Rightarrow> 'c res"
  te_ParseNotAfter :: "'c \<Rightarrow> int res"
  te_Now :: int
  te_GenerateKey :: "'k res"
  te_ParseIP :: "string \<Rightarrow> bytes option"

record cert_template =
  ct_SerialNumber :: int
  ct_CommonName :: string
  ct_NotBefore :: int
  ct_NotAfter :: int
  ct_KeyUsage :: "string list"
  ct_ExtKeyUsage :: "string list"
  ct_DNSNames :: "string list"
  ct_IPAddresses :: "bytes option list"

definition selfSignedTemplate :: "('c, 'k) tls_env \<Rightarrow> string \<Rightarrow> string \<Rightarrow> cert_template" where
  "selfSignedTemplate te hostname ip =
     \<lparr>ct_SerialNumber = 1, ct_CommonName = hostname, ct_NotBefore = te_Now te,
      ct_NotAfter = te_Now te + 10 * 365 * 24 * 3600 * 1000000000,
      ct_KeyUsage = [''DigitalSignature'', ''KeyEncipherment''], ct_ExtKeyUsage = [''ServerAuth''],
      ct_DNSNames = [hostname, ''localhost''], ct_IPAddresses = [te_ParseIP te ip, te_ParseIP te localhost]\<rparr>"

text \<open>
  \<open>CreateCertificate\<close>, \<open>MarshalKey\<close>, \<open>pem\<close> and \<open>X509KeyPair\<close> are the calls of the same names; a PEM block is its
  type and its bytes.
\<close>

definition GenerateSelfSignedCert ::
  "('c, 'k) tls_env \<Rightarrow> (cert_template \<Rightarrow> cert_template \<Rightarrow> 'k \<Rightarrow> bytes res) \<Rightarrow> ('k \<Rightarrow> bytes res) \<Rightarrow>
   (string \<Rightarrow> bytes \<Rightarrow> bytes) \<Rightarrow> (bytes \<Rightarrow> bytes \<Rightarrow> 'c res) \<Rightarrow> string \<Rightarrow> string \<Rightarrow> 'c res" where
  "GenerateSelfSignedCert te CreateCertificate MarshalKey pem X509KeyPair hostname ip =
     bindR (wrapR ''generate ecdsa key'' (te_GenerateKey te)) (\<lambda>priv.
       (let template = selfSignedTemplate te hostname ip in
        bindR (wrapR ''create certificate'' (CreateCertificate template template priv)) (\<lambda>certDER.
          (let certPEM = pem ''CERTIFICATE'' certDER in
           bindR (wrapR ''marshal EC private key'' (MarshalKey priv)) (\<lambda>privDER.
             (let keyPEM = pem ''EC PRIVATE KEY'' privDER in X509KeyPair certPEM keyPEM))))))"

definition isCertExpired :: "('c, 'k) tls_env \<Rightarrow> 'c \<Rightarrow> bool" where
  "isCertExpired te cert = (case te_ParseNotAfter te cert of Inl _ \<Rightarrow> False | Inr notAfter \<Rightarrow> notAfter < te_Now te)"

text \<open>\<open>None\<close> is the empty source label: fall back to a self-signed certificate.\<close>

definition tryLoadDiskCert :: "('c, 'k) tls_env \<Rightarrow> string \<Rightarrow> string \<Rightarrow> ('c \<times> string) option res" where
  "tryLoadDiskCert te certPath keyPath =
     (if certPath = [] \<or> keyPath = [] then Inr None
      else
        (case te_Stat te certPath of
           Some err \<Rightarrow>
             if te_NotExist te err then Inr None else Inl (Wrap (''stat tls cert '' @ certPath) err)
         | None \<Rightarrow>
             bindR (wrapR (''load tls keypair '' @ certPath) (te_LoadX509KeyPair te certPath keyPath)) (\<lambda>cert.
               if isCertExpired te cert then Inr None else Inr (Some (cert, ''disk '' @ certPath)))))"

definition LoadOrGenerateCert ::
  "('c, 'k) tls_env \<Rightarrow> (string \<Rightarrow> string \<Rightarrow> 'c res) \<Rightarrow> string \<Rightarrow> string \<Rightarrow> string \<Rightarrow> string \<Rightarrow> ('c \<times> string) res" where
  "LoadOrGenerateCert te generate certPath keyPath hostname ip =
     bindR (tryLoadDiskCert te certPath keyPath) (\<lambda>loaded.
       case loaded of
         Some (cert, source) \<Rightarrow> Inr (cert, source)
       | None \<Rightarrow>
           bindR (wrapR ''generate self-signed cert'' (generate hostname ip)) (\<lambda>cert. Inr (cert, ''self-signed'')))"

section \<open>Lemmas\<close>

lemma EnvInt_set: "in_int64 n \<Longrightarrow> getenv key = Itoa n \<Longrightarrow> EnvInt getenv key fallback = n"
  by (simp add: EnvInt_def Atoi_def Itoa_def)

text \<open>Small rates are exact.\<close>

lemma float32_exact: "\<bar>n\<bar> < 2 ^ 24 \<Longrightarrow> float32_of_int n = n"
proof -
  assume "\<bar>n\<bar> < 2 ^ 24"
  then have "f32_shift \<bar>n\<bar> = 0" by (subst f32_shift.simps) simp
  then show ?thesis by (simp add: float32_of_int_def Let_def sgn_mult_abs)
qed

lemma LoadConfig_defaults:
  assumes "getenv ''COCOON_K8S_QPS'' = []" and "getenv ''COCOON_K8S_BURST'' = []"
  shows "LoadConfig getenv (Inr cfg) = Inr (cfg\<lparr>rc_QPS := 50, rc_Burst := 100\<rparr>)"
  using assms
  by (simp add: LoadConfig_def EnvInt_def Atoi_def ParseInt_def split_sign_def float32_exact defaultClientQPS_def
      defaultClientBurst_def)

text \<open>\<^verbatim>\<open>fn\<close> runs once per tick before the cancellation, and never after it.\<close>

lemma ticker_loop_spec:
  "ticker_loop es = (length (takeWhile (\<lambda>e. e = Tick) es), Done \<in> set es)"
proof (induction es)
  case (Cons e es)
  then show ?case by (cases e) simp_all
qed simp

text \<open>The address: the first IPv4 address of the first interface that has one and is not skipped.\<close>

definition candidate :: "net_iface \<Rightarrow> bool" where
  "candidate iface = (\<not> if_Loopback iface \<and> if_Name iface \<noteq> cocoonBridge)"

definition addressless :: "net_iface \<Rightarrow> bool" where
  "addressless iface = (candidate iface \<longrightarrow> (\<exists>addrs. if_Addrs iface = Inr addrs \<and> firstIPv4 addrs = None))"

lemma detect_loop_skip: "addressless iface \<Longrightarrow> detect_loop (iface # ifaces) = detect_loop ifaces"
  by (auto simp: addressless_def candidate_def)

lemma detect_loop_Inr:
  "detect_loop ifaces = Inr ip \<longleftrightarrow>
     (\<exists>before iface after addrs. ifaces = before @ iface # after \<and> candidate iface \<and> if_Addrs iface = Inr addrs \<and>
        firstIPv4 addrs = Some ip \<and> (\<forall>i \<in> set before. addressless i))"
  (is "_ \<longleftrightarrow> (\<exists>before iface after addrs. ?first ifaces before iface after addrs)")
proof
  show "detect_loop ifaces = Inr ip \<Longrightarrow> \<exists>before iface after addrs. ?first ifaces before iface after addrs"
  proof (induction ifaces)
    case (Cons i ifaces)
    show ?case
    proof (cases "addressless i")
      case True
      with Cons obtain before iface after addrs where "?first ifaces before iface after addrs"
        using detect_loop_skip by metis
      with True have "?first (i # ifaces) (i # before) iface after addrs" by simp
      then show ?thesis by blast
    next
      case False
      with Cons.prems obtain addrs where "?first (i # ifaces) [] i ifaces addrs"
        by (auto simp: addressless_def candidate_def split: sum.splits option.splits)
      then show ?thesis by blast
    qed
  qed simp
next
  assume "\<exists>before iface after addrs. ?first ifaces before iface after addrs"
  then obtain before iface after addrs where f: "?first ifaces before iface after addrs" by blast
  have "detect_loop (before @ xs) = detect_loop xs" if "\<forall>i \<in> set before. addressless i" for xs
    using that by (induction before) (simp_all add: detect_loop_skip del: detect_loop.simps(2))
  with f show "detect_loop ifaces = Inr ip" by (simp add: candidate_def)
qed

text \<open>The address of a node: the first IPv4 address of the first candidate that has one, when the earlier ones listed none.\<close>

lemma DetectNodeIP_Inr:
  "DetectNodeIP (Inr ifaces) = Inr ip \<longleftrightarrow>
     (\<exists>before iface after addrs. ifaces = before @ iface # after \<and> candidate iface \<and> if_Addrs iface = Inr addrs \<and>
        firstIPv4 addrs = Some ip \<and> (\<forall>i \<in> set before. addressless i))"
  unfolding DetectNodeIP_def wrapR_simps bindR_simps detect_loop_Inr by blast

text \<open>When the certificate on disk is served.\<close>

lemma tryLoadDiskCert_Some:
  "tryLoadDiskCert te certPath keyPath = Inr (Some (cert, source)) \<longleftrightarrow>
     certPath \<noteq> [] \<and> keyPath \<noteq> [] \<and> te_Stat te certPath = None \<and> te_LoadX509KeyPair te certPath keyPath = Inr cert \<and>
     \<not> isCertExpired te cert \<and> source = ''disk '' @ certPath"
  by (auto simp: tryLoadDiskCert_def go_simps split: option.splits)

lemma LoadOrGenerateCert_source:
  assumes "LoadOrGenerateCert te generate certPath keyPath hostname ip = Inr (cert, source)"
  shows "source = ''disk '' @ certPath \<and> te_LoadX509KeyPair te certPath keyPath = Inr cert \<and> \<not> isCertExpired te cert \<or>
    source = ''self-signed'' \<and> generate hostname ip = Inr cert"
  using assms
  by (auto simp: LoadOrGenerateCert_def go_simps tryLoadDiskCert_Some split: option.splits)

end
