(* ===== verification/Pull_Bodies.thy ===== *)
theory Pull_Bodies
  imports Snapshot_Pull Cloudimg "HOL-Library.Sublist"
begin

text \<open>
  Response bodies. Every \<^verbatim>\<open>GetBlob\<close> of a pull (\<^verbatim>\<open>FetchSnapshotConfig\<close>, \<^verbatim>\<open>streamLayerToTar\<close>, \<^verbatim>\<open>chunkPipeline.read\<close>,
  \<^verbatim>\<open>chunkStream.Read\<close>) and every \<^verbatim>\<open>ReadBlob\<close> of a cloud image gives a body that holds a connection until it is closed. Here a
  body that was opened has a number, and a run is the list of what happens to bodies: opened, read from, closed.
  \<^verbatim>\<open>chunkStream\<close> is modelled with its field \<^verbatim>\<open>body\<close> and with \<^verbatim>\<open>Close\<close>; without the bodies it is the stream of \<open>Snapshot_Pull\<close>.

  What decides the order of events without being part of the program is a parameter: \<open>sizes\<close>, the sizes of the reads that the consumer of a
  chunk stream makes before it stops, and \<open>sched\<close>, which of the fetches of a window were started and how their events interleave.

  The lemmas: no body is read before it is opened or after it is closed, and when a pull returns, with or without an
  error, each has been closed exactly once.
\<close>

section \<open>Events\<close>

datatype body_event = Opened nat | ReadBody nat | ClosedBody nat

fun handle :: "body_event \<Rightarrow> nat" where
  "handle (Opened i) = i"
| "handle (ReadBody i) = i"
| "handle (ClosedBody i) = i"

definition uses :: "nat \<Rightarrow> body_event list \<Rightarrow> body_event list" where
  "uses i t = filter (\<lambda>e. handle e = i) t"

text \<open>A body that was never opened, or was opened, read from, and closed at the end; and one that is still open.\<close>

definition bodySettled :: "nat \<Rightarrow> body_event list \<Rightarrow> bool" where
  "bodySettled i t =
     (case uses i t of
        [] \<Rightarrow> True
      | e # es \<Rightarrow> e = Opened i \<and> es \<noteq> [] \<and> last es = ClosedBody i \<and> list_all (\<lambda>x. x = ReadBody i) (butlast es))"

definition leased :: "nat \<Rightarrow> body_event list \<Rightarrow> bool" where
  "leased i t = (case uses i t of [] \<Rightarrow> False | e # es \<Rightarrow> e = Opened i \<and> list_all (\<lambda>x. x = ReadBody i) es)"

section \<open>The chunk stream\<close>

text \<open>\<^verbatim>\<open>chunkStream\<close> with its field \<^verbatim>\<open>body\<close>, the number of the next body, and the events so far.\<close>

record lease =
  le_stream :: chunkStream
  le_body :: "nat option"
  le_next :: nat
  le_trace :: "body_event list"

definition happens :: "body_event \<Rightarrow> lease \<Rightarrow> lease" where
  "happens e l = l\<lparr>le_trace := le_trace l @ [e]\<rparr>"

text \<open>The loop of \<^verbatim>\<open>Read\<close>: open the next chunk when there is none, read, and at its end close it and go on.\<close>

function leasedRead :: "(string \<Rightarrow> reader res) \<Rightarrow> lease read_fn" where
  "leasedRead get n l =
     (let s = le_stream l in
      case cs_cur s of
        None \<Rightarrow>
          if length (cs_descs s) \<le> cs_i s then ([], Some EOF, l)
          else
            (let desc = cs_descs s ! cs_i s in
             case get (d_Digest desc) of
               Inl e \<Rightarrow> ([], Some (Wrap (''get blob '' @ d_Digest desc) e), l)
             | Inr body \<Rightarrow>
                 leasedRead get n (happens (Opened (le_next l))
                   (l\<lparr>le_stream := s\<lparr>cs_cur := Some (NewBlobSizeChecker body (d_Digest desc) (d_Size desc))\<rparr>,
                      le_body := Some (le_next l), le_next := Suc (le_next l)\<rparr>)))
      | Some cur \<Rightarrow>
          (case checker_read n cur of
             (d, err, v) \<Rightarrow>
               (let l1 = happens (ReadBody (the (le_body l))) l in
                if (case err of None \<Rightarrow> False | Some e \<Rightarrow> errors_is e EOF) then
                  (let l2 = (happens (ClosedBody (the (le_body l))) l1)
                         \<lparr>le_stream := s\<lparr>cs_cur := None, cs_i := Suc (cs_i s)\<rparr>, le_body := None\<rparr> in
                   if d \<noteq> [] then (d, None, l2) else leasedRead get n l2)
                else (d, err, l1\<lparr>le_stream := s\<lparr>cs_cur := Some v\<rparr>\<rparr>))))"
  by pat_completeness auto
termination
  by (relation "measure (\<lambda>(get, n, l). let s = le_stream l; k = length (cs_descs s) - cs_i s in
      if cs_cur s = None then 2 * k + (if k = 0 then 0 else 2) else 2 * k + 1)")
    (auto simp: happens_def Let_def)

definition leasedClose :: "lease \<Rightarrow> lease" where
  "leasedClose l =
     (case le_body l of
        None \<Rightarrow> l
      | Some i \<Rightarrow> (happens (ClosedBody i) l)\<lparr>le_stream := (le_stream l)\<lparr>cs_cur := None\<rparr>, le_body := None\<rparr>)"

definition leasedReads :: "(string \<Rightarrow> reader res) \<Rightarrow> nat list \<Rightarrow> lease \<Rightarrow> lease" where
  "leasedReads get ns l = fold (\<lambda>n l. snd (snd (leasedRead get n l))) ns l"

section \<open>A pull\<close>

text \<open>Each gives the number of the next body and the events, in the order of the code; \<^verbatim>\<open>defer\<close> closes on every path.\<close>

definition configBodies :: "'r Downloader \<Rightarrow> string \<Rightarrow> Descriptor \<Rightarrow> 'r \<Rightarrow> nat \<Rightarrow> nat \<times> body_event list" where
  "configBodies dl name desc r nx =
     (if d_MediaType desc \<noteq> MediaTypeSnapshotConfig \<or> d_Size desc > maxSnapshotConfigSize then (nx, [])
      else
        (case dl_GetBlob dl name (d_Digest desc) r of
           Inl _ \<Rightarrow> (nx, [])
         | Inr _ \<Rightarrow> (Suc nx, [Opened nx, ReadBody nx, ClosedBody nx])))"

definition layerBodies ::
  "'r Downloader \<Rightarrow> string \<Rightarrow> Descriptor \<Rightarrow> SnapshotFile \<Rightarrow> string \<Rightarrow> 'r \<Rightarrow> tar_writer \<Rightarrow> nat \<Rightarrow> nat \<times> body_event list" where
  "layerBodies dl name layer fm modTime r tw nx =
     (case layerHeader (Title layer) (d_Size layer) fm modTime of
        Inl _ \<Rightarrow> (nx, [])
      | Inr hdr \<Rightarrow>
          (case tw_WriteHeader hdr tw of
             (Some _, _) \<Rightarrow> (nx, [])
           | (None, _) \<Rightarrow>
               (case dl_GetBlob dl name (d_Digest layer) r of
                  Inl _ \<Rightarrow> (nx, [])
                | Inr _ \<Rightarrow> (Suc nx, [Opened nx, ReadBody nx, ClosedBody nx]))))"

text \<open>\<^verbatim>\<open>chunkPipeline.read\<close>; the slice expression may panic after the body was opened.\<close>

definition chunkBody :: "'r Downloader \<Rightarrow> string \<Rightarrow> Descriptor \<Rightarrow> int \<Rightarrow> 'r \<Rightarrow> nat \<Rightarrow> body_event list" where
  "chunkBody dl name desc cap r i =
     (case dl_GetBlob dl name (d_Digest desc) r of
        Inl _ \<Rightarrow> []
      | Inr _ \<Rightarrow>
          if d_Size desc < 0 \<or> d_Size desc > cap then [Opened i, ClosedBody i]
          else [Opened i, ReadBody i, ClosedBody i])"

definition fileBodies ::
  "(body_event list list \<Rightarrow> body_event list) \<Rightarrow> (layerPlan \<Rightarrow> nat list) \<Rightarrow> 'r Downloader \<Rightarrow> string \<Rightarrow> chunkPipeline \<Rightarrow>
   layerPlan \<Rightarrow> string \<Rightarrow> 'r \<Rightarrow> tar_writer \<Rightarrow> nat \<Rightarrow> nat \<times> body_event list" where
  "fileBodies sched sizes dl name p e modTime r tw nx =
     (case layerHeader (lp_title e) (f_Size (lp_meta e)) (lp_meta e) modTime of
        Inl _ \<Rightarrow> (nx, [])
      | Inr hdr \<Rightarrow>
          (case tw_WriteHeader hdr tw of
             (Some _, _) \<Rightarrow> (nx, [])
           | (None, _) \<Rightarrow>
               if fileWindow p e \<ge> 2 then
                 (nx + length (lp_descs e),
                  sched (map (\<lambda>(i, d). chunkBody dl name d (if lp_zstd e then cp_inputCap p else cp_outputCap p) r i)
                    (enumerate nx (lp_descs e))))
               else
                 (let l = leasedClose (leasedReads (\<lambda>g. dl_GetBlob dl name g r) (sizes e)
                        \<lparr>le_stream = \<lparr>cs_descs = lp_descs e, cs_i = 0, cs_cur = None\<rparr>, le_body = None, le_next = nx,
                         le_trace = []\<rparr>)
                  in (le_next l, le_trace l))))"

definition entryBodies ::
  "(body_event list list \<Rightarrow> body_event list) \<Rightarrow> (layerPlan \<Rightarrow> nat list) \<Rightarrow> env \<Rightarrow> 'r Downloader \<Rightarrow> string \<Rightarrow>
   chunkPipeline \<Rightarrow> layerPlan \<Rightarrow> 'r \<Rightarrow> tar_writer \<Rightarrow> nat \<Rightarrow> nat \<times> body_event list" where
  "entryBodies sched sizes ev dl name p e r tw nx =
     (if \<not> lp_encoded e then layerBodies dl name (lp_layer e) (lp_meta e) (ev_nowJSON ev) r tw nx
      else fileBodies sched sizes dl name p e (ev_nowJSON ev) r tw nx)"

fun entriesBodies ::
  "(body_event list list \<Rightarrow> body_event list) \<Rightarrow> (layerPlan \<Rightarrow> nat list) \<Rightarrow> env \<Rightarrow> 'r Downloader \<Rightarrow> string \<Rightarrow>
   chunkPipeline \<Rightarrow> layerPlan list \<Rightarrow> 'r \<Rightarrow> tar_writer \<Rightarrow> nat \<Rightarrow> nat \<times> body_event list" where
  "entriesBodies sched sizes ev dl name p [] r tw nx = (nx, [])"
| "entriesBodies sched sizes ev dl name p (e # es) r tw nx =
     (case entryBodies sched sizes ev dl name p e r tw nx of
        (nx1, t1) \<Rightarrow>
          (case writeEntry ev dl name p e r tw of
             (Some _, _) \<Rightarrow> (nx1, t1)
           | (None, tw1) \<Rightarrow> (case entriesBodies sched sizes ev dl name p es r tw1 nx1 of (nx2, t2) \<Rightarrow> (nx2, t1 @ t2))))"

definition importBodies ::
  "(body_event list list \<Rightarrow> body_event list) \<Rightarrow> (layerPlan \<Rightarrow> nat list) \<Rightarrow> env \<Rightarrow> 'r Downloader \<Rightarrow> StreamOptions \<Rightarrow>
   SnapshotConfig \<Rightarrow> Descriptor list \<Rightarrow> 'r \<Rightarrow> tar_writer \<Rightarrow> nat \<Rightarrow> nat \<times> body_event list" where
  "importBodies sched sizes ev dl opts cfg layers r tw nx =
     (case planLayers cfg layers of
        Inl _ \<Rightarrow> (nx, [])
      | Inr entries \<Rightarrow>
          (case MarshalEnvelope cfg (or_str (so_LocalName opts) (so_Name opts)) of
             Inl _ \<Rightarrow> (nx, [])
           | Inr envelopeJSON \<Rightarrow>
               (case writeTarFile snapshotJSONName envelopeJSON 420 (ev_nowJSON ev) tw of
                  (Some _, _) \<Rightarrow> (nx, [])
                | (None, tw1) \<Rightarrow>
                    entriesBodies sched sizes ev dl (so_Name opts)
                      (newChunkPipeline entries (prefetchOf opts) (budgetOf opts)) entries r tw1 nx)))"

definition streamBodies ::
  "(body_event list list \<Rightarrow> body_event list) \<Rightarrow> (layerPlan \<Rightarrow> nat list) \<Rightarrow> env \<Rightarrow> bytes \<Rightarrow> 'r Downloader \<Rightarrow>
   StreamOptions \<Rightarrow> 'r \<Rightarrow> body_event list" where
  "streamBodies sched sizes ev raw dl opts r =
     (if so_Name opts = [] then []
      else
        (case resolveManifest raw dl (so_Name opts) r of
           Inl _ \<Rightarrow> []
         | Inr m \<Rightarrow>
             if ClassifyParsed m \<noteq> KindSnapshot \<or> so_Writer opts = None then []
             else
               (case configBodies dl (so_Name opts) (m_Config m) r 0 of
                  (nx, t) \<Rightarrow>
                    (case FetchSnapshotConfig dl (so_Name opts) (m_Config m) r of
                       Inl _ \<Rightarrow> t
                     | Inr cfg \<Rightarrow>
                         (case validateSnapshotLayers m cfg of
                            Some _ \<Rightarrow> t
                          | None \<Rightarrow>
                              t @ snd (importBodies sched sizes ev dl opts cfg (m_Layers m) r
                                (newTarWriter (case so_Writer opts of None \<Rightarrow> (\<lambda>_. None) | Some f \<Rightarrow> f)) nx))))))"

text \<open>A cloud image: the loop over its disk layers.\<close>

fun diskBodies :: "(string \<Rightarrow> reader res) \<Rightarrow> 'w write_fn \<Rightarrow> Descriptor list \<Rightarrow> 'w \<Rightarrow> nat \<Rightarrow> body_event list" where
  "diskBodies get wr [] w nx = []"
| "diskBodies get wr (l # ls) w nx =
     (case get (d_Digest l) of
        Inl _ \<Rightarrow> []
      | Inr _ \<Rightarrow>
          [Opened nx, ReadBody nx, ClosedBody nx] @
          (case copyBlob get wr l w of (Some _, _) \<Rightarrow> [] | (None, w') \<Rightarrow> diskBodies get wr ls w' (Suc nx)))"

section \<open>Interleaving\<close>

text \<open>All interleavings of some runs, and a scheduler that starts some of them and interleaves those.\<close>

fun interleavings :: "'a list list \<Rightarrow> 'a list set" where
  "interleavings [] = {[]}"
| "interleavings (t # ts) = (\<Union>u \<in> interleavings ts. shuffles t u)"

definition schedules :: "('a list list \<Rightarrow> 'a list) \<Rightarrow> bool" where
  "schedules sched = (\<forall>ts. \<exists>us. subseq us ts \<and> sched ts \<in> interleavings us)"

lemma concat_interleavings: "concat ts \<in> interleavings ts"
proof (induction ts)
  case (Cons t ts)
  have "xs @ ys \<in> shuffles xs ys" for xs ys :: "'a list"
    by (induction xs) (auto intro: Cons_in_shuffles_leftI)
  with Cons show ?case by auto
qed simp

lemma schedules_concat: "schedules concat"
  unfolding schedules_def using concat_interleavings by blast

section \<open>Every body is closed\<close>

definition tidy :: "nat \<Rightarrow> nat \<Rightarrow> body_event list \<Rightarrow> bool" where
  "tidy a b t = (a \<le> b \<and> (\<forall>e \<in> set t. a \<le> handle e \<and> handle e < b) \<and> (\<forall>i. bodySettled i t))"

lemma uses_simps [simp]:
  "uses i [] = []" "uses i (e # t) = (if handle e = i then e # uses i t else uses i t)" "uses i (t @ u) = uses i t @ uses i u"
  by (simp_all add: uses_def)

lemma uses_none: "\<forall>e \<in> set t. handle e \<noteq> i \<Longrightarrow> uses i t = []"
  by (auto simp: uses_def)

lemma settled_uses: "uses i t = uses i u \<Longrightarrow> bodySettled i t = bodySettled i u"
  by (simp add: bodySettled_def)

lemma tidy_Nil [simp]: "tidy a a []"
  by (simp add: tidy_def bodySettled_def)

lemma tidy_one [simp]: "tidy a (Suc a) [Opened a, ReadBody a, ClosedBody a]" "tidy a (Suc a) [Opened a, ClosedBody a]"
  by (simp_all add: tidy_def bodySettled_def)

lemma tidy_ex [simp]: "\<exists>n. tidy a n []" "\<exists>n. tidy a n [Opened a, ReadBody a, ClosedBody a]"
  using tidy_Nil tidy_one by blast+

lemma tidy_mono: "tidy a b t \<Longrightarrow> a' \<le> a \<Longrightarrow> b \<le> b' \<Longrightarrow> tidy a' b' t"
  by (auto simp: tidy_def)

text \<open>Runs over different bodies, interleaved: what happens to a body is what its own run does.\<close>

lemma tidy_shuffle:
  assumes t: "tidy a b t" and u: "tidy b c u" and z: "z \<in> shuffles t u"
  shows "tidy a c z"
proof -
  have "bodySettled i z" for i
  proof -
    have s: "uses i z \<in> shuffles (uses i t) (uses i u)"
      using z filter_shuffles [of "\<lambda>e. handle e = i" t u] by (auto simp: uses_def)
    have "uses i t = [] \<or> uses i u = []"
    proof (cases "i < b")
      case True
      with u have "uses i u = []" by (intro uses_none) (auto simp: tidy_def)
      then show ?thesis ..
    next
      case False
      with t have "uses i t = []" by (intro uses_none) (auto simp: tidy_def)
      then show ?thesis ..
    qed
    with s have "uses i z = uses i t \<or> uses i z = uses i u" by auto
    with t u show ?thesis by (auto simp: tidy_def intro: settled_uses [THEN iffD1, OF sym])
  qed
  with t u set_shuffles [OF z] show ?thesis by (force simp: tidy_def)
qed

lemma tidy_append: "tidy a b t \<Longrightarrow> tidy b c u \<Longrightarrow> tidy a c (t @ u)"
  by (erule tidy_shuffle, assumption) (induction t, auto intro: Cons_in_shuffles_leftI)


section \<open>The chunk stream keeps its lease\<close>

definition lease_inv :: "nat \<Rightarrow> lease \<Rightarrow> bool" where
  "lease_inv a l =
     (a \<le> le_next l \<and> (\<forall>e \<in> set (le_trace l). a \<le> handle e \<and> handle e < le_next l) \<and>
      (cs_cur (le_stream l) = None \<longleftrightarrow> le_body l = None) \<and>
      (\<forall>i. if le_body l = Some i then leased i (le_trace l) else bodySettled i (le_trace l)))"

lemma leased_bound: "lease_inv a l \<Longrightarrow> le_body l = Some i \<Longrightarrow> a \<le> i \<and> i < le_next l"
proof -
  assume v: "lease_inv a l" and b: "le_body l = Some i"
  then have "leased i (le_trace l)" by (auto simp: lease_inv_def dest: spec [of _ i])
  then have "Opened i \<in> set (uses i (le_trace l))" by (auto simp: leased_def split: list.splits)
  with v show ?thesis by (auto simp: lease_inv_def uses_def)
qed

lemma lease_read: "leased i t \<Longrightarrow> leased i (t @ [ReadBody i])"
  by (auto simp: leased_def split: list.splits)

lemma lease_closed: "leased i t \<Longrightarrow> bodySettled i (t @ [ClosedBody i])"
  by (auto simp: leased_def bodySettled_def butlast_append split: list.splits)

lemma settled_other: "handle e \<noteq> i \<Longrightarrow> bodySettled i (t @ [e]) = bodySettled i t"
  by (rule settled_uses) simp

lemma lease_opened:
  "lease_inv a l \<Longrightarrow> le_body l = None \<Longrightarrow> cs_cur s' \<noteq> None \<Longrightarrow>
   lease_inv a (happens (Opened (le_next l)) (l\<lparr>le_stream := s', le_body := Some (le_next l), le_next := Suc (le_next l)\<rparr>))"
  using uses_none [of "le_trace l" "le_next l"]
  by (fastforce simp: lease_inv_def happens_def leased_def settled_other less_Suc_eq)

lemma lease_used:
  assumes v: "lease_inv a l" and b: "le_body l = Some i"
  shows "cs_cur s' \<noteq> None \<Longrightarrow> lease_inv a ((happens (ReadBody i) l)\<lparr>le_stream := s'\<rparr>)"
    and "cs_cur s' = None \<Longrightarrow>
      lease_inv a ((happens (ClosedBody i) (happens (ReadBody i) l))\<lparr>le_stream := s', le_body := None\<rparr>)"
proof -
  have l: "leased i (le_trace l)" and o: "\<And>j. j \<noteq> i \<Longrightarrow> bodySettled j (le_trace l)"
    using v b by (auto simp: lease_inv_def dest: spec [of _ i])
  note r = lease_read [OF l]
  show "cs_cur s' \<noteq> None \<Longrightarrow> lease_inv a ((happens (ReadBody i) l)\<lparr>le_stream := s'\<rparr>)"
    using v b r o leased_bound [OF v b] by (auto simp: lease_inv_def happens_def settled_other)
  have "bodySettled j (le_trace l @ [ReadBody i, ClosedBody i])" for j
    using lease_closed [OF r] o settled_other [of "ClosedBody i" j "le_trace l @ [ReadBody i]"] settled_other [of "ReadBody i" j]
    by (cases "j = i") auto
  then show "cs_cur s' = None \<Longrightarrow>
      lease_inv a ((happens (ClosedBody i) (happens (ReadBody i) l))\<lparr>le_stream := s', le_body := None\<rparr>)"
    using v leased_bound [OF v b] by (auto simp: lease_inv_def happens_def)
qed

declare leasedRead.simps [simp del]

lemma leasedRead_inv: "lease_inv a l \<Longrightarrow> leasedRead get n l = (d, e, l') \<Longrightarrow> lease_inv a l'"
proof (induction get n l arbitrary: d e l' rule: leasedRead.induct)
  case (1 get n l)
  let ?s = "le_stream l"
  show ?case
  proof (cases "cs_cur ?s")
    case None
    then have b: "le_body l = None" using "1.prems"(1) by (auto simp: lease_inv_def)
    show ?thesis
    proof (cases "\<exists>body. cs_i ?s < length (cs_descs ?s) \<and> get (d_Digest (cs_descs ?s ! cs_i ?s)) = Inr body")
      case True
      then obtain body where t: "cs_i ?s < length (cs_descs ?s)" "get (d_Digest (cs_descs ?s ! cs_i ?s)) = Inr body" by blast
      let ?d = "cs_descs ?s ! cs_i ?s"
      let ?l = "happens (Opened (le_next l)) (l\<lparr>le_stream := ?s\<lparr>cs_cur := Some (NewBlobSizeChecker body (d_Digest ?d) (d_Size ?d))\<rparr>,
          le_body := Some (le_next l), le_next := Suc (le_next l)\<rparr>)"
      have "leasedRead get n ?l = (d, e, l')" using "1.prems"(2) None t by (subst (asm) leasedRead.simps) (simp add: Let_def)
      moreover have "lease_inv a ?l" by (rule lease_opened [OF "1.prems"(1) b]) simp
      ultimately show ?thesis using "1.IH"(1) [OF refl None _ refl t(2)] t(1) by simp
    next
      case False
      with "1.prems" None show ?thesis by (subst (asm) leasedRead.simps) (auto simp: Let_def split: if_splits sum.splits)
    qed
  next
    case (Some cur)
    then obtain i where b: "le_body l = Some i" using "1.prems"(1) by (auto simp: lease_inv_def)
    obtain x er v where c: "checker_read n cur = (x, er, v)" by (metis prod_cases3)
    note u = lease_used [OF "1.prems"(1) b]
    let ?l2 = "(happens (ClosedBody i) (happens (ReadBody i) l))\<lparr>le_stream := ?s\<lparr>cs_cur := None, cs_i := Suc (cs_i ?s)\<rparr>, le_body := None\<rparr>"
    have l2: "lease_inv a ?l2" by (rule u(2)) simp
    show ?thesis
    proof (cases "case er of None \<Rightarrow> False | Some e \<Rightarrow> errors_is e EOF")
      case True
      show ?thesis
      proof (cases "x = []")
        case False
        with "1.prems"(2) Some c True b l2 show ?thesis by (subst (asm) leasedRead.simps) (auto simp: Let_def)
      next
        case x: True
        have "leasedRead get n ?l2 = (d, e, l')"
          using "1.prems"(2) Some c True b x by (subst (asm) leasedRead.simps) (simp add: Let_def)
        with "1.IH"(2) [OF refl Some c [symmetric] refl refl True refl] l2 b x show ?thesis by simp
      qed
    next
      case False
      with "1.prems"(2) Some c b u(1) [of "?s\<lparr>cs_cur := Some v\<rparr>"] show ?thesis
        by (subst (asm) leasedRead.simps) (auto simp: Let_def)
    qed
  qed
qed

lemma leasedReads_inv: "lease_inv a l \<Longrightarrow> lease_inv a (leasedReads get ns l)"
proof (induction ns arbitrary: l)
  case (Cons n ns)
  obtain d e l' where "leasedRead get n l = (d, e, l')" by (metis prod_cases3)
  with leasedRead_inv [OF Cons.prems this] Cons.IH show ?case by (simp add: leasedReads_def)
qed (simp add: leasedReads_def)

lemma leasedClose_tidy:
  assumes v: "lease_inv a l"
  shows "le_body (leasedClose l) = None" and "tidy a (le_next (leasedClose l)) (le_trace (leasedClose l))"
proof -
  have "tidy a (le_next (leasedClose l)) (le_trace (leasedClose l)) \<and> le_body (leasedClose l) = None"
  proof (cases "le_body l")
    case None
    with v show ?thesis by (simp add: leasedClose_def lease_inv_def tidy_def)
  next
    case (Some i)
    have "bodySettled j (le_trace l @ [ClosedBody i])" for j
      using v Some lease_closed settled_other [of "ClosedBody i" j] by (cases "j = i") (auto simp: lease_inv_def split: if_splits)
    with v Some leased_bound [OF v Some] show ?thesis by (auto simp: leasedClose_def happens_def lease_inv_def tidy_def)
  qed
  then show "le_body (leasedClose l) = None" and "tidy a (le_next (leasedClose l)) (le_trace (leasedClose l))" by simp_all
qed

section \<open>Without the bodies\<close>

declare chunkStreamRead.simps [simp del]

text \<open>A read gives what the stream without bodies gives, and leaves the same stream.\<close>

lemma leasedRead_erases: "leasedRead get n l = (d, e, l') \<Longrightarrow> chunkStreamRead get n (le_stream l) = (d, e, le_stream l')"
proof (induction get n l arbitrary: d e l' rule: leasedRead.induct)
  case (1 get n l)
  let ?s = "le_stream l"
  show ?case
  proof (cases "cs_cur ?s")
    case None
    show ?thesis
    proof (cases "\<exists>body. cs_i ?s < length (cs_descs ?s) \<and> get (d_Digest (cs_descs ?s ! cs_i ?s)) = Inr body")
      case True
      then obtain body where t: "cs_i ?s < length (cs_descs ?s)" "get (d_Digest (cs_descs ?s ! cs_i ?s)) = Inr body" by blast
      let ?d = "cs_descs ?s ! cs_i ?s" and ?v = "NewBlobSizeChecker body (d_Digest (cs_descs ?s ! cs_i ?s)) (d_Size (cs_descs ?s ! cs_i ?s))"
      let ?l = "happens (Opened (le_next l)) (l\<lparr>le_stream := ?s\<lparr>cs_cur := Some ?v\<rparr>,
          le_body := Some (le_next l), le_next := Suc (le_next l)\<rparr>)"
      have "leasedRead get n ?l = (d, e, l')" using "1.prems" None t by (subst (asm) leasedRead.simps) (simp add: Let_def)
      with "1.IH"(1) [OF refl None _ refl t(2)] t(1) have "chunkStreamRead get n (le_stream ?l) = (d, e, le_stream l')" by simp
      moreover have "chunkStreamRead get n (le_stream ?l) = chunkStreamRead get n ?s"
        using None t by (subst (1 2) chunkStreamRead.simps) (simp add: happens_def Let_def split: prod.split)
      ultimately show ?thesis by simp
    next
      case False
      with "1.prems" None show ?thesis
        by (subst chunkStreamRead.simps, subst (asm) leasedRead.simps) (auto simp: Let_def split: if_splits sum.splits)
    qed
  next
    case (Some cur)
    obtain x er v where c: "checker_read n cur = (x, er, v)" by (metis prod_cases3)
    let ?l2 = "(happens (ClosedBody (the (le_body l))) (happens (ReadBody (the (le_body l))) l))
        \<lparr>le_stream := ?s\<lparr>cs_cur := None, cs_i := Suc (cs_i ?s)\<rparr>, le_body := None\<rparr>"
    show ?thesis
    proof (cases "(case er of None \<Rightarrow> False | Some e \<Rightarrow> errors_is e EOF) \<and> x = []")
      case True
      then have "leasedRead get n ?l2 = (d, e, l')"
        using "1.prems" Some c by (subst (asm) leasedRead.simps) (simp add: Let_def)
      with "1.IH"(2) [OF refl Some c [symmetric] refl refl _ refl] True Some c show ?thesis
        by (subst chunkStreamRead.simps) simp
    next
      case False
      with "1.prems" Some c show ?thesis
        by (subst chunkStreamRead.simps, subst (asm) leasedRead.simps) (auto simp: Let_def happens_def split: if_splits)
    qed
  qed
qed

section \<open>A pull closes what it opens\<close>

lemma configBodies_tidy: "tidy nx (fst (configBodies dl name desc r nx)) (snd (configBodies dl name desc r nx))"
  by (simp add: configBodies_def split: sum.split)

lemma layerBodies_tidy:
  "tidy nx (fst (layerBodies dl name layer fm modTime r tw nx)) (snd (layerBodies dl name layer fm modTime r tw nx))"
  by (simp add: layerBodies_def split: sum.split prod.split option.split)

lemma chunkBody_tidy: "tidy i (Suc i) (chunkBody dl name d c r i)"
  by (auto simp: chunkBody_def intro: tidy_mono [OF tidy_Nil] split: sum.split)

text \<open>The fetches of a window that were started, in any interleaving.\<close>

lemma window_tidy:
  assumes "schedules sched"
  shows "tidy nx (nx + length ds) (sched (map (\<lambda>(i, d). chunkBody dl name d c r i) (enumerate nx ds)))"
proof -
  let ?ts = "map (\<lambda>(i, d). chunkBody dl name d c r i) (enumerate nx ds)"
  from assms obtain us where us: "subseq us ?ts" "sched ?ts \<in> interleavings us" unfolding schedules_def by blast
  have "tidy nx (nx + length ds) z" if "subseq us (map (\<lambda>(i, d). chunkBody dl name d c r i) (enumerate nx ds))" "z \<in> interleavings us" for us z
    using that
  proof (induction ds arbitrary: nx us z)
    case (Cons d ds)
    let ?rest = "map (\<lambda>(i, d). chunkBody dl name d c r i) (enumerate (Suc nx) ds)"
    from Cons.prems(1) consider "subseq us ?rest" | vs where "us = chunkBody dl name d c r nx # vs" "subseq vs ?rest"
      by (auto simp: enumerate_simps elim: list_emb.cases)
    then show ?case
    proof cases
      case 1
      from Cons.IH [OF 1 Cons.prems(2)] show ?thesis by (rule tidy_mono) simp_all
    next
      case 2
      with Cons.prems(2) obtain v where v: "v \<in> interleavings vs" "z \<in> shuffles (chunkBody dl name d c r nx) v" by auto
      from tidy_shuffle [OF chunkBody_tidy Cons.IH [OF 2(2) v(1)] v(2)] show ?thesis by simp
    qed
  next
    case Nil
    then have "us = []" by (auto elim: list_emb.cases)
    with Nil show ?case by simp
  qed
  with us show ?thesis by blast
qed

lemma fileBodies_tidy:
  assumes "schedules sched"
  shows "tidy nx (fst (fileBodies sched sizes dl name p e modTime r tw nx)) (snd (fileBodies sched sizes dl name p e modTime r tw nx))"
proof -
  let ?l = "\<lparr>le_stream = \<lparr>cs_descs = lp_descs e, cs_i = 0, cs_cur = None\<rparr>, le_body = None, le_next = nx, le_trace = []\<rparr>"
  have "lease_inv nx ?l" by (simp add: lease_inv_def bodySettled_def)
  note stream = leasedClose_tidy(2) [OF leasedReads_inv [OF this]]
  show ?thesis
    by (simp add: fileBodies_def Let_def stream window_tidy [OF assms] split: sum.split prod.split option.split)
qed

lemma entriesBodies_tidy:
  assumes "schedules sched"
  shows "tidy nx (fst (entriesBodies sched sizes ev dl name p es r tw nx)) (snd (entriesBodies sched sizes ev dl name p es r tw nx))"
proof (induction es arbitrary: tw nx)
  case (Cons e es)
  obtain nx1 t1 where e: "entryBodies sched sizes ev dl name p e r tw nx = (nx1, t1)" by fastforce
  have t1: "tidy nx nx1 t1"
    using layerBodies_tidy [of nx dl name "lp_layer e" "lp_meta e" "ev_nowJSON ev" r tw]
      fileBodies_tidy [OF assms, of nx sizes dl name p e "ev_nowJSON ev" r tw] e
    by (simp add: entryBodies_def split: if_splits)
  obtain er tw1 where w: "writeEntry ev dl name p e r tw = (er, tw1)" by fastforce
  obtain nx2 t2 where es: "entriesBodies sched sizes ev dl name p es r tw1 nx1 = (nx2, t2)" by fastforce
  have "tidy nx nx2 (t1 @ t2)" using tidy_append [OF t1] Cons.IH [of nx1 tw1] es by simp
  with t1 e w es show ?case by (cases er) simp_all
qed simp

lemma importBodies_tidy:
  assumes "schedules sched"
  shows "tidy nx (fst (importBodies sched sizes ev dl opts cfg layers r tw nx)) (snd (importBodies sched sizes ev dl opts cfg layers r tw nx))"
  unfolding importBodies_def
  by (auto simp: entriesBodies_tidy [OF assms] split: sum.split prod.split option.split)

lemma streamBodies_tidy:
  assumes "schedules sched"
  shows "\<exists>n. tidy 0 n (streamBodies sched sizes ev raw dl opts r)"
proof (cases "so_Name opts = [] \<or> so_Writer opts = None")
  case True
  then have "streamBodies sched sizes ev raw dl opts r = []" by (auto simp: streamBodies_def split: sum.split)
  then show ?thesis by simp
next
  case False
  show ?thesis
  proof (cases "\<exists>m. resolveManifest raw dl (so_Name opts) r = Inr m \<and> ClassifyParsed m = KindSnapshot")
    case m: True
    then obtain m where m: "resolveManifest raw dl (so_Name opts) r = Inr m" "ClassifyParsed m = KindSnapshot" by blast
    obtain nx t where c: "configBodies dl (so_Name opts) (m_Config m) r 0 = (nx, t)" by fastforce
    have t: "tidy 0 nx t" using configBodies_tidy [of 0 dl "so_Name opts" "m_Config m" r] c by simp
    have a: "\<exists>n. tidy 0 n (t @ snd (importBodies sched sizes ev dl opts cfg layers r tw nx))" for cfg layers tw
      by (rule exI, rule tidy_append [OF t importBodies_tidy [OF assms]])
    from False m c t a show ?thesis
      by (cases "FetchSnapshotConfig dl (so_Name opts) (m_Config m) r") (auto simp: streamBodies_def split: option.split)
  next
    case no: False
    then have "streamBodies sched sizes ev raw dl opts r = []" by (auto simp: streamBodies_def split: sum.split)
    then show ?thesis by simp
  qed
qed

text \<open>A pull that succeeds has opened at least the body of the snapshot config.\<close>

lemma streamBodies_opened:
  assumes "Stream ev raw dl opts r = (None, tw)"
  shows "Opened 0 \<in> set (streamBodies sched sizes ev raw dl opts r)"
proof -
  from assms obtain m cfg where m: "so_Name opts \<noteq> []" "resolveManifest raw dl (so_Name opts) r = Inr m"
      "ClassifyParsed m = KindSnapshot" "so_Writer opts \<noteq> None" "FetchSnapshotConfig dl (so_Name opts) (m_Config m) r = Inr cfg"
    by (auto simp: Stream_def StreamParsed_def Let_def split: if_splits sum.splits option.splits)
  from m(5) obtain t where "configBodies dl (so_Name opts) (m_Config m) r 0 = (Suc 0, Opened 0 # t)"
    by (auto simp: FetchSnapshotConfig_def configBodies_def Let_def split: if_splits sum.splits)
  with m show ?thesis by (auto simp: streamBodies_def split: option.split)
qed

lemma diskBodies_tidy: "\<exists>n. tidy nx n (diskBodies get wr ls w nx)"
proof (induction ls arbitrary: w nx)
  case (Cons l ls)
  show ?case
  proof (cases "get (d_Digest l)")
    case (Inr body)
    obtain er w' where c: "copyBlob get wr l w = (er, w')" by fastforce
    from Cons.IH obtain n where n: "tidy (Suc nx) n (diskBodies get wr ls w' (Suc nx))" by blast
    from tidy_append [OF tidy_one(1) n] tidy_one(1) [of nx] Inr c show ?thesis by (cases er) auto
  qed simp
qed simp

end
