(* ===== verification/Apis_Json.thy ===== *)
theory Apis_Json
  imports Apis_V1 Oci_Manifest
begin

text \<open>
  The JSON form of the API types (\<^verbatim>\<open>apis/v1\<close>), in which the API server stores them and clients send them: for
  every spec and status the table of its fields, as the struct tags give it, with the name, when \<^verbatim>\<open>omitempty\<close> leaves it out, how
  it is written and how it is read. The fields of an embedded struct stand in the table of the outer one.

  The types of other packages (\<^verbatim>\<open>resource.Quantity\<close>, \<^verbatim>\<open>corev1.ResourceRequirements\<close>, \<^verbatim>\<open>corev1.EnvFromSource\<close>, \<^verbatim>\<open>metav1.Condition\<close>) have their JSON
  form from a record \<open>api_json\<close>; the locale \<open>api_codecs\<close> says that they read what they write. A slice is \<open>None\<close> when it
  is nil: an empty one is left out like a nil one, and comes back nil.

  The lemmas: what is written is read back, up to empty slices.
\<close>

section \<open>Tables\<close>

text \<open>
  A field: its name, whether it is omitted, the value that is written, and how a value is read into it.
\<close>

record 'r jfield =
  jf_name :: string
  jf_omit :: "'r \<Rightarrow> bool"
  jf_enc :: "'r \<Rightarrow> json"
  jf_store :: "json \<Rightarrow> 'r \<Rightarrow> 'r option"

definition enc_table :: "'r jfield list \<Rightarrow> 'r \<Rightarrow> json" where
  "enc_table fs x = JObj (concat (map (\<lambda>f. opt_field (jf_omit f x) (jf_name f) (jf_enc f x)) fs))"

definition store_table :: "'r jfield list \<Rightarrow> string \<Rightarrow> json \<Rightarrow> 'r \<Rightarrow> 'r option" where
  "store_table fs k v x = (case List.find (\<lambda>f. jf_name f = k) fs of None \<Rightarrow> Some x | Some f \<Rightarrow> jf_store f v x)"

definition dec_table :: "'r jfield list \<Rightarrow> 'r \<Rightarrow> json \<Rightarrow> 'r option" where
  "dec_table fs = dec_struct (map jf_name fs) (store_table fs)"

text \<open>Written as a text and read from it into a fresh value.\<close>

definition viaText :: "'r jfield list \<Rightarrow> 'r \<Rightarrow> 'r \<Rightarrow> 'r option" where
  "viaText fs zero x = Option.bind (json_unmarshal (json_marshal (enc_table fs x))) (dec_table fs zero)"

text \<open>A field of a type with a reader and a writer; \<open>omit\<close> is \<^verbatim>\<open>omitempty\<close> with the test for the type.\<close>

definition typedField ::
  "string \<Rightarrow> ('a \<Rightarrow> bool) \<Rightarrow> ('a \<Rightarrow> json) \<Rightarrow> ('a \<Rightarrow> json \<Rightarrow> 'a option) \<Rightarrow> ('r \<Rightarrow> 'a) \<Rightarrow> ('a \<Rightarrow> 'r \<Rightarrow> 'r) \<Rightarrow> 'r jfield" where
  "typedField name omit enc dec get upd =
     \<lparr>jf_name = name, jf_omit = (\<lambda>x. omit (get x)), jf_enc = (\<lambda>x. enc (get x)),
      jf_store = (\<lambda>v x. map_option (\<lambda>y. upd y x) (dec (get x) v))\<rparr>"

definition strField :: "string \<Rightarrow> ('r \<Rightarrow> string) \<Rightarrow> (string \<Rightarrow> 'r \<Rightarrow> 'r) \<Rightarrow> 'r jfield" where
  "strField name = typedField name (\<lambda>s. s = []) JStr dec_string"

definition strField' :: "string \<Rightarrow> ('r \<Rightarrow> string) \<Rightarrow> (string \<Rightarrow> 'r \<Rightarrow> 'r) \<Rightarrow> 'r jfield" where
  "strField' name = typedField name (\<lambda>_. False) JStr dec_string"

definition boolField :: "string \<Rightarrow> ('r \<Rightarrow> bool) \<Rightarrow> (bool \<Rightarrow> 'r \<Rightarrow> 'r) \<Rightarrow> 'r jfield" where
  "boolField name = typedField name (\<lambda>b. \<not> b) JBool dec_bool"

definition dec_int32 :: "int \<Rightarrow> json \<Rightarrow> int option" where
  "dec_int32 cur v = (case v of JNull \<Rightarrow> Some cur | JNum l \<Rightarrow> ParseInt 32 l | _ \<Rightarrow> None)"

definition int32Field :: "string \<Rightarrow> ('r \<Rightarrow> int) \<Rightarrow> (int \<Rightarrow> 'r \<Rightarrow> 'r) \<Rightarrow> 'r jfield" where
  "int32Field name = typedField name (\<lambda>n. n = 0) enc_int dec_int32"

definition int32Field' :: "string \<Rightarrow> ('r \<Rightarrow> int) \<Rightarrow> (int \<Rightarrow> 'r \<Rightarrow> 'r) \<Rightarrow> 'r jfield" where
  "int32Field' name = typedField name (\<lambda>_. False) enc_int dec_int32"

definition int64Field :: "string \<Rightarrow> ('r \<Rightarrow> int) \<Rightarrow> (int \<Rightarrow> 'r \<Rightarrow> 'r) \<Rightarrow> 'r jfield" where
  "int64Field name = typedField name (\<lambda>n. n = 0) enc_int dec_int"

text \<open>A pointer; a slice, where \<open>None\<close> is nil; and a struct, which is never empty.\<close>

definition ptrField ::
  "('a \<Rightarrow> json) \<Rightarrow> ('a \<Rightarrow> json \<Rightarrow> 'a option) \<Rightarrow> 'a \<Rightarrow> string \<Rightarrow> ('r \<Rightarrow> 'a option) \<Rightarrow> ('a option \<Rightarrow> 'r \<Rightarrow> 'r) \<Rightarrow> 'r jfield" where
  "ptrField enc dec zero name = typedField name (\<lambda>p. p = None) (enc_ptr enc) (dec_ptr dec zero)"

definition enc_slice :: "('a \<Rightarrow> json) \<Rightarrow> 'a list option \<Rightarrow> json" where
  "enc_slice enc xs = (case xs of None \<Rightarrow> JNull | Some ys \<Rightarrow> JArr (map enc ys))"

definition dec_slice :: "('a \<Rightarrow> json \<Rightarrow> 'a option) \<Rightarrow> 'a \<Rightarrow> 'a list option \<Rightarrow> json \<Rightarrow> 'a list option option" where
  "dec_slice dec zero cur v = (case v of JNull \<Rightarrow> Some None | _ \<Rightarrow> map_option Some (dec_list dec zero v))"

definition nilEmpty :: "'a list option \<Rightarrow> 'a list option" where
  "nilEmpty xs = (if xs = Some [] then None else xs)"

definition sliceField ::
  "('a \<Rightarrow> json) \<Rightarrow> ('a \<Rightarrow> json \<Rightarrow> 'a option) \<Rightarrow> 'a \<Rightarrow> string \<Rightarrow> ('r \<Rightarrow> 'a list option) \<Rightarrow> ('a list option \<Rightarrow> 'r \<Rightarrow> 'r) \<Rightarrow> 'r jfield" where
  "sliceField enc dec zero name = typedField name (\<lambda>xs. nilEmpty xs = None) (enc_slice enc) (dec_slice dec zero)"

definition structField ::
  "('a \<Rightarrow> json) \<Rightarrow> ('a \<Rightarrow> json \<Rightarrow> 'a option) \<Rightarrow> string \<Rightarrow> ('r \<Rightarrow> 'a) \<Rightarrow> ('a \<Rightarrow> 'r \<Rightarrow> 'r) \<Rightarrow> 'r jfield" where
  "structField enc dec name = typedField name (\<lambda>_. False) enc dec"

text \<open>The fields of an embedded struct.\<close>

definition inline :: "('r \<Rightarrow> 'a) \<Rightarrow> ('a \<Rightarrow> 'r \<Rightarrow> 'r) \<Rightarrow> 'a jfield list \<Rightarrow> 'r jfield list" where
  "inline get upd = map (\<lambda>f. \<lparr>jf_name = jf_name f, jf_omit = (\<lambda>x. jf_omit f (get x)), jf_enc = (\<lambda>x. jf_enc f (get x)),
     jf_store = (\<lambda>v x. map_option (\<lambda>y. upd y x) (jf_store f v (get x)))\<rparr>)"

lemmas field_defs = typedField_def strField_def strField'_def boolField_def int32Field_def int32Field'_def int64Field_def ptrField_def
  sliceField_def structField_def

section \<open>Reading what a table wrote\<close>

fun reread :: "'r jfield list \<Rightarrow> 'r \<Rightarrow> 'r \<Rightarrow> 'r option" where
  "reread [] x r = Some r"
| "reread (f # fs) x r =
     (if jf_omit f x then reread fs x r else Option.bind (jf_store f (jf_enc f x) r) (reread fs x))"

lemma store_table_field: "distinct (map jf_name fs) \<Longrightarrow> f \<in> set fs \<Longrightarrow> store_table fs (jf_name f) v x = jf_store f v x"
proof -
  assume "distinct (map jf_name fs)" and "f \<in> set fs"
  then have "List.find (\<lambda>g. jf_name g = jf_name f) fs = Some f"
    by (induction fs) (auto simp: image_iff)
  then show ?thesis by (simp add: store_table_def)
qed

lemma dec_table_members:
  assumes "distinct (map jf_name all)"
  shows "set fs \<subseteq> set all \<Longrightarrow>
    dec_members (map jf_name all) (store_table all) (concat (map (\<lambda>f. opt_field (jf_omit f x) (jf_name f) (jf_enc f x)) fs)) r =
    reread fs x r"
proof (induction fs arbitrary: r)
  case (Cons f fs)
  then have s: "store_table all (jf_name f) v r = jf_store f v r" for v r
    by (simp add: store_table_field [OF assms])
  from Cons s show ?case
    by (cases "jf_omit f x"; cases "jf_store f (jf_enc f x) r") (auto simp: opt_field_def)
qed simp

lemma dec_enc_table: "distinct (map jf_name fs) \<Longrightarrow> dec_table fs r (enc_table fs x) = reread fs x r"
  by (simp add: dec_table_def enc_table_def dec_table_members)

lemma wf_enc_table:
  "(\<And>f. f \<in> set fs \<Longrightarrow> \<not> jf_omit f x \<Longrightarrow> valid_utf8 (jf_name f) \<and> wf_json (jf_enc f x)) \<Longrightarrow> wf_json (enc_table fs x)"
  unfolding enc_table_def by (induction fs) (auto simp: opt_field_def)

lemma dec_int32_enc [simp]: "in_int32 n \<Longrightarrow> dec_int32 cur (enc_int n) = Some n"
  by (simp add: dec_int32_def enc_int_def)

lemma dec_slice_enc:
  assumes "list_all (\<lambda>y. dec zero (enc y) = Some y) ys"
  shows "dec_slice dec zero cur (enc_slice enc (Some ys)) = Some (Some ys)"
proof -
  have "dec_elems dec zero (map enc ys) = Some ys" using assms by (induction ys) simp_all
  then show ?thesis by (simp add: dec_slice_def enc_slice_def dec_list_def)
qed

definition wfSlice :: "('a \<Rightarrow> bool) \<Rightarrow> 'a list option \<Rightarrow> bool" where
  "wfSlice w xs = (case xs of None \<Rightarrow> True | Some ys \<Rightarrow> list_all w ys)"

lemma wfSlice_mono: "wfSlice v xs \<Longrightarrow> (\<And>x. v x \<Longrightarrow> w x) \<Longrightarrow> wfSlice w xs"
  by (auto simp: wfSlice_def list_all_iff split: option.splits)

lemma wf_enc_slice: "\<forall>x. w x \<longrightarrow> wf_json (enc x) \<Longrightarrow> wfSlice w xs \<Longrightarrow> wf_json (enc_slice enc xs)"
  by (auto simp: wfSlice_def enc_slice_def wf_elems_iff list_all_iff split: option.splits)

text \<open>One field after the other, into a struct where the field is still zero.\<close>

named_theorems rereads

lemma reread_str [rereads]:
  "get r = [] \<Longrightarrow> upd [] r = r \<Longrightarrow> reread (strField n get upd # fs) x r = reread fs x (upd (get x) r)"
  "reread (strField' n get upd # fs) x r = reread fs x (upd (get x) r)"
  by (auto simp: strField_def strField'_def typedField_def)

lemma reread_bool [rereads]:
  "\<not> get r \<Longrightarrow> upd False r = r \<Longrightarrow> reread (boolField n get upd # fs) x r = reread fs x (upd (get x) r)"
  by (auto simp: boolField_def typedField_def)

lemma reread_int [rereads]:
  "in_int32 (get x) \<Longrightarrow> upd 0 r = r \<Longrightarrow> reread (int32Field n get upd # fs) x r = reread fs x (upd (get x) r)"
  "in_int32 (get x) \<Longrightarrow> reread (int32Field' n get upd # fs) x r = reread fs x (upd (get x) r)"
  "in_int64 (get x) \<Longrightarrow> upd 0 r = r \<Longrightarrow> reread (int64Field n get upd # fs) x r = reread fs x (upd (get x) r)"
  by (auto simp: int32Field_def int32Field'_def int64Field_def typedField_def)

lemma reread_ptr [rereads]:
  assumes "pred_option (\<lambda>y. enc y \<noteq> JNull \<and> dec zero (enc y) = Some y) (get x)" and "get r = None" and "upd None r = r"
  shows "reread (ptrField enc dec zero n get upd # fs) x r = reread fs x (upd (get x) r)"
proof (cases "get x")
  case (Some y)
  with assms(1) have "dec_ptr dec zero None (enc_ptr enc (Some y)) = Some (Some y)"
    by (cases "enc y") (auto simp: dec_ptr_def enc_ptr_def)
  with Some assms show ?thesis by (simp add: ptrField_def typedField_def)
qed (use assms in \<open>simp add: ptrField_def typedField_def\<close>)

lemma reread_slice [rereads]:
  assumes "wfSlice (\<lambda>y. dec zero (enc y) = Some y) (get x)" and "upd None r = r"
  shows "reread (sliceField enc dec zero n get upd # fs) x r = reread fs x (upd (nilEmpty (get x)) r)"
proof (cases "nilEmpty (get x)")
  case (Some ys)
  then have g: "get x = Some ys" by (auto simp: nilEmpty_def split: if_splits)
  with assms(1) have "list_all (\<lambda>y. dec zero (enc y) = Some y) ys" by (simp add: wfSlice_def)
  with Some g show ?thesis by (simp add: sliceField_def typedField_def dec_slice_enc)
qed (use assms in \<open>simp add: sliceField_def typedField_def\<close>)

lemma reread_struct [rereads]:
  "reread (structField enc dec n get upd # fs) x r = Option.bind (dec (get r) (enc (get x))) (\<lambda>y. reread fs x (upd y r))"
  by (cases "dec (get r) (enc (get x))") (simp_all add: structField_def typedField_def)

lemma reread_inline:
  assumes "\<And>y r. get (upd y r) = y" and "\<And>y y' r. upd y (upd y' r) = upd y r" and "\<And>r. upd (get r) r = r"
  shows "reread (inline get upd ts @ fs) x r = Option.bind (reread ts (get x) (get r)) (\<lambda>y. reread fs x (upd y r))"
proof (induction ts arbitrary: r)
  case Nil
  then show ?case by (simp add: inline_def assms(3))
next
  case (Cons t ts)
  have i: "inline get upd (t # ts) = \<lparr>jf_name = jf_name t, jf_omit = (\<lambda>x. jf_omit t (get x)), jf_enc = (\<lambda>x. jf_enc t (get x)),
      jf_store = (\<lambda>v x. map_option (\<lambda>y. upd y x) (jf_store t v (get x)))\<rparr> # inline get upd ts"
    by (simp add: inline_def)
  show ?case
    using Cons [of r] Cons [of "upd _ r"] by (cases "jf_store t (jf_enc t (get x)) (get r)") (simp_all add: i assms(1,2))
qed

declare reread.simps(2) [simp del]

section \<open>The tables of the API types\<close>

record ('q, 'res, 'env, 'cond) api_json =
  aj_encQuantity :: "'q \<Rightarrow> json"
  aj_decQuantity :: "'q \<Rightarrow> json \<Rightarrow> 'q option"
  aj_zeroQuantity :: 'q
  aj_encResources :: "'res \<Rightarrow> json"
  aj_decResources :: "'res \<Rightarrow> json \<Rightarrow> 'res option"
  aj_zeroResources :: 'res
  aj_encEnvFrom :: "'env \<Rightarrow> json"
  aj_decEnvFrom :: "'env \<Rightarrow> json \<Rightarrow> 'env option"
  aj_zeroEnvFrom :: 'env
  aj_encCondition :: "'cond \<Rightarrow> json"
  aj_decCondition :: "'cond \<Rightarrow> json \<Rightarrow> 'cond option"
  aj_zeroCondition :: 'cond

definition vmOptionsTable :: "('q, 'res, 'env, 'cond) api_json \<Rightarrow> ('q option, 'res) VMOptions jfield list" where
  "vmOptionsTable j =
     [strField ''os'' vo_OS (\<lambda>v x. x\<lparr>vo_OS := v\<rparr>),
      strField ''backend'' vo_Backend (\<lambda>v x. x\<lparr>vo_Backend := v\<rparr>),
      strField ''connType'' vo_ConnType (\<lambda>v x. x\<lparr>vo_ConnType := v\<rparr>),
      strField ''network'' vo_Network (\<lambda>v x. x\<lparr>vo_Network := v\<rparr>),
      boolField ''forcePull'' vo_ForcePull (\<lambda>v x. x\<lparr>vo_ForcePull := v\<rparr>),
      boolField ''noDirectIO'' vo_NoDirectIO (\<lambda>v x. x\<lparr>vo_NoDirectIO := v\<rparr>),
      int32Field ''probePort'' vo_ProbePort (\<lambda>v x. x\<lparr>vo_ProbePort := v\<rparr>),
      ptrField (aj_encQuantity j) (aj_decQuantity j) (aj_zeroQuantity j) ''storage'' vo_Storage (\<lambda>v x. x\<lparr>vo_Storage := v\<rparr>),
      structField (aj_encResources j) (aj_decResources j) ''resources'' vo_Resources (\<lambda>v x. x\<lparr>vo_Resources := v\<rparr>)]"

definition zeroVMOptions :: "('q, 'res, 'env, 'cond) api_json \<Rightarrow> ('q option, 'res) VMOptions" where
  "zeroVMOptions j = \<lparr>vo_OS = [], vo_Backend = [], vo_ConnType = [], vo_Network = [], vo_ForcePull = False,
     vo_NoDirectIO = False, vo_ProbePort = 0, vo_Storage = None, vo_Resources = aj_zeroResources j\<rparr>"

definition agentTable :: "('q, 'res, 'env, 'cond) api_json \<Rightarrow> ('q option, 'res, 'env list option) AgentSpec jfield list" where
  "agentTable j =
     [int32Field ''replicas'' as_Replicas (\<lambda>v x. x\<lparr>as_Replicas := v\<rparr>),
      strField' ''image'' as_Image (\<lambda>v x. x\<lparr>as_Image := v\<rparr>),
      strField ''mode'' as_Mode (\<lambda>v x. x\<lparr>as_Mode := v\<rparr>)] @
     inline as_VMOptions (\<lambda>v x. x\<lparr>as_VMOptions := v\<rparr>) (vmOptionsTable j) @
     [sliceField (aj_encEnvFrom j) (aj_decEnvFrom j) (aj_zeroEnvFrom j) ''envFrom'' as_EnvFrom (\<lambda>v x. x\<lparr>as_EnvFrom := v\<rparr>),
      strField ''serviceAccountName'' as_ServiceAccountName (\<lambda>v x. x\<lparr>as_ServiceAccountName := v\<rparr>)]"

definition zeroAgentSpec :: "('q, 'res, 'env, 'cond) api_json \<Rightarrow> ('q option, 'res, 'env list option) AgentSpec" where
  "zeroAgentSpec j = \<lparr>as_Replicas = 0, as_Image = [], as_Mode = [], as_VMOptions = zeroVMOptions j, as_EnvFrom = None,
     as_ServiceAccountName = []\<rparr>"

definition toolboxTable :: "('q, 'res, 'env, 'cond) api_json \<Rightarrow> ('q option, 'res) ToolboxSpec jfield list" where
  "toolboxTable j =
     [strField' ''name'' tb_Name (\<lambda>v x. x\<lparr>tb_Name := v\<rparr>),
      strField ''image'' tb_Image (\<lambda>v x. x\<lparr>tb_Image := v\<rparr>),
      strField ''mode'' tb_Mode (\<lambda>v x. x\<lparr>tb_Mode := v\<rparr>),
      strField ''staticIP'' tb_StaticIP (\<lambda>v x. x\<lparr>tb_StaticIP := v\<rparr>),
      strField ''staticVMID'' tb_StaticVMID (\<lambda>v x. x\<lparr>tb_StaticVMID := v\<rparr>),
      int32Field ''vncPort'' tb_VNCPort (\<lambda>v x. x\<lparr>tb_VNCPort := v\<rparr>)] @
     inline tb_VMOptions (\<lambda>v x. x\<lparr>tb_VMOptions := v\<rparr>) (vmOptionsTable j)"

definition zeroToolboxSpec :: "('q, 'res, 'env, 'cond) api_json \<Rightarrow> ('q option, 'res) ToolboxSpec" where
  "zeroToolboxSpec j = \<lparr>tb_Name = [], tb_Image = [], tb_Mode = [], tb_StaticIP = [], tb_StaticVMID = [], tb_VNCPort = 0,
     tb_VMOptions = zeroVMOptions j\<rparr>"

type_synonym ('q, 'res, 'env) jCocoonSetSpec =
  "('q option, 'res, 'env list option, ('q option, 'res) ToolboxSpec list option) CocoonSetSpec"

definition specTable :: "('q, 'res, 'env, 'cond) api_json \<Rightarrow> ('q, 'res, 'env) jCocoonSetSpec jfield list" where
  "specTable j =
     [boolField ''suspend'' cs_Suspend (\<lambda>v x. x\<lparr>cs_Suspend := v\<rparr>),
      strField ''snapshotPolicy'' cs_SnapshotPolicy (\<lambda>v x. x\<lparr>cs_SnapshotPolicy := v\<rparr>),
      strField ''hibernatePolicy'' cs_HibernatePolicy (\<lambda>v x. x\<lparr>cs_HibernatePolicy := v\<rparr>),
      strField ''nodePool'' cs_NodePool (\<lambda>v x. x\<lparr>cs_NodePool := v\<rparr>),
      strField ''snapshotCompatibilityClass'' cs_SnapshotCompatibilityClass (\<lambda>v x. x\<lparr>cs_SnapshotCompatibilityClass := v\<rparr>),
      strField ''nodeName'' cs_NodeName (\<lambda>v x. x\<lparr>cs_NodeName := v\<rparr>),
      structField (enc_table (agentTable j)) (dec_table (agentTable j)) ''agent'' cs_Agent (\<lambda>v x. x\<lparr>cs_Agent := v\<rparr>),
      sliceField (enc_table (toolboxTable j)) (dec_table (toolboxTable j)) (zeroToolboxSpec j) ''toolboxes'' cs_Toolboxes
        (\<lambda>v x. x\<lparr>cs_Toolboxes := v\<rparr>)]"

definition zeroCocoonSetSpec :: "('q, 'res, 'env, 'cond) api_json \<Rightarrow> ('q, 'res, 'env) jCocoonSetSpec" where
  "zeroCocoonSetSpec j = \<lparr>cs_Suspend = False, cs_SnapshotPolicy = [], cs_HibernatePolicy = [], cs_NodePool = [],
     cs_SnapshotCompatibilityClass = [], cs_NodeName = [], cs_Agent = zeroAgentSpec j, cs_Toolboxes = None\<rparr>"

definition agentStatusTable :: "AgentStatus jfield list" where
  "agentStatusTable =
     [int32Field' ''slot'' ast_Slot (\<lambda>v x. x\<lparr>ast_Slot := v\<rparr>),
      strField' ''role'' ast_Role (\<lambda>v x. x\<lparr>ast_Role := v\<rparr>),
      strField ''podName'' ast_PodName (\<lambda>v x. x\<lparr>ast_PodName := v\<rparr>),
      strField ''vmName'' ast_VMName (\<lambda>v x. x\<lparr>ast_VMName := v\<rparr>),
      strField ''vmID'' ast_VMID (\<lambda>v x. x\<lparr>ast_VMID := v\<rparr>),
      strField ''ip'' ast_IP (\<lambda>v x. x\<lparr>ast_IP := v\<rparr>),
      strField ''phase'' ast_Phase (\<lambda>v x. x\<lparr>ast_Phase := v\<rparr>),
      strField ''forkedFrom'' ast_ForkedFrom (\<lambda>v x. x\<lparr>ast_ForkedFrom := v\<rparr>)]"

definition zeroAgentStatus :: AgentStatus where
  "zeroAgentStatus = \<lparr>ast_Slot = 0, ast_Role = [], ast_PodName = [], ast_VMName = [], ast_VMID = [], ast_IP = [],
     ast_Phase = [], ast_ForkedFrom = []\<rparr>"

definition toolboxStatusTable :: "ToolboxStatus jfield list" where
  "toolboxStatusTable =
     [strField' ''name'' tst_Name (\<lambda>v x. x\<lparr>tst_Name := v\<rparr>),
      strField ''podName'' tst_PodName (\<lambda>v x. x\<lparr>tst_PodName := v\<rparr>),
      strField ''vmName'' tst_VMName (\<lambda>v x. x\<lparr>tst_VMName := v\<rparr>),
      strField ''vmID'' tst_VMID (\<lambda>v x. x\<lparr>tst_VMID := v\<rparr>),
      strField ''ip'' tst_IP (\<lambda>v x. x\<lparr>tst_IP := v\<rparr>),
      strField ''phase'' tst_Phase (\<lambda>v x. x\<lparr>tst_Phase := v\<rparr>),
      strField ''connType'' tst_ConnType (\<lambda>v x. x\<lparr>tst_ConnType := v\<rparr>),
      int32Field ''vncPort'' tst_VNCPort (\<lambda>v x. x\<lparr>tst_VNCPort := v\<rparr>)]"

definition zeroToolboxStatus :: ToolboxStatus where
  "zeroToolboxStatus = \<lparr>tst_Name = [], tst_PodName = [], tst_VMName = [], tst_VMID = [], tst_IP = [], tst_Phase = [],
     tst_ConnType = [], tst_VNCPort = 0\<rparr>"

type_synonym 'cond jCocoonSetStatus =
  "(AgentStatus list option, ToolboxStatus list option, 'cond list option) CocoonSetStatus"

definition statusTable :: "('q, 'res, 'env, 'cond) api_json \<Rightarrow> 'cond jCocoonSetStatus jfield list" where
  "statusTable j =
     [int64Field ''observedGeneration'' css_ObservedGeneration (\<lambda>v x. x\<lparr>css_ObservedGeneration := v\<rparr>),
      strField ''phase'' css_Phase (\<lambda>v x. x\<lparr>css_Phase := v\<rparr>),
      int32Field' ''readyAgents'' css_ReadyAgents (\<lambda>v x. x\<lparr>css_ReadyAgents := v\<rparr>),
      int32Field' ''desiredAgents'' css_DesiredAgents (\<lambda>v x. x\<lparr>css_DesiredAgents := v\<rparr>),
      int32Field' ''readyToolboxes'' css_ReadyToolboxes (\<lambda>v x. x\<lparr>css_ReadyToolboxes := v\<rparr>),
      int32Field' ''desiredToolboxes'' css_DesiredToolboxes (\<lambda>v x. x\<lparr>css_DesiredToolboxes := v\<rparr>),
      sliceField (enc_table agentStatusTable) (dec_table agentStatusTable) zeroAgentStatus ''agents'' css_Agents
        (\<lambda>v x. x\<lparr>css_Agents := v\<rparr>),
      sliceField (enc_table toolboxStatusTable) (dec_table toolboxStatusTable) zeroToolboxStatus ''toolboxes'' css_Toolboxes
        (\<lambda>v x. x\<lparr>css_Toolboxes := v\<rparr>),
      sliceField (aj_encCondition j) (aj_decCondition j) (aj_zeroCondition j) ''conditions'' css_Conditions
        (\<lambda>v x. x\<lparr>css_Conditions := v\<rparr>)]"

definition zeroCocoonSetStatus :: "'cond jCocoonSetStatus" where
  "zeroCocoonSetStatus = \<lparr>css_ObservedGeneration = 0, css_Phase = [], css_ReadyAgents = 0, css_DesiredAgents = 0,
     css_ReadyToolboxes = 0, css_DesiredToolboxes = 0, css_Agents = None, css_Toolboxes = None, css_Conditions = None\<rparr>"

definition podRefTable :: "HibernationPodRef jfield list" where
  "podRefTable = [strField' ''name'' pr_Name (\<lambda>v x. x\<lparr>pr_Name := v\<rparr>)]"

definition hibernationSpecTable :: "CocoonHibernationSpec jfield list" where
  "hibernationSpecTable =
     [structField (enc_table podRefTable) (dec_table podRefTable) ''podRef'' ch_PodRef (\<lambda>v x. x\<lparr>ch_PodRef := v\<rparr>),
      strField' ''desire'' ch_Desire (\<lambda>v x. x\<lparr>ch_Desire := v\<rparr>)]"

definition zeroHibernationSpec :: CocoonHibernationSpec where
  "zeroHibernationSpec = \<lparr>ch_PodRef = \<lparr>pr_Name = []\<rparr>, ch_Desire = []\<rparr>"

definition hibernationStatusTable ::
  "('q, 'res, 'env, 'cond) api_json \<Rightarrow> 'cond list option CocoonHibernationStatus jfield list" where
  "hibernationStatusTable j =
     [int64Field ''observedGeneration'' chs_ObservedGeneration (\<lambda>v x. x\<lparr>chs_ObservedGeneration := v\<rparr>),
      strField ''phase'' chs_Phase (\<lambda>v x. x\<lparr>chs_Phase := v\<rparr>),
      strField ''vmName'' chs_VMName (\<lambda>v x. x\<lparr>chs_VMName := v\<rparr>),
      sliceField (aj_encCondition j) (aj_decCondition j) (aj_zeroCondition j) ''conditions'' chs_Conditions
        (\<lambda>v x. x\<lparr>chs_Conditions := v\<rparr>)]"

definition zeroHibernationStatus :: "'cond list option CocoonHibernationStatus" where
  "zeroHibernationStatus = \<lparr>chs_ObservedGeneration = 0, chs_Phase = [], chs_VMName = [], chs_Conditions = None\<rparr>"

section \<open>Well-formed values\<close>

text \<open>The texts are UTF-8, the numbers fit their types, and the values of other packages are ones those read back.\<close>

definition wfVMOptions :: "('q \<Rightarrow> bool) \<Rightarrow> ('res \<Rightarrow> bool) \<Rightarrow> ('q option, 'res) VMOptions \<Rightarrow> bool" where
  "wfVMOptions wq wr x =
     (valid_utf8 (vo_OS x) \<and> valid_utf8 (vo_Backend x) \<and> valid_utf8 (vo_ConnType x) \<and> valid_utf8 (vo_Network x) \<and>
      in_int32 (vo_ProbePort x) \<and> pred_option wq (vo_Storage x) \<and> wr (vo_Resources x))"

definition wfAgentSpec ::
  "('q \<Rightarrow> bool) \<Rightarrow> ('res \<Rightarrow> bool) \<Rightarrow> ('env \<Rightarrow> bool) \<Rightarrow> ('q option, 'res, 'env list option) AgentSpec \<Rightarrow> bool" where
  "wfAgentSpec wq wr we x =
     (in_int32 (as_Replicas x) \<and> valid_utf8 (as_Image x) \<and> valid_utf8 (as_Mode x) \<and> wfVMOptions wq wr (as_VMOptions x) \<and>
      wfSlice we (as_EnvFrom x) \<and> valid_utf8 (as_ServiceAccountName x))"

definition wfToolboxSpec :: "('q \<Rightarrow> bool) \<Rightarrow> ('res \<Rightarrow> bool) \<Rightarrow> ('q option, 'res) ToolboxSpec \<Rightarrow> bool" where
  "wfToolboxSpec wq wr x =
     (valid_utf8 (tb_Name x) \<and> valid_utf8 (tb_Image x) \<and> valid_utf8 (tb_Mode x) \<and> valid_utf8 (tb_StaticIP x) \<and>
      valid_utf8 (tb_StaticVMID x) \<and> in_int32 (tb_VNCPort x) \<and> wfVMOptions wq wr (tb_VMOptions x))"

definition wfCocoonSetSpec :: "('q \<Rightarrow> bool) \<Rightarrow> ('res \<Rightarrow> bool) \<Rightarrow> ('env \<Rightarrow> bool) \<Rightarrow> ('q, 'res, 'env) jCocoonSetSpec \<Rightarrow> bool" where
  "wfCocoonSetSpec wq wr we x =
     (valid_utf8 (cs_SnapshotPolicy x) \<and> valid_utf8 (cs_HibernatePolicy x) \<and> valid_utf8 (cs_NodePool x) \<and>
      valid_utf8 (cs_SnapshotCompatibilityClass x) \<and> valid_utf8 (cs_NodeName x) \<and> wfAgentSpec wq wr we (cs_Agent x) \<and>
      wfSlice (wfToolboxSpec wq wr) (cs_Toolboxes x))"

definition wfAgentStatus :: "AgentStatus \<Rightarrow> bool" where
  "wfAgentStatus x =
     (in_int32 (ast_Slot x) \<and> valid_utf8 (ast_Role x) \<and> valid_utf8 (ast_PodName x) \<and> valid_utf8 (ast_VMName x) \<and>
      valid_utf8 (ast_VMID x) \<and> valid_utf8 (ast_IP x) \<and> valid_utf8 (ast_Phase x) \<and> valid_utf8 (ast_ForkedFrom x))"

definition wfToolboxStatus :: "ToolboxStatus \<Rightarrow> bool" where
  "wfToolboxStatus x =
     (valid_utf8 (tst_Name x) \<and> valid_utf8 (tst_PodName x) \<and> valid_utf8 (tst_VMName x) \<and> valid_utf8 (tst_VMID x) \<and>
      valid_utf8 (tst_IP x) \<and> valid_utf8 (tst_Phase x) \<and> valid_utf8 (tst_ConnType x) \<and> in_int32 (tst_VNCPort x))"

definition wfCocoonSetStatus :: "('cond \<Rightarrow> bool) \<Rightarrow> 'cond jCocoonSetStatus \<Rightarrow> bool" where
  "wfCocoonSetStatus wc x =
     (in_int64 (css_ObservedGeneration x) \<and> valid_utf8 (css_Phase x) \<and> in_int32 (css_ReadyAgents x) \<and>
      in_int32 (css_DesiredAgents x) \<and> in_int32 (css_ReadyToolboxes x) \<and> in_int32 (css_DesiredToolboxes x) \<and>
      wfSlice wfAgentStatus (css_Agents x) \<and> wfSlice wfToolboxStatus (css_Toolboxes x) \<and> wfSlice wc (css_Conditions x))"

definition wfHibernationSpec :: "CocoonHibernationSpec \<Rightarrow> bool" where
  "wfHibernationSpec x = (valid_utf8 (pr_Name (ch_PodRef x)) \<and> valid_utf8 (ch_Desire x))"

definition wfHibernationStatus :: "('cond \<Rightarrow> bool) \<Rightarrow> 'cond list option CocoonHibernationStatus \<Rightarrow> bool" where
  "wfHibernationStatus wc x =
     (in_int64 (chs_ObservedGeneration x) \<and> valid_utf8 (chs_Phase x) \<and> valid_utf8 (chs_VMName x) \<and> wfSlice wc (chs_Conditions x))"

text \<open>What comes back: the same, with empty slices nil.\<close>

definition agentBack :: "('s, 'r, 'e list option) AgentSpec \<Rightarrow> ('s, 'r, 'e list option) AgentSpec" where
  "agentBack x = x\<lparr>as_EnvFrom := nilEmpty (as_EnvFrom x)\<rparr>"

definition specBack :: "('s, 'r, 'e list option, 't list option) CocoonSetSpec \<Rightarrow> ('s, 'r, 'e list option, 't list option) CocoonSetSpec" where
  "specBack x = x\<lparr>cs_Agent := agentBack (cs_Agent x), cs_Toolboxes := nilEmpty (cs_Toolboxes x)\<rparr>"

definition statusBack :: "'cond jCocoonSetStatus \<Rightarrow> 'cond jCocoonSetStatus" where
  "statusBack x = x\<lparr>css_Agents := nilEmpty (css_Agents x), css_Toolboxes := nilEmpty (css_Toolboxes x),
     css_Conditions := nilEmpty (css_Conditions x)\<rparr>"

definition hibernationStatusBack :: "'cond list option CocoonHibernationStatus \<Rightarrow> 'cond list option CocoonHibernationStatus" where
  "hibernationStatusBack x = x\<lparr>chs_Conditions := nilEmpty (chs_Conditions x)\<rparr>"

section \<open>Round trips\<close>

lemma plain_back:
  "wfAgentStatus a \<Longrightarrow> dec_table agentStatusTable zeroAgentStatus (enc_table agentStatusTable a) = Some a"
  "wfToolboxStatus t \<Longrightarrow> dec_table toolboxStatusTable zeroToolboxStatus (enc_table toolboxStatusTable t) = Some t"
  "dec_table podRefTable p' (enc_table podRefTable p) = Some p"
proof -
  have d: "distinct (map jf_name agentStatusTable)" "distinct (map jf_name toolboxStatusTable)" "distinct (map jf_name podRefTable)"
    by (simp_all add: agentStatusTable_def toolboxStatusTable_def podRefTable_def field_defs)
  show "wfAgentStatus a \<Longrightarrow> dec_table agentStatusTable zeroAgentStatus (enc_table agentStatusTable a) = Some a"
    unfolding dec_enc_table [OF d(1)] by (cases a) (simp add: agentStatusTable_def zeroAgentStatus_def wfAgentStatus_def rereads)
  show "wfToolboxStatus t \<Longrightarrow> dec_table toolboxStatusTable zeroToolboxStatus (enc_table toolboxStatusTable t) = Some t"
    unfolding dec_enc_table [OF d(2)] by (cases t) (simp add: toolboxStatusTable_def zeroToolboxStatus_def wfToolboxStatus_def rereads)
  show "dec_table podRefTable p' (enc_table podRefTable p) = Some p"
    unfolding dec_enc_table [OF d(3)] by (cases p, cases p') (simp add: podRefTable_def rereads)
qed

lemma hibernationSpec_back:
  "dec_table hibernationSpecTable zeroHibernationSpec (enc_table hibernationSpecTable x) = Some x"
proof -
  have d: "distinct (map jf_name hibernationSpecTable)" by (simp add: hibernationSpecTable_def field_defs)
  show ?thesis unfolding dec_enc_table [OF d]
    by (cases x) (simp add: hibernationSpecTable_def zeroHibernationSpec_def rereads plain_back)
qed

lemma api_names [simp]:
  "valid_utf8 ''os''" "valid_utf8 ''backend''" "valid_utf8 ''connType''" "valid_utf8 ''network''"
  "valid_utf8 ''forcePull''" "valid_utf8 ''noDirectIO''" "valid_utf8 ''probePort''" "valid_utf8 ''storage''"
  "valid_utf8 ''resources''" "valid_utf8 ''replicas''" "valid_utf8 ''image''" "valid_utf8 ''mode''"
  "valid_utf8 ''envFrom''" "valid_utf8 ''serviceAccountName''" "valid_utf8 ''name''" "valid_utf8 ''staticIP''"
  "valid_utf8 ''staticVMID''" "valid_utf8 ''vncPort''" "valid_utf8 ''suspend''" "valid_utf8 ''snapshotPolicy''"
  "valid_utf8 ''hibernatePolicy''" "valid_utf8 ''nodePool''" "valid_utf8 ''snapshotCompatibilityClass''"
  "valid_utf8 ''nodeName''" "valid_utf8 ''agent''" "valid_utf8 ''toolboxes''" "valid_utf8 ''slot''"
  "valid_utf8 ''role''" "valid_utf8 ''podName''" "valid_utf8 ''vmName''" "valid_utf8 ''vmID''" "valid_utf8 ''ip''"
  "valid_utf8 ''phase''" "valid_utf8 ''forkedFrom''" "valid_utf8 ''observedGeneration''"
  "valid_utf8 ''readyAgents''" "valid_utf8 ''desiredAgents''" "valid_utf8 ''readyToolboxes''"
  "valid_utf8 ''desiredToolboxes''" "valid_utf8 ''agents''" "valid_utf8 ''conditions''" "valid_utf8 ''podRef''"
  "valid_utf8 ''desire''"
  by (rule valid_utf8_ascii, simp add: cp_def)+

lemma wf_plain:
  "wfAgentStatus a \<Longrightarrow> wf_json (enc_table agentStatusTable a)"
  "wfToolboxStatus t \<Longrightarrow> wf_json (enc_table toolboxStatusTable t)"
  "wfHibernationSpec x \<Longrightarrow> wf_json (enc_table hibernationSpecTable x)"
  by (auto simp: enc_table_def agentStatusTable_def toolboxStatusTable_def podRefTable_def hibernationSpecTable_def field_defs
      wfAgentStatus_def wfToolboxStatus_def wfHibernationSpec_def)

locale api_codecs =
  fixes j :: "('q, 'res, 'env, 'cond) api_json" and wq :: "'q \<Rightarrow> bool" and wr :: "'res \<Rightarrow> bool" and we :: "'env \<Rightarrow> bool"
    and wc :: "'cond \<Rightarrow> bool"
  assumes quantity: "wq q \<Longrightarrow> aj_decQuantity j (aj_zeroQuantity j) (aj_encQuantity j q) = Some q \<and>
      aj_encQuantity j q \<noteq> JNull \<and> wf_json (aj_encQuantity j q)"
    and resources: "wr x \<Longrightarrow> aj_decResources j (aj_zeroResources j) (aj_encResources j x) = Some x \<and> wf_json (aj_encResources j x)"
    and envFrom: "we e \<Longrightarrow> aj_decEnvFrom j (aj_zeroEnvFrom j) (aj_encEnvFrom j e) = Some e \<and> wf_json (aj_encEnvFrom j e)"
    and condition: "wc c \<Longrightarrow> aj_decCondition j (aj_zeroCondition j) (aj_encCondition j c) = Some c \<and> wf_json (aj_encCondition j c)"
begin

lemma lib_back:
  "pred_option wq p \<Longrightarrow> pred_option (\<lambda>y. aj_encQuantity j y \<noteq> JNull \<and> aj_decQuantity j (aj_zeroQuantity j) (aj_encQuantity j y) = Some y) p"
  "wr x \<Longrightarrow> aj_decResources j (aj_zeroResources j) (aj_encResources j x) = Some x"
  "wfSlice we es \<Longrightarrow> wfSlice (\<lambda>y. aj_decEnvFrom j (aj_zeroEnvFrom j) (aj_encEnvFrom j y) = Some y) es"
  "wfSlice wc cs \<Longrightarrow> wfSlice (\<lambda>y. aj_decCondition j (aj_zeroCondition j) (aj_encCondition j y) = Some y) cs"
  using quantity resources by (cases p; auto intro: wfSlice_mono dest: envFrom condition)+

lemma lib_wf:
  "pred_option wq p \<Longrightarrow> p \<noteq> None \<Longrightarrow> wf_json (enc_ptr (aj_encQuantity j) p)" "wr x \<Longrightarrow> wf_json (aj_encResources j x)"
  "wfSlice we es \<Longrightarrow> wf_json (enc_slice (aj_encEnvFrom j) es)" "wfSlice wc cs \<Longrightarrow> wf_json (enc_slice (aj_encCondition j) cs)"
  using quantity resources wf_enc_slice [of we "aj_encEnvFrom j"] wf_enc_slice [of wc "aj_encCondition j"]
    envFrom condition
  by (auto simp: enc_ptr_def)

lemma vmOptions_back: "wfVMOptions wq wr x \<Longrightarrow> reread (vmOptionsTable j) x (zeroVMOptions j) = Some x"
  by (cases x) (simp add: vmOptionsTable_def zeroVMOptions_def wfVMOptions_def rereads lib_back)

lemma names:
  "distinct (map jf_name (agentTable j))" "distinct (map jf_name (toolboxTable j))" "distinct (map jf_name (specTable j))"
  "distinct (map jf_name (statusTable j))" "distinct (map jf_name (hibernationStatusTable j))"
  by (simp_all add: agentTable_def toolboxTable_def specTable_def statusTable_def hibernationStatusTable_def vmOptionsTable_def
      inline_def field_defs)

lemma agent_back: "wfAgentSpec wq wr we x \<Longrightarrow> dec_table (agentTable j) (zeroAgentSpec j) (enc_table (agentTable j) x) = Some (agentBack x)"
  unfolding dec_enc_table [OF names(1)]
  by (cases x) (simp add: agentTable_def zeroAgentSpec_def wfAgentSpec_def agentBack_def rereads lib_back vmOptions_back reread_inline)

lemma toolbox_back: "wfToolboxSpec wq wr x \<Longrightarrow> dec_table (toolboxTable j) (zeroToolboxSpec j) (enc_table (toolboxTable j) x) = Some x"
  unfolding dec_enc_table [OF names(2)]
  by (cases x) (simp add: toolboxTable_def zeroToolboxSpec_def wfToolboxSpec_def rereads lib_back vmOptions_back
      reread_inline [where fs = "[]", simplified])

lemma spec_back: "wfCocoonSetSpec wq wr we x \<Longrightarrow> dec_table (specTable j) (zeroCocoonSetSpec j) (enc_table (specTable j) x) = Some (specBack x)"
proof -
  assume w: "wfCocoonSetSpec wq wr we x"
  then have "wfSlice (\<lambda>t. dec_table (toolboxTable j) (zeroToolboxSpec j) (enc_table (toolboxTable j) t) = Some t) (cs_Toolboxes x)"
    by (auto simp: wfCocoonSetSpec_def intro: wfSlice_mono toolbox_back)
  with w show ?thesis unfolding dec_enc_table [OF names(3)]
    by (cases x) (simp add: specTable_def zeroCocoonSetSpec_def wfCocoonSetSpec_def specBack_def rereads agent_back)
qed

lemma status_back: "wfCocoonSetStatus wc x \<Longrightarrow> dec_table (statusTable j) zeroCocoonSetStatus (enc_table (statusTable j) x) = Some (statusBack x)"
proof -
  assume w: "wfCocoonSetStatus wc x"
  then have "wfSlice (\<lambda>a. dec_table agentStatusTable zeroAgentStatus (enc_table agentStatusTable a) = Some a) (css_Agents x)"
    "wfSlice (\<lambda>t. dec_table toolboxStatusTable zeroToolboxStatus (enc_table toolboxStatusTable t) = Some t) (css_Toolboxes x)"
    by (auto simp: wfCocoonSetStatus_def intro: wfSlice_mono plain_back)
  with w show ?thesis unfolding dec_enc_table [OF names(4)]
    by (cases x) (simp add: statusTable_def zeroCocoonSetStatus_def wfCocoonSetStatus_def statusBack_def rereads lib_back)
qed

lemma hibernationStatus_back:
  "wfHibernationStatus wc x \<Longrightarrow>
   dec_table (hibernationStatusTable j) zeroHibernationStatus (enc_table (hibernationStatusTable j) x) = Some (hibernationStatusBack x)"
  unfolding dec_enc_table [OF names(5)]
  by (cases x) (simp add: hibernationStatusTable_def zeroHibernationStatus_def wfHibernationStatus_def hibernationStatusBack_def
      rereads lib_back)

lemma vmOptions_wf: "wfVMOptions wq wr x \<Longrightarrow> f \<in> set (vmOptionsTable j) \<Longrightarrow> \<not> jf_omit f x \<Longrightarrow> valid_utf8 (jf_name f) \<and> wf_json (jf_enc f x)"
  by (auto simp: vmOptionsTable_def field_defs wfVMOptions_def lib_wf)

lemma inline_wf:
  assumes "wfVMOptions wq wr (get x)" and "f \<in> set (inline get upd (vmOptionsTable j))" and "\<not> jf_omit f x"
  shows "valid_utf8 (jf_name f) \<and> wf_json (jf_enc f x)"
  using assms vmOptions_wf [of "get x"] by (auto simp: inline_def)

lemma agent_wf: "wfAgentSpec wq wr we x \<Longrightarrow> wf_json (enc_table (agentTable j) x)"
  by (rule wf_enc_table) (auto simp: agentTable_def wfAgentSpec_def field_defs lib_wf dest: inline_wf)

lemma toolbox_wf: "wfToolboxSpec wq wr x \<Longrightarrow> wf_json (enc_table (toolboxTable j) x)"
  by (rule wf_enc_table) (auto simp: toolboxTable_def wfToolboxSpec_def field_defs dest: inline_wf)

lemma spec_wf: "wfCocoonSetSpec wq wr we x \<Longrightarrow> wf_json (enc_table (specTable j) x)"
proof -
  assume w: "wfCocoonSetSpec wq wr we x"
  then have "wf_json (enc_slice (enc_table (toolboxTable j)) (cs_Toolboxes x))"
    using wf_enc_slice [of "wfToolboxSpec wq wr"] toolbox_wf by (simp add: wfCocoonSetSpec_def)
  with w show ?thesis
    by (intro wf_enc_table) (auto simp: specTable_def wfCocoonSetSpec_def field_defs agent_wf)
qed

lemma status_wf: "wfCocoonSetStatus wc x \<Longrightarrow> wf_json (enc_table (statusTable j) x)"
proof -
  assume w: "wfCocoonSetStatus wc x"
  then have "wf_json (enc_slice (enc_table agentStatusTable) (css_Agents x))"
    "wf_json (enc_slice (enc_table toolboxStatusTable) (css_Toolboxes x))"
    using wf_enc_slice [of wfAgentStatus] wf_enc_slice [of wfToolboxStatus] wf_plain
    by (simp_all add: wfCocoonSetStatus_def)
  with w show ?thesis
    by (intro wf_enc_table) (auto simp: statusTable_def wfCocoonSetStatus_def field_defs lib_wf)
qed

lemma hibernationStatus_wf: "wfHibernationStatus wc x \<Longrightarrow> wf_json (enc_table (hibernationStatusTable j) x)"
  by (rule wf_enc_table) (auto simp: hibernationStatusTable_def wfHibernationStatus_def field_defs lib_wf)

end

text \<open>Nothing is lost on the way back but the difference between a nil and an empty slice, which the text does not show.\<close>

lemma back_same:
  "enc_table (specTable j) (specBack x) = enc_table (specTable j) x" "specBack (specBack x) = specBack x"
proof -
  have a: "enc_table (agentTable j) (agentBack y) = enc_table (agentTable j) y" for y
    by (cases "as_EnvFrom y") (auto simp: enc_table_def agentTable_def agentBack_def inline_def field_defs opt_field_def nilEmpty_def vmOptionsTable_def)
  show "enc_table (specTable j) (specBack x) = enc_table (specTable j) x"
    unfolding enc_table_def [of "specTable j"]
    by (cases x) (auto simp: a specTable_def specBack_def field_defs opt_field_def nilEmpty_def)
  show "specBack (specBack x) = specBack x" by (simp add: specBack_def agentBack_def nilEmpty_def)
qed

section \<open>A concrete library\<close>

text \<open>Each of the foreign types is a text.\<close>

definition exApiJson :: "(string, string, string, string) api_json" where
  "exApiJson = \<lparr>aj_encQuantity = JStr, aj_decQuantity = dec_string, aj_zeroQuantity = [],
     aj_encResources = JStr, aj_decResources = dec_string, aj_zeroResources = [],
     aj_encEnvFrom = JStr, aj_decEnvFrom = dec_string, aj_zeroEnvFrom = [],
     aj_encCondition = JStr, aj_decCondition = dec_string, aj_zeroCondition = []\<rparr>"

interpretation exApi: api_codecs exApiJson valid_utf8 valid_utf8 valid_utf8 valid_utf8
  by unfold_locales (auto simp: exApiJson_def)

text \<open>A set with two toolboxes, an empty list of environment sources and nothing else.\<close>

definition exApiSpec :: "(string, string, string) jCocoonSetSpec" where
  "exApiSpec = (zeroCocoonSetSpec exApiJson)\<lparr>cs_NodePool := ''pool'',
     cs_Agent := (zeroAgentSpec exApiJson)\<lparr>as_Replicas := 2, as_Image := ''vm'', as_EnvFrom := Some []\<rparr>,
     cs_Toolboxes := Some [(zeroToolboxSpec exApiJson)\<lparr>tb_Name := ''a'', tb_VNCPort := 5900\<rparr>,
       (zeroToolboxSpec exApiJson)\<lparr>tb_Name := ''b''\<rparr>]\<rparr>"

lemma exApi_wf:
  "wfCocoonSetSpec valid_utf8 valid_utf8 valid_utf8 exApiSpec" "wfCocoonSetStatus valid_utf8 zeroCocoonSetStatus"
  "wfHibernationSpec zeroHibernationSpec" "wfHibernationStatus valid_utf8 zeroHibernationStatus"
  by (simp_all add: exApiSpec_def wfCocoonSetSpec_def wfAgentSpec_def wfToolboxSpec_def wfVMOptions_def wfSlice_def
      wfCocoonSetStatus_def wfHibernationSpec_def wfHibernationStatus_def zeroCocoonSetSpec_def zeroAgentSpec_def
      zeroToolboxSpec_def zeroVMOptions_def zeroCocoonSetStatus_def zeroHibernationSpec_def zeroHibernationStatus_def exApiJson_def
      in_int32_def in_int64_def valid_utf8_ascii cp_def)

end
