(* ===== verification/Apis_Objects.thy ===== *)
theory Apis_Objects
  imports Apis_Json
begin

text \<open>
  The JSON form of the root objects of \<^verbatim>\<open>apis/v1\<close> and of their lists, over the tables of \<open>Apis_Json\<close>. The embedded \<^verbatim>\<open>TypeMeta\<close> is
  inlined; \<^verbatim>\<open>ObjectMeta\<close> and \<^verbatim>\<open>ListMeta\<close> have a name of their own. All three are types of another package and come from a record
  \<open>meta_json\<close>, with the locale \<open>object_codecs\<close> saying that they read what they write.

  The lemmas: an object and a list of objects are read back, up to empty slices inside the objects, and what is read
  writes the same text.
\<close>

section \<open>Tables\<close>

record ('tm, 'om, 'lm) meta_json =
  mj_typeMeta :: "'tm jfield list"
  mj_zeroTypeMeta :: 'tm
  mj_encObjectMeta :: "'om \<Rightarrow> json"
  mj_decObjectMeta :: "'om \<Rightarrow> json \<Rightarrow> 'om option"
  mj_zeroObjectMeta :: 'om
  mj_encListMeta :: "'lm \<Rightarrow> json"
  mj_decListMeta :: "'lm \<Rightarrow> json \<Rightarrow> 'lm option"
  mj_zeroListMeta :: 'lm

type_synonym ('q, 'res, 'env, 'cond, 'tm, 'om) jCocoonSet =
  "('tm, 'om, ('q, 'res, 'env) jCocoonSetSpec, 'cond jCocoonSetStatus) CocoonSet"

type_synonym ('cond, 'tm, 'om) jCocoonHibernation =
  "('tm, 'om, CocoonHibernationSpec, 'cond list option CocoonHibernationStatus) CocoonHibernation"

definition setTable ::
  "('q, 'res, 'env, 'cond) api_json \<Rightarrow> ('tm, 'om, 'lm) meta_json \<Rightarrow> ('q, 'res, 'env, 'cond, 'tm, 'om) jCocoonSet jfield list" where
  "setTable j m =
     inline cst_TypeMeta (\<lambda>v x. x\<lparr>cst_TypeMeta := v\<rparr>) (mj_typeMeta m) @
     [structField (mj_encObjectMeta m) (mj_decObjectMeta m) ''metadata'' cst_ObjectMeta (\<lambda>v x. x\<lparr>cst_ObjectMeta := v\<rparr>),
      structField (enc_table (specTable j)) (dec_table (specTable j)) ''spec'' cst_Spec (\<lambda>v x. x\<lparr>cst_Spec := v\<rparr>),
      structField (enc_table (statusTable j)) (dec_table (statusTable j)) ''status'' cst_Status (\<lambda>v x. x\<lparr>cst_Status := v\<rparr>)]"

definition zeroSet ::
  "('q, 'res, 'env, 'cond) api_json \<Rightarrow> ('tm, 'om, 'lm) meta_json \<Rightarrow> ('q, 'res, 'env, 'cond, 'tm, 'om) jCocoonSet" where
  "zeroSet j m = \<lparr>cst_TypeMeta = mj_zeroTypeMeta m, cst_ObjectMeta = mj_zeroObjectMeta m, cst_Spec = zeroCocoonSetSpec j,
     cst_Status = zeroCocoonSetStatus\<rparr>"

definition hibernationTable ::
  "('q, 'res, 'env, 'cond) api_json \<Rightarrow> ('tm, 'om, 'lm) meta_json \<Rightarrow> ('cond, 'tm, 'om) jCocoonHibernation jfield list" where
  "hibernationTable j m =
     inline chn_TypeMeta (\<lambda>v x. x\<lparr>chn_TypeMeta := v\<rparr>) (mj_typeMeta m) @
     [structField (mj_encObjectMeta m) (mj_decObjectMeta m) ''metadata'' chn_ObjectMeta (\<lambda>v x. x\<lparr>chn_ObjectMeta := v\<rparr>),
      structField (enc_table hibernationSpecTable) (dec_table hibernationSpecTable) ''spec'' chn_Spec (\<lambda>v x. x\<lparr>chn_Spec := v\<rparr>),
      structField (enc_table (hibernationStatusTable j)) (dec_table (hibernationStatusTable j)) ''status'' chn_Status
        (\<lambda>v x. x\<lparr>chn_Status := v\<rparr>)]"

definition zeroHibernation :: "('tm, 'om, 'lm) meta_json \<Rightarrow> ('cond, 'tm, 'om) jCocoonHibernation" where
  "zeroHibernation m = \<lparr>chn_TypeMeta = mj_zeroTypeMeta m, chn_ObjectMeta = mj_zeroObjectMeta m,
     chn_Spec = zeroHibernationSpec, chn_Status = zeroHibernationStatus\<rparr>"

text \<open>The items of a list are always written: \<^verbatim>\<open>null\<close> when they are nil.\<close>

definition itemsField ::
  "('a \<Rightarrow> json) \<Rightarrow> ('a \<Rightarrow> json \<Rightarrow> 'a option) \<Rightarrow> 'a \<Rightarrow> ('r \<Rightarrow> 'a list option) \<Rightarrow> ('a list option \<Rightarrow> 'r \<Rightarrow> 'r) \<Rightarrow> 'r jfield" where
  "itemsField enc dec zero = typedField ''items'' (\<lambda>_. False) (enc_slice enc) (dec_slice dec zero)"

definition setListTable ::
  "('q, 'res, 'env, 'cond) api_json \<Rightarrow> ('tm, 'om, 'lm) meta_json \<Rightarrow>
   ('tm, 'lm, ('q, 'res, 'env, 'cond, 'tm, 'om) jCocoonSet list option) CocoonSetList jfield list" where
  "setListTable j m =
     inline csl_TypeMeta (\<lambda>v x. x\<lparr>csl_TypeMeta := v\<rparr>) (mj_typeMeta m) @
     [structField (mj_encListMeta m) (mj_decListMeta m) ''metadata'' csl_ListMeta (\<lambda>v x. x\<lparr>csl_ListMeta := v\<rparr>),
      itemsField (enc_table (setTable j m)) (dec_table (setTable j m)) (zeroSet j m) csl_Items (\<lambda>v x. x\<lparr>csl_Items := v\<rparr>)]"

definition zeroSetList :: "('tm, 'om, 'lm) meta_json \<Rightarrow> ('tm, 'lm, 'a list option) CocoonSetList" where
  "zeroSetList m = \<lparr>csl_TypeMeta = mj_zeroTypeMeta m, csl_ListMeta = mj_zeroListMeta m, csl_Items = None\<rparr>"

definition hibernationListTable ::
  "('q, 'res, 'env, 'cond) api_json \<Rightarrow> ('tm, 'om, 'lm) meta_json \<Rightarrow>
   ('tm, 'lm, ('cond, 'tm, 'om) jCocoonHibernation list option) CocoonHibernationList jfield list" where
  "hibernationListTable j m =
     inline chl_TypeMeta (\<lambda>v x. x\<lparr>chl_TypeMeta := v\<rparr>) (mj_typeMeta m) @
     [structField (mj_encListMeta m) (mj_decListMeta m) ''metadata'' chl_ListMeta (\<lambda>v x. x\<lparr>chl_ListMeta := v\<rparr>),
      itemsField (enc_table (hibernationTable j m)) (dec_table (hibernationTable j m)) (zeroHibernation m) chl_Items
        (\<lambda>v x. x\<lparr>chl_Items := v\<rparr>)]"

definition zeroHibernationList :: "('tm, 'om, 'lm) meta_json \<Rightarrow> ('tm, 'lm, 'a list option) CocoonHibernationList" where
  "zeroHibernationList m = \<lparr>chl_TypeMeta = mj_zeroTypeMeta m, chl_ListMeta = mj_zeroListMeta m, chl_Items = None\<rparr>"

section \<open>What comes back\<close>

definition setBack :: "('q, 'res, 'env, 'cond, 'tm, 'om) jCocoonSet \<Rightarrow> ('q, 'res, 'env, 'cond, 'tm, 'om) jCocoonSet" where
  "setBack x = x\<lparr>cst_Spec := specBack (cst_Spec x), cst_Status := statusBack (cst_Status x)\<rparr>"

definition hibernationBack :: "('cond, 'tm, 'om) jCocoonHibernation \<Rightarrow> ('cond, 'tm, 'om) jCocoonHibernation" where
  "hibernationBack x = x\<lparr>chn_Status := hibernationStatusBack (chn_Status x)\<rparr>"

definition setListBack ::
  "('tm, 'lm, ('q, 'res, 'env, 'cond, 'tm, 'om) jCocoonSet list option) CocoonSetList \<Rightarrow>
   ('tm, 'lm, ('q, 'res, 'env, 'cond, 'tm, 'om) jCocoonSet list option) CocoonSetList" where
  "setListBack x = x\<lparr>csl_Items := map_option (map setBack) (csl_Items x)\<rparr>"

definition hibernationListBack ::
  "('tm, 'lm, ('cond, 'tm, 'om) jCocoonHibernation list option) CocoonHibernationList \<Rightarrow>
   ('tm, 'lm, ('cond, 'tm, 'om) jCocoonHibernation list option) CocoonHibernationList" where
  "hibernationListBack x = x\<lparr>chl_Items := map_option (map hibernationBack) (chl_Items x)\<rparr>"

text \<open>Reading items that come back changed.\<close>

lemma reread_items:
  assumes "wfSlice (\<lambda>y. dec zero (enc y) = Some (again y)) (get x)"
  shows "reread (itemsField enc dec zero get upd # fs) x r = reread fs x (upd (map_option (map again) (get x)) r)"
proof (cases "get x")
  case (Some ys)
  with assms have "list_all (\<lambda>y. dec zero (enc y) = Some (again y)) ys" by (simp add: wfSlice_def)
  then have "dec_elems dec zero (map enc ys) = Some (map again ys)" by (induction ys) simp_all
  with Some show ?thesis
    by (simp add: itemsField_def typedField_def reread.simps(2) dec_slice_def enc_slice_def dec_list_def)
qed (simp add: itemsField_def typedField_def reread.simps(2) dec_slice_def enc_slice_def)

lemma object_names [simp]:
  "valid_utf8 ''metadata''" "valid_utf8 ''spec''" "valid_utf8 ''status''" "valid_utf8 ''items''"
  by (rule valid_utf8_ascii, simp add: cp_def)+

text \<open>The parts are ones that are read back.\<close>

definition wfSet ::
  "('q \<Rightarrow> bool) \<Rightarrow> ('res \<Rightarrow> bool) \<Rightarrow> ('env \<Rightarrow> bool) \<Rightarrow> ('cond \<Rightarrow> bool) \<Rightarrow> ('tm \<Rightarrow> bool) \<Rightarrow> ('om \<Rightarrow> bool) \<Rightarrow>
   ('q, 'res, 'env, 'cond, 'tm, 'om) jCocoonSet \<Rightarrow> bool" where
  "wfSet wq wr we wc wt wo x = (wt (cst_TypeMeta x) \<and> wo (cst_ObjectMeta x) \<and> wfCocoonSetSpec wq wr we (cst_Spec x) \<and>
     wfCocoonSetStatus wc (cst_Status x))"

definition wfHibernation ::
  "('cond \<Rightarrow> bool) \<Rightarrow> ('tm \<Rightarrow> bool) \<Rightarrow> ('om \<Rightarrow> bool) \<Rightarrow> ('cond, 'tm, 'om) jCocoonHibernation \<Rightarrow> bool" where
  "wfHibernation wc wt wo x = (wt (chn_TypeMeta x) \<and> wo (chn_ObjectMeta x) \<and> wfHibernationSpec (chn_Spec x) \<and>
     wfHibernationStatus wc (chn_Status x))"

definition wfSetList ::
  "('q \<Rightarrow> bool) \<Rightarrow> ('res \<Rightarrow> bool) \<Rightarrow> ('env \<Rightarrow> bool) \<Rightarrow> ('cond \<Rightarrow> bool) \<Rightarrow> ('tm \<Rightarrow> bool) \<Rightarrow> ('om \<Rightarrow> bool) \<Rightarrow> ('lm \<Rightarrow> bool) \<Rightarrow>
   ('tm, 'lm, ('q, 'res, 'env, 'cond, 'tm, 'om) jCocoonSet list option) CocoonSetList \<Rightarrow> bool" where
  "wfSetList wq wr we wc wt wo wl x =
     (wt (csl_TypeMeta x) \<and> wl (csl_ListMeta x) \<and> wfSlice (wfSet wq wr we wc wt wo) (csl_Items x))"

definition wfHibernationList ::
  "('cond \<Rightarrow> bool) \<Rightarrow> ('tm \<Rightarrow> bool) \<Rightarrow> ('om \<Rightarrow> bool) \<Rightarrow> ('lm \<Rightarrow> bool) \<Rightarrow>
   ('tm, 'lm, ('cond, 'tm, 'om) jCocoonHibernation list option) CocoonHibernationList \<Rightarrow> bool" where
  "wfHibernationList wc wt wo wl x =
     (wt (chl_TypeMeta x) \<and> wl (chl_ListMeta x) \<and> wfSlice (wfHibernation wc wt wo) (chl_Items x))"

lemma wf_table_fields:
  "wf_json (enc_table fs x) \<Longrightarrow> f \<in> set fs \<Longrightarrow> \<not> jf_omit f x \<Longrightarrow> valid_utf8 (jf_name f) \<and> wf_json (jf_enc f x)"
  by (induction fs) (auto simp: enc_table_def opt_field_def)

lemma inline_names [simp]: "map jf_name (inline get upd fs) = map jf_name fs"
  by (simp add: inline_def)

lemma inline_members:
  "concat (map (\<lambda>f. opt_field (jf_omit f x) (jf_name f) (jf_enc f x)) (inline get upd fs)) =
   concat (map (\<lambda>f. opt_field (jf_omit f (get x)) (jf_name f) (jf_enc f (get x))) fs)"
  by (simp add: inline_def o_def)

section \<open>Round trips\<close>

locale object_codecs = api_codecs j wq wr we wc
  for j :: "('q, 'res, 'env, 'cond) api_json" and wq wr we wc +
  fixes m :: "('tm, 'om, 'lm) meta_json" and wt :: "'tm \<Rightarrow> bool" and wo :: "'om \<Rightarrow> bool" and wl :: "'lm \<Rightarrow> bool"
  assumes meta_names: "distinct (map jf_name (mj_typeMeta m))"
      "set (map jf_name (mj_typeMeta m)) \<inter> {''metadata'', ''spec'', ''status'', ''items''} = {}"
    and typeMeta: "wt t \<Longrightarrow> dec_table (mj_typeMeta m) (mj_zeroTypeMeta m) (enc_table (mj_typeMeta m) t) = Some t \<and>
      wf_json (enc_table (mj_typeMeta m) t)"
    and objectMeta: "wo x \<Longrightarrow> mj_decObjectMeta m (mj_zeroObjectMeta m) (mj_encObjectMeta m x) = Some x \<and> wf_json (mj_encObjectMeta m x)"
    and listMeta: "wl l \<Longrightarrow> mj_decListMeta m (mj_zeroListMeta m) (mj_encListMeta m l) = Some l \<and> wf_json (mj_encListMeta m l)"
begin

lemma typeMeta_back: "wt t \<Longrightarrow> reread (mj_typeMeta m) t (mj_zeroTypeMeta m) = Some t"
  using typeMeta dec_enc_table [OF meta_names(1)] by simp

lemma typeMeta_wf:
  assumes "wt (get x)" and "f \<in> set (inline get upd (mj_typeMeta m))" and "\<not> jf_omit f x"
  shows "valid_utf8 (jf_name f) \<and> wf_json (jf_enc f x)"
  using assms wf_table_fields [of "mj_typeMeta m" "get x"] typeMeta by (auto simp: inline_def)

lemma object_tables:
  "distinct (map jf_name (setTable j m))" "distinct (map jf_name (hibernationTable j m))"
  "distinct (map jf_name (setListTable j m))" "distinct (map jf_name (hibernationListTable j m))"
  using meta_names by (auto simp: setTable_def hibernationTable_def setListTable_def hibernationListTable_def itemsField_def field_defs)

lemma set_back: "wfSet wq wr we wc wt wo x \<Longrightarrow> dec_table (setTable j m) (zeroSet j m) (enc_table (setTable j m) x) = Some (setBack x)"
  unfolding dec_enc_table [OF object_tables(1)]
  by (cases x) (simp add: setTable_def zeroSet_def wfSet_def setBack_def reread_inline rereads typeMeta_back objectMeta spec_back status_back)

lemma hibernation_back:
  "wfHibernation wc wt wo x \<Longrightarrow>
   dec_table (hibernationTable j m) (zeroHibernation m) (enc_table (hibernationTable j m) x) = Some (hibernationBack x)"
  unfolding dec_enc_table [OF object_tables(2)]
  by (cases x) (simp add: hibernationTable_def zeroHibernation_def wfHibernation_def hibernationBack_def reread_inline rereads
      typeMeta_back objectMeta hibernationSpec_back hibernationStatus_back)

lemma set_wf: "wfSet wq wr we wc wt wo x \<Longrightarrow> wf_json (enc_table (setTable j m) x)"
  by (rule wf_enc_table) (auto simp: setTable_def wfSet_def field_defs objectMeta spec_wf status_wf dest: typeMeta_wf)

lemma hibernation_wf: "wfHibernation wc wt wo x \<Longrightarrow> wf_json (enc_table (hibernationTable j m) x)"
  by (rule wf_enc_table)
    (auto simp: hibernationTable_def wfHibernation_def field_defs objectMeta wf_plain hibernationStatus_wf dest: typeMeta_wf)

lemma set_text: "wfSet wq wr we wc wt wo x \<Longrightarrow> viaText (setTable j m) (zeroSet j m) x = Some (setBack x)"
  by (simp add: viaText_def set_wf set_back)

lemma hibernation_text:
  "wfHibernation wc wt wo x \<Longrightarrow> viaText (hibernationTable j m) (zeroHibernation m) x = Some (hibernationBack x)"
  by (simp add: viaText_def hibernation_wf hibernation_back)

lemma setList_text:
  assumes "wfSetList wq wr we wc wt wo wl x"
  shows "viaText (setListTable j m) (zeroSetList m) x = Some (setListBack x)"
proof -
  from assms have w: "wt (csl_TypeMeta x)" "wl (csl_ListMeta x)" "wfSlice (wfSet wq wr we wc wt wo) (csl_Items x)"
    by (simp_all add: wfSetList_def)
  have items: "wfSlice (\<lambda>y. dec_table (setTable j m) (zeroSet j m) (enc_table (setTable j m) y) = Some (setBack y)) (csl_Items x)"
    using w(3) by (rule wfSlice_mono) (rule set_back)
  have "wf_json (enc_slice (enc_table (setTable j m)) (csl_Items x))"
    using wf_enc_slice [of "wfSet wq wr we wc wt wo"] set_wf w(3) by blast
  with w have "wf_json (enc_table (setListTable j m) x)"
    by (intro wf_enc_table) (auto simp: setListTable_def itemsField_def field_defs listMeta dest: typeMeta_wf)
  moreover have "dec_table (setListTable j m) (zeroSetList m) (enc_table (setListTable j m) x) = Some (setListBack x)"
    unfolding dec_enc_table [OF object_tables(3)] using w(1,2) items
    by (cases x) (simp add: setListTable_def zeroSetList_def setListBack_def reread_inline rereads
        reread_items [where again = setBack] typeMeta_back listMeta)
  ultimately show ?thesis by (simp add: viaText_def)
qed

lemma hibernationList_text:
  assumes "wfHibernationList wc wt wo wl x"
  shows "viaText (hibernationListTable j m) (zeroHibernationList m) x = Some (hibernationListBack x)"
proof -
  from assms have w: "wt (chl_TypeMeta x)" "wl (chl_ListMeta x)" "wfSlice (wfHibernation wc wt wo) (chl_Items x)"
    by (simp_all add: wfHibernationList_def)
  have items: "wfSlice (\<lambda>y. dec_table (hibernationTable j m) (zeroHibernation m) (enc_table (hibernationTable j m) y) = Some (hibernationBack y)) (chl_Items x)"
    using w(3) by (rule wfSlice_mono) (rule hibernation_back)
  have "wf_json (enc_slice (enc_table (hibernationTable j m)) (chl_Items x))"
    using wf_enc_slice [of "wfHibernation wc wt wo"] hibernation_wf w(3) by blast
  with w have "wf_json (enc_table (hibernationListTable j m) x)"
    by (intro wf_enc_table) (auto simp: hibernationListTable_def itemsField_def field_defs listMeta dest: typeMeta_wf)
  moreover have "dec_table (hibernationListTable j m) (zeroHibernationList m) (enc_table (hibernationListTable j m) x) =
      Some (hibernationListBack x)"
    unfolding dec_enc_table [OF object_tables(4)] using w(1,2) items
    by (cases x)
      (simp add: hibernationListTable_def zeroHibernationList_def hibernationListBack_def reread_inline rereads
        reread_items [where again = hibernationBack] typeMeta_back listMeta)
  ultimately show ?thesis by (simp add: viaText_def)
qed

end

section \<open>The same text\<close>

lemma status_same: "enc_table (statusTable j) (statusBack x) = enc_table (statusTable j) x"
  by (cases x) (auto simp: enc_table_def statusTable_def statusBack_def field_defs opt_field_def nilEmpty_def)

lemma hibernationStatus_same: "enc_table (hibernationStatusTable j) (hibernationStatusBack x) = enc_table (hibernationStatusTable j) x"
  by (cases x) (auto simp: enc_table_def hibernationStatusTable_def hibernationStatusBack_def field_defs opt_field_def nilEmpty_def)

lemma object_same:
  "enc_table (setTable j m) (setBack x) = enc_table (setTable j m) x"
  "enc_table (hibernationTable j m) (hibernationBack y) = enc_table (hibernationTable j m) y"
proof -
  show "enc_table (setTable j m) (setBack x) = enc_table (setTable j m) x"
    unfolding enc_table_def [of "setTable j m"]
    by (cases x) (simp add: setTable_def setBack_def inline_members field_defs back_same status_same)
  show "enc_table (hibernationTable j m) (hibernationBack y) = enc_table (hibernationTable j m) y"
    unfolding enc_table_def [of "hibernationTable j m"]
    by (cases y) (simp add: hibernationTable_def hibernationBack_def inline_members field_defs hibernationStatus_same)
qed

section \<open>A concrete library\<close>

text \<open>\<^verbatim>\<open>TypeMeta\<close> is a kind and a version, the other two are texts.\<close>

definition exMetaJson :: "(string \<times> string, string, string) meta_json" where
  "exMetaJson = \<lparr>mj_typeMeta = [strField ''kind'' fst (\<lambda>v x. (v, snd x)), strField ''apiVersion'' snd (\<lambda>v x. (fst x, v))],
     mj_zeroTypeMeta = ([], []), mj_encObjectMeta = JStr, mj_decObjectMeta = dec_string, mj_zeroObjectMeta = [],
     mj_encListMeta = JStr, mj_decListMeta = dec_string, mj_zeroListMeta = []\<rparr>"

definition wfTypeMeta :: "string \<times> string \<Rightarrow> bool" where
  "wfTypeMeta t = (valid_utf8 (fst t) \<and> valid_utf8 (snd t))"

lemma exTypeMeta:
  assumes "wfTypeMeta t"
  shows "dec_table (mj_typeMeta exMetaJson) (mj_zeroTypeMeta exMetaJson) (enc_table (mj_typeMeta exMetaJson) t) = Some t"
    and "wf_json (enc_table (mj_typeMeta exMetaJson) t)"
proof -
  have d: "distinct (map jf_name (mj_typeMeta exMetaJson))" by (simp add: exMetaJson_def field_defs)
  show "dec_table (mj_typeMeta exMetaJson) (mj_zeroTypeMeta exMetaJson) (enc_table (mj_typeMeta exMetaJson) t) = Some t"
    unfolding dec_enc_table [OF d] by (simp add: exMetaJson_def rereads)
  have "valid_utf8 ''kind''" "valid_utf8 ''apiVersion''" by (rule valid_utf8_ascii, simp add: cp_def)+
  with assms show "wf_json (enc_table (mj_typeMeta exMetaJson) t)"
    by (intro wf_enc_table) (auto simp: exMetaJson_def field_defs wfTypeMeta_def)
qed

interpretation exObjects: object_codecs exApiJson valid_utf8 valid_utf8 valid_utf8 valid_utf8 exMetaJson wfTypeMeta valid_utf8 valid_utf8
proof unfold_locales
  show "distinct (map jf_name (mj_typeMeta exMetaJson))"
    "set (map jf_name (mj_typeMeta exMetaJson)) \<inter> {''metadata'', ''spec'', ''status'', ''items''} = {}"
    by (auto simp: exMetaJson_def field_defs)
qed (use exTypeMeta in \<open>auto simp: exMetaJson_def\<close>)

text \<open>A list that holds the set of \<open>Apis_Json\<close>.\<close>

definition exObject :: "(string, string, string, string, string \<times> string, string) jCocoonSet" where
  "exObject = (zeroSet exApiJson exMetaJson)\<lparr>cst_TypeMeta := (''CocoonSet'', ''v1''), cst_Spec := exApiSpec\<rparr>"

definition exObjectList ::
  "(string \<times> string, string, (string, string, string, string, string \<times> string, string) jCocoonSet list option) CocoonSetList" where
  "exObjectList = (zeroSetList exMetaJson)\<lparr>csl_Items := Some [exObject]\<rparr>"

lemma exObject_wf:
  "wfSet valid_utf8 valid_utf8 valid_utf8 valid_utf8 wfTypeMeta valid_utf8 exObject"
  "wfHibernation valid_utf8 wfTypeMeta valid_utf8 (zeroHibernation exMetaJson)"
  by (simp_all add: exObject_def zeroSet_def wfSet_def wfHibernation_def zeroHibernation_def exMetaJson_def wfTypeMeta_def exApi_wf
      valid_utf8_ascii cp_def)

lemma exObjectList_wf:
  "wfSetList valid_utf8 valid_utf8 valid_utf8 valid_utf8 wfTypeMeta valid_utf8 valid_utf8 exObjectList"
  "wfHibernationList valid_utf8 wfTypeMeta valid_utf8 valid_utf8 (zeroHibernationList exMetaJson)"
  by (simp_all add: exObjectList_def zeroSetList_def zeroHibernationList_def wfSetList_def wfHibernationList_def exObject_wf wfSlice_def
      exMetaJson_def wfTypeMeta_def valid_utf8_ascii)

end
