(* ===== verification/Spec2Isabelle.thy ===== *)
theory Spec2Isabelle
  imports Pull_Concurrent Snapshot_Transfer Oci_Options Cloudimg Push_Safety Example_Pod K8s_Client_Patch Httpx Admission K8s_Util Pull_Bodies Apis_Objects
begin

text \<open>
  Verification of cocoon-common, the Go library that the cocoonstack projects share: it moves VM
  snapshots and cloud images in and out of an OCI registry (\<^verbatim>\<open>manifest\<close>, \<^verbatim>\<open>ociutil\<close>, \<^verbatim>\<open>oci\<close>, \<^verbatim>\<open>snapshot\<close>, \<^verbatim>\<open>cloudimg\<close>), defines the
  Kubernetes API types and the annotations that its programs exchange (\<^verbatim>\<open>apis/v1\<close>, \<^verbatim>\<open>meta\<close>), and holds helpers for
  clients and servers (\<^verbatim>\<open>k8s\<close>, \<^verbatim>\<open>k8s/admission\<close>, \<^verbatim>\<open>httpx\<close>, \<^verbatim>\<open>log\<close>). This theory imports the development and states the
  properties; the paths below are under \<^verbatim>\<open>src/\<close>.

  \<^bold>\<open>Language and standard library.\<close> \<open>Go_Prelude\<close>: strings and byte slices as lists of characters, maps as finite maps,
  64-bit wrap-around, errors as values with \<^verbatim>\<open>errors.Is\<close>; \<open>Go_Strconv\<close>: decimal formatting and parsing; \<open>Go_Sha256\<close>: the
  hash and hex; \<open>Go_Regexp\<close>: regular expressions by derivatives; \<open>Go_Io\<close>: readers and writers with \<^verbatim>\<open>io.Copy\<close>, \<^verbatim>\<open>io.ReadFull\<close> and
  \<^verbatim>\<open>io.LimitReader\<close>, with the locales \<open>io_reader\<close>, \<open>sticky_reader\<close>, \<open>io_writer\<close> and \<open>io_copy\<close>; \<open>Go_Tar\<close>: tar streams and the tar writer;
  \<open>Go_Json\<close>, \<open>Go_Json_Struct\<close>, \<open>Go_Json_Wf\<close>, \<open>Go_Json_Utf8\<close>: JSON texts, printing, parsing, struct decoding with the case folding
  and omission rules of \<^verbatim>\<open>encoding/json\<close>, and the locale \<open>json_codec\<close> that every JSON type of the program interprets.

  \<^bold>\<open>Manifests.\<close> \<open>Media_Types\<close> (\<^verbatim>\<open>manifest/media.go\<close>) and \<open>Oci_Manifest\<close> (\<^verbatim>\<open>manifest/types.go\<close>): constants, structs with their JSON form, \<^verbatim>\<open>Parse\<close>
  and the two classifiers. Properties: both classifiers agree, manifests and configs survive writing and reading,
  the media types that are written can be read.

  \<^bold>\<open>Registry.\<close> \<open>Ociutil\<close> (\<^verbatim>\<open>ociutil/ociutil.go\<close>): the size checker as a reader, exact copies, references. \<open>Oci_Registry\<close> (\<^verbatim>\<open>oci/oci.go\<close>): every
  method of \<^verbatim>\<open>OCIRegistry\<close> over the client library as the record \<open>Remote\<close>; \<open>Oci_Options\<close>: the option lists of the client as slices over arrays that its sessions share, refined from plain lists. What that library promises is the locale \<open>distribution\<close>, what push and pull need is the
  locale \<open>blob_store\<close>; the client turns the first into the second (\<open>client_refines_store\<close>). An in-memory registry interprets \<open>distribution\<close>, so the
  contract can be met.

  \<^bold>\<open>Snapshots, in sequence.\<close> \<open>Snapshot_Envelope\<close>, \<open>Snapshot_Push\<close> and \<open>Snapshot_Pull\<close> translate \<^verbatim>\<open>snapshot/\<close>: the read loop with spooled and chunked uploads, config and
  manifest, and on the other side config fetch, validation, the plan of the layers, the chunk pipeline and the import tar. The state of a push is the
  record \<open>push_state\<close>; the registry state is threaded through. \<open>Push_Spec\<close>, \<open>Push_Wire\<close> and \<open>Pull_Spec\<close> say what a good export stream
  becomes and prove it inside \<open>blob_store\<close> and, for the reading alone, inside \<open>accepting\<close>; \<open>Snapshot_Roundtrip\<close> joins them. \<open>Push_Safety\<close> (locale \<open>upload_store\<close>) and
  \<open>Pull_Safety\<close> hold for every input and every failure: nothing is written before all checks, a successful pull is complete, sizes and budgets. In these theories the chunk uploads of a push run in the
  order they are queued: they are the reference for the pool.

  \<^bold>\<open>Upload pool.\<close> \<open>Push_Pool\<close> models the goroutines of a push as step relations: the reader of \<^verbatim>\<open>readAndUploadEntries\<close> and \<^verbatim>\<open>enqueueChunks\<close>, and a worker per chunk that takes and puts buffers, asks for the blob, uploads it
  and writes its descriptor into the slice the reader handed out; the error group, its limit and its context, the two buffer pools, the slices and the registry are shared, and the caller may cancel at any time. The record \<open>pool\<close> is a state,
  \<open>pushStates\<close> the reachable ones, and \<open>push_run\<close> a whole \<^verbatim>\<open>Push\<close>. \<open>Push_Pool_Inv\<close> ties every state to the sequential reading, \<open>Push_Pool_Safety\<close> (locale \<open>pool_store\<close>) says what the registry then holds, and \<open>Push_Pool_Live\<close> has progress, termination by a
  measure, and memory. \<open>Push_Concurrent\<close> and \<open>Snapshot_Transfer\<close> conclude: every interleaving has the sequential result, none deadlocks or runs forever, a tag never points at an incomplete snapshot, and what any run of a push stores streams back.

  \<^bold>\<open>Chunk window.\<close> \<open>Buf_Pool\<close> and \<open>Pull_Window\<close> model the goroutines of a parallel pull as step relations: the producer of \<^verbatim>\<open>newChunkSource\<close>, a \<^verbatim>\<open>fetch\<close> per
  chunk that takes and puts buffers, and \<^verbatim>\<open>WriteTo\<close> with \<^verbatim>\<open>drain\<close>. An invariant by rule induction gives, in \<open>Pull_Concurrent\<close>, that every interleaving has the result of the sequential
  loop (a refinement), that none deadlocks or runs forever, and that the buffers stay within the budget.

  \<^bold>\<open>Response bodies.\<close> \<open>Pull_Bodies\<close> follows the bodies that \<^verbatim>\<open>GetBlob\<close> and \<^verbatim>\<open>ReadBlob\<close> hand out: the run of a pull as the list of what happens to each, with the field \<^verbatim>\<open>body\<close> and the \<^verbatim>\<open>Close\<close> of \<^verbatim>\<open>chunkStream\<close>. How much a
  consumer reads and how the fetches of a window interleave are parameters; every body that was opened is closed exactly once and not touched afterwards. Without the bodies, a read is the read of \<open>Snapshot_Pull\<close>.

  \<^bold>\<open>Cloud images.\<close> \<open>Cloudimg\<close> (\<^verbatim>\<open>cloudimg/cloudimg.go\<close>): the stream of the disk layers, and exactly when it succeeds.

  \<^bold>\<open>API types and annotations.\<close> \<open>Apis_V1\<close> (\<^verbatim>\<open>apis/v1\<close>): enums, specs, statuses, the root objects and the validation markers; references and library types are type parameters of the records. \<open>Apis_Json\<close> and \<open>Apis_Objects\<close>: their JSON form as tables of
  fields (locales \<open>api_codecs\<close> and \<open>object_codecs\<close> for the library types). \<open>Go_Heap\<close> is a memory of cells with the
  locale \<open>copier\<close>, the contract of a deep copy; \<open>Deep_Copy\<close> translates the generated copies over it (locale \<open>k8s_copies\<close> for those of the libraries, with a \<open>sublocale\<close> per type) and the registration of the types (locale \<open>scheme_laws\<close>); \<open>K8s_Client_Patch\<close>
  (\<^verbatim>\<open>k8s/clientpatch.go\<close>) has the patches whose base such a copy is. \<open>Meta_Keys\<close>, \<open>Meta_Annotations\<close>, \<open>Meta_Laws\<close>, \<open>Meta_Names\<close> (\<^verbatim>\<open>meta\<close>): keys, the typed
  contracts over pod annotations, names, slots and roles. \<open>K8s_Patch\<close> (\<^verbatim>\<open>k8s/patch.go\<close>): annotation patches, with RFC 7386 as the reference for the server's side. The
  properties: copies share nothing, objects survive their JSON form, a patch base keeps the old value, reading after writing, no interference between contracts, a patch equals a direct write, slots and names.

  \<^bold>\<open>Helpers.\<close> \<open>K8s_Util\<close> (\<^verbatim>\<open>k8s/\<close>, \<^verbatim>\<open>log/\<close>), \<open>Admission\<close> (\<^verbatim>\<open>k8s/admission\<close>), and \<open>Httpx\<close> (\<^verbatim>\<open>httpx\<close>), where \<^verbatim>\<open>Run\<close> is a step relation over its goroutines with its result,
  progress and termination.

  \<^bold>\<open>Concrete instances.\<close> \<open>Example_Snapshot\<close>, \<open>Snapshot_Transfer\<close>, \<open>Pull_Concurrent\<close>, \<open>K8s_Client_Patch\<close> and \<open>Example_Pod\<close> hold small inputs on which the theorems are applied.

  \<^bold>\<open>Loops and fuel.\<close> \<^verbatim>\<open>io.Copy\<close> and \<^verbatim>\<open>io.ReadFull\<close> are \<open>partial_function (option)\<close>: a reader that never makes progress gives \<open>None\<close>, and that they return is
  proved for every reader with a finite amount of work left. The JSON parser has fuel twice the length of the text and two more, which is enough for every
  text it prints. All other loops are structural or have a measure.

  \<^bold>\<open>Outside the model.\<close> Parameters: the registry client library, the zstd codec (its laws are \<open>zstd_laws\<close>), the export command, the clock, the process environment,
  network interfaces, file system, TLS and the Kubernetes client libraries, and how \<^verbatim>\<open>append\<close> grows an array: the capacity an output buffer gets when a chunk is encoded into it (\<open>pl_grow\<close>) and that of an option list (\<open>grow\<close>). Theorems on memory and termination of a push
  assume a common bound \<open>M\<close> of encoded chunks (\<open>grow_ok\<close>); one exists for every codec with bounded expansion. Error texts keep the words of the source, but not the quoting of \<^verbatim>\<open>%q\<close>. Not modelled: log and progress output, closing of codecs and spool files, and the
  build tools under \<^verbatim>\<open>hack\<close>, which are imports only.
\<close>

section \<open>Push and pull\<close>



section \<open>The registry client\<close>



text \<open>
  C3. Calls do not share their context. All clients made from one \<^verbatim>\<open>NewOCIRegistry\<close> share the array of \<^verbatim>\<open>pull\<close>, which may have room for one more option. After any sequence of \<^verbatim>\<open>UploadSession\<close> and \<^verbatim>\<open>callOpts\<close>, on the client, its sessions and theirs, what every client and every
  call reads through its slice is what it would be with lists of their own: the options of \<^verbatim>\<open>NewOCIRegistry\<close>, one pusher for a session, and for a call the options of its client with its own context at the end.
\<close>

theorem call_options:
  assumes "NewOCIRegistry grow NewPuller transport root keychain h = (client, h')"
    and "pull = [Some (WithAuthFromKeychain keychain), Some (WithTransport transport)]"
    and "opts = (case NewPuller pull of Inr puller \<Rightarrow> pull @ [Some (ReusePuller puller)] | Inl _ \<Rightarrow> pull)"
  shows "abs_clients (fold (client_step grow) ops \<lparr>cl_clients = [client], cl_calls = [], cl_heap = h'\<rparr>) =
    fold list_step ops \<lparr>li_clients = [(opts, opts)], li_calls = []\<rparr>"
  using client_run_refines [OF NewOCIRegistry_new(1) [OF assms(1)], of grow ops] NewOCIRegistry_new(2,4) [OF assms(1)]
  unfolding assms(3) unfolding assms(2) by (simp add: abs_clients_def Let_def)

theorem call_options_witness:
  "let (client, h) = NewOCIRegistry (\<lambda>n. 2 * n) (\<lambda>_. Inr ''puller'') () ''root'' () []
   in li_calls (abs_clients (fold (client_step (\<lambda>n. 2 * n)) [OpCall 0 ''first'', OpSession 0 (\<lambda>_. Inr ''pusher''), OpCall 0 ''second'']
     \<lparr>cl_clients = [client], cl_calls = [], cl_heap = h\<rparr>)) =
     map (map Some) [[WithAuthFromKeychain (), WithTransport (), ReusePuller ''puller'', WithContext ''first''],
       [WithAuthFromKeychain (), WithTransport (), ReusePuller ''puller'', WithContext ''second'']]"
proof -
  obtain client :: registry_options and h :: "(unit, unit, string, string, string) option' arrays" where
    c: "NewOCIRegistry (\<lambda>n. 2 * n) (\<lambda>_. Inr ''puller'') () ''root'' () [] = (client, h)" by fastforce
  show ?thesis unfolding c prod.case Let_def call_options [OF c refl refl] by (simp add: Let_def)
qed



text \<open>
  C5. \<^verbatim>\<open>CopyBlobSized\<close> returns on every body that makes progress. Into a buffer it reports success if and only if the body has exactly the announced number of bytes and ends cleanly
  (a negative size counts as 0), and then the buffer has received exactly those bytes: neither a short nor a long body passes.
\<close>

theorem blob_copied_exactly:
  assumes "rd_progress body"
  shows "\<exists>e dst'. CopyBlobSized buf_write dst body digest sz = Some (e, dst') \<and>
    (e = None \<longleftrightarrow> int (length (rd_content body)) = max 0 sz \<and> errors_is (rd_end body) EOF) \<and>
    (e = None \<longrightarrow> dst' = dst @ rd_content body)"
proof -
  note w = buf.io_writer_axioms
  from CopyBlobSized_total [OF w assms, of dst digest sz] obtain e dst' where c: "CopyBlobSized buf_write dst body digest sz = Some (e, dst')"
      "blob_complete body sz \<longrightarrow> e = None" by auto
  moreover have "blob_complete body sz \<and> dst' = dst @ rd_content body" if e: "e = None"
    using CopyBlobSized_ok(1,2) [OF w assms TrueI c(1) [unfolded e]] by blast
  ultimately show ?thesis unfolding blob_complete_def by blast
qed

theorem blob_copied_exactly_witness:
  "\<exists>dst'. CopyBlobSized buf_write [] (rd_of_bytes ''abc'') ''sha256:x'' 3 = Some (None, dst') \<and> dst' = ''abc''"
  using blob_copied_exactly [of "rd_of_bytes ''abc''" "[]" "''sha256:x''" 3]
  by (auto simp: rd_of_bytes_def rd_progress_def rd_content_def)

section \<open>Pushing\<close>

text \<open>
  C6. The workers do not show. In whatever order the goroutines of \<^verbatim>\<open>readAndUploadEntries\<close> ran, once it has returned over a registry that does not fail and with a context that was not canceled,
  its result is the one of the sequential reading of the same stream: the same config, files and layers, in the order of the stream, or the same error of a malformed stream.
\<close>

theorem push_refines:
  assumes "pushStates ev up opts grow s r q" and "q_reader q = AtDone res" and "q_ctx q = None"
    and "reliable up (o_Name opts)"
  shows "res = fst (readAndUploadEntries ev up opts s r)"
  using assms by (rule pushStates_reliable)

theorem push_refines_witness:
  "\<exists>q. pushStates exEnv (ociUploader exRegistry) exOpts exGrow exStream exMem q \<and>
    q_reader q = AtDone (fst (readAndUploadEntries exEnv (ociUploader exRegistry) exOpts exStream exMem))"
proof -
  from ex_pool_done obtain q res where q: "pushStates exEnv (ociUploader exRegistry) exOpts exGrow exStream exMem q"
    "q_reader q = AtDone res" "q_ctx q = None" by blast
  from push_refines [OF q] ex_reliable q show ?thesis by (auto simp: exOpts_def)
qed

text \<open>
  C7. A push comes back. As long as \<^verbatim>\<open>readAndUploadEntries\<close> has not returned, its reader or one of its workers can make a step, although both wait for free buffers and the reader waits for the workers: the two buffer pools are
  large enough. It can always run on to its end, and no schedule is infinite, whatever the registry answers and whether or not the caller cancels. Encoded chunks have some common bound \<open>M\<close>.
\<close>

theorem push_returns:
  assumes "pushStates ev up opts grow s r q" and "pipelineParams opts = Inr (w, cs)"
    and "P = pushPool ev up opts grow w cs s" and "grow_ok P M"
  shows "((\<exists>res. q_reader q = AtDone res) \<or> (\<exists>q'. reader_step P q q' \<or> (\<exists>i < length (q_workers q). worker_step P i q q'))) \<and>
    (\<exists>q' res. pool_reach P q q' \<and> q_reader q' = AtDone res \<and> q_ctx q' = q_ctx q) \<and>
    (\<nexists>f. f 0 = q \<and> (\<forall>i :: nat. pool_step P (f i) (f (Suc i))))"
proof -
  have v: "live_inv P M q" using pushStates_live [OF assms(1,2)] assms(3,4) by simp
  show ?thesis
    using pool_progress [OF v assms(4)] pool_ends [OF v assms(4)] pool_no_infinite_run [of P M, OF _ assms(4)] v by blast
qed

theorem push_returns_witness:
  "\<exists>q res. pool_reach (pushPool exEnv (ociUploader exRegistry) exOpts exGrow 8 (256 * 2 ^ 20) exStream)
    (newPool (pushPool exEnv (ociUploader exRegistry) exOpts exGrow 8 (256 * 2 ^ 20) exStream) (ts_entries exStream) exMem) q \<and>
    q_reader q = AtDone res"
proof -
  have g: "grow_ok (pushPool exEnv (ociUploader exRegistry) exOpts exGrow 8 (256 * 2 ^ 20) exStream) (256 * 2 ^ 20)"
    using exGrow_ok [of "ociUploader exRegistry" "o_Tag exOpts" exStream] by simp
  from push_returns [OF pushStates_start [OF exParams] exParams refl g] show ?thesis by blast
qed

text \<open>
  C8. The memory of a push. In every reachable state, all buffers together, held or free, stay within the budget, up to the bytes by which an encoded chunk may be larger than a chunk (\<open>M\<close> bounds encoded chunks: with \<open>M = cs\<close> it is the budget itself);
  at most \<open>w\<close> workers run, \<open>w\<close> being at least one and no more than were asked for; and after the return both pools have all of their buffers again.
\<close>

theorem push_memory:
  assumes "pushStates ev up opts grow s r q" and "pipelineParams opts = Inr (w, cs)" and "0 < cs"
    and "grow_ok (pushPool ev up opts grow w cs s) M"
  shows "push_bytes q \<le> pushBudget opts + (w + 1) * (M - cs) \<and> int (running q) \<le> w \<and>
    1 \<le> w \<and> (0 < o_Concurrency opts \<longrightarrow> w \<le> o_Concurrency opts) \<and>
    (\<forall>res. q_reader q = AtDone res \<longrightarrow> length (bp_free (q_raw q)) = nat w + 1 \<and> length (bp_free (q_out q)) = nat w + 1)"
proof -
  note v = pushStates_live [OF assms(1,2,4)]
  have "running q \<le> nat w" using v by (simp add: live_inv_def)
  moreover have "length (bp_free (q_raw q)) = nat w + 1 \<and> length (bp_free (q_out q)) = nat w + 1" if "q_reader q = AtDone res" for res
    using pool_returned [OF v that] by (simp add: pool_ok_def)
  ultimately show ?thesis using pushStates_budget [OF assms] pipelineParams_budget [OF assms(2)] by auto
qed

theorem push_memory_witness:
  "\<exists>q. pushStates exEnv (ociUploader exRegistry) exOpts exGrow exStream exMem q \<and> push_bytes q \<le> pushBudget exOpts \<and>
    length (bp_free (q_raw q)) = 9 \<and> length (bp_free (q_out q)) = 9"
proof -
  have g: "grow_ok (pushPool exEnv (ociUploader exRegistry) exOpts exGrow 8 (256 * 2 ^ 20) exStream) (256 * 2 ^ 20)"
    using exGrow_ok [of "ociUploader exRegistry" "o_Tag exOpts" exStream] by simp
  from ex_pool_done obtain q res where q: "pushStates exEnv (ociUploader exRegistry) exOpts exGrow exStream exMem q"
    "q_reader q = AtDone res" by blast
  from push_memory [OF q(1) exParams _ g] q show ?thesis by auto
qed

text \<open>
  C9. A tag never points at an incomplete snapshot. Over any uploader whose \<^verbatim>\<open>HasBlob\<close> and \<^verbatim>\<open>PutBlob\<close> tell the truth and leave the tags alone,
  every run of \<^verbatim>\<open>Push\<close>, in any interleaving of its workers and canceled or not, either fails with the tags unchanged, or ends with one \<^verbatim>\<open>PutManifest\<close> whose manifest names only blobs that are
  already there, and its result is the result of that call.
\<close>

theorem push_atomic:
  assumes "upload_store (pushUploader p) has tags" and "push_run ev p opts grow r ctx res r'"
  shows "(res \<noteq> None \<and> tags r' = tags r) \<or>
    (\<exists>m r1 e. tags r1 = tags r \<and> (\<forall>d \<in> set (m_Config m # m_Layers m). has r1 (o_Name opts) (d_Digest d)) \<and>
      up_PutManifest (pushUploader p) (o_Name opts) (or_str (o_Tag opts) ''latest'') (json_marshal_indent (enc_manifest m))
        MediaTypeOCIManifest r1 = (e, r') \<and> (res = None \<longleftrightarrow> e = None))"
  using assms by (rule push_run_atomic)

theorem push_atomic_witness:
  "\<exists>r' m r1. push_run exEnv exPusher exOpts exGrow exMem None None r' \<and> mem_tags r1 = mem_tags exMem \<and>
    up_PutManifest (ociUploader exRegistry) ''vm'' ''latest'' (json_marshal_indent (enc_manifest m))
      MediaTypeOCIManifest r1 = (None, r')"
proof -
  from ex_push_run obtain res r' where run: "push_run exEnv exPusher exOpts exGrow exMem None res r'" by blast
  then have res: "res = None" using ex_push_pull by blast
  have up: "pushUploader exPusher = ociUploader \<lparr>base = mem_root, remote = mem_remote\<rparr>"
    by (simp add: pushUploader_def exPusher_def exRegistry_def UploadSession_def)
  from push_atomic [OF _ run, unfolded up, OF memUpload.upload_store_axioms] run res show ?thesis
    by (auto simp: exOpts_def or_str_def exRegistry_def)
qed

text \<open>
  C10. The one input on which a push panics: \<^verbatim>\<open>hdr.Size + chunkSize - 1\<close> overflows \<^verbatim>\<open>int64\<close> for a header whose size is less than a chunk
  below the maximum. The count becomes negative, is not above the limit, and \<^verbatim>\<open>make\<close> panics instead of the error that
  the limit was to give.
\<close>

theorem chunk_count_overflow:
  assumes "0 < chunkSize" and "chunkSize \<le> 2 ^ 32" and "2 ^ 63 - chunkSize < h_Size (e_hdr e)" and "h_Size (e_hdr e) < 2 ^ 63"
  shows "enqueueChunks ev up level name e chunkSize compress wait r =
    (Some (GoPanic ''makeslice: len out of range''), [], wait, r)"
  using assms by (rule enqueueChunks_overflow)

theorem chunk_count_overflow_witness:
  "enqueueChunks exEnv (ociUploader exRegistry) 3 ''vm''
     \<lparr>e_hdr = exHeader ''disk.raw'' (2 ^ 63 - 1), e_body = rd_of_bytes []\<rparr> (256 * 2 ^ 20) False None exMem =
   (Some (GoPanic ''makeslice: len out of range''), [], None, exMem)"
  by (rule chunk_count_overflow) (simp_all add: exHeader_def)




section \<open>The chunk window\<close>





text \<open>
  C15. The memory of a pull. In every state of the window the capacities of the buffers in the two pools and in the hands of the
  goroutines sum to at most the budget that \<^verbatim>\<open>newChunkPipeline\<close> was given.
\<close>

theorem window_within_budget:
  "pullWindow ev dl name entries prefetch budget e r tw s \<Longrightarrow> in_int64 budget \<Longrightarrow> window_bytes s \<le> budget"
  by (rule pullWindow_budget)

theorem window_within_budget_witness:
  "let p = newChunkPipeline [exPlan] 2 100; P = pullSource exEnv (ociDownloader exRegistry) ''vm'' p exPlan exMem in
   window_bytes (newWindow P (newBufPool (nat (cp_window p))) (newBufPool (nat (cp_window p) + 1)) exTar) \<le> 100"
  using window_within_budget [OF pullWindow_start [OF exPlan_window, of exEnv "ociDownloader exRegistry" "''vm''" exMem exTar]]
  unfolding Let_def by (simp add: in_int64_def)

text \<open>
  C16. The slice expression \<^verbatim>\<open>buf[:desc.Size]\<close> of \<^verbatim>\<open>chunkPipeline.read\<close> is in range: once \<^verbatim>\<open>validateSnapshotLayers\<close> has accepted the
  manifest and \<^verbatim>\<open>planLayers\<close> has made the plan, every chunk that a window fetches has a size from 0 to the
  capacity of the buffer it is read into, whatever sizes the manifest claims.
\<close>

theorem chunks_fit_buffers:
  assumes "validateSnapshotLayers m cfg = None" and "planLayers cfg (m_Layers m) = Inr entries"
    and "e \<in> set entries" and "d \<in> set (lp_descs e)" and "p = newChunkPipeline entries prefetch budget"
    and "2 \<le> fileWindow p e"
  shows "0 \<le> d_Size d \<and> d_Size d \<le> (if lp_zstd e then cp_inputCap p else cp_outputCap p)"
  using planned_fits [OF assms(1-4)] assms(5,6) by blast

theorem chunks_fit_buffers_witness:
  "\<exists>d. d \<in> set (lp_descs exPlan) \<and> 2 \<le> fileWindow (newChunkPipeline [exPlan] 2 100) exPlan \<and> 0 \<le> d_Size d"
proof -
  have d: "exChunk \<in> set (lp_descs exPlan)" by (simp add: lp_descs_def exPlan_def)
  from chunks_fit_buffers [OF exPlan_valid exPlan_planned _ d refl exPlan_window] d exPlan_window show ?thesis by auto
qed

section \<open>Pulling\<close>

text \<open>
  C17. No silent truncation. When \<^verbatim>\<open>Stream\<close> returns nil, the import tar holds \<^verbatim>\<open>snapshot.json\<close> and then one entry for every file of
  the plan, in the order of the plan, and every entry has as many bytes as its header says.
\<close>

theorem stream_complete:
  assumes "Stream ev raw dl opts r = (None, tw)"
  shows "\<exists>m cfg entries. resolveManifest raw dl (so_Name opts) r = Inr m \<and>
    FetchSnapshotConfig dl (so_Name opts) (m_Config m) r = Inr cfg \<and> planLayers cfg (m_Layers m) = Inr entries \<and>
    complete_entries (tw_entries tw) \<and>
    map (h_Name \<circ> fst) (tw_entries tw) = snapshotJSONName # map lp_title entries"
  using assms by (rule Stream_complete)

theorem stream_complete_witness:
  "\<exists>raw r tw. Stream exEnv raw (ociDownloader exRegistry) exStreamOpts r = (None, tw) \<and>
    complete_entries (tw_entries tw) \<and> (\<exists>names. map (h_Name \<circ> fst) (tw_entries tw) = snapshotJSONName # names)"
proof -
  from ex_streams obtain raw r tw where s: "Stream exEnv raw (ociDownloader exRegistry) exStreamOpts r = (None, tw)" by blast
  from stream_complete [OF s] have "complete_entries (tw_entries tw)"
      "\<exists>names. map (h_Name \<circ> fst) (tw_entries tw) = snapshotJSONName # names" by auto
  with s show ?thesis by (intro exI [of _ raw] exI [of _ r] exI [of _ tw] conjI) simp_all
qed

text \<open>
  C18. Checks before effects. If the tar holds any entry at all, even when \<^verbatim>\<open>Stream\<close> failed later, then the manifest was
  a snapshot, its config was read and verified, the layers were accepted, the plan was complete and the envelope
  was built.
\<close>

theorem stream_guarded:
  assumes "Stream ev raw dl opts r = (err, tw)" and "tw_entries tw \<noteq> []"
  shows "\<exists>m cfg entries data. resolveManifest raw dl (so_Name opts) r = Inr m \<and> ClassifyParsed m = KindSnapshot \<and>
    FetchSnapshotConfig dl (so_Name opts) (m_Config m) r = Inr cfg \<and> validateSnapshotLayers m cfg = None \<and>
    planLayers cfg (m_Layers m) = Inr entries \<and>
    MarshalEnvelope cfg (or_str (so_LocalName opts) (so_Name opts)) = Inr data"
  using assms by (rule Stream_guarded)

theorem stream_guarded_witness:
  "\<exists>raw r tw m. Stream exEnv raw (ociDownloader exRegistry) exStreamOpts r = (None, tw) \<and>
    resolveManifest raw (ociDownloader exRegistry) ''vm'' r = Inr m \<and> ClassifyParsed m = KindSnapshot"
proof -
  from ex_streams obtain raw r tw where s: "Stream exEnv raw (ociDownloader exRegistry) exStreamOpts r = (None, tw)"
      and "tw_entries tw \<noteq> []" by blast
  from stream_guarded [OF this] s show ?thesis by (auto simp: exStreamOpts_def)
qed



section \<open>Manifests\<close>

text \<open>
  C20. Whenever \<^verbatim>\<open>Parse\<close> accepts a manifest, \<^verbatim>\<open>Classify\<close> on the same bytes succeeds and agrees with
  \<^verbatim>\<open>ClassifyParsed\<close>: the small probe struct reads the same three fields as the full one.
\<close>

theorem Classify_agrees: "Parse raw = Inr m \<Longrightarrow> Classify raw = Inr (ClassifyParsed m)"
  by (rule Classify_Parse)

theorem Classify_agrees_witness:
  "Classify (json_marshal_indent (enc_manifest (zeroManifest\<lparr>m_ArtifactType := ArtifactTypeSnapshotV2\<rparr>))) = Inr KindSnapshot"
proof -
  let ?m = "zeroManifest\<lparr>m_ArtifactType := ArtifactTypeSnapshotV2\<rparr>"
  have "wf_manifest ?m"
    by (simp add: wf_manifest_def zeroManifest_def wf_descriptor_def zeroDescriptor_def in_int64_def)
  from Classify_agrees [OF Parse_enc [OF this]] show ?thesis
    by (simp add: ClassifyParsed_def classifyFields_def zeroManifest_def zeroDescriptor_def media_consts)
qed

text \<open>
  C21. \<^verbatim>\<open>Parse\<close> inverts the writing of a manifest: descriptors, annotations, platforms, omitted and present fields all come back.
  Well formed means that the texts are UTF-8 and the integers fit 64 bits.
\<close>

theorem manifest_roundtrip: "wf_manifest m \<Longrightarrow> Parse (json_marshal_indent (enc_manifest m)) = Inr m"
  by (rule Parse_enc)

theorem manifest_roundtrip_witness: "Parse (json_marshal_indent (enc_manifest exManifest)) = Inr exManifest"
proof -
  have "valid_utf8 ArtifactTypeSnapshotV2" "valid_utf8 MediaTypeDiskRaw" "valid_utf8 ''sha256:ab''"
      "valid_utf8 AnnotationTitle" "valid_utf8 ''disk.raw''"
    by (rule valid_utf8_ascii, simp add: cp_def media_consts)+
  then have "wf_manifest exManifest"
    by (simp add: wf_manifest_def exManifest_def exChunk_def zeroManifest_def wf_descriptor_def zeroDescriptor_def in_int64_def)
  then show ?thesis by (rule manifest_roundtrip)
qed

text \<open>
  C22. The config blob of a snapshot: decoding the JSON written for a well-formed config gives the config, fields omitted when empty included.
\<close>

theorem config_roundtrip:
  "wf_config c \<Longrightarrow> Option.bind (json_unmarshal (configData c)) (dec_config zeroConfig) = Some c"
  unfolding configData_def by (rule conf.unmarshal_enc)

theorem config_roundtrip_witness:
  "Option.bind (json_unmarshal (configData exChunked)) (dec_config zeroConfig) = Some exChunked"
proof -
  have "valid_utf8 ''sha256:ab''" "valid_utf8 ''disk.raw''"
    by (rule valid_utf8_ascii, simp add: cp_def)+
  then have "wf_config exChunked"
    by (auto simp: wf_config_def exChunked_def exChunk_def zeroConfig_def wf_file_def zeroFile_def in_int64_def wf_time_def
        intro!: fmpred_upd)
  then show ?thesis by (rule config_roundtrip)
qed

text \<open>
  C23. Which references are relative, and how they are split: \<^verbatim>\<open>IsRelativeRef\<close> holds exactly when \<^verbatim>\<open>ParseRef\<close> cuts the text into a repository and a digest, or a repository and a tag,
  each in the language of its pattern, and the text is those parts joined (or the repository alone, with the tag \<^verbatim>\<open>latest\<close>). So the four-way cutting of \<^verbatim>\<open>ParseRef\<close> loses nothing.
\<close>

theorem relative_refs:
  "IsRelativeRef ref \<longleftrightarrow>
     (\<exists>repo reference. ParseRef ref = (repo, reference) \<and> re_in relRepo repo \<and>
        (re_in relDigest reference \<and> ref = repo @ CHR ''@'' # reference \<or>
         re_in relTag reference \<and> (ref = repo @ CHR '':'' # reference \<or> ref = repo \<and> reference = ''latest'')))"
proof
  assume "IsRelativeRef ref"
  moreover obtain repo reference where "ParseRef ref = (repo, reference)" by fastforce
  ultimately show "\<exists>repo reference. ParseRef ref = (repo, reference) \<and> re_in relRepo repo \<and>
      (re_in relDigest reference \<and> ref = repo @ CHR ''@'' # reference \<or>
       re_in relTag reference \<and> (ref = repo @ CHR '':'' # reference \<or> ref = repo \<and> reference = ''latest''))"
    using IsRelativeRef_shape by blast
qed (use IsRelativeRef_complete in blast)

section \<open>Cloud images\<close>



section \<open>API objects\<close>

text \<open>
  C25. Copies are deep. Given that the types of other packages are copied deeply, \<^verbatim>\<open>DeepCopyObject\<close> of a set, a hibernation or a list of them returns an object of the same value that has no cell of memory in common with the original;
  it leaves the original as it was, and any write to the cells of the original, or to new memory, leaves the copy as it is.
\<close>

theorem deep_copy_separate:
  assumes "k8s_copies lib lval lfoot lok" and "objectOk lok h x"
  shows "\<exists>y h'. DeepCopyObject lib x h = (Some y, h') \<and> objectVal lval h' y = objectVal lval h x \<and>
    objectVal lval h' x = objectVal lval h x \<and> objectFoot lfoot h' y \<inter> objectFoot lfoot h' x = {} \<and>
    (\<forall>h''. same_on ({..<length h'} - objectFoot lfoot h' x) h' h'' \<longrightarrow> objectVal lval h'' y = objectVal lval h x)"
  using assms by (rule k8s_copies.object_separated)

theorem deep_copy_separate_witness:
  "\<exists>y h'. DeepCopyObject exLib (ObjCocoonSet exSet) exHeap = (Some y, h') \<and>
    objectVal exVal h' y = objectVal exVal exHeap (ObjCocoonSet exSet) \<and>
    objectFoot exFoot h' y \<inter> objectFoot exFoot h' (ObjCocoonSet exSet) = {}"
  using deep_copy_separate [OF exK8s.k8s_copies_axioms, of exHeap "ObjCocoonSet exSet"] exSet_ok by (auto simp: objectOk_def)

text \<open>
  C26. A merge patch is computed against what the object was. The mutator given to \<^verbatim>\<open>Patch\<close> or \<^verbatim>\<open>PatchStatus\<close> changes a set in place, its fields and the arrays it refers to, and starts from the object's value; the client then receives the changed object and a
  base whose value is the one before the change, so that the difference is exactly what the mutator did. The mutator writes to nothing that does not belong to the object.
\<close>

theorem patch_base_kept:
  assumes "k8s_copies lib lval lfoot lok" and "setOk lok h obj" and "in_place (setFoot lfoot) mutate"
  shows "\<exists>b h1 obj' h2. mutate obj h1 = (obj', h2) \<and> setVal lval h1 obj = setVal lval h obj \<and> setVal lval h2 b = setVal lval h obj \<and>
    Patch (CocoonSet_DeepCopy lib) ctx cli obj mutate h = cl_Patch cli ctx obj' \<lparr>mf_base = Some b\<rparr> h2 \<and>
    PatchStatus (CocoonSet_DeepCopy lib) ctx cli obj mutate h = cl_Status_Patch cli ctx obj' \<lparr>mf_base = Some b\<rparr> h2"
  using assms by (rule set_patched)

theorem patch_base_kept_witness:
  "let send = (\<lambda>ctx obj patch h. (map_option (setVal exVal h) (mf_base patch), h)) in
   fst (Patch (CocoonSet_DeepCopy exLib) () \<lparr>cl_Patch = send, cl_Status_Patch = send\<rparr> exSet exMutate exHeap) =
     Some (setVal exVal exHeap exSet) \<and>
   setVal exVal (snd (exMutate exSet exHeap)) exSet \<noteq> setVal exVal exHeap exSet"
proof -
  let ?send = "\<lambda>ctx obj patch h. (map_option (setVal exVal h) (mf_base patch), h)"
  from patch_base_kept [OF exK8s.k8s_copies_axioms exSet_ok exMutate_in_place, of "()" "\<lparr>cl_Patch = ?send, cl_Status_Patch = ?send\<rparr>"]
  obtain b h1 obj' h2 where "setVal exVal h2 b = setVal exVal exHeap exSet"
    "Patch (CocoonSet_DeepCopy exLib) () \<lparr>cl_Patch = ?send, cl_Status_Patch = ?send\<rparr> exSet exMutate exHeap =
      ?send () obj' \<lparr>mf_base = Some b\<rparr> h2" by auto
  then show ?thesis using exMutate_changes by (simp add: Let_def)
qed

text \<open>
  C27. The API server stores what a client sent. Each struct is written by the table of its tags, with the fields of an embedded \<^verbatim>\<open>VMOptions\<close> or \<^verbatim>\<open>TypeMeta\<close> among those of the outer struct, and read from the text into a fresh value: it comes back the same, but for the empty slices that
  \<^verbatim>\<open>omitempty\<close> leaves out, which are nil afterwards. That difference is not one of the text: the object that comes back writes the same JSON, so that an update with it changes nothing.
\<close>

theorem api_roundtrip:
  assumes "object_codecs j wq wr we wc m wt wo wl"
    and "wfSet wq wr we wc wt wo s" and "wfHibernation wc wt wo h"
    and "wfSetList wq wr we wc wt wo wl ss" and "wfHibernationList wc wt wo wl hs"
  shows "viaText (setTable j m) (zeroSet j m) s = Some (setBack s) \<and> enc_table (setTable j m) (setBack s) = enc_table (setTable j m) s \<and>
    viaText (hibernationTable j m) (zeroHibernation m) h = Some (hibernationBack h) \<and>
    enc_table (hibernationTable j m) (hibernationBack h) = enc_table (hibernationTable j m) h \<and>
    viaText (setListTable j m) (zeroSetList m) ss = Some (setListBack ss) \<and>
    viaText (hibernationListTable j m) (zeroHibernationList m) hs = Some (hibernationListBack hs)"
  using object_codecs.set_text [OF assms(1,2)] object_codecs.hibernation_text [OF assms(1,3)]
    object_codecs.setList_text [OF assms(1,4)] object_codecs.hibernationList_text [OF assms(1,5)] object_same by blast

theorem api_roundtrip_witness:
  "\<exists>s. viaText (setTable exApiJson exMetaJson) (zeroSet exApiJson exMetaJson) exObject = Some s \<and>
    map_option length (cs_Toolboxes (cst_Spec s)) = Some 2 \<and> as_Replicas (cs_Agent (cst_Spec s)) = 2 \<and>
    as_EnvFrom (cs_Agent (cst_Spec s)) = None \<and> as_EnvFrom (cs_Agent (cst_Spec exObject)) = Some []"
proof (intro exI conjI)
  show "viaText (setTable exApiJson exMetaJson) (zeroSet exApiJson exMetaJson) exObject = Some (setBack exObject)"
    using api_roundtrip [OF exObjects.object_codecs_axioms exObject_wf exObjectList_wf] by blast
qed (simp_all add: exObject_def setBack_def exApiSpec_def specBack_def agentBack_def nilEmpty_def)

section \<open>Annotations\<close>

text \<open>
  C28. \<^verbatim>\<open>VMSpec.Apply\<close> followed by \<^verbatim>\<open>ParseVMSpec\<close> gives the new spec merged over the one the pod had, field by field (a field that is empty or false keeps the old annotation), and every other annotation is untouched.
  On a pod without annotations the spec itself comes back.
\<close>

theorem vmspec_merged:
  "ParseVMSpec (VMSpec_Apply spec pod) = VMSpec_merge spec (ParseVMSpec pod) \<and>
   ParseVMSpec (VMSpec_Apply spec (pod\<lparr>pod_Annotations := None\<rparr>)) = spec \<and>
   (k \<notin> set vmSpecKeys \<longrightarrow> anno (VMSpec_Apply spec pod) k = anno pod k)"
  by (simp add: ParseVMSpec_Apply VMSpec_merge_fresh VMSpec_Apply_frame)

theorem vmspec_merged_witness:
  "anno (VMSpec_Apply (ParseVMSpec exPod) exPod) AnnotationIP = anno exPod AnnotationIP"
  using vmspec_merged [of "ParseVMSpec exPod" exPod AnnotationIP] by (simp add: vmSpecKeys_def)

text \<open>
  C29. Four writers share the annotations of a pod. Applying any one of them leaves the values the readers of the other three see, so that the operator and the node agent can write theirs in any order.
\<close>

theorem contracts_independent:
  "ParseVMRuntime (VMSpec_Apply spec pod) = ParseVMRuntime pod \<and>
   ReadLifecycleStatus (VMSpec_Apply spec pod) = ReadLifecycleStatus pod \<and>
   ReadHibernateState (VMSpec_Apply spec pod) = ReadHibernateState pod \<and>
   ParseVMSpec (VMRuntime_Apply rt pod) = ParseVMSpec pod \<and>
   ReadLifecycleStatus (VMRuntime_Apply rt pod) = ReadLifecycleStatus pod \<and>
   ReadHibernateState (VMRuntime_Apply rt pod) = ReadHibernateState pod \<and>
   ParseVMSpec (LifecycleStatus_Apply ls pod) = ParseVMSpec pod \<and>
   ParseVMRuntime (LifecycleStatus_Apply ls pod) = ParseVMRuntime pod \<and>
   ReadHibernateState (LifecycleStatus_Apply ls pod) = ReadHibernateState pod \<and>
   ParseVMSpec (HibernateState_Apply b pod) = ParseVMSpec pod \<and>
   ParseVMRuntime (HibernateState_Apply b pod) = ParseVMRuntime pod \<and>
   ReadLifecycleStatus (HibernateState_Apply b pod) = ReadLifecycleStatus pod"
  unfolding ParseVMSpec_def ParseVMRuntime_def ReadLifecycleStatus_def ReadHibernateState_def
    ReadLifecycleObservedGeneration_def readInt64Annotation_def
  by (intro conjI; simp add: contract_frames contract_keys)

text \<open>
  C30. Two ways to publish a lifecycle status agree. The JSON text of \<^verbatim>\<open>AnnotationsMergePatch\<close> over \<^verbatim>\<open>LifecycleStatus.Annotations\<close>, decoded and merged the way RFC 7386 prescribes into an object with the pod's annotations, leaves
  exactly the annotations that \<^verbatim>\<open>LifecycleStatus.Apply\<close> leaves, a stale message removed in both; and reading them gives the status back.
\<close>

theorem lifecycle_patch:
  assumes "valid_utf8 (ls_State s)" and "valid_utf8 (ls_Message s)" and "in_int64 (ls_ObservedGeneration s)"
  shows "Option.bind (json_unmarshal (AnnotationsMergePatch (Some (LifecycleStatus_Annotations s))))
      (\<lambda>patch. annotations_of (merge_patch (annotated (ensurePodAnnotations pod)) patch)) =
    Some (ensurePodAnnotations (LifecycleStatus_Apply s pod)) \<and>
    ReadLifecycleStatus (LifecycleStatus_Apply s pod) = s"
  using merge_patch_sent [OF LifecycleStatus_Annotations_text [OF assms(1,2)]] ReadLifecycleStatus_Apply [OF assms(3)]
  by (simp add: LifecycleStatus_patch)

theorem lifecycle_patch_witness:
  "ReadLifecycleStatus (LifecycleStatus_Apply
      \<lparr>ls_State = LifecycleStateReady, ls_ObservedGeneration = 7, ls_Message = []\<rparr> exPod) =
    \<lparr>ls_State = LifecycleStateReady, ls_ObservedGeneration = 7, ls_Message = []\<rparr>"
proof -
  have "valid_utf8 LifecycleStateReady" by (rule valid_utf8_ascii) (simp add: cp_def LifecycleStateReady_def)
  then show ?thesis
    using lifecycle_patch [of "\<lparr>ls_State = LifecycleStateReady, ls_ObservedGeneration = 7, ls_Message = []\<rparr>" exPod]
    by (simp add: in_int64_def)
qed

text \<open>
  C31. \<^verbatim>\<open>LifecycleStatus.Snapshot\<close> is a faithful key. Two statuses with states free of NUL have equal keys exactly when they are equal; the message may contain anything.
\<close>

theorem lifecycle_key:
  assumes "CHR 0x00 \<notin> set (ls_State s)" and "CHR 0x00 \<notin> set (ls_State t)"
    and "in_int64 (ls_ObservedGeneration s)" and "in_int64 (ls_ObservedGeneration t)"
  shows "LifecycleStatus_Snapshot s = LifecycleStatus_Snapshot t \<longleftrightarrow> s = t"
  using assms by (rule LifecycleStatus_Snapshot_eq)

theorem lifecycle_key_witness:
  "LifecycleStatus_Snapshot \<lparr>ls_State = ''ready'', ls_ObservedGeneration = 1, ls_Message = []\<rparr> \<noteq>
   LifecycleStatus_Snapshot \<lparr>ls_State = ''ready'', ls_ObservedGeneration = 1, ls_Message = [CHR 0x00]\<rparr>"
  using lifecycle_key [of "\<lparr>ls_State = ''ready'', ls_ObservedGeneration = 1, ls_Message = []\<rparr>"
      "\<lparr>ls_State = ''ready'', ls_ObservedGeneration = 1, ls_Message = [CHR 0x00]\<rparr>"]
  by (simp add: in_int64_def)

text \<open>
  C32. A snapshot status travels as JSON in an annotation, inside the JSON of a merge patch. Merging the patch of \<^verbatim>\<open>SnapshotStatus.Annotations\<close> into a pod gives annotations from which \<^verbatim>\<open>ReadSnapshotStatus\<close> reads the status back.
\<close>

theorem snapshot_status_patched:
  assumes "wf_status s"
  shows "\<exists>a. Option.bind (json_unmarshal (AnnotationsMergePatch (Some (SnapshotStatus_Annotations s))))
      (\<lambda>patch. annotations_of (merge_patch (annotated (ensurePodAnnotations pod)) patch)) = Some a \<and>
    ReadSnapshotStatus (with_annotations pod a) = s"
proof -
  let ?a = "patch_annotations (SnapshotStatus_Annotations s) (ensurePodAnnotations pod)"
  have "anno (with_annotations pod ?a) AnnotationSnapshotStatus = json_marshal (enc_status s)"
    by (simp add: mget_def patch_annotations_lookup SnapshotStatus_Annotations_def patch_value_def)
  with merge_patch_sent [OF SnapshotStatus_Annotations_text] ReadSnapshotStatus_written [OF assms] show ?thesis by blast
qed

theorem snapshot_status_patched_witness:
  "\<exists>a. ReadSnapshotStatus (with_annotations exPod a) = \<lparr>ss_Ref = ''vm:1'', ss_State = SnapshotStatePushed, ss_Message = []\<rparr>"
proof -
  have "valid_utf8 ''vm:1''" "valid_utf8 SnapshotStatePushed"
    by (rule valid_utf8_ascii, simp add: cp_def SnapshotStatePushed_def)+
  then have "wf_status \<lparr>ss_Ref = ''vm:1'', ss_State = SnapshotStatePushed, ss_Message = []\<rparr>" by (simp add: wf_status_def)
  from snapshot_status_patched [OF this, of exPod] show ?thesis by blast
qed


section \<open>Names\<close>

text \<open>
  C34. Slots and names. For a slot that is not negative, \<^verbatim>\<open>ExtractAgentSlot\<close> gives it for exactly one name, the one \<^verbatim>\<open>VMNameForDeployment\<close> makes of it; for a name that belongs to no slot it gives -1.
\<close>

theorem agent_slot:
  "ExtractAgentSlot ns cs vmName = n \<longleftrightarrow>
     (0 \<le> n \<and> in_int64 n \<and> vmName = VMNameForDeployment ns cs n) \<or>
     (n = - 1 \<and> (\<nexists>k. 0 \<le> k \<and> in_int64 k \<and> vmName = VMNameForDeployment ns cs k))"
  using ExtractAgentSlot_iff [of _ ns cs vmName] ExtractAgentSlot_Some [of ns cs vmName] by fastforce


text \<open>
  C36. From a valid spec to annotations: \<^verbatim>\<open>FromAgentSpec\<close> of an agent that the API server accepts gives a \<^verbatim>\<open>VMSpec\<close> whose mode, operating system, backend and snapshot policy are recognized values, never empty, and which is managed.
\<close>

theorem spec_defaults:
  assumes "validAgentSpec a" and "policy = [] \<or> SnapshotPolicy_IsValid policy"
    and "spec = FromAgentSpec a vmName policy forkFrom"
  shows "AgentMode_IsValid (vs_Mode spec) \<and> OSType_IsValid (vs_OS spec) \<and> Backend_IsValid (vs_Backend spec) \<and>
    SnapshotPolicy_IsValid (vs_SnapshotPolicy spec) \<and> vs_Managed spec"
  using assms defaults_valid
  by (auto simp: validAgentSpec_def validVMOptions_def FromAgentSpec_def fromVMOptions_def)

theorem spec_defaults_witness:
  "AgentMode_IsValid (vs_Mode (FromAgentSpec exAgent ''vm'' [] []))"
  using spec_defaults [of exAgent "[]" "FromAgentSpec exAgent ''vm'' [] []"]
  by (simp add: validAgentSpec_def exAgent_def validVMOptions_def validPort_def)

section \<open>Servers\<close>



text \<open>
  C38. \<^verbatim>\<open>httpx.Run\<close> comes down. Suppose \<^verbatim>\<open>Start\<close> returns once \<^verbatim>\<open>Shutdown\<close> was called on its server, and \<^verbatim>\<open>Shutdown\<close> returns (both as \<^verbatim>\<open>net/http\<close> documents). Then from every reachable state in which the context is canceled or some \<^verbatim>\<open>Start\<close> has failed,
  the goroutines can run on until \<^verbatim>\<open>Run\<close> has returned, and there is no infinite run: a bind error at startup does not hang.
\<close>

theorem run_returns:
  assumes "\<And>i. \<exists>r. starts i True r" and "\<And>i. \<exists>r. shuts i r"
    and "Run_reach starts shuts ctxDone n s" and "canceled s"
  shows "(\<exists>s' es. (Run_step starts shuts)\<^sup>*\<^sup>* s s' \<and> ru_phase s' = RunReturned es) \<and>
    \<not> (\<exists>f. f 0 = s \<and> (\<forall>i :: nat. Run_step starts shuts (f i) (f (Suc i))))"
  using Run_ends [of starts shuts s] assms Run_reach_inv [OF assms(3)] Run_no_infinite_run [of starts shuts] by blast

theorem run_returns_witness:
  "\<exists>s' es. (Run_step (\<lambda>_ c r. c \<and> r = Some ErrServerClosed) (\<lambda>_ r. r = None))\<^sup>*\<^sup>* (Run_init True 2) s' \<and>
    ru_phase s' = RunReturned es"
  using run_returns [of "\<lambda>_ c r. c \<and> r = Some ErrServerClosed" "\<lambda>_ r. r = None" True 2 "Run_init True 2"]
  by (auto simp: Run_reach_def canceled_def Run_init_def)

section \<open>Kubernetes helpers\<close>





end
